(* ===== verification/Prelude.thy ===== *)
theory Prelude
  imports Main "HOL-Library.Word" "HOL-Library.Monad_Syntax"
begin

unbundle bit_operations_syntax

text \<open>
  Shared vocabulary of the development: the machine integer types of the C code, the
  little- and big-endian loads and stores of \<open>libsodium/include/sodium/private/common.h\<close>,
  the exclusive-or of byte buffers, and the generic list and word lemmas the components use.

  A buffer (\<open>unsigned char *\<close> with a length) is a list of bytes; a function that writes an
  output buffer returns its contents.  An operation of the C code that has undefined behaviour
  (a dangling pointer, a null pointer, an access out of bounds, a failed assertion) has no
  result: it is the value \<open>None\<close> of an \<open>option\<close>.
\<close>

type_synonym u8 = "8 word"
type_synonym u16 = "16 word"
type_synonym u32 = "32 word"
type_synonym u64 = "64 word"
type_synonym i32 = "32 word"
type_synonym bytes = "8 word list"

text \<open>
  How a function ends when it does not succeed: it aborts the process (\<open>sodium_misuse\<close>, a failed
  \<open>assert\<close>), it returns a non-zero status, or its behaviour is undefined.
\<close>

datatype fault = Abort | Ret "32 word" | Undef

type_synonym 'a result = "fault + 'a"

text \<open>Sequencing: go on with the value, or end as the first part ended.\<close>

definition rbind :: "'a result \<Rightarrow> ('a \<Rightarrow> 'b result) \<Rightarrow> 'b result" where
  "rbind r f = (case r of Inl e \<Rightarrow> Inl e | Inr x \<Rightarrow> f x)"

text \<open>Go on only if the condition holds: an \<open>assert\<close> (\<open>Abort\<close>), an access in bounds (\<open>Undef\<close>).\<close>

definition require :: "bool \<Rightarrow> fault \<Rightarrow> 'a result \<Rightarrow> 'a result" where
  "require b e r = (if b then r else Inl e)"

text \<open>\<open>if (f() != 0) return -1;\<close>\<close>

definition fail_minus1 :: "fault \<Rightarrow> fault" where
  "fail_minus1 e = (case e of Ret _ \<Rightarrow> Ret (- 1) | _ \<Rightarrow> e)"

lemma rbind_simps [simp]: "rbind (Inl e) f = Inl e" "rbind (Inr x) f = f x"
  by (simp_all add: rbind_def)

lemma require_simps [simp]: "require True e r = r" "require False e r = Inl e"
  by (simp_all add: require_def)

lemma rbind_Inr: "rbind r f = Inr y \<longleftrightarrow> (\<exists>x. r = Inr x \<and> f x = Inr y)"
  by (cases r) auto

lemma map_sum_Inr: "map_sum f g r = Inr x \<longleftrightarrow> (\<exists>y. r = Inr y \<and> x = g y)"
  by (cases r) auto

lemma require_Inr: "require b e r = Inr y \<longleftrightarrow> b \<and> r = Inr y"
  by (cases b) auto

named_theorems len_simps \<open>lengths of the byte lists that the encoders produce\<close>
named_theorems codec_simps \<open>round trips of loads and stores\<close>

section \<open>Loads, stores and rotations (private/common.h)\<close>

definition rotl32 :: "u32 \<Rightarrow> nat \<Rightarrow> u32" where
  "rotl32 x b = push_bit b x OR drop_bit (32 - b) x"

definition rotr32 :: "u32 \<Rightarrow> nat \<Rightarrow> u32" where
  "rotr32 x b = drop_bit b x OR push_bit (32 - b) x"

definition rotr64 :: "u64 \<Rightarrow> nat \<Rightarrow> u64" where
  "rotr64 x b = drop_bit b x OR push_bit (64 - b) x"

definition load32_le :: "bytes \<Rightarrow> u32" where
  "load32_le src =
     ucast (src ! 0) OR push_bit 8 (ucast (src ! 1)) OR push_bit 16 (ucast (src ! 2))
       OR push_bit 24 (ucast (src ! 3))"

definition store32_le :: "u32 \<Rightarrow> bytes" where
  "store32_le w =
     [ucast w, ucast (drop_bit 8 w), ucast (drop_bit 16 w), ucast (drop_bit 24 w)]"

definition load64_le :: "bytes \<Rightarrow> u64" where
  "load64_le src =
     ucast (src ! 0) OR push_bit 8 (ucast (src ! 1)) OR push_bit 16 (ucast (src ! 2))
       OR push_bit 24 (ucast (src ! 3)) OR push_bit 32 (ucast (src ! 4))
       OR push_bit 40 (ucast (src ! 5)) OR push_bit 48 (ucast (src ! 6))
       OR push_bit 56 (ucast (src ! 7))"

definition store64_le :: "u64 \<Rightarrow> bytes" where
  "store64_le w =
     [ucast w, ucast (drop_bit 8 w), ucast (drop_bit 16 w), ucast (drop_bit 24 w),
      ucast (drop_bit 32 w), ucast (drop_bit 40 w), ucast (drop_bit 48 w),
      ucast (drop_bit 56 w)]"

definition load32_be :: "bytes \<Rightarrow> u32" where
  "load32_be src =
     ucast (src ! 3) OR push_bit 8 (ucast (src ! 2)) OR push_bit 16 (ucast (src ! 1))
       OR push_bit 24 (ucast (src ! 0))"

definition load64_be :: "bytes \<Rightarrow> u64" where
  "load64_be src =
     ucast (src ! 7) OR push_bit 8 (ucast (src ! 6)) OR push_bit 16 (ucast (src ! 5))
       OR push_bit 24 (ucast (src ! 4)) OR push_bit 32 (ucast (src ! 3))
       OR push_bit 40 (ucast (src ! 2)) OR push_bit 48 (ucast (src ! 1))
       OR push_bit 56 (ucast (src ! 0))"

definition store32_be :: "u32 \<Rightarrow> bytes" where
  "store32_be w =
     [ucast (drop_bit 24 w), ucast (drop_bit 16 w), ucast (drop_bit 8 w), ucast w]"

definition store64_be :: "u64 \<Rightarrow> bytes" where
  "store64_be w =
     [ucast (drop_bit 56 w), ucast (drop_bit 48 w), ucast (drop_bit 40 w),
      ucast (drop_bit 32 w), ucast (drop_bit 24 w), ucast (drop_bit 16 w),
      ucast (drop_bit 8 w), ucast w]"

text \<open>A 16-bit little-endian field, as the compiler lays it out on the supported targets.\<close>

definition load16_le :: "bytes \<Rightarrow> u16" where
  "load16_le src = ucast (src ! 0) OR push_bit 8 (ucast (src ! 1))"

definition store16_le :: "u16 \<Rightarrow> bytes" where
  "store16_le w = [ucast w, ucast (drop_bit 8 w)]"

lemma length_store [len_simps, simp]:
  "length (store16_le x) = 2" "length (store32_le w) = 4" "length (store64_le v) = 8"
  "length (store32_be w) = 4" "length (store64_be v) = 8"
  by (simp_all add: store16_le_def store32_le_def store64_le_def store32_be_def store64_be_def)

text \<open>A bit position of a word of n bytes is a byte number and a position in that byte.\<close>

lemma byte_split:
  assumes "(n::nat) < 8 * k"
  obtains q r where "n = 8 * q + r" "r < 8" "q < k"
proof
  show "n = 8 * (n div 8) + n mod 8" by simp
  show "n mod 8 < 8" by simp
  show "n div 8 < k" using assms by (simp add: less_mult_imp_div_less mult.commute)
qed

lemma less_8_cases:
  "(q::nat) < 8 \<Longrightarrow> q = 0 \<or> q = 1 \<or> q = 2 \<or> q = 3 \<or> q = 4 \<or> q = 5 \<or> q = 6 \<or> q = 7"
  by auto

lemma less_4_cases: "(q::nat) < 4 \<Longrightarrow> q = 0 \<or> q = 1 \<or> q = 2 \<or> q = 3"
  by auto

lemma load_store16_le [codec_simps, simp]: "load16_le (store16_le w @ xs) = w"
  by (rule bit_word_eqI) (auto simp: load16_le_def store16_le_def bit_simps)

lemma load_store32_le [codec_simps, simp]: "load32_le (store32_le w @ xs) = w"
proof (rule bit_word_eqI)
  fix n assume "n < LENGTH(32)"
  then obtain q r where n: "n = 8 * q + r" "r < 8" "q < 4" by (auto intro: byte_split [of n 4])
  show "bit (load32_le (store32_le w @ xs)) n = bit w n"
    using less_4_cases [OF n(3)] n(1,2)
    by (elim disjE) (simp_all add: load32_le_def store32_le_def bit_simps add.commute)
qed

lemma load_store64_le [codec_simps, simp]: "load64_le (store64_le w @ xs) = w"
proof (rule bit_word_eqI)
  fix n assume "n < LENGTH(64)"
  then obtain q r where n: "n = 8 * q + r" "r < 8" "q < 8" by (auto intro: byte_split [of n 8])
  show "bit (load64_le (store64_le w @ xs)) n = bit w n"
    using less_8_cases [OF n(3)] n(1,2)
    by (elim disjE) (simp_all add: load64_le_def store64_le_def bit_simps add.commute)
qed

lemma load_store32_be [codec_simps, simp]: "load32_be (store32_be w @ xs) = w"
proof (rule bit_word_eqI)
  fix n assume "n < LENGTH(32)"
  then obtain q r where n: "n = 8 * q + r" "r < 8" "q < 4" by (auto intro: byte_split [of n 4])
  show "bit (load32_be (store32_be w @ xs)) n = bit w n"
    using less_4_cases [OF n(3)] n(1,2)
    by (elim disjE) (simp_all add: load32_be_def store32_be_def bit_simps add.commute)
qed

text \<open>The other direction: storing what was loaded gives the bytes back.\<close>

lemma bit_byte_beyond [simp]: "8 \<le> n \<Longrightarrow> \<not> bit (b :: u8) n"
  by (auto dest: bit_imp_le_length)

lemma length_2_conv: "length xs = 2 \<longleftrightarrow> (\<exists>a b. xs = [a, b])"
  by (auto simp: eval_nat_numeral length_Suc_conv)

lemma length_4_conv: "length xs = 4 \<longleftrightarrow> (\<exists>a b c d. xs = [a, b, c, d])"
  by (auto simp: eval_nat_numeral length_Suc_conv)

lemma length_8_conv: "length xs = 8 \<longleftrightarrow> (\<exists>a b c d e f g h. xs = [a, b, c, d, e, f, g, h])"
  by (auto simp: eval_nat_numeral length_Suc_conv)

lemma store_load16_le [codec_simps]: "length bs = 2 \<Longrightarrow> store16_le (load16_le bs) = bs"
  by (auto simp: length_2_conv store16_le_def load16_le_def bit_simps
      intro!: bit_word_eqI)

lemma store_load32_le [codec_simps]: "length bs = 4 \<Longrightarrow> store32_le (load32_le bs) = bs"
  by (auto simp: length_4_conv store32_le_def load32_le_def bit_simps
      intro!: bit_word_eqI)

lemma store_load64_le [codec_simps]: "length bs = 8 \<Longrightarrow> store64_le (load64_le bs) = bs"
  by (auto simp: length_8_conv store64_le_def load64_le_def bit_simps
      intro!: bit_word_eqI)

section \<open>Exclusive-or of buffers\<close>

definition xor_buf :: "bytes \<Rightarrow> bytes \<Rightarrow> bytes" where
  "xor_buf out inp = map2 (\<lambda>a b. a XOR b) out inp"

lemma length_xor_buf [len_simps, simp]: "length (xor_buf a b) = min (length a) (length b)"
  by (simp add: xor_buf_def)

lemma xor_buf_Nil [simp]: "xor_buf [] b = []" "xor_buf a [] = []"
  by (simp_all add: xor_buf_def)

lemma xor_buf_Cons [simp]: "xor_buf (x # a) (y # b) = (x XOR y) # xor_buf a b"
  by (simp add: xor_buf_def)

lemma xor_word_cancel [simp]: "(x XOR y) XOR y = (x :: 'a::len word)"
  by (simp add: xor.assoc)

lemma xor_buf_cancel:
  "length a \<le> length b \<Longrightarrow> xor_buf (xor_buf a b) b = a"
  by (induction a arbitrary: b) (auto simp: Suc_le_length_iff)

lemma xor_buf_append:
  "length a = length c \<Longrightarrow> xor_buf (a @ b) (c @ d) = xor_buf a c @ xor_buf b d"
  by (simp add: xor_buf_def)

lemma take_xor_buf: "take n (xor_buf a b) = xor_buf (take n a) (take n b)"
  by (simp add: xor_buf_def take_map take_zip)

lemma drop_xor_buf: "drop n (xor_buf a b) = xor_buf (drop n a) (drop n b)"
  by (simp add: xor_buf_def drop_map drop_zip)

lemma nth_xor_buf [simp]:
  "i < length a \<Longrightarrow> i < length b \<Longrightarrow> xor_buf a b ! i = a ! i XOR b ! i"
  by (simp add: xor_buf_def)

lemma xor_buf_zeros: "xor_buf (replicate n 0) b = take n b"
  by (induction n arbitrary: b) (case_tac [2] b, auto)

lemma xor_buf_take_left: "xor_buf a b = xor_buf a (take (length a) b)"
  by (induction a arbitrary: b) (case_tac [2] b, auto)

section \<open>Little-endian numbers\<close>

text \<open>The number a byte string denotes, least significant byte first.\<close>

fun le_val :: "bytes \<Rightarrow> nat" where
  "le_val [] = 0"
| "le_val (b # bs) = unat b + 256 * le_val bs"

lemma unat_byte_less [simp]: "unat (b :: u8) < 256"
  using unsigned_less [of b, where ?'a = nat] by simp

lemma unat_byte_le: "unat (b :: u8) \<le> 255"
  using unat_byte_less [of b] by linarith

lemma le_val_append: "le_val (xs @ ys) = le_val xs + 256 ^ length xs * le_val ys"
  by (induction xs) (auto simp: algebra_simps)

lemma le_val_less: "le_val bs < 256 ^ length bs"
proof (induction bs)
  case (Cons b bs)
  have "unat b + 256 * le_val bs < 256 * (le_val bs + 1)" by simp
  also have "\<dots> \<le> 256 * 256 ^ length bs" using Cons.IH by (intro mult_le_mono) auto
  finally show ?case by simp
qed simp

lemma le_val_replicate_0 [simp]: "le_val (replicate n 0) = 0"
  by (induction n) auto

lemma le_val_inj:
  "length xs = length ys \<Longrightarrow> le_val xs = le_val ys \<Longrightarrow> xs = ys"
proof (induction xs arbitrary: ys)
  case (Cons x xs)
  then obtain y ys' where ys: "ys = y # ys'" by (cases ys) auto
  have eq: "unat x + 256 * le_val xs = unat y + 256 * le_val ys'"
    using Cons.prems(2) ys by simp
  have "unat x = unat y"
    using arg_cong [OF eq, of "\<lambda>n. n mod 256"] by simp
  moreover from this eq have "le_val xs = le_val ys'" by simp
  ultimately show ?case using Cons ys by (auto simp: word_eq_iff_unsigned [where ?'a = nat])
qed simp

lemma unat_ucast_byte:
  "8 \<le> LENGTH('a::len) \<Longrightarrow> unat (ucast (x :: u8) :: 'a word) = unat x"
proof -
  assume "8 \<le> LENGTH('a)"
  then have "(2::nat) ^ 8 \<le> 2 ^ LENGTH('a)" by (rule power_increasing) simp
  moreover have "unat x < 2 ^ 8" by simp
  ultimately have "unat x < 2 ^ LENGTH('a)" by (rule less_le_trans [rotated])
  then show ?thesis by (simp add: unsigned_ucast_eq take_bit_nat_eq_self_iff)
qed

lemma unat_ucast_32_64 [simp]: "unat (ucast (x :: u32) :: u64) = unat x"
proof -
  have "unat x < 2 ^ 32" using unsigned_less [of x, where ?'a = nat] by simp
  then show ?thesis by (simp add: unsigned_ucast_eq take_bit_nat_eq_self_iff)
qed

lemma uint_ucast_byte:
  "8 \<le> LENGTH('a::len) \<Longrightarrow> uint (ucast (x :: u8) :: 'a word) = uint x"
  using unat_ucast_byte [of x, where ?'a = 'a] by (simp only: uint_nat)

lemma le_val_split: "le_val bs = le_val (take n bs) + 256 ^ min (length bs) n * le_val (drop n bs)"
  using le_val_append [of "take n bs" "drop n bs"] by simp

lemma le_val_take: "le_val (take n bs) = le_val bs mod 256 ^ n"
proof (cases "n \<le> length bs")
  case True
  have "le_val (take n bs) < 256 ^ n" using le_val_less [of "take n bs"] True by simp
  then show ?thesis using le_val_split [of bs n] True by (simp add: min_absorb2)
next
  case False
  then have "le_val bs < 256 ^ n"
    by (intro less_le_trans [OF le_val_less power_increasing]) simp_all
  then show ?thesis using False by simp
qed

lemma le_val_drop: "le_val (drop n bs) = le_val bs div 256 ^ n"
proof (cases "n \<le> length bs")
  case True
  have "le_val (take n bs) < 256 ^ n" using le_val_less [of "take n bs"] True by simp
  then show ?thesis using le_val_split [of bs n] True by (simp add: min_absorb2)
next
  case False
  then have "le_val bs < 256 ^ n"
    by (intro less_le_trans [OF le_val_less power_increasing]) simp_all
  then show ?thesis using False by simp
qed

lemma le_val_store32_le: "le_val (store32_le w) = unat w"
proof -
  have d: "unat (ucast (drop_bit j w) :: u8) = unat w div 2 ^ j mod 256" for j
    by (simp only: unsigned_ucast_eq unat_drop_bit_eq)
      (simp add: take_bit_eq_mod drop_bit_eq_div)
  have m: "unat (ucast w :: u8) = unat w mod 256"
    by (simp add: unsigned_ucast_eq take_bit_eq_mod)
  have div: "x = x mod 256 + 256 * (x div 256)" for x :: nat by simp
  have "unat w < 2 ^ 32" using unsigned_less [of w, where ?'a = nat] by simp
  then have top: "unat w div 2 ^ 32 = 0" by simp
  have step: "unat w div 2 ^ j = unat w div 2 ^ j mod 256 + 256 * (unat w div 2 ^ (j + 8))" for j
    using div [of "unat w div 2 ^ j"] by (simp add: div_mult2_eq power_add)
  have "unat w = unat w mod 256 + 256 * (unat w div 2 ^ 8 mod 256 + 256 * (unat w div 2 ^ 16 mod 256 +
      256 * (unat w div 2 ^ 24 mod 256)))"
    using step [of 0] step [of 8] step [of 16] step [of 24] top by simp
  then show ?thesis unfolding store32_le_def le_val.simps d m by (simp only: mult_0_right add_0_right)
qed

lemma load32_le_take: "4 \<le> length bs \<Longrightarrow> load32_le (take 4 bs) = load32_le bs"
  by (simp add: load32_le_def)

lemma unat_load32_le:
  assumes "4 \<le> length bs"
  shows "unat (load32_le bs) = le_val (take 4 bs)"
proof -
  have "le_val (take 4 bs) = le_val (store32_le (load32_le (take 4 bs)))"
    using assms by (simp add: store_load32_le)
  then show ?thesis using assms by (simp only: le_val_store32_le load32_le_take)
qed

lemma unat_load32_le_drop:
  assumes "j + 4 \<le> length bs"
  shows "unat (load32_le (drop j bs)) = take_bit 32 (drop_bit (8 * j) (le_val bs))"
proof -
  have "unat (load32_le (drop j bs)) = le_val bs div 256 ^ j mod 256 ^ 4"
    using assms by (simp add: unat_load32_le le_val_take le_val_drop)
  moreover have "(256 :: nat) ^ j = 2 ^ (8 * j)" by (simp add: power_mult)
  moreover have "(256 :: nat) ^ 4 = 2 ^ 32" by simp
  ultimately show ?thesis by (simp only: take_bit_eq_mod drop_bit_eq_div)
qed

lemma length_concat_store32 [simp]: "length (concat (map store32_le ws)) = 4 * length ws"
  by (induction ws) auto

section \<open>Writing into a buffer\<close>

text \<open>\<open>memcpy(buf + i, xs, ...)\<close>: the bytes \<open>xs\<close> replace those of \<open>buf\<close> from \<open>i\<close> on.\<close>

definition write_at :: "bytes \<Rightarrow> nat \<Rightarrow> bytes \<Rightarrow> bytes" where
  "write_at buf i xs = take i buf @ xs @ drop (i + length xs) buf"

lemma length_write_at [len_simps, simp]:
  "i + length xs \<le> length buf \<Longrightarrow> length (write_at buf i xs) = length buf"
  by (simp add: write_at_def)

lemma take_write_at:
  "i + length xs \<le> length buf \<Longrightarrow> take (i + length xs) (write_at buf i xs) = take i buf @ xs"
  by (simp add: write_at_def)

section \<open>Cutting a message into blocks\<close>

definition whole :: "nat \<Rightarrow> 'a list \<Rightarrow> 'a list" where
  "whole b xs = take (b * (length xs div b)) xs"

definition rest :: "nat \<Rightarrow> 'a list \<Rightarrow> 'a list" where
  "rest b xs = drop (b * (length xs div b)) xs"

lemma whole_rest: "whole b xs @ rest b xs = xs"
  by (simp add: whole_def rest_def)

lemma length_rest [len_simps, simp]: "length (rest b xs) = length xs mod b"
  by (simp add: rest_def minus_mult_div_eq_mod)

lemma length_whole [len_simps, simp]: "length (whole b xs) = b * (length xs div b)"
  by (simp add: whole_def)

lemma whole_append: "length a = b * k \<Longrightarrow> 0 < b \<Longrightarrow> whole b (a @ xs) = a @ whole b xs"
  by (simp add: whole_def div_add1_eq add_mult_distrib2)

lemma rest_append: "length a = b * k \<Longrightarrow> 0 < b \<Longrightarrow> rest b (a @ xs) = rest b xs"
  by (simp add: rest_def div_add1_eq add_mult_distrib2)

lemma whole_short [simp]: "length xs < b \<Longrightarrow> whole b xs = []"
  by (simp add: whole_def)

lemma rest_short [simp]: "length xs < b \<Longrightarrow> rest b xs = xs"
  by (simp add: rest_def)

lemma whole_multiple: "length xs = b * k \<Longrightarrow> whole b xs = xs"
  by (cases "b = 0") (simp_all add: whole_def)

lemma rest_multiple: "length xs = b * k \<Longrightarrow> rest b xs = []"
  by (cases "b = 0") (simp_all add: rest_def)

lemma whole_append_rest: "0 < b \<Longrightarrow> whole b (xs @ ys) = whole b xs @ whole b (rest b xs @ ys)"
  by (metis append_assoc length_whole whole_append whole_rest)

lemma rest_append_rest: "0 < b \<Longrightarrow> rest b (xs @ ys) = rest b (rest b xs @ ys)"
  by (metis append_assoc length_whole rest_append whole_rest)

end
