(* ===== verification/QueueSpec.thy ===== *)
theory QueueSpec
  imports Prelude
begin

text \<open>
  The interface of an intrusive queue: nodes are addresses in a store, the queue is named by the
  address of its head, and every operation may fail (\<open>None\<close>) when it meets a dangling pointer.
  The broker's send queues and the stream's operation list are clients of it; the providers are
  \<open>MFList\<close> (mflist.c) and \<open>StreamOp\<close> (mfstreamop-impl.cpp).
\<close>

section \<open>Clients of a queue, over its operations\<close>

text \<open>Append several nodes, one after the other.\<close>

fun push_all :: "('s \<Rightarrow> 'a \<Rightarrow> 'a \<Rightarrow> 's option) \<Rightarrow> 's \<Rightarrow> 'a \<Rightarrow> 'a list \<Rightarrow> 's option" where
  "push_all enq s h [] = Some s"
| "push_all enq s h (e # es) =
     (case enq s h e of None \<Rightarrow> None | Some s' \<Rightarrow> push_all enq s' h es)"

text \<open>
  The loop \<open>while (!empty) { e = first; remove(e); ... }\<close>, with fuel: the nodes in the order in
  which they leave the queue, and the store afterwards.
\<close>

fun drain :: "('s \<Rightarrow> 'a \<Rightarrow> bool option) \<Rightarrow> ('s \<Rightarrow> 'a \<Rightarrow> ('a \<times> 's) option) \<Rightarrow> nat \<Rightarrow> 's \<Rightarrow> 'a \<Rightarrow>
    ('a list \<times> 's) option" where
  "drain emp deq 0 s h = None"
| "drain emp deq (Suc n) s h =
     (case emp s h of
        None \<Rightarrow> None
      | Some True \<Rightarrow> Some ([], s)
      | Some False \<Rightarrow>
          (case deq s h of
             None \<Rightarrow> None
           | Some (e, s') \<Rightarrow>
               (case drain emp deq n s' h of
                  None \<Rightarrow> None
                | Some (es, s'') \<Rightarrow> Some (e # es, s''))))"

section \<open>The contract\<close>

locale intrusive_queue =
  fixes repr :: "'s \<Rightarrow> 'a \<Rightarrow> 'a list \<Rightarrow> bool"
    and live :: "'s \<Rightarrow> 'a \<Rightarrow> bool"
    and emp :: "'s \<Rightarrow> 'a \<Rightarrow> bool option"
    and enq :: "'s \<Rightarrow> 'a \<Rightarrow> 'a \<Rightarrow> 's option"
    and deq :: "'s \<Rightarrow> 'a \<Rightarrow> ('a \<times> 's) option"
  assumes repr_distinct: "repr s h xs \<Longrightarrow> distinct (h # xs)"
    and emp_repr: "repr s h xs \<Longrightarrow> emp s h = Some (xs = [])"
    and enq_repr: "repr s h xs \<Longrightarrow> e \<notin> set (h # xs) \<Longrightarrow> live s e \<Longrightarrow>
      \<exists>s'. enq s h e = Some s' \<and> repr s' h (xs @ [e]) \<and> (\<forall>a. live s' a \<longleftrightarrow> live s a)"
    and deq_repr: "repr s h (x # xs) \<Longrightarrow>
      \<exists>s'. deq s h = Some (x, s') \<and> repr s' h xs \<and> (\<forall>a. live s' a \<longleftrightarrow> live s a)"
    and enq_frame: "repr s h xs \<Longrightarrow> e \<notin> set (h # xs) \<Longrightarrow> repr s h2 ys \<Longrightarrow>
      set (h2 # ys) \<inter> set (e # h # xs) = {} \<Longrightarrow> enq s h e = Some s' \<Longrightarrow> repr s' h2 ys"
    and deq_frame: "repr s h (x # xs) \<Longrightarrow> repr s h2 ys \<Longrightarrow>
      set (h2 # ys) \<inter> set (h # x # xs) = {} \<Longrightarrow> deq s h = Some (y, s') \<Longrightarrow> repr s' h2 ys"
begin

lemma push_all_repr:
  "repr s h xs \<Longrightarrow> distinct es \<Longrightarrow> set es \<inter> set (h # xs) = {} \<Longrightarrow> \<forall>e \<in> set es. live s e \<Longrightarrow>
   \<exists>s'. push_all enq s h es = Some s' \<and> repr s' h (xs @ es)"
proof (induction es arbitrary: s xs)
  case Nil
  then show ?case by simp
next
  case (Cons e es)
  then obtain s' where s': "enq s h e = Some s'" "repr s' h (xs @ [e])" "\<forall>a. live s' a \<longleftrightarrow> live s a"
    using enq_repr [of s h xs e] by auto
  have "\<exists>s''. push_all enq s' h es = Some s'' \<and> repr s'' h ((xs @ [e]) @ es)"
    using Cons.prems s' by (intro Cons.IH) auto
  then show ?case using s'(1) by simp
qed

lemma drain_repr:
  "repr s h xs \<Longrightarrow> length xs < n \<Longrightarrow> \<exists>s'. drain emp deq n s h = Some (xs, s') \<and> repr s' h []"
proof (induction xs arbitrary: s n)
  case Nil
  then obtain m where "n = Suc m" by (cases n) auto
  then show ?case using Nil emp_repr by auto
next
  case (Cons x xs)
  then obtain m where n: "n = Suc m" "length xs < m" by (cases n) auto
  obtain s' where s': "deq s h = Some (x, s')" "repr s' h xs"
    using deq_repr [OF Cons.prems(1)] by auto
  obtain s'' where "drain emp deq m s' h = Some (xs, s'')" "repr s'' h []"
    using Cons.IH [OF s'(2) n(2)] by auto
  then show ?case using n(1) s'(1) emp_repr [OF Cons.prems(1)] by simp
qed

text \<open>First in, first out: what is pushed comes out in the order it was pushed, once.\<close>

lemma fifo:
  assumes "repr s h xs" "distinct es" "set es \<inter> set (h # xs) = {}" "\<forall>e \<in> set es. live s e"
    and "length xs + length es < n"
  shows "\<exists>s1 s2. push_all enq s h es = Some s1 \<and> drain emp deq n s1 h = Some (xs @ es, s2) \<and>
    repr s2 h []"
proof -
  obtain s1 where s1: "push_all enq s h es = Some s1" "repr s1 h (xs @ es)"
    using push_all_repr [OF assms(1-4)] by auto
  with drain_repr [OF s1(2), of n] assms(5) show ?thesis by auto
qed

end

end
