(* ===== verification/MFList.thy ===== *)
theory MFList
  imports QueueSpec
begin

text \<open>
  The circular doubly linked list of \<open>mflist/mflist.c\<close>, over an explicit store of list entries:
  \<open>links\<close> maps an address to the \<open>MF_LIST_ENTRY\<close> that lives there, and has no value at an address
  that holds none, so that following a dangling pointer has no result.
\<close>

section \<open>Entries and the store\<close>

type_synonym addr = nat

record MF_LIST_ENTRY =
  Next :: addr
  Prev :: addr

type_synonym links = "addr \<rightharpoonup> MF_LIST_ENTRY"

text \<open>Reading and writing \<open>p->Next\<close> and \<open>p->Prev\<close>.\<close>

definition get_next :: "links \<Rightarrow> addr \<Rightarrow> addr option" where
  "get_next s p = map_option Next (s p)"

definition get_prev :: "links \<Rightarrow> addr \<Rightarrow> addr option" where
  "get_prev s p = map_option Prev (s p)"

definition set_next :: "links \<Rightarrow> addr \<Rightarrow> addr \<Rightarrow> links option" where
  "set_next s p v = map_option (\<lambda>e. s(p \<mapsto> e\<lparr>Next := v\<rparr>)) (s p)"

definition set_prev :: "links \<Rightarrow> addr \<Rightarrow> addr \<Rightarrow> links option" where
  "set_prev s p v = map_option (\<lambda>e. s(p \<mapsto> e\<lparr>Prev := v\<rparr>)) (s p)"

section \<open>The operations of mflist.c\<close>

definition MFList_Init :: "links \<Rightarrow> addr \<Rightarrow> links option" where
  "MFList_Init s ListHead =
     do {
       s1 \<leftarrow> set_next s ListHead ListHead;
       set_prev s1 ListHead ListHead
     }"

definition MFList_Empty :: "links \<Rightarrow> addr \<Rightarrow> bool option" where
  "MFList_Empty s ListHead =
     do {
       n \<leftarrow> get_next s ListHead;
       p \<leftarrow> get_prev s ListHead;
       Some (n = ListHead \<and> p = n)
     }"

definition MFList_InsertTail :: "links \<Rightarrow> addr \<Rightarrow> addr \<Rightarrow> links option" where
  "MFList_InsertTail s ListHead Entry =
     do {
       s1 \<leftarrow> set_next s Entry ListHead;
       p \<leftarrow> get_prev s1 ListHead;
       s2 \<leftarrow> set_prev s1 Entry p;
       p' \<leftarrow> get_prev s2 ListHead;
       s3 \<leftarrow> set_next s2 p' Entry;
       set_prev s3 ListHead Entry
     }"

definition MFList_InsertHead :: "links \<Rightarrow> addr \<Rightarrow> addr \<Rightarrow> links option" where
  "MFList_InsertHead s ListHead Entry =
     do {
       s1 \<leftarrow> set_prev s Entry ListHead;
       n \<leftarrow> get_next s1 ListHead;
       s2 \<leftarrow> set_next s1 Entry n;
       n' \<leftarrow> get_next s2 ListHead;
       s3 \<leftarrow> set_prev s2 n' Entry;
       set_next s3 ListHead Entry
     }"

definition MFList_Remove :: "links \<Rightarrow> addr \<Rightarrow> links option" where
  "MFList_Remove s Entry =
     do {
       n \<leftarrow> get_next s Entry;
       p \<leftarrow> get_prev s Entry;
       s1 \<leftarrow> set_prev s n p;
       p' \<leftarrow> get_prev s1 Entry;
       n' \<leftarrow> get_next s1 Entry;
       s2 \<leftarrow> set_next s1 p' n';
       MFList_Init s2 Entry
     }"

section \<open>What a well-formed list is\<close>

text \<open>\<open>a\<close> and \<open>b\<close> are neighbours: \<open>a->Next == b\<close> and \<open>b->Prev == a\<close>.\<close>

definition linked :: "links \<Rightarrow> addr \<Rightarrow> addr \<Rightarrow> bool" where
  "linked s a b \<longleftrightarrow> get_next s a = Some b \<and> get_prev s b = Some a"

text \<open>A chain of neighbours from \<open>a\<close> through the entries \<open>xs\<close> to \<open>b\<close>.\<close>

fun dseg :: "links \<Rightarrow> addr \<Rightarrow> addr list \<Rightarrow> addr \<Rightarrow> bool" where
  "dseg s a [] b = linked s a b"
| "dseg s a (x # xs) b = (linked s a x \<and> dseg s x xs b)"

text \<open>The list with head \<open>h\<close> holds the entries \<open>xs\<close>, in this order.\<close>

definition dlist :: "links \<Rightarrow> addr \<Rightarrow> addr list \<Rightarrow> bool" where
  "dlist s h xs \<longleftrightarrow> distinct (h # xs) \<and> dseg s h xs h"

subsection \<open>Segments\<close>

lemma dseg_append: "dseg s a (xs @ y # ys) b \<longleftrightarrow> dseg s a xs y \<and> dseg s y ys b"
  by (induction xs arbitrary: a) auto

lemma dseg_cong:
  assumes "\<And>p. p \<in> set (a # xs) \<Longrightarrow> get_next s' p = get_next s p"
    and "\<And>p. p \<in> set (b # xs) \<Longrightarrow> get_prev s' p = get_prev s p"
  shows "dseg s' a xs b = dseg s a xs b"
  using assms
proof (induction xs arbitrary: a)
  case Nil
  then show ?case by (simp add: linked_def)
next
  case (Cons x xs)
  have "dseg s' x xs b = dseg s x xs b"
    using Cons.prems by (intro Cons.IH) auto
  moreover have "linked s' a x = linked s a x"
    using Cons.prems by (simp add: linked_def)
  ultimately show ?case by simp
qed

lemma dseg_live: "dseg s a xs b \<Longrightarrow> p \<in> set (a # b # xs) \<Longrightarrow> p \<in> dom s"
  by (induction xs arbitrary: a) (auto simp: linked_def get_next_def get_prev_def)

lemma dlist_live: "dlist s h xs \<Longrightarrow> p \<in> set (h # xs) \<Longrightarrow> p \<in> dom s"
  by (auto simp: dlist_def dest: dseg_live)

text \<open>Only the entries of a list matter to it.\<close>

lemma dlist_frame:
  assumes "dlist s h xs" and "\<And>p. p \<in> set (h # xs) \<Longrightarrow> s' p = s p"
  shows "dlist s' h xs"
proof -
  have "dseg s' h xs h = dseg s h xs h"
    using assms(2) by (intro dseg_cong) (auto simp: get_next_def get_prev_def)
  with assms(1) show ?thesis by (simp add: dlist_def)
qed

lemma dlist_first: "dlist s h (x # xs) \<Longrightarrow> get_next s h = Some x"
  by (simp add: dlist_def linked_def)

lemma dlist_last: "dlist s h (xs @ [x]) \<Longrightarrow> get_prev s h = Some x"
  by (simp add: dlist_def dseg_append linked_def)

lemma dlist_nil: "dlist s h [] \<longleftrightarrow> get_next s h = Some h \<and> get_prev s h = Some h"
  by (simp add: dlist_def linked_def)

lemma dlist_next:
  "dlist s h (xs @ x # ys) \<Longrightarrow> get_next s x = Some (case ys of [] \<Rightarrow> h | y # _ \<Rightarrow> y)"
  by (cases ys) (auto simp: dlist_def dseg_append linked_def)

lemma dlist_prev:
  "dlist s h (xs @ x # ys) \<Longrightarrow> get_prev s x = Some (case rev xs of [] \<Rightarrow> h | y # _ \<Rightarrow> y)"
  by (cases xs rule: rev_cases) (auto simp: dlist_def dseg_append linked_def)

subsection \<open>The effect of each operation on the two pointer fields\<close>

lemma set_next_effect:
  "p \<in> dom s \<Longrightarrow> \<exists>s'. set_next s p v = Some s' \<and> get_next s' = (get_next s)(p \<mapsto> v) \<and>
     get_prev s' = get_prev s \<and> dom s' = dom s \<and> (\<forall>q. q \<noteq> p \<longrightarrow> s' q = s q)"
  by (rule exI [of _ "s(p \<mapsto> (the (s p))\<lparr>Next := v\<rparr>)"])
    (auto simp: set_next_def get_next_def get_prev_def fun_eq_iff)

lemma set_prev_effect:
  "p \<in> dom s \<Longrightarrow> \<exists>s'. set_prev s p v = Some s' \<and> get_prev s' = (get_prev s)(p \<mapsto> v) \<and>
     get_next s' = get_next s \<and> dom s' = dom s \<and> (\<forall>q. q \<noteq> p \<longrightarrow> s' q = s q)"
  by (rule exI [of _ "s(p \<mapsto> (the (s p))\<lparr>Prev := v\<rparr>)"])
    (auto simp: set_prev_def get_next_def get_prev_def fun_eq_iff)

lemma MFList_Init_effect:
  assumes "p \<in> dom s"
  shows "\<exists>s'. MFList_Init s p = Some s' \<and> get_next s' = (get_next s)(p \<mapsto> p) \<and>
     get_prev s' = (get_prev s)(p \<mapsto> p) \<and> dom s' = dom s \<and> (\<forall>q. q \<noteq> p \<longrightarrow> s' q = s q)"
proof -
  obtain s1 where s1: "set_next s p p = Some s1" "get_next s1 = (get_next s)(p \<mapsto> p)"
    "get_prev s1 = get_prev s" "dom s1 = dom s" "\<forall>q. q \<noteq> p \<longrightarrow> s1 q = s q"
    using set_next_effect [OF assms] by blast
  obtain s2 where "set_prev s1 p p = Some s2" "get_prev s2 = (get_prev s1)(p \<mapsto> p)"
    "get_next s2 = get_next s1" "dom s2 = dom s1" "\<forall>q. q \<noteq> p \<longrightarrow> s2 q = s1 q"
    using set_prev_effect [of p s1] assms s1(4) by blast
  with s1 show ?thesis by (auto simp: MFList_Init_def)
qed

lemma MFList_InsertTail_effect:
  assumes "e \<in> dom s" "h \<in> dom s" "l \<in> dom s" "get_prev s h = Some l" "e \<noteq> h" "e \<noteq> l"
  shows "\<exists>s'. MFList_InsertTail s h e = Some s' \<and>
     get_next s' = (get_next s)(e \<mapsto> h, l \<mapsto> e) \<and> get_prev s' = (get_prev s)(e \<mapsto> l, h \<mapsto> e) \<and>
     dom s' = dom s \<and> (\<forall>q. q \<notin> {e, h, l} \<longrightarrow> s' q = s q)"
proof -
  obtain s1 where s1: "set_next s e h = Some s1" "get_next s1 = (get_next s)(e \<mapsto> h)"
    "get_prev s1 = get_prev s" "dom s1 = dom s" "\<forall>q. q \<noteq> e \<longrightarrow> s1 q = s q"
    using set_next_effect [OF assms(1)] by blast
  obtain s2 where s2: "set_prev s1 e l = Some s2" "get_prev s2 = (get_prev s1)(e \<mapsto> l)"
    "get_next s2 = get_next s1" "dom s2 = dom s1" "\<forall>q. q \<noteq> e \<longrightarrow> s2 q = s1 q"
    using set_prev_effect [of e s1] assms(1) s1(4) by blast
  obtain s3 where s3: "set_next s2 l e = Some s3" "get_next s3 = (get_next s2)(l \<mapsto> e)"
    "get_prev s3 = get_prev s2" "dom s3 = dom s2" "\<forall>q. q \<noteq> l \<longrightarrow> s3 q = s2 q"
    using set_next_effect [of l s2] assms(3) s1(4) s2(4) by blast
  obtain s4 where s4: "set_prev s3 h e = Some s4" "get_prev s4 = (get_prev s3)(h \<mapsto> e)"
    "get_next s4 = get_next s3" "dom s4 = dom s3" "\<forall>q. q \<noteq> h \<longrightarrow> s4 q = s3 q"
    using set_prev_effect [of h s3] assms(2) s1(4) s2(4) s3(4) by blast
  have "get_prev s1 h = Some l" "get_prev s2 h = Some l"
    using assms s1(3) s2(2) by auto
  with s1 s2 s3 s4 show ?thesis by (auto simp: MFList_InsertTail_def)
qed

lemma MFList_InsertHead_effect:
  assumes "e \<in> dom s" "h \<in> dom s" "l \<in> dom s" "get_next s h = Some l" "e \<noteq> h" "e \<noteq> l"
  shows "\<exists>s'. MFList_InsertHead s h e = Some s' \<and>
     get_next s' = (get_next s)(e \<mapsto> l, h \<mapsto> e) \<and> get_prev s' = (get_prev s)(e \<mapsto> h, l \<mapsto> e) \<and>
     dom s' = dom s \<and> (\<forall>q. q \<notin> {e, h, l} \<longrightarrow> s' q = s q)"
proof -
  obtain s1 where s1: "set_prev s e h = Some s1" "get_prev s1 = (get_prev s)(e \<mapsto> h)"
    "get_next s1 = get_next s" "dom s1 = dom s" "\<forall>q. q \<noteq> e \<longrightarrow> s1 q = s q"
    using set_prev_effect [OF assms(1)] by blast
  obtain s2 where s2: "set_next s1 e l = Some s2" "get_next s2 = (get_next s1)(e \<mapsto> l)"
    "get_prev s2 = get_prev s1" "dom s2 = dom s1" "\<forall>q. q \<noteq> e \<longrightarrow> s2 q = s1 q"
    using set_next_effect [of e s1] assms(1) s1(4) by blast
  obtain s3 where s3: "set_prev s2 l e = Some s3" "get_prev s3 = (get_prev s2)(l \<mapsto> e)"
    "get_next s3 = get_next s2" "dom s3 = dom s2" "\<forall>q. q \<noteq> l \<longrightarrow> s3 q = s2 q"
    using set_prev_effect [of l s2] assms(3) s1(4) s2(4) by blast
  obtain s4 where s4: "set_next s3 h e = Some s4" "get_next s4 = (get_next s3)(h \<mapsto> e)"
    "get_prev s4 = get_prev s3" "dom s4 = dom s3" "\<forall>q. q \<noteq> h \<longrightarrow> s4 q = s3 q"
    using set_next_effect [of h s3] assms(2) s1(4) s2(4) s3(4) by blast
  have "get_next s1 h = Some l" "get_next s2 h = Some l"
    using assms s1(3) s2(2) by auto
  with s1 s2 s3 s4 show ?thesis by (auto simp: MFList_InsertHead_def)
qed

lemma MFList_Remove_effect:
  assumes "e \<in> dom s" "a \<in> dom s" "b \<in> dom s" "get_next s e = Some b" "get_prev s e = Some a"
    and "e \<noteq> a" "e \<noteq> b"
  shows "\<exists>s'. MFList_Remove s e = Some s' \<and>
     get_next s' = (get_next s)(a \<mapsto> b, e \<mapsto> e) \<and> get_prev s' = (get_prev s)(b \<mapsto> a, e \<mapsto> e) \<and>
     dom s' = dom s \<and> (\<forall>q. q \<notin> {e, a, b} \<longrightarrow> s' q = s q)"
proof -
  obtain s1 where s1: "set_prev s b a = Some s1" "get_prev s1 = (get_prev s)(b \<mapsto> a)"
    "get_next s1 = get_next s" "dom s1 = dom s" "\<forall>q. q \<noteq> b \<longrightarrow> s1 q = s q"
    using set_prev_effect [OF assms(3)] by blast
  obtain s2 where s2: "set_next s1 a b = Some s2" "get_next s2 = (get_next s1)(a \<mapsto> b)"
    "get_prev s2 = get_prev s1" "dom s2 = dom s1" "\<forall>q. q \<noteq> a \<longrightarrow> s2 q = s1 q"
    using set_next_effect [of a s1] assms(2) s1(4) by blast
  obtain s3 where s3: "MFList_Init s2 e = Some s3" "get_next s3 = (get_next s2)(e \<mapsto> e)"
    "get_prev s3 = (get_prev s2)(e \<mapsto> e)" "dom s3 = dom s2" "\<forall>q. q \<noteq> e \<longrightarrow> s3 q = s2 q"
    using MFList_Init_effect [of e s2] assms(1) s1(4) s2(4) by blast
  have "get_prev s1 e = Some a" "get_next s1 e = Some b"
    using assms s1 by auto
  with s1 s2 s3 assms show ?thesis by (auto simp: MFList_Remove_def)
qed

subsection \<open>The operations on well-formed lists\<close>

lemma linked_upd:
  assumes "get_next s' = (get_next s)(a \<mapsto> b, e \<mapsto> c)" "get_prev s' = (get_prev s)(d \<mapsto> f, g \<mapsto> k)"
  shows "linked s' x y \<longleftrightarrow>
    (if x = e then c = y else if x = a then b = y else get_next s x = Some y) \<and>
    (if y = g then k = x else if y = d then f = x else get_prev s y = Some x)"
  using assms by (auto simp: linked_def)

lemma MFList_Init_dlist:
  assumes "p \<in> dom s"
  shows "\<exists>s'. MFList_Init s p = Some s' \<and> dlist s' p [] \<and> dom s' = dom s \<and>
    (\<forall>q. q \<noteq> p \<longrightarrow> s' q = s q)"
  using MFList_Init_effect [OF assms] by (fastforce simp: dlist_nil)

lemma MFList_Empty_dlist: "dlist s h xs \<Longrightarrow> MFList_Empty s h = Some (xs = [])"
proof (cases xs rule: rev_cases)
  case Nil
  moreover assume "dlist s h xs"
  ultimately show ?thesis by (simp add: dlist_nil MFList_Empty_def)
next
  case (snoc ys x)
  moreover assume d: "dlist s h xs"
  ultimately have "get_prev s h = Some x" "x \<noteq> h" by (auto simp: dlist_last dlist_def)
  moreover obtain y zs where y: "xs = y # zs" using snoc by (metis list.exhaust snoc_eq_iff_butlast)
  ultimately show ?thesis using d dlist_first [of s h y zs] by (auto simp: MFList_Empty_def dlist_def)
qed

lemma MFList_InsertTail_dlist:
  assumes d: "dlist s h xs" and e: "e \<in> dom s" "e \<notin> set (h # xs)"
  shows "\<exists>s'. MFList_InsertTail s h e = Some s' \<and> dlist s' h (xs @ [e]) \<and> dom s' = dom s \<and>
    (\<forall>q. q \<notin> set (e # h # xs) \<longrightarrow> s' q = s q)"
proof (cases xs rule: rev_cases)
  case Nil
  obtain s' where s': "MFList_InsertTail s h e = Some s'"
      "get_next s' = (get_next s)(e \<mapsto> h, h \<mapsto> e)" "get_prev s' = (get_prev s)(e \<mapsto> h, h \<mapsto> e)"
      "dom s' = dom s" "\<forall>q. q \<notin> {e, h, h} \<longrightarrow> s' q = s q"
    using MFList_InsertTail_effect [of e s h h] d e Nil dlist_live [OF d, of h]
    by (auto simp: dlist_nil)
  have "dlist s' h [e]" using e by (auto simp: dlist_def linked_upd [OF s'(2,3)])
  with s' Nil show ?thesis by auto
next
  case (snoc ys l)
  have l: "get_prev s h = Some l" "l \<in> dom s" "h \<in> dom s"
    using d snoc dlist_live [OF d] by (auto simp: dlist_last)
  obtain s' where s': "MFList_InsertTail s h e = Some s'"
      "get_next s' = (get_next s)(e \<mapsto> h, l \<mapsto> e)" "get_prev s' = (get_prev s)(e \<mapsto> l, h \<mapsto> e)"
      "dom s' = dom s" "\<forall>q. q \<notin> {e, h, l} \<longrightarrow> s' q = s q"
    using MFList_InsertTail_effect [of e s h l] l e snoc by auto
  have "dseg s h ys l" and dist: "distinct (h # ys @ [l])"
    using d snoc by (auto simp: dlist_def dseg_append)
  moreover have "dseg s' h ys l = dseg s h ys l"
    using e dist snoc by (intro dseg_cong) (auto simp: s'(2,3))
  ultimately have "dseg s' h (ys @ l # [e]) h"
    using e snoc dist by (auto simp: dseg_append linked_upd [OF s'(2,3)])
  then have "dlist s' h (xs @ [e])" using snoc dist e by (auto simp: dlist_def)
  with s' snoc show ?thesis by auto
qed

lemma MFList_InsertHead_dlist:
  assumes d: "dlist s h xs" and e: "e \<in> dom s" "e \<notin> set (h # xs)"
  shows "\<exists>s'. MFList_InsertHead s h e = Some s' \<and> dlist s' h (e # xs) \<and> dom s' = dom s \<and>
    (\<forall>q. q \<notin> set (e # h # xs) \<longrightarrow> s' q = s q)"
proof (cases xs)
  case Nil
  obtain s' where s': "MFList_InsertHead s h e = Some s'"
      "get_next s' = (get_next s)(e \<mapsto> h, h \<mapsto> e)" "get_prev s' = (get_prev s)(e \<mapsto> h, h \<mapsto> e)"
      "dom s' = dom s" "\<forall>q. q \<notin> {e, h, h} \<longrightarrow> s' q = s q"
    using MFList_InsertHead_effect [of e s h h] d e Nil dlist_live [OF d, of h]
    by (auto simp: dlist_nil)
  have "dlist s' h [e]" using e by (auto simp: dlist_def linked_upd [OF s'(2,3)])
  with s' Nil show ?thesis by auto
next
  case (Cons l ys)
  have l: "get_next s h = Some l" "l \<in> dom s" "h \<in> dom s"
    using d Cons dlist_live [OF d] by (auto simp: dlist_first)
  obtain s' where s': "MFList_InsertHead s h e = Some s'"
      "get_next s' = (get_next s)(e \<mapsto> l, h \<mapsto> e)" "get_prev s' = (get_prev s)(e \<mapsto> h, l \<mapsto> e)"
      "dom s' = dom s" "\<forall>q. q \<notin> {e, h, l} \<longrightarrow> s' q = s q"
    using MFList_InsertHead_effect [of e s h l] l e Cons by auto
  have "dseg s l ys h" and dist: "distinct (h # l # ys)"
    using d Cons by (auto simp: dlist_def)
  moreover have "dseg s' l ys h = dseg s l ys h"
    using e dist Cons by (intro dseg_cong) (auto simp: s'(2,3))
  ultimately have "dseg s' h (e # l # ys) h"
    using e Cons dist by (auto simp: linked_upd [OF s'(2,3)])
  then have "dlist s' h (e # xs)" using Cons dist e by (auto simp: dlist_def)
  with s' Cons show ?thesis by auto
qed

text \<open>The neighbours of an entry, the head counting as the neighbour at both ends.\<close>

definition before :: "addr \<Rightarrow> addr list \<Rightarrow> addr" where
  "before h xs = (if xs = [] then h else last xs)"

definition after :: "addr \<Rightarrow> addr list \<Rightarrow> addr" where
  "after h ys = (if ys = [] then h else hd ys)"

lemma dseg_split:
  "dseg s h (xs @ e # ys) k \<longleftrightarrow> dseg s h (xs @ [e]) (after k ys) \<and> dseg s (before h (xs @ [e])) ys k"
  by (cases ys) (auto simp: dseg_append before_def after_def)

lemma dseg_before: "dseg s h (xs @ [e]) k \<Longrightarrow> linked s (before h xs) e \<and> linked s e k"
  by (cases xs rule: rev_cases) (auto simp: dseg_append before_def)

text \<open>A chain whose last link is cut and made again.\<close>

lemma dseg_relink:
  assumes "dseg s h xs k" and "distinct (h # xs)" and "linked s' (before h xs) m"
    and "\<And>p. p \<in> set (h # xs) \<Longrightarrow> p \<noteq> before h xs \<Longrightarrow> get_next s' p = get_next s p"
    and "\<And>p. p \<in> set xs \<Longrightarrow> get_prev s' p = get_prev s p"
  shows "dseg s' h xs m"
proof (cases xs rule: rev_cases)
  case Nil
  then show ?thesis using assms(3) by (simp add: before_def)
next
  case (snoc ys l)
  have "dseg s' h ys l = dseg s h ys l"
    using assms(2,4,5) snoc by (intro dseg_cong) (auto simp: before_def)
  then show ?thesis using assms(1,3) snoc by (simp add: dseg_append before_def)
qed

lemma MFList_Remove_dlist:
  assumes d: "dlist s h (xs @ e # ys)"
  shows "\<exists>s'. MFList_Remove s e = Some s' \<and> dlist s' h (xs @ ys) \<and> dlist s' e [] \<and>
    dom s' = dom s \<and> (\<forall>q. q \<notin> set (h # xs @ e # ys) \<longrightarrow> s' q = s q)"
proof -
  let ?a = "before h xs" and ?b = "after h ys"
  have dist: "distinct (h # xs @ e # ys)" and seg: "dseg s h (xs @ e # ys) h"
    using d by (auto simp: dlist_def)
  have l: "linked s ?a e" "linked s e ?b"
    using dseg_before [OF conjunct1 [OF dseg_split [THEN iffD1, OF seg]]] by auto
  have mem: "?a \<in> set (h # xs)" "?b \<in> set (h # ys)"
    by (auto simp: before_def after_def)
  then have ne: "e \<noteq> ?a" "e \<noteq> ?b" and dom: "?a \<in> dom s" "?b \<in> dom s" "e \<in> dom s"
    using dist dlist_live [OF d] by auto
  obtain s' where s': "MFList_Remove s e = Some s'"
      "get_next s' = (get_next s)(?a \<mapsto> ?b, e \<mapsto> e)" "get_prev s' = (get_prev s)(?b \<mapsto> ?a, e \<mapsto> e)"
      "dom s' = dom s" "\<forall>q. q \<notin> {e, ?a, ?b} \<longrightarrow> s' q = s q"
    using MFList_Remove_effect [of e s ?a ?b] l ne dom by (auto simp: linked_def)
  have ab: "linked s' ?a ?b" using ne by (auto simp: linked_upd [OF s'(2,3)])
  have first: "dseg s h xs e"
    using seg by (simp add: dseg_append)
  have pre: "dseg s' h xs ?b"
  proof (rule dseg_relink [OF first _ ab])
    show "distinct (h # xs)" using dist by simp
  next
    fix p assume "p \<in> set (h # xs)" "p \<noteq> ?a"
    then show "get_next s' p = get_next s p" using dist by (auto simp: s'(2))
  next
    fix p assume "p \<in> set xs"
    then have "p \<noteq> e" "p \<noteq> ?b" using dist mem(2) by auto
    then show "get_prev s' p = get_prev s p" by (simp add: s'(3))
  qed
  have "dseg s' h (xs @ ys) h"
  proof (cases ys)
    case Nil
    then show ?thesis using pre by (simp add: after_def)
  next
    case (Cons y zs)
    have "dseg s' y zs h = dseg s y zs h"
      using dist mem(1) Cons by (intro dseg_cong) (auto simp: s'(2,3) after_def)
    then show ?thesis using seg pre Cons by (simp add: dseg_append after_def)
  qed
  moreover have "dlist s' e []" by (auto simp: dlist_nil s'(2,3))
  moreover have "q \<notin> set (h # xs @ e # ys) \<longrightarrow> s' q = s q" for q
    using s'(5) mem by auto
  ultimately show ?thesis using s'(1,4) dist by (auto simp: dlist_def)
qed

section \<open>The queue interface\<close>

text \<open>
  How the broker takes the first entry of a list: \<open>CONTAINING_RECORD(head.Next, ...)\<close>, then
  \<open>MFList_Remove\<close> (mfbroker.c, the send loop).
\<close>

definition take_first :: "links \<Rightarrow> addr \<Rightarrow> (addr \<times> links) option" where
  "take_first s ListHead =
     do {
       e \<leftarrow> get_next s ListHead;
       s' \<leftarrow> MFList_Remove s e;
       Some (e, s')
     }"

lemma take_first_dlist:
  assumes "dlist s h (x # xs)"
  shows "\<exists>s'. take_first s h = Some (x, s') \<and> dlist s' h xs \<and> dlist s' x [] \<and> dom s' = dom s \<and>
    (\<forall>q. q \<notin> set (h # x # xs) \<longrightarrow> s' q = s q)"
  using MFList_Remove_dlist [of s h "[]" x xs] assms dlist_first [OF assms]
  by (auto simp: take_first_def)

lemma dlist_disjoint_frame:
  assumes "dlist s h2 ys" "set (h2 # ys) \<inter> A = {}" "\<forall>q. q \<notin> A \<longrightarrow> s' q = s q"
  shows "dlist s' h2 ys"
  using assms by (intro dlist_frame [OF assms(1)]) auto

interpretation mfq: intrusive_queue dlist "\<lambda>s a. a \<in> dom s" MFList_Empty MFList_InsertTail take_first
proof unfold_locales
  fix s h xs assume "dlist s h xs"
  then show "distinct (h # xs)" by (simp add: dlist_def)
next
  fix s h xs assume "dlist s h xs"
  then show "MFList_Empty s h = Some (xs = [])" by (rule MFList_Empty_dlist)
next
  fix s h xs e assume "dlist s h xs" "e \<notin> set (h # xs)" "e \<in> dom s"
  then show "\<exists>s'. MFList_InsertTail s h e = Some s' \<and> dlist s' h (xs @ [e]) \<and>
      (\<forall>a. (a \<in> dom s') = (a \<in> dom s))"
    using MFList_InsertTail_dlist by blast
next
  fix s h x xs assume "dlist s h (x # xs)"
  then show "\<exists>s'. take_first s h = Some (x, s') \<and> dlist s' h xs \<and>
      (\<forall>a. (a \<in> dom s') = (a \<in> dom s))"
    using take_first_dlist by blast
next
  fix s h xs e h2 ys s'
  assume *: "dlist s h xs" "e \<notin> set (h # xs)" "dlist s h2 ys"
    "set (h2 # ys) \<inter> set (e # h # xs) = {}" "MFList_InsertTail s h e = Some s'"
  have "e \<in> dom s" using *(5) by (auto simp: MFList_InsertTail_def set_next_def bind_eq_Some_conv)
  then have "\<forall>q. q \<notin> set (e # h # xs) \<longrightarrow> s' q = s q"
    using MFList_InsertTail_dlist [OF *(1) _ *(2)] *(5) by auto
  with *(3,4) show "dlist s' h2 ys" by (rule dlist_disjoint_frame)
next
  fix s h x xs h2 ys y s'
  assume *: "dlist s h (x # xs)" "dlist s h2 ys" "set (h2 # ys) \<inter> set (h # x # xs) = {}"
    "take_first s h = Some (y, s')"
  have "\<forall>q. q \<notin> set (h # x # xs) \<longrightarrow> s' q = s q"
    using take_first_dlist [OF *(1)] *(4) by auto
  with *(2,3) show "dlist s' h2 ys" by (rule dlist_disjoint_frame)
qed

section \<open>Properties\<close>

text \<open>
  C1: A list on which \<open>MFList_InsertTail\<close> puts several live entries, and from which the loop of the
  broker then takes the first entry until \<open>MFList_Empty\<close> holds, gives the entries that were on it
  followed by the new ones, in the order in which they were put there; no step meets a dangling
  pointer, and the list is well formed and empty afterwards.
\<close>

theorem MFList_fifo:
  assumes "dlist s h xs" "distinct es" "set es \<inter> set (h # xs) = {}" "\<forall>e \<in> set es. e \<in> dom s"
    and "length xs + length es < n"
  shows "\<exists>s1 s2. push_all MFList_InsertTail s h es = Some s1 \<and>
    drain MFList_Empty take_first n s1 h = Some (xs @ es, s2) \<and> dlist s2 h []"
  using assms by (rule mfq.fifo)

lemma MFList_fifo_witness:
  "let s = (\<lambda>a. if a < 4 then Some \<lparr>Next = a, Prev = a\<rparr> else None)
   in \<exists>s1 s2. push_all MFList_InsertTail s 0 [2, 1, 3] = Some s1 \<and>
     drain MFList_Empty take_first 4 s1 0 = Some ([2, 1, 3], s2) \<and> dlist s2 0 []"
  using MFList_fifo [of "\<lambda>a. if a < 4 then Some \<lparr>Next = a, Prev = a\<rparr> else None" 0 "[]" "[2, 1, 3]" 4]
  by (simp add: dlist_nil get_next_def get_prev_def dom_def)

text \<open>
  C2: \<open>MFList_Remove\<close> on an entry anywhere in a well-formed list succeeds, leaves the list with
  exactly the other entries in their order, leaves the removed entry linked to itself (so that it
  is an empty list of its own), and changes no entry that is not on the list.
\<close>

theorem MFList_Remove_unlinks:
  assumes "dlist s h (xs @ e # ys)"
  shows "\<exists>s'. MFList_Remove s e = Some s' \<and> dlist s' h (xs @ ys) \<and>
    MFList_Empty s' e = Some True \<and> (\<forall>q. q \<notin> set (h # xs @ e # ys) \<longrightarrow> s' q = s q)"
  using MFList_Remove_dlist [OF assms] by (auto dest: MFList_Empty_dlist)

lemma MFList_Remove_unlinks_witness:
  "\<exists>s'. MFList_Remove [0 \<mapsto> \<lparr>Next = 5, Prev = 7\<rparr>, 5 \<mapsto> \<lparr>Next = 7, Prev = 0\<rparr>, 7 \<mapsto> \<lparr>Next = 0, Prev = 5\<rparr>] 5 = Some s' \<and>
    dlist s' 0 [7] \<and> MFList_Empty s' 5 = Some True"
  using MFList_Remove_unlinks [of "[0 \<mapsto> \<lparr>Next = 5, Prev = 7\<rparr>, 5 \<mapsto> \<lparr>Next = 7, Prev = 0\<rparr>, 7 \<mapsto> \<lparr>Next = 0, Prev = 5\<rparr>]" 0 "[]" 5 "[7]"]
  by (auto simp: dlist_def linked_def get_next_def get_prev_def)

end
