(* ===== verification/SodiumUtils.thy ===== *)
theory SodiumUtils
  imports Prelude
begin

unbundle bit_operations_syntax

text \<open>
  Byte-buffer utilities of libsodium: the constant-time comparisons of
  \<open>crypto_verify/sodium/verify.c\<close> (the portable branch, which the Windows build compiles) and of
  \<open>sodium/utils.c\<close>, the little-endian arithmetic of \<open>sodium_increment\<close>, \<open>sodium_add\<close> and
  \<open>sodium_sub\<close>, and the ISO/IEC 7816-4 padding of \<open>sodium_pad\<close> and \<open>sodium_unpad\<close>.  Integer
  promotions are written out: an \<open>int\<close> is a 32-bit word, \<open>>>\<close> on it is the arithmetic shift.
\<close>

section \<open>Constant-time comparison\<close>

definition crypto_verify_n :: "bytes \<Rightarrow> bytes \<Rightarrow> nat \<Rightarrow> i32" where
  "crypto_verify_n x y n =
     (let d = foldl (\<lambda>d i. d OR ucast (x ! i XOR y ! i)) (0 :: u32) [0..<n]
      in (1 AND drop_bit 8 (d - 1)) - 1)"

definition crypto_verify_16 :: "bytes \<Rightarrow> bytes \<Rightarrow> i32" where
  "crypto_verify_16 x y = crypto_verify_n x y 16"

definition crypto_verify_32 :: "bytes \<Rightarrow> bytes \<Rightarrow> i32" where
  "crypto_verify_32 x y = crypto_verify_n x y 32"

definition crypto_verify_64 :: "bytes \<Rightarrow> bytes \<Rightarrow> i32" where
  "crypto_verify_64 x y = crypto_verify_n x y 64"

definition sodium_memcmp :: "bytes \<Rightarrow> bytes \<Rightarrow> nat \<Rightarrow> i32" where
  "sodium_memcmp b1 b2 len =
     (let d = foldl (\<lambda>d i. d OR (b1 ! i XOR b2 ! i)) (0 :: u8) [0..<len]
      in (1 AND signed_drop_bit 8 (ucast d - 1 :: i32)) - 1)"

definition sodium_is_zero :: "bytes \<Rightarrow> nat \<Rightarrow> i32" where
  "sodium_is_zero n nlen =
     (let d = foldl (\<lambda>d i. d OR n ! i) (0 :: u8) [0..<nlen]
      in 1 AND signed_drop_bit 8 (ucast d - 1 :: i32))"

text \<open>The loop of \<open>sodium_compare\<close>, from the most significant byte down.\<close>

fun sodium_compare_loop :: "bytes \<Rightarrow> bytes \<Rightarrow> nat \<Rightarrow> u8 \<Rightarrow> u8 \<Rightarrow> u8 \<times> u8" where
  "sodium_compare_loop b1 b2 0 gt eq = (gt, eq)"
| "sodium_compare_loop b1 b2 (Suc i) gt eq =
     (let x1 = ucast (b1 ! i) :: i32;
          x2 = ucast (b2 ! i) :: i32;
          gt' = gt OR ucast (signed_drop_bit 8 (x2 - x1) AND ucast eq);
          eq' = eq AND ucast (signed_drop_bit 8 ((x2 XOR x1) - 1))
      in sodium_compare_loop b1 b2 i gt' eq')"

definition sodium_compare :: "bytes \<Rightarrow> bytes \<Rightarrow> nat \<Rightarrow> i32" where
  "sodium_compare b1 b2 len =
     (let (gt, eq) = sodium_compare_loop b1 b2 len 0 1
      in ucast gt + ucast gt + ucast eq - 1)"

section \<open>Little-endian arithmetic\<close>

text \<open>The carry is a \<open>uint_fast16_t\<close>, which is 32 bits wide on Windows.\<close>

fun add_carry :: "u32 \<Rightarrow> bytes \<Rightarrow> bytes" where
  "add_carry c [] = []"
| "add_carry c (b # bs) =
     (let c' = c + ucast b in ucast c' # add_carry (drop_bit 8 c') bs)"

definition sodium_increment :: "bytes \<Rightarrow> bytes" where
  "sodium_increment n = add_carry 1 n"

fun sodium_add_loop :: "u32 \<Rightarrow> bytes \<Rightarrow> bytes \<Rightarrow> bytes" where
  "sodium_add_loop c (a # as) (b # bs) =
     (let c' = c + (ucast a + ucast b) in ucast c' # sodium_add_loop (drop_bit 8 c') as bs)"
| "sodium_add_loop c as bs = []"

definition sodium_add :: "bytes \<Rightarrow> bytes \<Rightarrow> bytes" where
  "sodium_add a b = sodium_add_loop 0 a b"

fun sodium_sub_loop :: "u32 \<Rightarrow> bytes \<Rightarrow> bytes \<Rightarrow> bytes" where
  "sodium_sub_loop c (a # as) (b # bs) =
     (let c' = ucast a - ucast b - c
      in ucast c' # sodium_sub_loop (drop_bit 8 c' AND 1) as bs)"
| "sodium_sub_loop c as bs = []"

definition sodium_sub :: "bytes \<Rightarrow> bytes \<Rightarrow> bytes" where
  "sodium_sub a b = sodium_sub_loop 0 a b"

section \<open>Padding\<close>

text \<open>
  One round of the constant-time loop of \<open>sodium_pad\<close>: the byte \<open>i\<close> places before \<open>tail\<close> is cleared
  until the barrier is reached, set to 0x80 there, and left alone afterwards.
\<close>

definition sodium_pad_step :: "u64 \<Rightarrow> nat \<Rightarrow> nat \<Rightarrow> bytes \<times> u8 \<Rightarrow> bytes \<times> u8" where
  "sodium_pad_step xpadlen tail i = (\<lambda>(buf, mask).
     let barrier_mask = ucast (drop_bit 56 ((of_nat i XOR xpadlen) - 1)) :: u8
     in (buf[tail - i := (buf ! (tail - i) AND mask) OR (0x80 AND barrier_mask)],
         mask OR barrier_mask))"

definition sodium_pad :: "bytes \<Rightarrow> u64 \<Rightarrow> u64 \<Rightarrow> u64 \<Rightarrow> (bytes \<times> u64) result" where
  "sodium_pad buf unpadded_buflen blocksize max_buflen =
     (if blocksize \<le> 0 then Inl (Ret (- 1))
      else
        let xpadlen =
              (if blocksize AND (blocksize - 1) = 0
               then blocksize - 1 - (unpadded_buflen AND (blocksize - 1))
               else blocksize - 1 - unpadded_buflen mod blocksize)
        in if - 1 - unpadded_buflen \<le> xpadlen then Inl Abort
           else
             let xpadded_len = unpadded_buflen + xpadlen
             in if xpadded_len \<ge> max_buflen then Inl (Ret (- 1))
                else
                  let (buf', mask) =
                        fold (sodium_pad_step xpadlen (unat xpadded_len)) [0..<unat blocksize] (buf, 0)
                  in Inr (buf', xpadded_len + 1))"

definition sodium_unpad_step :: "bytes \<Rightarrow> nat \<Rightarrow> nat \<Rightarrow> u8 \<times> u64 \<times> u8 \<Rightarrow> u8 \<times> u64 \<times> u8" where
  "sodium_unpad_step buf tail i = (\<lambda>(acc, pad_len, valid).
     let c = buf ! (tail - i);
         is_barrier =
           drop_bit 8 (ucast (ucast acc - 1 :: u32) AND (pad_len - 1)
             AND ucast (ucast (c XOR 0x80) - 1 :: u32)) AND (1 :: u64)
     in (acc OR c, pad_len OR (of_nat i AND (1 + NOT is_barrier)), valid OR ucast is_barrier))"

definition sodium_unpad :: "bytes \<Rightarrow> u64 \<Rightarrow> u64 \<Rightarrow> u64 result" where
  "sodium_unpad buf padded_buflen blocksize =
     (if padded_buflen < blocksize \<or> blocksize \<le> 0 then Inl (Ret (- 1))
      else
        let tail = unat (padded_buflen - 1);
            (acc, pad_len, valid) =
              fold (sodium_unpad_step buf tail) [0..<unat blocksize] (0, 0, 0);
            ret = ucast valid - 1 :: i32
        in if ret = 0 then Inr (padded_buflen - 1 - pad_len) else Inl (Ret ret))"

section \<open>Facts about the comparisons\<close>

lemma foldl_or_eq_0:
  "foldl (\<lambda>d i. d OR f i) z is = (0 :: 'a::len word) \<longleftrightarrow> z = 0 \<and> (\<forall>i \<in> set is. f i = 0)"
  by (induction "is" arbitrary: z) (auto simp: or_eq_0_iff)

lemma ucast_foldl_or:
  "foldl (\<lambda>d i. d OR ucast (f i)) (ucast z :: 'b::len word) is =
   ucast (foldl (\<lambda>d i. d OR f i) (z :: 'a::len word) is)"
  by (induction "is" arbitrary: z) (simp_all flip: unsigned_or_eq)

lemma xor_eq_0_word: "x XOR y = 0 \<longleftrightarrow> x = (y :: 'a::len word)"
proof
  assume "x XOR y = 0"
  then have "(x XOR y) XOR y = 0 XOR y" by simp
  then show "x = y" by simp
qed simp

lemma byte_pred_shift:
  "(1 AND drop_bit 8 (ucast (d :: u8) - 1 :: u32)) = (if d = 0 then 1 else 0)"
proof (cases "d = 0")
  case True
  then show ?thesis by (simp add: mask_eq_exp_minus_1)
next
  case False
  then have "0 < unat d" by (simp add: unat_gt_0)
  then have "unat (ucast d - 1 :: u32) = unat d - 1"
    by (subst unat_sub) (simp_all add: word_le_nat_alt unat_ucast_byte)
  then have "unat (drop_bit 8 (ucast d - 1 :: u32)) = (unat d - 1) div 256"
    by (simp add: drop_bit_eq_div unat_div_distrib)
  also have "\<dots> = 0" using unat_byte_less [of d] by (intro div_less) linarith
  finally have "drop_bit 8 (ucast d - 1 :: u32) = 0" by (simp only: unat_eq_zero)
  then show ?thesis using False by simp
qed

lemma byte_pred_sshift:
  "(1 AND signed_drop_bit 8 (ucast (d :: u8) - 1 :: i32)) = (if d = 0 then 1 else 0)"
proof -
  have "(1 AND signed_drop_bit 8 w) = (1 AND drop_bit 8 w)" for w :: i32
    by (rule bit_word_eqI) (auto simp: bit_simps)
  then show ?thesis using byte_pred_shift [of d] by simp
qed

lemma crypto_verify_n_eq:
  "crypto_verify_n x y n = (if \<forall>i < n. x ! i = y ! i then 0 else - 1)"
proof -
  have "foldl (\<lambda>d i. d OR ucast (x ! i XOR y ! i)) (0 :: u32) [0..<n] =
      ucast (foldl (\<lambda>d i. d OR (x ! i XOR y ! i)) 0 [0..<n])"
    using ucast_foldl_or [where z = 0] by simp
  then show ?thesis
    by (auto simp: crypto_verify_n_def byte_pred_shift foldl_or_eq_0 xor_eq_0_word split: if_splits)
qed

lemma sodium_memcmp_eq:
  "sodium_memcmp b1 b2 len = (if \<forall>i < len. b1 ! i = b2 ! i then 0 else - 1)"
  by (auto simp: sodium_memcmp_def byte_pred_sshift foldl_or_eq_0 xor_eq_0_word split: if_splits)

lemma sodium_is_zero_eq:
  "sodium_is_zero n nlen = (if \<forall>i < nlen. n ! i = 0 then 1 else 0)"
  by (auto simp: sodium_is_zero_def byte_pred_sshift foldl_or_eq_0 split: if_splits)

lemma nth_take_eq_iff:
  "n \<le> length x \<Longrightarrow> n \<le> length y \<Longrightarrow> (\<forall>i < n. x ! i = y ! i) \<longleftrightarrow> take n x = take n y"
  by (auto simp: list_eq_iff_nth_eq)

text \<open>
  One step of \<open>sodium_compare\<close>: while all higher bytes agree (\<open>eq = 1\<close>) the difference of the two
  bytes decides, afterwards nothing changes.
\<close>

lemma signed_take_bit_byte_diff:
  "a < 256 \<Longrightarrow> b < 256 \<Longrightarrow> signed_take_bit 31 (int a - int b) = int a - int b"
  by (rule signed_take_bit_int_eq_self) simp_all

lemma byte_diff_div:
  "a < 256 \<Longrightarrow> b < 256 \<Longrightarrow> (int a - int b) div 256 = (if a < b then - 1 else 0)"
  using int_div_pos_eq [of "int a - int b" 256 "- 1" "256 + int a - int b"]
    int_div_pos_eq [of "int a - int b" 256 0 "int a - int b"]
  by auto

lemma byte_diff_shift:
  "signed_drop_bit 8 (ucast (x :: u8) - ucast y :: i32) = (if x < y then - 1 else 0)"
proof (rule word_eq_iff_signed [THEN iffD2])
  have "sint (ucast z :: i32) = int (unat z)" for z :: u8
  proof -
    have "- (2 ^ 31) \<le> uint z" by (rule order_trans [of _ 0]) simp_all
    moreover have "uint z < 2 ^ 31" using unsigned_less [of z, where ?'a = int] by simp
    ultimately have "signed_take_bit 31 (uint z) = uint z" by (rule signed_take_bit_int_eq_self)
    then show ?thesis by (simp add: signed_ucast_eq)
  qed
  then have "sint (ucast x - ucast y :: i32) = signed_take_bit 31 (int (unat x) - int (unat y))"
    by (simp add: sint_word_diff)
  also have "\<dots> = int (unat x) - int (unat y)"
    by (rule signed_take_bit_byte_diff) simp_all
  finally have "sint (ucast x - ucast y :: i32) = int (unat x) - int (unat y)" .
  then have "sint (signed_drop_bit 8 (ucast x - ucast y :: i32)) = (int (unat x) - int (unat y)) div 256"
    by (simp add: sint_signed_drop_bit_eq drop_bit_eq_div)
  moreover have "(int (unat x) - int (unat y)) div 256 = (if x < y then - 1 else 0)"
    by (simp only: word_less_nat_alt) (rule byte_diff_div; simp)
  ultimately show "sint (signed_drop_bit 8 (ucast x - ucast y :: i32)) =
      sint (if x < y then - 1 else 0 :: i32)"
    by simp
qed

lemma compare_eq_step:
  "signed_drop_bit 8 ((ucast (x :: u8) XOR ucast y) - 1 :: i32) = (if x = y then - 1 else 0)"
proof -
  let ?d = "x XOR y"
  have d: "ucast x XOR ucast y = (ucast ?d :: i32)" by (simp add: unsigned_xor_eq)
  have "signed_drop_bit 8 (ucast ?d - ucast (1 :: u8) :: i32) = (if ?d < 1 then - 1 else 0)"
    by (rule byte_diff_shift)
  moreover have "?d < 1 \<longleftrightarrow> x = y" by (simp add: word_less_1 xor_eq_0_word)
  ultimately show ?thesis by (simp add: d)
qed

lemma ucast_minus_1_byte: "ucast (- 1 :: i32) = (- 1 :: u8)"
  by (rule bit_word_eqI) (simp add: bit_simps)

text \<open>The number the lowest \<open>n\<close> bytes denote, compared from the top.\<close>

lemma le_val_take_Suc:
  "n < length b \<Longrightarrow> le_val (take (Suc n) b) = le_val (take n b) + 256 ^ n * unat (b ! n)"
  by (simp add: take_Suc_conv_app_nth le_val_append)

lemma le_val_take_less:
  assumes "n < length a" "n < length b" "a ! n < b ! n"
  shows "le_val (take (Suc n) a) < le_val (take (Suc n) b)"
proof -
  have "le_val (take n a) < 256 ^ n"
    using le_val_less [of "take n a"] assms(1) by simp
  then have "le_val (take (Suc n) a) < 256 ^ n * (unat (a ! n) + 1)"
    using assms(1) by (simp add: le_val_take_Suc)
  also have "\<dots> \<le> 256 ^ n * unat (b ! n)"
    using assms(3) by (intro mult_le_mono2) (simp add: word_less_nat_alt)
  also have "\<dots> \<le> le_val (take (Suc n) b)"
    using assms(2) by (simp add: le_val_take_Suc)
  finally show ?thesis .
qed

lemma sodium_compare_loop_done: "sodium_compare_loop b1 b2 n gt 0 = (gt, 0)"
  by (induction n arbitrary: gt) (simp_all add: Let_def)

lemma sodium_compare_loop_eq:
  "n \<le> length b1 \<Longrightarrow> n \<le> length b2 \<Longrightarrow>
   sodium_compare_loop b1 b2 n 0 1 =
     (let v1 = le_val (take n b1); v2 = le_val (take n b2)
      in if v1 > v2 then (1, 0) else if v1 < v2 then (0, 0) else (0, 1))"
proof (induction n)
  case 0
  then show ?case by simp
next
  case (Suc n)
  have n: "n < length b1" "n < length b2" using Suc.prems by auto
  consider "b2 ! n < b1 ! n" | "b1 ! n < b2 ! n" | "b1 ! n = b2 ! n" by (meson linorder_less_linear)
  then show ?case
  proof cases
    case 1
    then have "le_val (take (Suc n) b2) < le_val (take (Suc n) b1)"
      using n by (intro le_val_take_less)
    moreover have "b2 ! n \<noteq> b1 ! n" using 1 by auto
    ultimately show ?thesis using 1
      by (simp add: byte_diff_shift compare_eq_step sodium_compare_loop_done)
  next
    case 2
    then have "le_val (take (Suc n) b1) < le_val (take (Suc n) b2)"
      using n by (intro le_val_take_less)
    moreover have "b2 ! n \<noteq> b1 ! n" using 2 by auto
    ultimately show ?thesis using 2
      by (simp add: byte_diff_shift compare_eq_step sodium_compare_loop_done)
  next
    case 3
    then show ?thesis using Suc n
      by (simp add: byte_diff_shift compare_eq_step ucast_minus_1_byte le_val_take_Suc Let_def)
  qed
qed

lemma sodium_compare_eq:
  assumes "len \<le> length b1" "len \<le> length b2"
  shows "sodium_compare b1 b2 len =
    (let v1 = le_val (take len b1); v2 = le_val (take len b2)
     in if v1 < v2 then - 1 else if v1 > v2 then 1 else 0)"
  using sodium_compare_loop_eq [OF assms] by (simp add: sodium_compare_def Let_def)

section \<open>Facts about the arithmetic\<close>

lemma length_add_carry [simp]: "length (add_carry c bs) = length bs"
  by (induction c bs rule: add_carry.induct) (simp_all add: Let_def)

lemma length_sodium_add_loop [simp]: "length (sodium_add_loop c as bs) = min (length as) (length bs)"
  by (induction c as bs rule: sodium_add_loop.induct) (simp_all add: Let_def)

lemma length_sodium_sub_loop [simp]: "length (sodium_sub_loop c as bs) = min (length as) (length bs)"
  by (induction c as bs rule: sodium_sub_loop.induct) (simp_all add: Let_def)

lemma mod_step: "(x + 256 * l) mod (256 * m) = x mod 256 + 256 * ((l + x div 256) mod m)"
  for x l m :: nat
  by (simp add: mod_mult2_eq add.commute)

lemma unat_ucast_to_byte: "unat (ucast (w :: 'a::len word) :: u8) = unat w mod 256"
  by (simp add: unsigned_ucast_eq take_bit_eq_mod)

lemma unat_drop_bit_8: "unat (drop_bit 8 (w :: u32)) = unat w div 256"
  by (simp add: drop_bit_eq_div unat_div_distrib)

lemma unat_add_small:
  "unat (x :: u32) < 2 ^ 31 \<Longrightarrow> unat y < 2 ^ 31 \<Longrightarrow> unat (x + y) = unat x + unat y"
  by (simp add: unat_word_ariths)

lemma le_val_add_carry:
  "unat c < 2 ^ 24 \<Longrightarrow> le_val (add_carry c bs) = (le_val bs + unat c) mod 256 ^ length bs"
proof (induction c bs rule: add_carry.induct)
  case (2 c b bs)
  let ?c' = "c + ucast b :: u32"
  have c': "unat ?c' = unat c + unat b"
    using 2(2) unat_byte_le [of b] by (subst unat_add_small) (simp_all add: unat_ucast_byte)
  have lt: "unat (drop_bit 8 ?c') < 2 ^ 24"
    using c' 2(2) unat_byte_le [of b] by (simp add: unat_drop_bit_8)
  have "le_val (add_carry c (b # bs)) =
      (unat c + unat b) mod 256 + 256 * ((le_val bs + (unat c + unat b) div 256) mod 256 ^ length bs)"
    using 2(1) [OF refl lt] c' by (simp add: Let_def unat_ucast_to_byte unat_drop_bit_8)
  also have "\<dots> = (unat c + unat b + 256 * le_val bs) mod (256 * 256 ^ length bs)"
    by (rule mod_step [symmetric])
  finally show ?case by (simp add: ac_simps)
qed simp

lemma le_val_sodium_increment:
  "le_val (sodium_increment n) = (le_val n + 1) mod 256 ^ length n"
  by (simp add: sodium_increment_def le_val_add_carry)

lemma le_val_sodium_add_loop:
  "length as = length bs \<Longrightarrow> unat c < 2 ^ 24 \<Longrightarrow>
   le_val (sodium_add_loop c as bs) = (le_val as + le_val bs + unat c) mod 256 ^ length as"
proof (induction c as bs rule: sodium_add_loop.induct)
  case (1 c a as b bs)
  let ?c' = "c + (ucast a + ucast b) :: u32"
  have ab: "unat (ucast a + ucast b :: u32) = unat a + unat b"
    using unat_byte_le [of a] unat_byte_le [of b]
    by (subst unat_add_small) (simp_all add: unat_ucast_byte)
  have c': "unat ?c' = unat c + (unat a + unat b)"
    using 1(3) ab unat_byte_le [of a] unat_byte_le [of b] by (subst unat_add_small) simp_all
  have lt: "unat (drop_bit 8 ?c') < 2 ^ 24"
    using c' 1(3) unat_byte_le [of a] unat_byte_le [of b] by (simp add: unat_drop_bit_8)
  let ?x = "unat c + (unat a + unat b)"
  have "le_val (sodium_add_loop c (a # as) (b # bs)) =
      ?x mod 256 + 256 * ((le_val as + le_val bs + ?x div 256) mod 256 ^ length as)"
    using 1(1) [OF refl _ lt] 1(2) c' by (simp add: Let_def unat_ucast_to_byte unat_drop_bit_8)
  also have "\<dots> = (?x + 256 * (le_val as + le_val bs)) mod (256 * 256 ^ length as)"
    by (rule mod_step [symmetric])
  finally show ?case by (simp add: algebra_simps)
qed simp_all

text \<open>Subtraction: the byte and the borrow of one step, read off the integer difference.\<close>

lemma sub_step_values:
  fixes a b :: u8 and c :: u32
  assumes "unat c \<le> 1"
  defines "v \<equiv> int (unat a) - int (unat b) - int (unat c)"
    and "c' \<equiv> ucast a - ucast b - c :: u32"
  shows "int (unat (ucast c' :: u8)) = v mod 256"
    and "int (unat (drop_bit 8 c' AND 1)) = - (v div 256)"
    and "unat (drop_bit 8 c' AND 1) \<le> 1"
proof -
  have v: "- 256 \<le> v" "v < 256"
    using assms(1) unat_byte_le [of a] unat_byte_le [of b] unfolding v_def by linarith+
  have c': "uint c' = v mod 2 ^ 32"
    by (simp add: c'_def v_def uint_word_ariths uint_ucast_byte mod_diff_left_eq)
  show "int (unat (ucast c' :: u8)) = v mod 256"
    by (simp add: unat_ucast_to_byte zmod_int c' mod_mod_cancel)
  have "int (unat (drop_bit 8 c' AND 1)) = (v mod 2 ^ 32 div 256) mod 2"
    using c' by (simp add: unat_drop_bit_8 and_one_eq unat_mod_distrib zdiv_int zmod_int)
  also have "\<dots> = - (v div 256)"
  proof (cases "v < 0")
    case True
    then have "v mod 2 ^ 32 = v + 2 ^ 32" "v div 256 = - 1"
      using v int_div_pos_eq [of v 256 "- 1" "256 + v"]
        int_mod_pos_eq [of v "2 ^ 32" "- 1" "v + 2 ^ 32"] by simp_all
    moreover have "(v + 2 ^ 32) div 256 = 16777215"
      using v True int_div_pos_eq [of "v + 2 ^ 32" 256 16777215 "256 + v"] by simp
    ultimately show ?thesis by simp
  next
    case False
    then show ?thesis using v by (simp add: mod_pos_pos_trivial div_pos_pos_trivial)
  qed
  finally show "int (unat (drop_bit 8 c' AND 1)) = - (v div 256)" .
  show "unat (drop_bit 8 c' AND 1) \<le> 1"
    by (simp add: and_one_eq unat_mod_distrib)
qed

lemma int_mod_step: "(x + 256 * l) mod (256 * m) = x mod 256 + 256 * ((l + x div 256) mod m)"
  if "0 < m" for x l m :: int
  using that by (simp add: zmod_zmult2_eq add.commute)

lemma le_val_sodium_sub_loop:
  "length as = length bs \<Longrightarrow> unat c \<le> 1 \<Longrightarrow>
   int (le_val (sodium_sub_loop c as bs)) =
     (int (le_val as) - int (le_val bs) - int (unat c)) mod 256 ^ length as"
proof (induction c as bs rule: sodium_sub_loop.induct)
  case (1 c a as b bs)
  let ?c' = "ucast a - ucast b - c :: u32"
  let ?v = "int (unat a) - int (unat b) - int (unat c)"
  note step = sub_step_values [OF 1(3), of a b]
  have "int (le_val (sodium_sub_loop c (a # as) (b # bs))) =
      ?v mod 256 + 256 * ((int (le_val as) - int (le_val bs) + ?v div 256) mod 256 ^ length as)"
    using 1(1) [OF refl _ step(3)] 1(2) step(1,2) by (simp add: Let_def del: of_nat_unat)
  also have "\<dots> = (?v + 256 * (int (le_val as) - int (le_val bs))) mod (256 * 256 ^ length as)"
    by (rule int_mod_step [symmetric]) simp
  finally show ?case by (simp add: algebra_simps)
qed simp_all

lemma le_val_sodium_add:
  "length a = length b \<Longrightarrow> le_val (sodium_add a b) = (le_val a + le_val b) mod 256 ^ length a"
  by (simp add: sodium_add_def le_val_sodium_add_loop)

lemma le_val_sodium_sub:
  "length a = length b \<Longrightarrow>
   int (le_val (sodium_sub a b)) = (int (le_val a) - int (le_val b)) mod 256 ^ length a"
  by (simp add: sodium_sub_def le_val_sodium_sub_loop)

lemma sodium_sub_add:
  assumes "length a = length b"
  shows "sodium_sub (sodium_add a b) b = a"
proof (rule le_val_inj)
  have len: "length (sodium_add a b) = length b" using assms by (simp add: sodium_add_def)
  then show "length (sodium_sub (sodium_add a b) b) = length a" using assms by (simp add: sodium_sub_def)
  have "int (le_val (sodium_sub (sodium_add a b) b)) = int (le_val a) mod 256 ^ length a"
    using le_val_sodium_sub [OF len] assms
    by (simp add: le_val_sodium_add len zmod_int mod_diff_left_eq)
  also have "\<dots> = int (le_val a)"
    using le_val_less [of a] by (simp flip: zmod_int of_nat_power)
  finally show "le_val (sodium_sub (sodium_add a b) b) = le_val a" by simp
qed

section \<open>Facts about padding\<close>

lemma pow2_of_and_pred:
  fixes n :: nat
  assumes "0 < n" "n AND (n - 1) = 0"
  shows "\<exists>k. n = 2 ^ k"
proof -
  obtain k where k: "2 ^ k \<le> n" "n < 2 ^ Suc k"
    using ex_power_ivl1 [of 2 n] assms(1) by auto
  have top: "bit m k" if "2 ^ k \<le> m" "m < 2 ^ Suc k" for m :: nat
  proof -
    have "m div 2 ^ k = 1" using that by (intro div_nat_eqI) auto
    then show ?thesis by (simp add: bit_iff_odd)
  qed
  have "n = 2 ^ k"
  proof (rule ccontr)
    assume "n \<noteq> 2 ^ k"
    then have "2 ^ k \<le> n - 1" "n - 1 < 2 ^ Suc k" using k by auto
    then have "bit (n AND (n - 1)) k" using top [of n] top [of "n - 1"] k by (simp add: bit_and_iff)
    then show False using assms(2) by simp
  qed
  then show ?thesis by blast
qed

lemma and_pred_eq_mod:
  fixes u bs :: u64
  assumes "bs \<noteq> 0" "bs AND (bs - 1) = 0"
  shows "u AND (bs - 1) = u mod bs"
proof -
  have pred: "unat (bs - 1) = unat bs - 1" using assms(1) by (simp add: unat_minus_one)
  have "unat bs AND (unat bs - 1) = 0"
    using arg_cong [OF assms(2), of unat] by (simp add: unsigned_and_eq pred)
  then obtain k where k: "unat bs = 2 ^ k"
    using pow2_of_and_pred [of "unat bs"] assms(1) by (auto simp: unat_gt_0)
  have "unat (u AND (bs - 1)) = unat u AND mask k"
    by (simp add: unsigned_and_eq pred k mask_eq_exp_minus_1)
  also have "\<dots> = unat (u mod bs)"
    by (simp add: take_bit_eq_mask [symmetric] take_bit_eq_mod unat_mod_distrib k)
  finally show ?thesis by (simp add: word_eq_iff_unsigned [where ?'a = nat])
qed

lemma pad_barrier:
  fixes x y :: u64
  assumes "unat x < 2 ^ 56" "unat y < 2 ^ 56"
  shows "ucast (drop_bit 56 ((x XOR y) - 1)) = (if x = y then - 1 else 0 :: u8)"
proof (cases "x = y")
  case True
  then show ?thesis by (simp add: mask_eq_exp_minus_1)
next
  case False
  then have z: "x XOR y \<noteq> 0" by (simp add: xor_eq_0_word)
  have "take_bit 56 (unat x XOR unat y) = unat x XOR unat y"
    using assms by (simp add: take_bit_nat_eq_self)
  then have "unat (x XOR y) < 2 ^ 56"
    by (metis take_bit_nat_less_exp unsigned_xor_eq)
  then have "unat ((x XOR y) - 1) < 2 ^ 56" using z by (simp add: unat_minus_one)
  then have "drop_bit 56 ((x XOR y) - 1) = 0"
    by (intro word_eq_iff_unsigned [where ?'a = nat, THEN iffD2]) (simp add: drop_bit_eq_div unat_div_distrib)
  then show ?thesis using False by simp
qed

text \<open>The buffer once \<open>i\<close> rounds are done, for a pad of \<open>p\<close> zero bytes that ends at \<open>t\<close>.\<close>

definition padded :: "bytes \<Rightarrow> nat \<Rightarrow> nat \<Rightarrow> nat \<Rightarrow> bytes" where
  "padded buf t p i =
     (if i \<le> p then take (t + 1 - i) buf @ replicate i 0 @ drop (t + 1) buf
      else take (t - p) buf @ [0x80] @ replicate p 0 @ drop (t + 1) buf)"

lemma sodium_pad_step_barrier:
  assumes "i < 2 ^ 56" "p < 2 ^ 56"
  shows "sodium_pad_step (of_nat p) t i (buf, m) =
    (buf[t - i := (buf ! (t - i) AND m) OR (if i = p then 0x80 else 0)],
     m OR (if i = p then - 1 else 0))"
proof -
  have u: "unat (of_nat i :: u64) = i" "unat (of_nat p :: u64) = p"
    using assms by (simp_all add: unsigned_of_nat take_bit_nat_eq_self)
  then have "(of_nat i :: u64) = of_nat p \<longleftrightarrow> i = p" by (metis)
  then show ?thesis
    using pad_barrier [of "of_nat i" "of_nat p"] u assms by (simp add: sodium_pad_step_def Let_def)
qed

lemma sodium_pad_loop:
  assumes "t < length buf" "p \<le> t" "p < 2 ^ 56"
  shows "n \<le> t + 1 \<Longrightarrow> n \<le> 2 ^ 56 \<Longrightarrow>
    fold (sodium_pad_step (of_nat p) t) [0..<n] (buf, 0) = (padded buf t p n, if n \<le> p then 0 else - 1)"
proof (induction n)
  case 0
  then show ?case by (simp add: padded_def flip: take_Suc_conv_app_nth)
next
  case (Suc n)
  have n: "n < 2 ^ 56" "n \<le> t" using Suc.prems by auto
  have len: "length (take (t - n) buf) = t - n" using assms(1) n(2) by simp
  have upd: "(padded buf t p n)[t - n := b] =
      take (t - n) buf @ b # replicate n 0 @ drop (t + 1) buf" if "n \<le> p" for b
  proof -
    have "padded buf t p n =
        take (t - n) buf @ buf ! (t - n) # replicate n 0 @ drop (t + 1) buf"
      using n(2) assms(1) that by (simp add: padded_def Suc_diff_le take_Suc_conv_app_nth)
    then show ?thesis by (metis len list_update_length)
  qed
  consider "n < p" | "n = p" | "p < n" by linarith
  then have "sodium_pad_step (of_nat p) t n (padded buf t p n, if n \<le> p then 0 else - 1) =
      (padded buf t p (Suc n), if Suc n \<le> p then 0 else - 1)"
  proof cases
    case 1
    then show ?thesis using n assms(3) upd
      by (simp add: sodium_pad_step_barrier) (simp add: padded_def)
  next
    case 2
    then show ?thesis using n assms(3) upd
      by (simp add: sodium_pad_step_barrier) (simp add: padded_def)
  next
    case 3
    then show ?thesis using n assms(3)
      by (simp add: sodium_pad_step_barrier padded_def)
  qed
  then show ?case using Suc by simp
qed

lemma sodium_pad_Inr:
  assumes "sodium_pad buf u bs mx = Inr (buf', L)" "unat mx \<le> length buf" "unat bs \<le> 2 ^ 56"
  obtains p where "p < unat bs" "unat L = unat u + p + 1" "unat L mod unat bs = 0" "unat L \<le> length buf"
    "buf' = take (unat u) buf @ [0x80] @ replicate p 0 @ drop (unat L) buf"
proof -
  have bs: "0 < unat bs" "bs \<noteq> 0" using assms(1) by (auto simp: sodium_pad_def unat_gt_0 split: if_splits)
  let ?x = "bs - 1 - u mod bs"
  have x: "(if bs AND (bs - 1) = 0 then bs - 1 - (u AND (bs - 1)) else bs - 1 - u mod bs) = ?x"
    using bs and_pred_eq_mod by simp
  have ux: "unat ?x = unat bs - 1 - unat u mod unat bs"
  proof -
    have "unat (u mod bs) \<le> unat (bs - 1)"
      using bs by (simp add: unat_mod_distrib unat_minus_one) (metis Suc_leI Suc_pred mod_less_divisor not_less_eq_eq)
    then show ?thesis using bs by (simp add: unat_sub word_le_nat_alt unat_minus_one unat_mod_distrib)
  qed
  have nov: "\<not> - 1 - u \<le> ?x" and lt: "u + ?x < mx" and L: "L = u + ?x + 1"
    and f: "fold (sodium_pad_step ?x (unat (u + ?x))) [0..<unat bs] (buf, 0) = (buf', snd (fold (sodium_pad_step ?x (unat (u + ?x))) [0..<unat bs] (buf, 0)))"
    using assms(1) bs unfolding sodium_pad_def x Let_def
    by (auto split: if_splits prod.splits)
  define p where "p = unat ?x"
  have "unat u \<le> 2 ^ 64 - 1" using unsigned_less [of u, where ?'a = nat] by simp
  moreover have "unat (- 1 :: u64) = 2 ^ 64 - 1"
    by (simp add: unsigned_minus_1_eq_mask mask_eq_exp_minus_1)
  ultimately have "unat (- 1 - u) = 2 ^ 64 - 1 - unat u"
    by (subst unat_sub) (simp_all only: word_le_nat_alt)
  then have nov': "unat u + p + 1 < 2 ^ 64"
    using nov by (simp add: word_le_nat_alt p_def)
  have t: "unat (u + ?x) = unat u + p" using nov' by (simp add: unat_word_ariths p_def)
  have "unat (w + 1) = unat w + 1" if "unat w + 1 < 2 ^ 64" for w :: u64
    using that by (simp add: unat_word_ariths)
  then have uL: "unat L = unat u + p + 1" using nov' t unfolding L by metis
  have p: "p < unat bs" using ux bs by (simp add: p_def)
  have tb: "unat u + p < length buf"
    using lt t assms(2) by (simp add: word_less_nat_alt)
  have ge: "unat bs \<le> unat u + p + 1"
  proof -
    have "p = unat bs - 1 - unat u mod unat bs" using ux by (simp only: p_def)
    moreover have "unat u mod unat bs \<le> unat u" by (rule mod_less_eq_dividend)
    ultimately show ?thesis by linarith
  qed
  have px: "of_nat p = ?x" by (simp add: p_def)
  have "fold (sodium_pad_step (of_nat p) (unat u + p)) [0..<unat bs] (buf, 0) =
      (padded buf (unat u + p) p (unat bs), if unat bs \<le> p then 0 else - 1)"
    using tb p ge assms(3) by (intro sodium_pad_loop) auto
  then have "buf' = padded buf (unat u + p) p (unat bs)"
    using f t px by simp
  then have buf': "buf' = take (unat u) buf @ [0x80] @ replicate p 0 @ drop (unat L) buf"
    using p uL by (simp add: padded_def)
  have "unat u + p + 1 = unat u - unat u mod unat bs + unat bs"
  proof -
    have "p = unat bs - 1 - unat u mod unat bs" using ux by (simp only: p_def)
    moreover have "unat u mod unat bs \<le> unat u" by (rule mod_less_eq_dividend)
    moreover have "unat u mod unat bs < unat bs" using bs by simp
    ultimately show ?thesis by linarith
  qed
  then have "unat L mod unat bs = 0"
    using uL by (simp add: minus_mod_eq_mult_div)
  with p uL tb buf' show ?thesis by (intro that [of p]) auto
qed

text \<open>One round of the constant-time scan of \<open>sodium_unpad\<close>.\<close>

lemma bit_8_byte_pred: "bit (ucast (d :: u8) - 1 :: u32) 8 \<longleftrightarrow> d = 0"
proof -
  have "bit (1 AND drop_bit 8 (ucast d - 1 :: u32)) 0 \<longleftrightarrow> bit (ucast d - 1 :: u32) 8"
    by (simp add: bit_and_iff bit_drop_bit_eq del: bit_0)
  then show ?thesis unfolding byte_pred_shift by (simp split: if_splits)
qed

lemma bit_0_word_1: "(w AND 1 :: 'a::len word) = (if bit w 0 then 1 else 0)"
  by (simp add: and_one_eq mod_2_eq_odd bit_0)

lemma unpad_barrier:
  fixes c acc :: u8 and pl :: u64
  shows "drop_bit 8 (ucast (ucast acc - 1 :: u32) AND (pl - 1) AND ucast (ucast (c XOR 0x80) - 1 :: u32))
      AND (1 :: u64) = (if acc = 0 \<and> bit (pl - 1) 8 \<and> c = 0x80 then 1 else 0)"
proof -
  have "bit (drop_bit 8 (ucast (ucast acc - 1 :: u32) AND (pl - 1) AND ucast (ucast (c XOR 0x80) - 1 :: u32)) :: u64) 0
      \<longleftrightarrow> acc = 0 \<and> bit (pl - 1) 8 \<and> c = 0x80"
    by (simp add: bit_drop_bit_eq bit_and_iff bit_unsigned_iff bit_8_byte_pred xor_eq_0_word del: bit_0)
  then show ?thesis by (simp only: bit_0_word_1)
qed

lemma sodium_unpad_step_eq:
  "sodium_unpad_step buf t i (acc, pl, v) =
    (let hit = acc = 0 \<and> bit (pl - 1) 8 \<and> buf ! (t - i) = 0x80
     in (acc OR buf ! (t - i), pl OR (if hit then of_nat i else 0), v OR (if hit then 1 else 0)))"
  unfolding sodium_unpad_step_def Let_def prod.case unpad_barrier by simp

lemma sodium_unpad_scan:
  assumes "t < length buf" "p \<le> t"
    and "\<And>i. i < p \<Longrightarrow> buf ! (t - i) = 0" "buf ! (t - p) = 0x80"
  shows "n \<le> t + 1 \<Longrightarrow> \<exists>acc.
    fold (sodium_unpad_step buf t) [0..<n] (0, 0, 0) =
      (if n \<le> p then (0, 0, 0) else (acc, of_nat p, 1)) \<and> acc \<noteq> 0"
proof (induction n)
  case 0
  show ?case by (rule exI [of _ 1]) simp
next
  case (Suc n)
  then obtain acc where IH: "fold (sodium_unpad_step buf t) [0..<n] (0, 0, 0) =
      (if n \<le> p then (0, 0, 0) else (acc, of_nat p, 1))" "acc \<noteq> 0" by auto
  consider "n < p" | "n = p" | "p < n" by linarith
  then show ?case
  proof cases
    case 1
    then show ?thesis using IH assms(3) [of n]
      by (auto simp: sodium_unpad_step_eq Let_def)
  next
    case 2
    then show ?thesis using IH assms(4)
      by (auto simp: sodium_unpad_step_eq Let_def
          intro: exI [of _ "0x80"])
  next
    case 3
    have "acc OR buf ! (t - n) \<noteq> 0" using IH(2) by (simp add: or_eq_0_iff)
    then show ?thesis using 3 IH
      by (auto simp: sodium_unpad_step_eq Let_def)
  qed
qed


text \<open>Unpadding a padded buffer gives the original length, and the original bytes are untouched.\<close>

lemma sodium_unpad_pad:
  assumes "sodium_pad buf u bs mx = Inr (buf', L)" "unat mx \<le> length buf" "unat bs \<le> 2 ^ 56"
  shows "sodium_unpad buf' L bs = Inr u" and "take (unat u) buf' = take (unat u) buf"
proof -
  have bs: "0 < unat bs" "bs \<noteq> 0"
    using assms(1) by (auto simp: sodium_pad_def unat_gt_0 split: if_splits)
  obtain p where p: "p < unat bs" "unat L = unat u + p + 1" "unat L mod unat bs = 0"
    "unat L \<le> length buf"
    "buf' = take (unat u) buf @ [0x80] @ replicate p 0 @ drop (unat L) buf"
    using sodium_pad_Inr [OF assms] by blast
  have lu: "length (take (unat u) buf) = unat u" using p(2,4) by simp
  show "take (unat u) buf' = take (unat u) buf" using lu p(5) by simp
  have ge: "unat bs \<le> unat L" using p(2,3) by (metis Suc_eq_plus1 dvd_imp_le mod_0_imp_dvd zero_less_Suc)
  have t: "unat (L - 1) = unat u + p"
    using p(2) by (subst unat_sub) (auto simp: word_le_nat_alt)
  have "length buf' = length buf" using lu p(2,4,5) by simp
  then have tb: "unat u + p < length buf'" using p(2,4) by simp
  have z: "buf' ! (unat u + p - i) = 0" if "i < p" for i
  proof -
    have "buf' ! (unat u + (p - i)) = ([0x80] @ replicate p 0 @ drop (unat L) buf) ! (p - i)"
      using nth_append_length_plus [of "take (unat u) buf" _ "p - i"] lu p(5) by metis
    also have "\<dots> = 0" using that by (simp add: nth_append)
    finally show ?thesis using that by simp
  qed
  have b: "buf' ! (unat u + p - p) = 0x80"
    using lu by (simp add: p(5) nth_append)
  obtain acc where "fold (sodium_unpad_step buf' (unat u + p)) [0..<unat bs] (0, 0, 0) =
      (if unat bs \<le> p then (0, 0, 0) else (acc, of_nat p, 1))"
    using sodium_unpad_scan [OF tb le_add2 z b, of "unat bs"] ge p(2) by auto
  moreover have "L - 1 - of_nat p = u"
  proof -
    have "unat bs < 2 ^ 64" using unsigned_less [of bs, where ?'a = nat] by simp
    then have "unat (of_nat p :: u64) = p"
      using p(1) by (simp add: unsigned_of_nat take_bit_nat_eq_self)
    then have "unat (L - 1 - of_nat p) = unat u"
      using t by (subst unat_sub) (simp_all add: word_le_nat_alt)
    then show ?thesis by (simp add: word_eq_iff_unsigned [where ?'a = nat])
  qed
  ultimately show "sodium_unpad buf' L bs = Inr u"
    using p(1) ge t bs by (simp add: sodium_unpad_def Let_def word_less_nat_alt)
qed

section \<open>Properties\<close>

text \<open>
  When \<open>sodium_pad\<close> succeeds in a buffer that really has the \<open>max_buflen\<close> bytes it is told, the
  padded length is the next multiple of the block size, the data bytes are unchanged, and
  \<open>sodium_unpad\<close> of the result gives the original length back.  The block size is bounded by
  \<open>2^56\<close>, beyond which the constant-time barrier of the code is not a mask.
\<close>

theorem sodium_pad_roundtrip:
  assumes "sodium_pad buf u bs max_buflen = Inr (buf', L)"
    and "unat max_buflen \<le> length buf" "unat bs \<le> 2 ^ 56"
  shows "sodium_unpad buf' L bs = Inr u \<and> take (unat u) buf' = take (unat u) buf \<and>
    unat u < unat L \<and> unat L \<le> unat u + unat bs \<and> unat bs dvd unat L"
  using sodium_unpad_pad [OF assms] sodium_pad_Inr [OF assms] by (metis Suc_leI add.commute add_Suc_right
      add_le_cancel_left dvd_eq_mod_eq_0 le_add1 le_imp_less_Suc plus_1_eq_Suc)

lemma sodium_pad_roundtrip_witness:
  "sodium_unpad [7, 8, 9, 0x80, 0, 0] 4 2 = Inr 3"
proof -
  have "sodium_pad [7, 8, 9, 1, 0, 0] 3 2 6 = Inr ([7, 8, 9, 0x80, 0, 0], 4)" by code_simp
  from sodium_pad_roundtrip [OF this] show ?thesis by simp
qed

text \<open>
  \<open>sodium_compare\<close> gives \<open>-1\<close>, \<open>0\<close> or \<open>1\<close> as the little-endian number in the first buffer is
  below, equal to or above the one in the second.
\<close>

theorem sodium_compare_order:
  assumes "len \<le> length b1" "len \<le> length b2"
  shows "sodium_compare b1 b2 len =
    (let v1 = le_val (take len b1); v2 = le_val (take len b2)
     in if v1 < v2 then - 1 else if v1 > v2 then 1 else 0)"
  using assms by (rule sodium_compare_eq)

lemma sodium_compare_order_witness: "sodium_compare [255, 1] [0, 2] 2 = - 1"
  using sodium_compare_order [of 2 "[255, 1]" "[0, 2]"] by simp

end
