(* ===== verification/StreamCipher.thy ===== *)
theory StreamCipher
  imports SodiumUtils
begin

text \<open>
  The stream loops that libsodium repeats for each Salsa20 variant
  (\<open>crypto_stream/salsa20/ref/salsa20_ref.c\<close>, \<open>salsa2012_ref.c\<close>, \<open>salsa208_ref.c\<close>) and the facts
  every cipher built on a 64-byte block function with a 64-bit block counter shares.  The loops
  take the block function \<open>core\<close> (\<open>crypto_core_salsa20\<close>, ...) as an argument: it maps the 16 input
  bytes (nonce and counter) and the key to a block.
\<close>

section \<open>The loops\<close>

text \<open>The counter in bytes 8 to 15 of the input, advanced by the loop over \<open>u\<close>.\<close>

definition incr_counter :: "bytes \<Rightarrow> bytes" where
  "incr_counter inp = take 8 inp @ add_carry 1 (drop 8 inp)"

function stream_ref_loop :: "(bytes \<Rightarrow> bytes \<Rightarrow> bytes) \<Rightarrow> bytes \<Rightarrow> bytes \<Rightarrow> nat \<Rightarrow> bytes" where
  "stream_ref_loop core inp k clen =
     (if 64 \<le> clen then core inp k @ stream_ref_loop core (incr_counter inp) k (clen - 64)
      else if 0 < clen then take clen (core inp k)
      else [])"
  by pat_completeness auto
termination by (relation "measure (\<lambda>(core, inp, k, clen). clen)") auto

definition stream_ref :: "(bytes \<Rightarrow> bytes \<Rightarrow> bytes) \<Rightarrow> nat \<Rightarrow> bytes \<Rightarrow> bytes \<Rightarrow> bytes" where
  "stream_ref core clen n k =
     (if clen = 0 then []
      else stream_ref_loop core (take 8 n @ replicate 8 0) (take 32 k) clen)"

function stream_ref_xor_loop :: "(bytes \<Rightarrow> bytes \<Rightarrow> bytes) \<Rightarrow> bytes \<Rightarrow> bytes \<Rightarrow> bytes \<Rightarrow> bytes" where
  "stream_ref_xor_loop core inp k m =
     (if 64 \<le> length m then
        xor_buf (take 64 m) (core inp k) @ stream_ref_xor_loop core (incr_counter inp) k (drop 64 m)
      else if 0 < length m then xor_buf m (core inp k)
      else [])"
  by pat_completeness auto
termination by (relation "measure (\<lambda>(core, inp, k, m). length m)") auto

text \<open>The message of \<open>mlen\<close> bytes is the list \<open>m\<close>; the loop that splits \<open>ic\<close> is \<open>store64_le\<close>.\<close>

definition stream_ref_xor_ic ::
    "(bytes \<Rightarrow> bytes \<Rightarrow> bytes) \<Rightarrow> bytes \<Rightarrow> bytes \<Rightarrow> u64 \<Rightarrow> bytes \<Rightarrow> bytes" where
  "stream_ref_xor_ic core m n ic k =
     (if length m = 0 then []
      else stream_ref_xor_loop core (take 8 n @ store64_le ic) (take 32 k) m)"

declare stream_ref_loop.simps [simp del] stream_ref_xor_loop.simps [simp del]

section \<open>The keystream\<close>

text \<open>The first \<open>len\<close> bytes of the blocks numbered \<open>ic\<close>, \<open>ic + 1\<close>, ... (modulo \<open>2^64\<close>).\<close>

fun blocks :: "(bytes \<Rightarrow> bytes \<Rightarrow> bytes) \<Rightarrow> bytes \<Rightarrow> u64 \<Rightarrow> bytes \<Rightarrow> nat \<Rightarrow> bytes" where
  "blocks core n ic k 0 = []"
| "blocks core n ic k (Suc j) =
     core (take 8 n @ store64_le ic) (take 32 k) @ blocks core n (ic + 1) k j"

definition keystream :: "(bytes \<Rightarrow> bytes \<Rightarrow> bytes) \<Rightarrow> bytes \<Rightarrow> u64 \<Rightarrow> bytes \<Rightarrow> nat \<Rightarrow> bytes" where
  "keystream core n ic k len = take len (blocks core n ic k (Suc (len div 64)))"

subsection \<open>The counter\<close>

lemma le_val_store64_le: "le_val (store64_le w) = unat w"
proof -
  have *: "unat (ucast (drop_bit j w) :: u8) = unat w div 2 ^ j mod 256" for j
    by (simp only: unat_ucast_to_byte unat_drop_bit_eq) (simp only: drop_bit_eq_div)
  have div: "x = x mod 256 + 256 * (x div 256)" for x :: nat by simp
  have lt: "unat w < 2 ^ 64" using unsigned_less [of w, where ?'a = nat] by simp
  let ?d = "\<lambda>j. unat w div 2 ^ j"
  have step: "?d j = ?d j mod 256 + 256 * ?d (j + 8)" for j
    using div [of "?d j"] by (simp add: div_mult2_eq power_add)
  have top: "?d 64 = 0" using lt by simp
  have "unat w = ?d 0" by simp
  also have "\<dots> = ?d 0 mod 256 + 256 * (?d 8 mod 256 + 256 * (?d 16 mod 256 + 256 * (?d 24 mod 256 +
      256 * (?d 32 mod 256 + 256 * (?d 40 mod 256 + 256 * (?d 48 mod 256 + 256 * (?d 56 mod 256)))))))"
    using step [of 0] step [of 8] step [of 16] step [of 24] step [of 32] step [of 40] step [of 48]
      step [of 56] top by simp
  finally show ?thesis
    unfolding store64_le_def le_val.simps * by (simp add: unat_ucast_to_byte)
qed

lemma add_carry_store64_le: "add_carry 1 (store64_le w) = store64_le (w + 1)"
proof (rule le_val_inj)
  show "le_val (add_carry 1 (store64_le w)) = le_val (store64_le (w + 1))"
    by (simp add: le_val_add_carry le_val_store64_le unat_word_ariths)
qed simp

lemma incr_counter_store [simp]:
  "incr_counter (take 8 n @ store64_le ic) = take 8 n @ store64_le (ic + 1)" if "8 \<le> length n"
  using that by (simp add: incr_counter_def add_carry_store64_le)

lemma store64_le_0: "store64_le 0 = replicate 8 0"
  by (simp add: store64_le_def eval_nat_numeral)

section \<open>Block ciphers in counter mode\<close>

locale block_stream =
  fixes core :: "bytes \<Rightarrow> bytes \<Rightarrow> bytes"
  assumes length_core [simp]: "length (core inp k) = 64"
begin

lemma length_blocks [simp]: "length (blocks core n ic k j) = 64 * j"
  by (induction j arbitrary: ic) auto

lemma length_keystream [simp]: "length (keystream core n ic k len) = len"
proof -
  have "len < 64 * Suc (len div 64)" by (simp add: dividend_less_times_div)
  then show ?thesis by (simp add: keystream_def del: mult_Suc_right)
qed

lemma blocks_add: "blocks core n ic k (i + j) = blocks core n ic k i @ blocks core n (ic + of_nat i) k j"
  by (induction i arbitrary: ic) (auto simp: ac_simps)

lemma keystream_blocks:
  assumes "len \<le> 64 * j"
  shows "keystream core n ic k len = take len (blocks core n ic k j)"
proof -
  have eq: "take len (blocks core n ic k i) = take len (blocks core n ic k (i + d))"
    if "len \<le> 64 * i" for i d
    using that by (simp add: blocks_add)
  have len: "len \<le> 64 * Suc (len div 64)" using dividend_less_times_div [of 64 len] by simp
  show ?thesis
  proof (cases "j \<le> Suc (len div 64)")
    case True
    then show ?thesis using eq [OF assms, of "Suc (len div 64) - j"] by (simp add: keystream_def)
  next
    case False
    then show ?thesis using eq [OF len, of "j - Suc (len div 64)"] by (simp add: keystream_def)
  qed
qed

lemma keystream_prefix: "l \<le> len \<Longrightarrow> take l (keystream core n ic k len) = keystream core n ic k l"
  using keystream_blocks [of l "Suc (len div 64)" n ic k] dividend_less_times_div [of 64 len]
  by (simp add: keystream_def min_absorb1 del: blocks.simps)

text \<open>Seeking by whole blocks is adding to the initial counter.\<close>

lemma keystream_add:
  "keystream core n ic k (64 * j + len) =
   keystream core n ic k (64 * j) @ keystream core n (ic + of_nat j) k len"
proof -
  let ?q = "Suc (len div 64)"
  have "len \<le> 64 * ?q" using dividend_less_times_div [of 64 len] by simp
  then have "keystream core n ic k (64 * j + len) = take (64 * j + len) (blocks core n ic k (j + ?q))"
    by (intro keystream_blocks) simp
  also have "\<dots> = blocks core n ic k j @ take len (blocks core n (ic + of_nat j) k ?q)"
    by (simp only: blocks_add take_append length_blocks) simp
  finally show ?thesis using keystream_blocks [of "64 * j" j n ic k] by (simp add: keystream_def)
qed

lemma keystream_64:
  "64 \<le> len \<Longrightarrow> keystream core n ic k len =
   core (take 8 n @ store64_le ic) (take 32 k) @ keystream core n (ic + 1) k (len - 64)"
  using keystream_add [of n ic k 1 "len - 64"] keystream_blocks [of 64 1 n ic k] by simp

lemma keystream_short:
  "len \<le> 64 \<Longrightarrow> keystream core n ic k len = take len (core (take 8 n @ store64_le ic) (take 32 k))"
  using keystream_blocks [of len 1 n ic k] by simp

lemma stream_ref_loop_keystream:
  assumes "8 \<le> length n"
  shows "stream_ref_loop core (take 8 n @ store64_le ic) (take 32 k) len = keystream core n ic k len"
proof (induction len arbitrary: ic rule: less_induct)
  case (less len)
  show ?case
    using less [of "len - 64" "ic + 1"] assms
    by (subst stream_ref_loop.simps) (simp add: keystream_64 keystream_short)
qed

lemma stream_ref_keystream: "8 \<le> length n \<Longrightarrow> stream_ref core len n k = keystream core n 0 k len"
  using stream_ref_loop_keystream [of n 0 k len] by (auto simp: stream_ref_def store64_le_0 keystream_def)

lemma stream_ref_xor_loop_keystream:
  assumes "8 \<le> length n"
  shows "stream_ref_xor_loop core (take 8 n @ store64_le ic) (take 32 k) m =
    xor_buf m (keystream core n ic k (length m))"
proof (induction m arbitrary: ic rule: length_induct)
  case (1 m)
  show ?case
  proof (cases "64 \<le> length m")
    case True
    have "xor_buf m (keystream core n ic k (length m)) =
        xor_buf (take 64 m @ drop 64 m) (core (take 8 n @ store64_le ic) (take 32 k) @
          keystream core n (ic + 1) k (length m - 64))"
      using True by (simp add: keystream_64)
    also have "\<dots> = xor_buf (take 64 m) (core (take 8 n @ store64_le ic) (take 32 k)) @
        xor_buf (drop 64 m) (keystream core n (ic + 1) k (length m - 64))"
      using True by (intro xor_buf_append) simp
    finally show ?thesis
      using True 1 [rule_format, of "drop 64 m" "ic + 1"] assms
      by (subst stream_ref_xor_loop.simps) simp
  next
    case False
    then show ?thesis
      by (subst stream_ref_xor_loop.simps) (simp add: keystream_short flip: xor_buf_take_left)
  qed
qed

lemma stream_ref_xor_keystream:
  "8 \<le> length n \<Longrightarrow>
   stream_ref_xor_ic core m n ic k = xor_buf m (keystream core n ic k (length m))"
  using stream_ref_xor_loop_keystream [of n ic k m] by (auto simp: stream_ref_xor_ic_def)

lemma length_stream_ref_xor_ic [simp]:
  "8 \<le> length n \<Longrightarrow> length (stream_ref_xor_ic core m n ic k) = length m"
  by (simp add: stream_ref_xor_keystream)

text \<open>Decrypting is encrypting again.\<close>

lemma stream_ref_xor_involution:
  "8 \<le> length n \<Longrightarrow> stream_ref_xor_ic core (stream_ref_xor_ic core m n ic k) n ic k = m"
  by (simp add: stream_ref_xor_keystream xor_buf_cancel)

text \<open>A message may be encrypted in pieces, each at the counter of its first block.\<close>

lemma stream_ref_xor_seek:
  assumes "8 \<le> length n" "length a = 64 * j"
  shows "stream_ref_xor_ic core (a @ b) n ic k =
    stream_ref_xor_ic core a n ic k @ stream_ref_xor_ic core b n (ic + of_nat j) k"
  using assms keystream_add [of n ic k j "length b"]
  by (simp add: stream_ref_xor_keystream xor_buf_append)

lemma stream_ref_xor_prefix:
  assumes "8 \<le> length n"
  shows "take l (stream_ref_xor_ic core m n ic k) = stream_ref_xor_ic core (take l m) n ic k"
proof (cases "l \<le> length m")
  case True
  then show ?thesis using assms
    by (simp add: stream_ref_xor_keystream take_xor_buf keystream_prefix min_absorb2)
next
  case False
  then show ?thesis using assms by simp
qed

end

end
