(* ===== verification/Salsa.thy ===== *)
theory Salsa
  imports StreamCipher
begin

text \<open>
  Salsa20: the block function of \<open>crypto_core/salsa/ref/core_salsa_ref.c\<close>, the key derivation
  \<open>crypto_core/hsalsa20/ref2/core_hsalsa20_ref2.c\<close> and the ciphers \<open>salsa20\<close> and \<open>xsalsa20\<close> of
  \<open>crypto_stream\<close>.  The sixteen variables \<open>x0\<close> to \<open>x15\<close> are a list of words; each line
  \<open>xd ^= ROTL32(xa + xb, r)\<close> of the round loop is an entry \<open>(d, a, b, r)\<close> of a table.
\<close>

section \<open>The round function\<close>

definition salsa_op :: "nat \<times> nat \<times> nat \<times> nat \<Rightarrow> u32 list \<Rightarrow> u32 list" where
  "salsa_op = (\<lambda>(d, a, b, r) x. x[d := x ! d XOR rotl32 (x ! a + x ! b) r])"

definition salsa_ops :: "(nat \<times> nat \<times> nat \<times> nat) list" where
  "salsa_ops =
    [(4, 0, 12, 7), (8, 4, 0, 9), (12, 8, 4, 13), (0, 12, 8, 18),
     (9, 5, 1, 7), (13, 9, 5, 9), (1, 13, 9, 13), (5, 1, 13, 18),
     (14, 10, 6, 7), (2, 14, 10, 9), (6, 2, 14, 13), (10, 6, 2, 18),
     (3, 15, 11, 7), (7, 3, 15, 9), (11, 7, 3, 13), (15, 11, 7, 18),
     (1, 0, 3, 7), (2, 1, 0, 9), (3, 2, 1, 13), (0, 3, 2, 18),
     (6, 5, 4, 7), (7, 6, 5, 9), (4, 7, 6, 13), (5, 4, 7, 18),
     (11, 10, 9, 7), (8, 11, 10, 9), (9, 8, 11, 13), (10, 9, 8, 18),
     (12, 15, 14, 7), (13, 12, 15, 9), (14, 13, 12, 13), (15, 14, 13, 18)]"

definition salsa_doubleround :: "u32 list \<Rightarrow> u32 list" where
  "salsa_doubleround x = fold salsa_op salsa_ops x"

text \<open>The default constants, "expand 32-byte k", and the initial state.\<close>

definition salsa_sigma :: "bytes option \<Rightarrow> u32 list" where
  "salsa_sigma c =
     (case c of
        None \<Rightarrow> [0x61707865, 0x3320646e, 0x79622d32, 0x6b206574]
      | Some c \<Rightarrow> [load32_le c, load32_le (drop 4 c), load32_le (drop 8 c), load32_le (drop 12 c)])"

definition salsa_init :: "bytes \<Rightarrow> bytes \<Rightarrow> bytes option \<Rightarrow> u32 list" where
  "salsa_init inp k c =
     (let s = salsa_sigma c; kw = (\<lambda>i. load32_le (drop i k)); iw = (\<lambda>i. load32_le (drop i inp))
      in [s ! 0, kw 0, kw 4, kw 8, kw 12, s ! 1, iw 0, iw 4, iw 8, iw 12, s ! 2,
          kw 16, kw 20, kw 24, kw 28, s ! 3])"

text \<open>The loop \<open>for (i = 0; i < rounds; i += 2)\<close> runs half of \<open>rounds\<close> times, rounded up.\<close>

definition crypto_core_salsa :: "bytes \<Rightarrow> bytes \<Rightarrow> bytes option \<Rightarrow> nat \<Rightarrow> bytes" where
  "crypto_core_salsa inp k c rounds =
     (let j = salsa_init inp k c;
          x = (salsa_doubleround ^^ ((rounds + 1) div 2)) j
      in concat (map store32_le (map2 (+) x j)))"

definition crypto_core_salsa20 :: "bytes \<Rightarrow> bytes \<Rightarrow> bytes option \<Rightarrow> bytes" where
  "crypto_core_salsa20 inp k c = crypto_core_salsa inp k c 20"

definition crypto_core_salsa2012 :: "bytes \<Rightarrow> bytes \<Rightarrow> bytes option \<Rightarrow> bytes" where
  "crypto_core_salsa2012 inp k c = crypto_core_salsa inp k c 12"

definition crypto_core_salsa208 :: "bytes \<Rightarrow> bytes \<Rightarrow> bytes option \<Rightarrow> bytes" where
  "crypto_core_salsa208 inp k c = crypto_core_salsa inp k c 8"

text \<open>HSalsa20 has the same loop, of ten iterations, and gives out eight of the words.\<close>

definition crypto_core_hsalsa20 :: "bytes \<Rightarrow> bytes \<Rightarrow> bytes option \<Rightarrow> bytes" where
  "crypto_core_hsalsa20 inp k c =
     (let x = (salsa_doubleround ^^ 10) (salsa_init inp k c)
      in concat (map (\<lambda>i. store32_le (x ! i)) [0, 5, 10, 15, 6, 7, 8, 9]))"

section \<open>The ciphers\<close>

definition salsa20_core :: "bytes \<Rightarrow> bytes \<Rightarrow> bytes" where
  "salsa20_core inp k = crypto_core_salsa20 inp k None"

definition crypto_stream_salsa20 :: "nat \<Rightarrow> bytes \<Rightarrow> bytes \<Rightarrow> bytes" where
  "crypto_stream_salsa20 clen n k = stream_ref salsa20_core clen n k"

definition crypto_stream_salsa20_xor_ic :: "bytes \<Rightarrow> bytes \<Rightarrow> u64 \<Rightarrow> bytes \<Rightarrow> bytes" where
  "crypto_stream_salsa20_xor_ic m n ic k = stream_ref_xor_ic salsa20_core m n ic k"

definition crypto_stream_salsa20_xor :: "bytes \<Rightarrow> bytes \<Rightarrow> bytes \<Rightarrow> bytes" where
  "crypto_stream_salsa20_xor m n k = stream_ref_xor_ic salsa20_core m n 0 k"

definition crypto_stream_xsalsa20 :: "nat \<Rightarrow> bytes \<Rightarrow> bytes \<Rightarrow> bytes" where
  "crypto_stream_xsalsa20 clen n k =
     (let subkey = crypto_core_hsalsa20 n k None
      in crypto_stream_salsa20 clen (drop 16 n) subkey)"

definition crypto_stream_xsalsa20_xor_ic :: "bytes \<Rightarrow> bytes \<Rightarrow> u64 \<Rightarrow> bytes \<Rightarrow> bytes" where
  "crypto_stream_xsalsa20_xor_ic m n ic k =
     (let subkey = crypto_core_hsalsa20 n k None
      in crypto_stream_salsa20_xor_ic m (drop 16 n) ic subkey)"

definition crypto_stream_xsalsa20_xor :: "bytes \<Rightarrow> bytes \<Rightarrow> bytes \<Rightarrow> bytes" where
  "crypto_stream_xsalsa20_xor m n k = crypto_stream_xsalsa20_xor_ic m n 0 k"

definition crypto_stream :: "nat \<Rightarrow> bytes \<Rightarrow> bytes \<Rightarrow> bytes" where
  "crypto_stream clen n k = crypto_stream_xsalsa20 clen n k"

definition crypto_stream_xor :: "bytes \<Rightarrow> bytes \<Rightarrow> bytes \<Rightarrow> bytes" where
  "crypto_stream_xor m n k = crypto_stream_xsalsa20_xor m n k"

section \<open>Facts about the block function\<close>

lemma length_salsa_op [simp]: "length (salsa_op op x) = length x"
  by (simp add: salsa_op_def split: prod.split)

lemma length_fold_salsa_op [simp]: "length (fold salsa_op ops x) = length x"
  by (induction ops arbitrary: x) auto

lemma length_salsa_doubleround [simp]: "length (salsa_doubleround x) = length x"
  by (simp add: salsa_doubleround_def)

lemma length_salsa_rounds [simp]: "length ((salsa_doubleround ^^ j) x) = length x"
  by (induction j) auto

lemma length_salsa_init [simp]: "length (salsa_init inp k c) = 16"
  by (simp add: salsa_init_def Let_def)

lemma length_crypto_core_salsa [simp]: "length (crypto_core_salsa inp k c r) = 64"
  by (simp add: crypto_core_salsa_def Let_def del: map_map)

lemma length_crypto_core_hsalsa20 [simp]: "length (crypto_core_hsalsa20 inp k c) = 32"
  by (simp add: crypto_core_hsalsa20_def Let_def)

interpretation salsa20: block_stream salsa20_core
  by unfold_locales (simp add: salsa20_core_def crypto_core_salsa20_def)

lemma length_crypto_stream_salsa20 [simp]:
  "8 \<le> length n \<Longrightarrow> length (crypto_stream_salsa20 len n k) = len"
  by (simp add: crypto_stream_salsa20_def salsa20.stream_ref_keystream)

lemma length_crypto_stream_salsa20_xor_ic [simp]:
  "8 \<le> length n \<Longrightarrow> length (crypto_stream_salsa20_xor_ic m n ic k) = length m"
  by (simp add: crypto_stream_salsa20_xor_ic_def)

lemma crypto_stream_salsa20_xor_eq:
  "crypto_stream_salsa20_xor m n k = crypto_stream_salsa20_xor_ic m n 0 k"
  by (simp add: crypto_stream_salsa20_xor_def crypto_stream_salsa20_xor_ic_def)

section \<open>The reference description\<close>

text \<open>
  The definition of the double round in the specification of Salsa20: a quarter round on the
  columns and then on the rows of the matrix, each started at the diagonal.
\<close>

definition quarterround :: "u32 \<Rightarrow> u32 \<Rightarrow> u32 \<Rightarrow> u32 \<Rightarrow> u32 \<times> u32 \<times> u32 \<times> u32" where
  "quarterround y0 y1 y2 y3 =
     (let z1 = y1 XOR rotl32 (y0 + y3) 7;
          z2 = y2 XOR rotl32 (z1 + y0) 9;
          z3 = y3 XOR rotl32 (z2 + z1) 13;
          z0 = y0 XOR rotl32 (z3 + z2) 18
      in (z0, z1, z2, z3))"

text \<open>A quarter round on the words at four places of the state.\<close>

definition quarter_at :: "nat \<Rightarrow> nat \<Rightarrow> nat \<Rightarrow> nat \<Rightarrow> u32 list \<Rightarrow> u32 list" where
  "quarter_at a b c d x =
     (let (z0, z1, z2, z3) = quarterround (x ! a) (x ! b) (x ! c) (x ! d)
      in x[a := z0, b := z1, c := z2, d := z3])"

definition columnround :: "u32 list \<Rightarrow> u32 list" where
  "columnround x =
     quarter_at 15 3 7 11 (quarter_at 10 14 2 6 (quarter_at 5 9 13 1 (quarter_at 0 4 8 12 x)))"

definition rowround :: "u32 list \<Rightarrow> u32 list" where
  "rowround x =
     quarter_at 15 12 13 14 (quarter_at 10 11 8 9 (quarter_at 5 6 7 4 (quarter_at 0 1 2 3 x)))"

lemma length_quarter_at [simp]: "length (quarter_at a b c d x) = length x"
  by (simp add: quarter_at_def Let_def split: prod.split)

text \<open>Four lines of the table are one quarter round.\<close>

lemma fold_salsa_op_quarter:
  assumes "distinct [a, b, c, d]" "a < length x" "b < length x" "c < length x" "d < length x"
  shows "fold salsa_op [(b, a, d, 7), (c, b, a, 9), (d, c, b, 13), (a, d, c, 18)] x = quarter_at a b c d x"
  using assms
  by (auto simp: salsa_op_def quarter_at_def quarterround_def Let_def list_update_swap
      intro!: nth_equalityI)

lemma salsa_ops_quarters:
  "salsa_ops =
    concat (map (\<lambda>(a, b, c, d). [(b, a, d, 7), (c, b, a, 9), (d, c, b, 13), (a, d, c, 18)])
      [(0, 4, 8, 12), (5, 9, 13, 1), (10, 14, 2, 6), (15, 3, 7, 11),
       (0, 1, 2, 3), (5, 6, 7, 4), (10, 11, 8, 9), (15, 12, 13, 14)])"
  by (simp add: salsa_ops_def)

lemma salsa_doubleround_rounds:
  "length x = 16 \<Longrightarrow> salsa_doubleround x = rowround (columnround x)"
  unfolding salsa_doubleround_def salsa_ops_quarters columnround_def rowround_def
  by (simp only: list.map concat.simps prod.case fold_append o_apply append_Nil2)
    (simp add: fold_salsa_op_quarter del: fold.simps fold_simps)

section \<open>Properties\<close>

text \<open>
  The unrolled round loop of \<open>crypto_core_salsa\<close> computes the double round of the Salsa20
  specification, a column round followed by a row round.
\<close>

theorem salsa_doubleround_spec:
  assumes "length x = 16"
  shows "salsa_doubleround x = rowround (columnround x)"
  using assms by (rule salsa_doubleround_rounds)

lemma salsa_doubleround_spec_witness:
  "salsa_doubleround (1 # replicate 15 0) = rowround (columnround (1 # replicate 15 0))"
  by (rule salsa_doubleround_spec) simp

end
