(* ===== verification/Streaming.thy ===== *)
theory Streaming
  imports Prelude
begin

text \<open>
  The contract of an incremental computation over a byte string (a hash, a MAC): a state made by
  \<open>init\<close>, fed by \<open>update\<close>, read by \<open>final\<close>.  The predicate \<open>repr st msg\<close> says that the state
  has taken in \<open>msg\<close>; \<open>fits\<close> bounds the total length, where the code counts it in a fixed width.
  Providers are Poly1305, SHA-256 and BLAKE2b; the clients are the MAC of the secret box and the
  seal nonce of the sealed box.
\<close>

text \<open>Feed several buffers, one after the other.\<close>

fun update_all :: "('st \<Rightarrow> bytes \<Rightarrow> 'st) \<Rightarrow> 'st \<Rightarrow> bytes list \<Rightarrow> 'st" where
  "update_all update st [] = st"
| "update_all update st (m # ms) = update_all update (update st m) ms"

locale streaming =
  fixes repr :: "'st \<Rightarrow> bytes \<Rightarrow> bool"
    and fits :: "nat \<Rightarrow> bool"
    and init :: "'st"
    and update :: "'st \<Rightarrow> bytes \<Rightarrow> 'st"
    and final :: "'st \<Rightarrow> 'out"
    and digest :: "bytes \<Rightarrow> 'out"
  assumes fits_mono: "fits n \<Longrightarrow> m \<le> n \<Longrightarrow> fits m"
    and repr_init: "repr init []"
    and repr_update: "repr st a \<Longrightarrow> fits (length a + length b) \<Longrightarrow> repr (update st b) (a @ b)"
    and repr_final: "repr st a \<Longrightarrow> fits (length a) \<Longrightarrow> final st = digest a"
begin

lemma repr_update_all:
  "repr st a \<Longrightarrow> fits (length a + length (concat ms)) \<Longrightarrow>
   repr (update_all update st ms) (a @ concat ms)"
proof (induction ms arbitrary: st a)
  case (Cons m ms)
  have "repr (update st m) (a @ m)"
    using Cons.prems by (intro repr_update) (auto elim: fits_mono)
  from Cons.IH [OF this] Cons.prems(2) show ?case by (simp add: add.assoc)
qed simp

text \<open>However the message is cut, the result is the digest of the whole.\<close>

lemma final_update_all:
  "fits (length (concat ms)) \<Longrightarrow> final (update_all update init ms) = digest (concat ms)"
  using repr_update_all [OF repr_init, of ms] repr_final by fastforce

lemma final_update: "fits (length m) \<Longrightarrow> final (update init m) = digest m"
  using final_update_all [of "[m]"] by simp

end

end
