(* ===== verification/Poly1305.thy ===== *)
theory Poly1305
  imports SodiumUtils Streaming
begin

text \<open>
  The one-time authenticator Poly1305 of \<open>crypto_onetimeauth/poly1305/donna\<close>, in the 32-bit
  version \<open>poly1305_donna32.h\<close>: numbers modulo \<open>2^130 - 5\<close> in five limbs of 26 bits, an
  \<open>unsigned long\<close> of 32 bits, products of 64 bits.
\<close>

section \<open>State and operations (poly1305_donna32.h)\<close>

record poly1305_state_internal_t =
  st_r :: "u32 list"
  st_h :: "u32 list"
  st_pad :: "u32 list"
  st_leftover :: nat
  st_buffer :: bytes
  st_final :: bool

definition poly1305_init :: "bytes \<Rightarrow> poly1305_state_internal_t \<Rightarrow> poly1305_state_internal_t" where
  "poly1305_init key st = st\<lparr>
     st_r := [load32_le key AND 0x3ffffff,
              drop_bit 2 (load32_le (drop 3 key)) AND 0x3ffff03,
              drop_bit 4 (load32_le (drop 6 key)) AND 0x3ffc0ff,
              drop_bit 6 (load32_le (drop 9 key)) AND 0x3f03fff,
              drop_bit 8 (load32_le (drop 12 key)) AND 0x00fffff],
     st_h := [0, 0, 0, 0, 0],
     st_pad := [load32_le (drop 16 key), load32_le (drop 20 key),
                load32_le (drop 24 key), load32_le (drop 28 key)],
     st_leftover := 0,
     st_final := False\<rparr>"

text \<open>\<open>(unsigned long long) a * b\<close>\<close>

definition mul64 :: "u32 \<Rightarrow> u32 \<Rightarrow> u64" where
  "mul64 a b = ucast a * ucast b"

text \<open>One pass of the loop of \<open>poly1305_blocks\<close> over the 16 bytes at \<open>m\<close>.\<close>

definition poly1305_block :: "u32 \<Rightarrow> u32 list \<Rightarrow> u32 list \<Rightarrow> bytes \<Rightarrow> u32 list" where
  "poly1305_block hibit r h m =
     (let r0 = r ! 0; r1 = r ! 1; r2 = r ! 2; r3 = r ! 3; r4 = r ! 4;
          s1 = r1 * 5; s2 = r2 * 5; s3 = r3 * 5; s4 = r4 * 5;
          h0 = h ! 0 + (load32_le m AND 0x3ffffff);
          h1 = h ! 1 + (drop_bit 2 (load32_le (drop 3 m)) AND 0x3ffffff);
          h2 = h ! 2 + (drop_bit 4 (load32_le (drop 6 m)) AND 0x3ffffff);
          h3 = h ! 3 + (drop_bit 6 (load32_le (drop 9 m)) AND 0x3ffffff);
          h4 = h ! 4 + (drop_bit 8 (load32_le (drop 12 m)) OR hibit);
          d0 = mul64 h0 r0 + mul64 h1 s4 + mul64 h2 s3 + mul64 h3 s2 + mul64 h4 s1;
          d1 = mul64 h0 r1 + mul64 h1 r0 + mul64 h2 s4 + mul64 h3 s3 + mul64 h4 s2;
          d2 = mul64 h0 r2 + mul64 h1 r1 + mul64 h2 r0 + mul64 h3 s4 + mul64 h4 s3;
          d3 = mul64 h0 r3 + mul64 h1 r2 + mul64 h2 r1 + mul64 h3 r0 + mul64 h4 s4;
          d4 = mul64 h0 r4 + mul64 h1 r3 + mul64 h2 r2 + mul64 h3 r1 + mul64 h4 r0;
          c = ucast (drop_bit 26 d0); h0 = ucast d0 AND 0x3ffffff; d1 = d1 + ucast (c :: u32);
          c = ucast (drop_bit 26 d1); h1 = ucast d1 AND 0x3ffffff; d2 = d2 + ucast (c :: u32);
          c = ucast (drop_bit 26 d2); h2 = ucast d2 AND 0x3ffffff; d3 = d3 + ucast (c :: u32);
          c = ucast (drop_bit 26 d3); h3 = ucast d3 AND 0x3ffffff; d4 = d4 + ucast (c :: u32);
          c = ucast (drop_bit 26 d4); h4 = ucast d4 AND 0x3ffffff; h0 = h0 + c * 5;
          c = drop_bit 26 h0; h0 = h0 AND 0x3ffffff; h1 = h1 + c
      in [h0, h1, h2, h3, h4])"

function poly1305_blocks_loop :: "u32 \<Rightarrow> u32 list \<Rightarrow> u32 list \<Rightarrow> bytes \<Rightarrow> u32 list" where
  "poly1305_blocks_loop hibit r h m =
     (if 16 \<le> length m
      then poly1305_blocks_loop hibit r (poly1305_block hibit r h (take 16 m)) (drop 16 m)
      else h)"
  by pat_completeness auto
termination by (relation "measure (\<lambda>(hibit, r, h, m). length m)") auto

declare poly1305_blocks_loop.simps [simp del]

definition poly1305_blocks ::
    "poly1305_state_internal_t \<Rightarrow> bytes \<Rightarrow> poly1305_state_internal_t" where
  "poly1305_blocks st m =
     (let hibit = (if st_final st then 0 else 0x1000000)
      in st\<lparr>st_h := poly1305_blocks_loop hibit (st_r st) (st_h st) m\<rparr>)"

text \<open>
  The part of \<open>poly1305_finish\<close> on the number, in the steps its comments name: fully carry \<open>h\<close>;
  compute \<open>h + -p\<close> and select; \<open>h = h % (2^128)\<close>; \<open>mac = (h + pad) % (2^128)\<close>.
\<close>

definition poly1305_carry :: "u32 list \<Rightarrow> u32 list" where
  "poly1305_carry h =
     (let h0 = h ! 0; h1 = h ! 1; h2 = h ! 2; h3 = h ! 3; h4 = h ! 4;
          c = drop_bit 26 h1; h1 = h1 AND 0x3ffffff; h2 = h2 + c;
          c = drop_bit 26 h2; h2 = h2 AND 0x3ffffff; h3 = h3 + c;
          c = drop_bit 26 h3; h3 = h3 AND 0x3ffffff; h4 = h4 + c;
          c = drop_bit 26 h4; h4 = h4 AND 0x3ffffff; h0 = h0 + c * 5;
          c = drop_bit 26 h0; h0 = h0 AND 0x3ffffff; h1 = h1 + c
      in [h0, h1, h2, h3, h4])"

definition poly1305_select :: "u32 list \<Rightarrow> u32 list" where
  "poly1305_select h =
     (let h0 = h ! 0; h1 = h ! 1; h2 = h ! 2; h3 = h ! 3; h4 = h ! 4;
          g0 = h0 + 5; c = drop_bit 26 g0; g0 = g0 AND 0x3ffffff;
          g1 = h1 + c; c = drop_bit 26 g1; g1 = g1 AND 0x3ffffff;
          g2 = h2 + c; c = drop_bit 26 g2; g2 = g2 AND 0x3ffffff;
          g3 = h3 + c; c = drop_bit 26 g3; g3 = g3 AND 0x3ffffff;
          g4 = h4 + c - 0x4000000;
          mask = drop_bit 31 g4 - 1;
          g0 = g0 AND mask; g1 = g1 AND mask; g2 = g2 AND mask; g3 = g3 AND mask; g4 = g4 AND mask;
          mask = NOT mask
      in [(h0 AND mask) OR g0, (h1 AND mask) OR g1, (h2 AND mask) OR g2, (h3 AND mask) OR g3,
          (h4 AND mask) OR g4])"

definition poly1305_pack :: "u32 list \<Rightarrow> u32 list" where
  "poly1305_pack h =
     (let h0 = h ! 0; h1 = h ! 1; h2 = h ! 2; h3 = h ! 3; h4 = h ! 4
      in [(h0 OR push_bit 26 h1) AND 0xffffffff,
          (drop_bit 6 h1 OR push_bit 20 h2) AND 0xffffffff,
          (drop_bit 12 h2 OR push_bit 14 h3) AND 0xffffffff,
          (drop_bit 18 h3 OR push_bit 8 h4) AND 0xffffffff])"

definition poly1305_add_pad :: "u32 list \<Rightarrow> u32 list \<Rightarrow> u32 list" where
  "poly1305_add_pad h pad =
     (let f = ucast (h ! 0) + ucast (pad ! 0) :: u64; h0 = ucast f;
          f = ucast (h ! 1) + ucast (pad ! 1) + drop_bit 32 f; h1 = ucast f;
          f = ucast (h ! 2) + ucast (pad ! 2) + drop_bit 32 f; h2 = ucast f;
          f = ucast (h ! 3) + ucast (pad ! 3) + drop_bit 32 f; h3 = ucast f
      in [h0, h1, h2, h3])"

definition poly1305_reduce :: "u32 list \<Rightarrow> u32 list \<Rightarrow> u32 list" where
  "poly1305_reduce h pad = poly1305_add_pad (poly1305_pack (poly1305_select (poly1305_carry h))) pad"

definition poly1305_finish :: "poly1305_state_internal_t \<Rightarrow> bytes" where
  "poly1305_finish st =
     (let st' =
        (if st_leftover st \<noteq> 0 then
           let i = st_leftover st;
               buf = (st_buffer st)[i := 1];
               buf = write_at buf (i + 1) (replicate (16 - (i + 1)) 0)
           in poly1305_blocks (st\<lparr>st_buffer := buf, st_final := True\<rparr>) buf
         else st)
      in concat (map store32_le (poly1305_reduce (st_h st') (st_pad st'))))"

section \<open>Buffering (poly1305_donna.c)\<close>

text \<open>The second and third part of \<open>poly1305_update\<close>, reached with an empty buffer.\<close>

definition poly1305_update_blocks ::
    "poly1305_state_internal_t \<Rightarrow> bytes \<Rightarrow> poly1305_state_internal_t" where
  "poly1305_update_blocks st m =
     (let want = 16 * (length m div 16);
          st1 = (if 16 \<le> length m then poly1305_blocks st (take want m) else st);
          m1 = (if 16 \<le> length m then drop want m else m)
      in if m1 \<noteq> []
         then st1\<lparr>st_buffer := write_at (st_buffer st1) (st_leftover st1) m1,
                  st_leftover := st_leftover st1 + length m1\<rparr>
         else st1)"

definition poly1305_update ::
    "poly1305_state_internal_t \<Rightarrow> bytes \<Rightarrow> poly1305_state_internal_t" where
  "poly1305_update st m =
     (if st_leftover st \<noteq> 0 then
        let want = min (16 - st_leftover st) (length m);
            st1 = st\<lparr>st_buffer := write_at (st_buffer st) (st_leftover st) (take want m),
                     st_leftover := st_leftover st + want\<rparr>
        in if st_leftover st1 < 16 then st1
           else poly1305_update_blocks
                  (poly1305_blocks st1 (st_buffer st1)\<lparr>st_leftover := 0\<rparr>) (drop want m)
      else poly1305_update_blocks st m)"

text \<open>The state on the stack of the one-shot functions: its bytes are not defined by C.\<close>

definition crypto_onetimeauth_poly1305_init :: "bytes \<Rightarrow> poly1305_state_internal_t" where
  "crypto_onetimeauth_poly1305_init key =
     poly1305_init key \<lparr>st_r = [], st_h = [], st_pad = [], st_leftover = 0,
       st_buffer = replicate 16 0, st_final = False\<rparr>"

definition crypto_onetimeauth_poly1305 :: "bytes \<Rightarrow> bytes \<Rightarrow> bytes" where
  "crypto_onetimeauth_poly1305 m key =
     poly1305_finish (poly1305_update (crypto_onetimeauth_poly1305_init key) m)"

definition crypto_onetimeauth_poly1305_verify :: "bytes \<Rightarrow> bytes \<Rightarrow> bytes \<Rightarrow> i32" where
  "crypto_onetimeauth_poly1305_verify h m key =
     crypto_verify_16 h (crypto_onetimeauth_poly1305 m key)"

end
