(* ===== verification/Poly1305_Arith.thy ===== *)
theory Poly1305_Arith
  imports Poly1305
begin

text \<open>
  The arithmetic of Poly1305: a list of five words of 26 bits denotes the number \<open>limbs h\<close>; no step
  of \<open>poly1305_block\<close> or \<open>poly1305_reduce\<close> overflows its word, one block step multiplies modulo
  \<open>P = 2^130 - 5\<close>, and the final steps give the residue plus the pad modulo \<open>2^128\<close>.
\<close>

section \<open>Word arithmetic without overflow\<close>

lemma unat_add32: "unat x + unat y < 2 ^ 32 \<Longrightarrow> unat (x + y :: u32) = unat x + unat y"
  using unat_add_lem [of x y] by simp

lemma unat_add64: "unat x + unat y < 2 ^ 64 \<Longrightarrow> unat (x + y :: u64) = unat x + unat y"
  using unat_add_lem [of x y] by simp

lemma unat_mul64: "unat (mul64 a b) = unat a * unat b"
proof -
  have "unat a < 2 ^ 32" "unat b < 2 ^ 32"
    using unsigned_less [of a, where ?'a = nat] unsigned_less [of b, where ?'a = nat] by simp_all
  then have "unat a * unat b < 2 ^ 32 * 2 ^ 32" by (intro mult_strict_mono) simp_all
  then have "unat (ucast a :: u64) * unat (ucast b :: u64) < 2 ^ LENGTH(64)" by simp
  then show ?thesis unfolding mul64_def unat_mult_lem by simp
qed

lemma unat_sum5:
  fixes a b c d e :: u64
  assumes "unat a + unat b + unat c + unat d + unat e < 2 ^ 64"
  shows "unat (a + b + c + d + e) = unat a + unat b + unat c + unat d + unat e"
proof -
  have ab: "unat (a + b) = unat a + unat b" using assms by (intro unat_add64) linarith
  have abc: "unat (a + b + c) = unat a + unat b + unat c"
    using assms ab by (subst unat_add64) linarith+
  have abcd: "unat (a + b + c + d) = unat a + unat b + unat c + unat d"
    using assms abc by (subst unat_add64) linarith+
  show ?thesis using assms abcd by (subst unat_add64) linarith+
qed

lemma and_mask26: "unat (w AND 0x3ffffff :: u32) = unat w mod 2 ^ 26"
proof -
  have "(0x3ffffff :: nat) = mask 26" by (simp add: mask_eq_exp_minus_1)
  then have "unat w AND 0x3ffffff = take_bit 26 (unat w)" by (simp only: take_bit_eq_mask)
  then show ?thesis by (simp add: unsigned_and_eq take_bit_eq_mod)
qed

lemma shift32: "unat (drop_bit j w :: u32) = unat w div 2 ^ j"
  by (simp only: unat_drop_bit_eq) (simp only: drop_bit_eq_div)

lemma carry26:
  fixes d :: u64
  assumes "unat d < 2 ^ 58"
  shows "unat (ucast (drop_bit 26 d) :: u32) = unat d div 2 ^ 26"
    and "unat (ucast d AND 0x3ffffff :: u32) = unat d mod 2 ^ 26"
proof -
  have "unat d div 2 ^ 26 < 2 ^ 32" using assms by (simp add: div_less_iff_less_mult)
  then show "unat (ucast (drop_bit 26 d) :: u32) = unat d div 2 ^ 26"
    by (simp only: unsigned_ucast_eq unat_drop_bit_eq) (simp add: take_bit_nat_eq_self_iff drop_bit_eq_div)
  show "unat (ucast d AND 0x3ffffff :: u32) = unat d mod 2 ^ 26"
    by (simp only: and_mask26) (simp add: unsigned_ucast_eq take_bit_eq_mod mod_mod_cancel)
qed

section \<open>Numbers in five limbs\<close>

definition P :: nat where "P = 2 ^ 130 - 5"

definition limbs :: "u32 list \<Rightarrow> nat" where
  "limbs h = unat (h ! 0) + 2 ^ 26 * unat (h ! 1) + 2 ^ 52 * unat (h ! 2) + 2 ^ 78 * unat (h ! 3) +
     2 ^ 104 * unat (h ! 4)"

lemma limbs_Cons:
  "limbs [a, b, c, d, e] = unat a + 2 ^ 26 * unat b + 2 ^ 52 * unat c + 2 ^ 78 * unat d + 2 ^ 104 * unat e"
  by (simp add: limbs_def)

definition r_ok :: "u32 list \<Rightarrow> bool" where
  "r_ok r \<longleftrightarrow> unat (r ! 0) < 2 ^ 26 \<and> unat (r ! 1) < 2 ^ 26 \<and> unat (r ! 2) < 2 ^ 26 \<and>
     unat (r ! 3) < 2 ^ 26 \<and> unat (r ! 4) < 2 ^ 26"

definition h_ok :: "u32 list \<Rightarrow> bool" where
  "h_ok h \<longleftrightarrow> unat (h ! 0) < 2 ^ 26 \<and> unat (h ! 1) < 2 ^ 26 + 64 \<and> unat (h ! 2) < 2 ^ 26 \<and>
     unat (h ! 3) < 2 ^ 26 \<and> unat (h ! 4) < 2 ^ 26"

text \<open>The five pieces of a 16-byte block.\<close>

lemma digits5:
  fixes x :: nat
  assumes "x = a0 + 2 ^ 26 * q1" "q1 = a1 + 2 ^ 26 * q2" "q2 = a2 + 2 ^ 26 * q3" "q3 = a3 + 2 ^ 26 * q4"
  shows "x = a0 + 2 ^ 26 * a1 + 2 ^ 52 * a2 + 2 ^ 78 * a3 + 2 ^ 104 * q4"
  using assms by simp

lemma div_step: "(x :: nat) div 2 ^ j = x div 2 ^ j mod 2 ^ k + 2 ^ k * (x div 2 ^ (j + k))"
  using mod_mult_div_eq [of "x div 2 ^ j" "2 ^ k"] by (simp only: power_add div_mult2_eq)

lemma block_pieces:
  "(x :: nat) = x mod 2 ^ 26 + 2 ^ 26 * (x div 2 ^ 26 mod 2 ^ 26) + 2 ^ 52 * (x div 2 ^ 52 mod 2 ^ 26) +
    2 ^ 78 * (x div 2 ^ 78 mod 2 ^ 26) + 2 ^ 104 * (x div 2 ^ 104)"
proof (rule digits5)
  show "x = x mod 2 ^ 26 + 2 ^ 26 * (x div 2 ^ 26)" by simp
  show "x div 2 ^ 26 = x div 2 ^ 26 mod 2 ^ 26 + 2 ^ 26 * (x div 2 ^ 52)" using div_step [of x 26 26] by simp
  show "x div 2 ^ 52 = x div 2 ^ 52 mod 2 ^ 26 + 2 ^ 26 * (x div 2 ^ 78)" using div_step [of x 52 26] by simp
  show "x div 2 ^ 78 = x div 2 ^ 78 mod 2 ^ 26 + 2 ^ 26 * (x div 2 ^ 104)" using div_step [of x 78 26] by simp
qed

lemma take_drop_take_bit:
  "s + k \<le> n \<Longrightarrow> take_bit k (drop_bit s (take_bit n (y :: nat))) = take_bit k (drop_bit s y)"
  by (rule bit_eqI) (auto simp: bit_simps)

lemma load_piece:
  assumes "length m = 16" "j + 4 \<le> 16" "s + 26 \<le> 32"
  shows "unat (drop_bit s (load32_le (drop j m)) AND 0x3ffffff) = le_val m div 2 ^ (8 * j + s) mod 2 ^ 26"
proof -
  have "unat (drop_bit s (load32_le (drop j m)) AND 0x3ffffff) =
      take_bit 26 (drop_bit s (take_bit 32 (drop_bit (8 * j) (le_val m))))"
    using assms by (simp only: and_mask26 unat_load32_le_drop unat_drop_bit_eq take_bit_eq_mod)
  also have "\<dots> = take_bit 26 (drop_bit (8 * j + s) (le_val m))"
    using assms(3) by (simp only: take_drop_take_bit drop_bit_drop_bit add.commute)
  finally show ?thesis by (simp only: take_bit_eq_mod drop_bit_eq_div)
qed

lemma load_top:
  assumes "length m = 16"
  shows "unat (drop_bit 8 (load32_le (drop 12 m))) = le_val m div 2 ^ 104"
proof -
  have "le_val m < 2 ^ 128" using le_val_less [of m] assms by simp
  then have "le_val m div 2 ^ 96 < 2 ^ 32" by (simp add: div_less_iff_less_mult)
  then have "unat (load32_le (drop 12 m)) = le_val m div 2 ^ 96"
    using assms by (simp add: unat_load32_le_drop take_bit_nat_eq_self drop_bit_eq_div)
  then show ?thesis by (simp only: shift32) (simp flip: div_mult2_eq)
qed

lemma unat_or_hibit:
  fixes w :: u32
  assumes "unat w < 2 ^ 24" "hibit = 0 \<or> hibit = 0x1000000"
  shows "unat (w OR hibit) = unat w + unat hibit"
proof -
  have "unat w AND 2 ^ 24 = 0"
    using assms(1) by (simp only: and_exp_eq_0_iff_not_bit) (simp add: bit_iff_odd)
  then have "w AND hibit = 0"
    using assms(2) by (auto simp: word_eq_iff_unsigned [where ?'a = nat] unsigned_and_eq)
  then have "w OR hibit = w + hibit" by (simp add: disjunctive_add_eq_or)
  moreover have "unat (w + hibit) = unat w + unat hibit" using assms by (intro unat_add32) auto
  ultimately show ?thesis by simp
qed


text \<open>The five sums of products are the product modulo \<open>2^130 - 5\<close>, and so is what the carries leave.\<close>

lemma limb_product:
  fixes a0 a1 a2 a3 a4 r0 r1 r2 r3 r4 :: nat
  shows "(a0 + 2 ^ 26 * a1 + 2 ^ 52 * a2 + 2 ^ 78 * a3 + 2 ^ 104 * a4) *
      (r0 + 2 ^ 26 * r1 + 2 ^ 52 * r2 + 2 ^ 78 * r3 + 2 ^ 104 * r4) =
    (a0 * r0 + a1 * (r4 * 5) + a2 * (r3 * 5) + a3 * (r2 * 5) + a4 * (r1 * 5)) +
    2 ^ 26 * (a0 * r1 + a1 * r0 + a2 * (r4 * 5) + a3 * (r3 * 5) + a4 * (r2 * 5)) +
    2 ^ 52 * (a0 * r2 + a1 * r1 + a2 * r0 + a3 * (r4 * 5) + a4 * (r3 * 5)) +
    2 ^ 78 * (a0 * r3 + a1 * r2 + a2 * r1 + a3 * r0 + a4 * (r4 * 5)) +
    2 ^ 104 * (a0 * r4 + a1 * r3 + a2 * r2 + a3 * r1 + a4 * r0) +
    P * ((a1 * r4 + a2 * r3 + a3 * r2 + a4 * r1) + 2 ^ 26 * (a2 * r4 + a3 * r3 + a4 * r2) +
      2 ^ 52 * (a3 * r4 + a4 * r3) + 2 ^ 78 * (a4 * r4))"
  by (simp add: P_def algebra_simps)

lemma limb_carry:
  fixes d0 d1 d2 d3 d4 c0 c1 c2 c3 c4 e0 e1 e2 e3 e4 c5 :: nat
  assumes "d0 = e0 + 2 ^ 26 * c0" "d1 + c0 = e1 + 2 ^ 26 * c1" "d2 + c1 = e2 + 2 ^ 26 * c2"
    "d3 + c2 = e3 + 2 ^ 26 * c3" "d4 + c3 = e4 + 2 ^ 26 * c4" "e0 + c4 * 5 = f0 + 2 ^ 26 * c5"
  shows "d0 + 2 ^ 26 * d1 + 2 ^ 52 * d2 + 2 ^ 78 * d3 + 2 ^ 104 * d4 =
    (f0 + 2 ^ 26 * (e1 + c5) + 2 ^ 52 * e2 + 2 ^ 78 * e3 + 2 ^ 104 * e4) + P * c4"
  using assms by (simp add: P_def)

lemma P_collect: "x = l + P * a + P * b \<Longrightarrow> \<exists>k. x = l + P * k"
  by (rule exI [of _ "a + b"]) (simp only: add_mult_distrib2 add.assoc)


text \<open>Adding the block: no limb overflows.\<close>

lemma add_block_limbs:
  assumes "h_ok h" "length m = 16" "hibit = 0 \<or> hibit = 0x1000000"
  defines "a \<equiv> [h ! 0 + (load32_le m AND 0x3ffffff),
      h ! 1 + (drop_bit 2 (load32_le (drop 3 m)) AND 0x3ffffff),
      h ! 2 + (drop_bit 4 (load32_le (drop 6 m)) AND 0x3ffffff),
      h ! 3 + (drop_bit 6 (load32_le (drop 9 m)) AND 0x3ffffff),
      h ! 4 + (drop_bit 8 (load32_le (drop 12 m)) OR hibit)]"
  shows "limbs a = limbs h + (le_val m + unat hibit * 2 ^ 104)"
    and "unat (a ! 0) \<le> 2 ^ 27 + 64" "unat (a ! 1) \<le> 2 ^ 27 + 64" "unat (a ! 2) \<le> 2 ^ 27 + 64"
      "unat (a ! 3) \<le> 2 ^ 27 + 64" "unat (a ! 4) \<le> 2 ^ 27 + 64"
proof -
  let ?x = "le_val m"
  have x: "?x div 2 ^ 104 < 2 ^ 24"
    using le_val_less [of m] assms(2) by (simp add: div_less_iff_less_mult)
  have hb: "unat hibit \<le> 2 ^ 24" using assms(3) by auto
  have p0: "unat (load32_le m AND 0x3ffffff) = ?x mod 2 ^ 26"
    using load_piece [of m 0 0] assms(2) by simp
  have p1: "unat (drop_bit 2 (load32_le (drop 3 m)) AND 0x3ffffff) = ?x div 2 ^ 26 mod 2 ^ 26"
    using load_piece [of m 3 2] assms(2) by simp
  have p2: "unat (drop_bit 4 (load32_le (drop 6 m)) AND 0x3ffffff) = ?x div 2 ^ 52 mod 2 ^ 26"
    using load_piece [of m 6 4] assms(2) by simp
  have p3: "unat (drop_bit 6 (load32_le (drop 9 m)) AND 0x3ffffff) = ?x div 2 ^ 78 mod 2 ^ 26"
    using load_piece [of m 9 6] assms(2) by simp
  have p4: "unat (drop_bit 8 (load32_le (drop 12 m)) OR hibit) = ?x div 2 ^ 104 + unat hibit"
    using x load_top [OF assms(2)] assms(3) by (subst unat_or_hibit) simp_all
  have lt: "?x mod 2 ^ 26 < 2 ^ 26" "?x div 2 ^ 26 mod 2 ^ 26 < 2 ^ 26"
    "?x div 2 ^ 52 mod 2 ^ 26 < 2 ^ 26" "?x div 2 ^ 78 mod 2 ^ 26 < 2 ^ 26" by simp_all
  have add: "unat (u + v) = unat u + unat v" if "unat u \<le> 2 ^ 26 + 64" "unat v \<le> 2 ^ 26" for u v :: u32
    using that by (intro unat_add32) simp
  note h = assms(1) [unfolded h_ok_def]
  have a0: "unat (a ! 0) = unat (h ! 0) + ?x mod 2 ^ 26"
    unfolding a_def using h lt by (simp add: add p0 del: power_numeral)
  have a1: "unat (a ! 1) = unat (h ! 1) + ?x div 2 ^ 26 mod 2 ^ 26"
    unfolding a_def using h lt by (simp add: add p1 del: power_numeral)
  have a2: "unat (a ! 2) = unat (h ! 2) + ?x div 2 ^ 52 mod 2 ^ 26"
    unfolding a_def using h lt by (simp add: add p2 del: power_numeral)
  have a3: "unat (a ! 3) = unat (h ! 3) + ?x div 2 ^ 78 mod 2 ^ 26"
    unfolding a_def using h lt by (simp add: add p3 del: power_numeral)
  have a4: "unat (a ! 4) = unat (h ! 4) + (?x div 2 ^ 104 + unat hibit)"
    unfolding a_def using h x hb by (simp add: add p4)
  show "limbs a = limbs h + (?x + unat hibit * 2 ^ 104)"
    unfolding limbs_def a0 a1 a2 a3 a4 by (subst block_pieces [of ?x]) (simp only: add_mult_distrib2 ac_simps)
  have sum: "u < 2 ^ 26 + 64 \<Longrightarrow> v < 2 ^ 26 \<Longrightarrow> u + v \<le> 2 ^ 27 + 64" for u v :: nat by simp
  show "unat (a ! 0) \<le> 2 ^ 27 + 64" "unat (a ! 1) \<le> 2 ^ 27 + 64" "unat (a ! 2) \<le> 2 ^ 27 + 64"
    "unat (a ! 3) \<le> 2 ^ 27 + 64" "unat (a ! 4) \<le> 2 ^ 27 + 64"
    unfolding a0 a1 a2 a3 a4 by - (rule sum; use h x hb in simp)+
qed

text \<open>Multiplying and carrying.\<close>

lemma mul_carry_limbs:
  fixes a0 a1 a2 a3 a4 r0 r1 r2 r3 r4 :: u32
  assumes a: "unat a0 \<le> 2 ^ 27 + 64" "unat a1 \<le> 2 ^ 27 + 64" "unat a2 \<le> 2 ^ 27 + 64"
      "unat a3 \<le> 2 ^ 27 + 64" "unat a4 \<le> 2 ^ 27 + 64"
    and r: "unat r0 < 2 ^ 26" "unat r1 < 2 ^ 26" "unat r2 < 2 ^ 26" "unat r3 < 2 ^ 26" "unat r4 < 2 ^ 26"
  defines "d0 \<equiv> mul64 a0 r0 + mul64 a1 (r4 * 5) + mul64 a2 (r3 * 5) + mul64 a3 (r2 * 5) + mul64 a4 (r1 * 5)"
    and "d1 \<equiv> mul64 a0 r1 + mul64 a1 r0 + mul64 a2 (r4 * 5) + mul64 a3 (r3 * 5) + mul64 a4 (r2 * 5)"
    and "d2 \<equiv> mul64 a0 r2 + mul64 a1 r1 + mul64 a2 r0 + mul64 a3 (r4 * 5) + mul64 a4 (r3 * 5)"
    and "d3 \<equiv> mul64 a0 r3 + mul64 a1 r2 + mul64 a2 r1 + mul64 a3 r0 + mul64 a4 (r4 * 5)"
    and "d4 \<equiv> mul64 a0 r4 + mul64 a1 r3 + mul64 a2 r2 + mul64 a3 r1 + mul64 a4 r0"
  defines "c0 \<equiv> ucast (drop_bit 26 d0) :: u32" and "e0 \<equiv> ucast d0 AND 0x3ffffff :: u32"
  defines "d1' \<equiv> d1 + ucast c0"
  defines "c1 \<equiv> ucast (drop_bit 26 d1') :: u32" and "e1 \<equiv> ucast d1' AND 0x3ffffff :: u32"
  defines "d2' \<equiv> d2 + ucast c1"
  defines "c2 \<equiv> ucast (drop_bit 26 d2') :: u32" and "e2 \<equiv> ucast d2' AND 0x3ffffff :: u32"
  defines "d3' \<equiv> d3 + ucast c2"
  defines "c3 \<equiv> ucast (drop_bit 26 d3') :: u32" and "e3 \<equiv> ucast d3' AND 0x3ffffff :: u32"
  defines "d4' \<equiv> d4 + ucast c3"
  defines "c4 \<equiv> ucast (drop_bit 26 d4') :: u32" and "e4 \<equiv> ucast d4' AND 0x3ffffff :: u32"
  defines "f0 \<equiv> e0 + c4 * 5"
  defines "res \<equiv> [f0 AND 0x3ffffff, e1 + drop_bit 26 f0, e2, e3, e4]"
  shows "h_ok res" and "\<exists>k. limbs [a0, a1, a2, a3, a4] * limbs [r0, r1, r2, r3, r4] = limbs res + P * k"
proof -
  have r5: "unat (x * 5) = unat x * 5" if "unat x < 2 ^ 26" for x :: u32
    using that by (simp add: unat_word_ariths)
  have pr: "unat a * unat x \<le> (2 ^ 27 + 64) * (2 ^ 26 - 1)"
    if "unat a \<le> 2 ^ 27 + 64" "unat x < 2 ^ 26" for a x :: u32
    using that by (intro mult_le_mono) simp_all
  note prods = pr [OF a(1) r(1)] pr [OF a(1) r(2)] pr [OF a(1) r(3)] pr [OF a(1) r(4)] pr [OF a(1) r(5)]
    pr [OF a(2) r(1)] pr [OF a(2) r(2)] pr [OF a(2) r(3)] pr [OF a(2) r(4)] pr [OF a(2) r(5)]
    pr [OF a(3) r(1)] pr [OF a(3) r(2)] pr [OF a(3) r(3)] pr [OF a(3) r(4)] pr [OF a(3) r(5)]
    pr [OF a(4) r(1)] pr [OF a(4) r(2)] pr [OF a(4) r(3)] pr [OF a(4) r(4)] pr [OF a(4) r(5)]
    pr [OF a(5) r(1)] pr [OF a(5) r(2)] pr [OF a(5) r(3)] pr [OF a(5) r(4)] pr [OF a(5) r(5)]
  let ?D0 = "unat a0 * unat r0 + unat a1 * (unat r4 * 5) + unat a2 * (unat r3 * 5) + unat a3 * (unat r2 * 5) +
    unat a4 * (unat r1 * 5)"
  let ?D1 = "unat a0 * unat r1 + unat a1 * unat r0 + unat a2 * (unat r4 * 5) + unat a3 * (unat r3 * 5) +
    unat a4 * (unat r2 * 5)"
  let ?D2 = "unat a0 * unat r2 + unat a1 * unat r1 + unat a2 * unat r0 + unat a3 * (unat r4 * 5) +
    unat a4 * (unat r3 * 5)"
  let ?D3 = "unat a0 * unat r3 + unat a1 * unat r2 + unat a2 * unat r1 + unat a3 * unat r0 +
    unat a4 * (unat r4 * 5)"
  let ?D4 = "unat a0 * unat r4 + unat a1 * unat r3 + unat a2 * unat r2 + unat a3 * unat r1 +
    unat a4 * unat r0"
  let ?M = "9007203415490496 :: nat"
  have B: "?D0 \<le> 21 * ?M" "?D1 \<le> 21 * ?M" "?D2 \<le> 21 * ?M" "?D3 \<le> 21 * ?M" "?D4 \<le> 5 * ?M"
    using prods by simp_all
  have D: "unat d0 = ?D0" "unat d1 = ?D1" "unat d2 = ?D2" "unat d3 = ?D3" "unat d4 = ?D4"
    unfolding d0_def d1_def d2_def d3_def d4_def using B r
    by (subst unat_sum5; simp add: unat_mul64 r5)+
  have cr: "unat (ucast (drop_bit 26 d) :: u32) = unat d div 2 ^ 26"
      "unat (ucast d AND 0x3ffffff :: u32) = unat d mod 2 ^ 26" if "unat d \<le> 21 * ?M + 2 ^ 32" for d :: u64
    using that carry26 [of d] by simp_all
  have nx: "unat (d + ucast c) = unat d + unat c" if "unat d \<le> 21 * ?M" for d :: u64 and c :: u32
    using that unsigned_less [of c, where ?'a = nat] by (subst unat_add64) simp_all
  have le32: "unat c \<le> 2 ^ 32" for c :: u32
    using unsigned_less [of c, where ?'a = nat] by simp
  have n1: "unat d1' = ?D1 + unat c0" unfolding d1'_def using B D by (subst nx) simp_all
  have n2: "unat d2' = ?D2 + unat c1" unfolding d2'_def using B D by (subst nx) simp_all
  have n3: "unat d3' = ?D3 + unat c2" unfolding d3'_def using B D by (subst nx) simp_all
  have n4: "unat d4' = ?D4 + unat c3" unfolding d4'_def using B D by (subst nx) simp_all
  have c0: "unat c0 = unat d0 div 2 ^ 26" "unat e0 = unat d0 mod 2 ^ 26"
    unfolding c0_def e0_def using B D by - (rule cr; linarith)+
  have c1: "unat c1 = unat d1' div 2 ^ 26" "unat e1 = unat d1' mod 2 ^ 26"
    unfolding c1_def e1_def using B n1 le32 [of c0] by - (rule cr; linarith)+
  have c2: "unat c2 = unat d2' div 2 ^ 26" "unat e2 = unat d2' mod 2 ^ 26"
    unfolding c2_def e2_def using B n2 le32 [of c1] by - (rule cr; linarith)+
  have c3: "unat c3 = unat d3' div 2 ^ 26" "unat e3 = unat d3' mod 2 ^ 26"
    unfolding c3_def e3_def using B n3 le32 [of c2] by - (rule cr; linarith)+
  have d4': "unat d4' \<le> 5 * ?M + 2 ^ 32" using B n4 le32 [of c3] by linarith
  have c4: "unat c4 = unat d4' div 2 ^ 26" "unat e4 = unat d4' mod 2 ^ 26"
    unfolding c4_def e4_def using d4' by - (rule cr; linarith)+
  have "unat d4' div 2 ^ 26 \<le> (5 * ?M + 2 ^ 32) div 2 ^ 26" using d4' by (rule div_le_mono)
  then have c4_le: "unat c4 \<le> 671089013" using c4 by simp
  have e0_lt: "unat e0 < 2 ^ 26" using c0 by simp
  have c45: "unat (c4 * 5) = unat c4 * 5" using c4_le by (simp add: unat_word_ariths)
  have f0: "unat f0 = unat e0 + unat c4 * 5"
    unfolding f0_def using c4_le e0_lt c45 by (subst unat_add32) simp_all
  have "unat f0 div 2 ^ 26 \<le> (2 ^ 26 + 671089013 * 5) div 2 ^ 26"
    using f0 c4_le e0_lt by (intro div_le_mono) linarith
  then have c5: "unat f0 div 2 ^ 26 \<le> 51" by simp
  have e1_lt: "unat e1 < 2 ^ 26" using c1 by simp
  have top: "unat (e1 + drop_bit 26 f0) = unat e1 + unat f0 div 2 ^ 26"
    using c5 e1_lt by (subst unat_add32) (simp_all add: shift32 [of 26, simplified])
  have res: "unat (res ! 0) = unat f0 mod 2 ^ 26" "unat (res ! 1) = unat e1 + unat f0 div 2 ^ 26"
      "unat (res ! 2) = unat e2" "unat (res ! 3) = unat e3" "unat (res ! 4) = unat e4"
    unfolding res_def using top by (simp_all add: and_mask26)
  show "h_ok res" unfolding h_ok_def res using c2 c3 c4 c5 e1_lt by simp
  have *: "x = y \<Longrightarrow> u = x mod 2 ^ 26 \<Longrightarrow> c = x div 2 ^ 26 \<Longrightarrow> y = u + 2 ^ 26 * c" for x y u c :: nat
    by simp
  have "?D0 + 2 ^ 26 * ?D1 + 2 ^ 52 * ?D2 + 2 ^ 78 * ?D3 + 2 ^ 104 * ?D4 =
      (unat f0 mod 2 ^ 26 + 2 ^ 26 * (unat e1 + unat f0 div 2 ^ 26) + 2 ^ 52 * unat e2 +
        2 ^ 78 * unat e3 + 2 ^ 104 * unat e4) + P * unat c4"
    by (rule limb_carry [OF * [OF D(1) c0(2,1)] * [OF n1 c1(2,1)] * [OF n2 c2(2,1)] * [OF n3 c3(2,1)]
        * [OF n4 c4(2,1)] * [OF f0 refl refl]])
  then have "limbs [a0, a1, a2, a3, a4] * limbs [r0, r1, r2, r3, r4] =
      limbs res + P * unat c4 + P * ((unat a1 * unat r4 + unat a2 * unat r3 + unat a3 * unat r2 + unat a4 * unat r1) +
        2 ^ 26 * (unat a2 * unat r4 + unat a3 * unat r3 + unat a4 * unat r2) +
        2 ^ 52 * (unat a3 * unat r4 + unat a4 * unat r3) + 2 ^ 78 * (unat a4 * unat r4))"
    unfolding limbs_Cons limb_product by (simp only: limbs_def [of res] res)
  then show "\<exists>k. limbs [a0, a1, a2, a3, a4] * limbs [r0, r1, r2, r3, r4] = limbs res + P * k"
    by (rule P_collect)
qed


lemma list_5: "length r = 5 \<Longrightarrow> r = [r ! 0, r ! 1, r ! 2, r ! 3, r ! 4]"
  by (auto simp: eval_nat_numeral length_Suc_conv)

lemma length_poly1305_block [simp]: "length (poly1305_block hibit r h m) = 5"
  unfolding poly1305_block_def Let_def length_Cons list.size(3) by simp

lemma nth5:
  "[a, b, c, d, e] ! 0 = a" "[a, b, c, d, e] ! 1 = b" "[a, b, c, d, e] ! 2 = c"
  "[a, b, c, d, e] ! 3 = d" "[a, b, c, d, e] ! 4 = e"
  by simp_all

lemma poly1305_block_limbs:
  assumes r: "r_ok r" "length r = 5" and h: "h_ok h"
    and m: "length m = 16" "hibit = 0 \<or> hibit = 0x1000000"
  shows "h_ok (poly1305_block hibit r h m)"
    and "limbs (poly1305_block hibit r h m) mod P =
      (limbs h + (le_val m + unat hibit * 2 ^ 104)) * limbs r mod P"
proof -
  note a = add_block_limbs [OF h m, unfolded nth5]
  have r': "unat (r ! 0) < 2 ^ 26" "unat (r ! 1) < 2 ^ 26" "unat (r ! 2) < 2 ^ 26"
    "unat (r ! 3) < 2 ^ 26" "unat (r ! 4) < 2 ^ 26" using r(1) by (simp_all add: r_ok_def)
  note mc = mul_carry_limbs [OF a(2-6) r']
  have "h_ok (poly1305_block hibit r h m) \<and>
      (\<exists>k. (limbs h + (le_val m + unat hibit * 2 ^ 104)) * limbs r = limbs (poly1305_block hibit r h m) + P * k)"
    unfolding poly1305_block_def Let_def
    using mc unfolding a(1) list_5 [OF r(2), symmetric] by (rule conjI)
  then show "h_ok (poly1305_block hibit r h m)"
    "limbs (poly1305_block hibit r h m) mod P =
      (limbs h + (le_val m + unat hibit * 2 ^ 104)) * limbs r mod P" by auto
qed

section \<open>The final reduction\<close>

lemma carry_word:
  "unat (drop_bit 26 (w :: u32)) = unat w div 2 ^ 26" "unat (w AND 0x3ffffff) = unat w mod 2 ^ 26"
  by (simp_all only: shift32 and_mask26)

lemma carry_eq: "x = y \<Longrightarrow> u = x mod 2 ^ 26 \<Longrightarrow> c = x div 2 ^ 26 \<Longrightarrow> y = u + 2 ^ 26 * c" for x y u c :: nat
  by simp

definition h_small :: "u32 list \<Rightarrow> bool" where
  "h_small h \<longleftrightarrow> unat (h ! 0) < 2 ^ 26 \<and> unat (h ! 1) < 2 ^ 26 \<and> unat (h ! 2) < 2 ^ 26 \<and>
     unat (h ! 3) < 2 ^ 26 \<and> unat (h ! 4) < 2 ^ 26"

text \<open>Fully carry.\<close>

lemma reduce_carry:
  fixes h0 h1 h2 h3 h4 :: u32
  assumes h: "unat h0 < 2 ^ 26" "unat h1 < 2 ^ 26 + 64" "unat h2 < 2 ^ 26" "unat h3 < 2 ^ 26" "unat h4 < 2 ^ 26"
  defines "c1 \<equiv> drop_bit 26 h1" and "e1 \<equiv> h1 AND 0x3ffffff"
  defines "h2' \<equiv> h2 + c1"
  defines "c2 \<equiv> drop_bit 26 h2'" and "e2 \<equiv> h2' AND 0x3ffffff"
  defines "h3' \<equiv> h3 + c2"
  defines "c3 \<equiv> drop_bit 26 h3'" and "e3 \<equiv> h3' AND 0x3ffffff"
  defines "h4' \<equiv> h4 + c3"
  defines "c4 \<equiv> drop_bit 26 h4'" and "e4 \<equiv> h4' AND 0x3ffffff"
  defines "h0' \<equiv> h0 + c4 * 5"
  defines "res \<equiv> [h0' AND 0x3ffffff, e1 + drop_bit 26 h0', e2, e3, e4]"
  shows "h_small res" and "limbs res mod P = limbs [h0, h1, h2, h3, h4] mod P"
proof -
  have c1: "unat c1 = unat h1 div 2 ^ 26" "unat e1 = unat h1 mod 2 ^ 26"
    unfolding c1_def e1_def by (rule carry_word)+
  have c1_le: "unat c1 \<le> 1" using c1 h(2) by simp
  have h2': "unat h2' = unat h2 + unat c1" unfolding h2'_def using h(3) c1_le by (subst unat_add32) simp_all
  have c2: "unat c2 = unat h2' div 2 ^ 26" "unat e2 = unat h2' mod 2 ^ 26"
    unfolding c2_def e2_def by (rule carry_word)+
  have c2_le: "unat c2 \<le> unat c1" using c2 h2' h(3) c1_le by (cases "unat c1") auto
  have h3': "unat h3' = unat h3 + unat c2"
    unfolding h3'_def using h(4) c1_le c2_le by (subst unat_add32) simp_all
  have c3: "unat c3 = unat h3' div 2 ^ 26" "unat e3 = unat h3' mod 2 ^ 26"
    unfolding c3_def e3_def by (rule carry_word)+
  have c3_le: "unat c3 \<le> unat c1" using c3 h3' h(4) c1_le c2_le by (cases "unat c1") auto
  have h4': "unat h4' = unat h4 + unat c3"
    unfolding h4'_def using h(5) c1_le c3_le by (subst unat_add32) simp_all
  have c4: "unat c4 = unat h4' div 2 ^ 26" "unat e4 = unat h4' mod 2 ^ 26"
    unfolding c4_def e4_def by (rule carry_word)+
  have c4_le: "unat c4 \<le> unat c1" using c4 h4' h(5) c1_le c3_le by (cases "unat c1") auto
  have c45: "unat (c4 * 5) = unat c4 * 5" using c4_le c1_le by (simp add: unat_word_ariths)
  have h0': "unat h0' = unat h0 + unat c4 * 5"
    unfolding h0'_def using h(1) c45 c4_le c1_le by (subst unat_add32) simp_all
  have c5: "unat h0' div 2 ^ 26 \<le> unat c1"
    using h0' h(1) c4_le c1_le by (cases "unat c1") auto
  have e1c: "unat e1 + unat c1 * 2 ^ 26 < 2 ^ 26 + 64" using c1 h(2) by simp
  then have top: "unat (e1 + drop_bit 26 h0') = unat e1 + unat h0' div 2 ^ 26"
    using c5 c1_le by (subst unat_add32) (simp_all add: shift32 [of 26, simplified])
  have res: "unat (res ! 0) = unat h0' mod 2 ^ 26" "unat (res ! 1) = unat e1 + unat h0' div 2 ^ 26"
      "unat (res ! 2) = unat e2" "unat (res ! 3) = unat e3" "unat (res ! 4) = unat e4"
    unfolding res_def using top by (simp_all add: and_mask26)
  have "unat e1 + unat h0' div 2 ^ 26 < 2 ^ 26"
  proof (cases "unat c1")
    case 0
    then show ?thesis using c1 c5 by simp
  next
    case (Suc j)
    then show ?thesis using e1c c5 c1_le by simp
  qed
  then show "h_small res" unfolding h_small_def res using c2 c3 c4 by simp
  have "unat h0 + 2 ^ 26 * unat h1 + 2 ^ 52 * unat h2 + 2 ^ 78 * unat h3 + 2 ^ 104 * unat h4 =
      (unat h0' mod 2 ^ 26 + 2 ^ 26 * (unat e1 + unat h0' div 2 ^ 26) + 2 ^ 52 * unat e2 +
        2 ^ 78 * unat e3 + 2 ^ 104 * unat e4) + P * unat c4"
    by (rule limb_carry [of "unat h0" "unat h0" 0, OF _ _ carry_eq [OF h2' c2(2,1)] carry_eq [OF h3' c3(2,1)]
        carry_eq [OF h4' c4(2,1)] carry_eq [OF h0' refl refl]])
      (use c1 in simp_all)
  then show "limbs res mod P = limbs [h0, h1, h2, h3, h4] mod P"
    unfolding limbs_Cons by (simp only: limbs_def [of res] res mod_mult_self2)
qed


text \<open>Add 5 and look at the carry out of the top: select the number or the number less \<open>P\<close>.\<close>

lemma small_lt_P:
  fixes a0 a1 a2 a3 :: nat
  assumes "a0 < 2 ^ 26" "a1 < 2 ^ 26" "a2 < 2 ^ 26" "a3 < 2 ^ 26"
  shows "a0 + 2 ^ 26 * a1 + 2 ^ 52 * a2 + 2 ^ 78 * a3 < 2 ^ 104"
  using assms by simp

lemma reduce_select:
  fixes h0 h1 h2 h3 h4 :: u32
  assumes h: "h_small [h0, h1, h2, h3, h4]"
  defines "g0' \<equiv> h0 + 5"
  defines "g0 \<equiv> g0' AND 0x3ffffff" and "g1' \<equiv> h1 + drop_bit 26 g0'"
  defines "g1 \<equiv> g1' AND 0x3ffffff" and "g2' \<equiv> h2 + drop_bit 26 g1'"
  defines "g2 \<equiv> g2' AND 0x3ffffff" and "g3' \<equiv> h3 + drop_bit 26 g2'"
  defines "g3 \<equiv> g3' AND 0x3ffffff" and "g4 \<equiv> h4 + drop_bit 26 g3' - 0x4000000"
  defines "m \<equiv> drop_bit 31 g4 - 1"
  defines "res \<equiv> [(h0 AND NOT m) OR (g0 AND m), (h1 AND NOT m) OR (g1 AND m), (h2 AND NOT m) OR (g2 AND m),
    (h3 AND NOT m) OR (g3 AND m), (h4 AND NOT m) OR (g4 AND m)]"
  shows "h_small res" and "limbs res = limbs [h0, h1, h2, h3, h4] mod P"
proof -
  have hs: "unat h0 < 2 ^ 26" "unat h1 < 2 ^ 26" "unat h2 < 2 ^ 26" "unat h3 < 2 ^ 26" "unat h4 < 2 ^ 26"
    using h by (simp_all add: h_small_def)
  have c: "unat (drop_bit 26 w) \<le> 1" if "unat w \<le> 2 ^ 26 + 4" for w :: u32
    using that by (simp only: shift32) simp
  have g0': "unat g0' = unat h0 + 5" unfolding g0'_def using hs by (subst unat_add32) simp_all
  have k0: "unat (drop_bit 26 g0') \<le> 1" using g0' hs by (intro c) simp
  have g1': "unat g1' = unat h1 + unat (drop_bit 26 g0')"
    unfolding g1'_def using hs k0 by (subst unat_add32) simp_all
  have k1: "unat (drop_bit 26 g1') \<le> 1" using g1' hs k0 by (intro c) simp
  have g2': "unat g2' = unat h2 + unat (drop_bit 26 g1')"
    unfolding g2'_def using hs k1 by (subst unat_add32) simp_all
  have k2: "unat (drop_bit 26 g2') \<le> 1" using g2' hs k1 by (intro c) simp
  have g3': "unat g3' = unat h3 + unat (drop_bit 26 g2')"
    unfolding g3'_def using hs k2 by (subst unat_add32) simp_all
  have k3: "unat (drop_bit 26 g3') \<le> 1" using g3' hs k2 by (intro c) simp
  define t where "t = h4 + drop_bit 26 g3'"
  have t: "unat t = unat h4 + unat (drop_bit 26 g3')"
    unfolding t_def using hs k3 by (subst unat_add32) simp_all
  have t_le: "unat t \<le> 2 ^ 26" using t k3 hs by simp
  have g: "unat g0 = unat g0' mod 2 ^ 26" "unat g1 = unat g1' mod 2 ^ 26" "unat g2 = unat g2' mod 2 ^ 26"
    "unat g3 = unat g3' mod 2 ^ 26"
    unfolding g0_def g1_def g2_def g3_def by (rule and_mask26)+
  let ?low = "unat g0 + 2 ^ 26 * unat g1 + 2 ^ 52 * unat g2 + 2 ^ 78 * unat g3"
  have sum: "limbs [h0, h1, h2, h3, h4] + 5 = ?low + 2 ^ 104 * unat t"
    using carry_eq [OF g0' g(1) shift32] carry_eq [OF g1' g(2) shift32] carry_eq [OF g2' g(3) shift32]
      carry_eq [OF g3' g(4) shift32] t
    unfolding limbs_Cons by simp
  have low: "?low < 2 ^ 104" by (rule small_lt_P; simp only: g; simp)
  have g4: "g4 = t - 0x4000000" by (simp add: g4_def t_def)
  have "h_small res \<and> limbs res = limbs [h0, h1, h2, h3, h4] mod P"
  proof (cases "unat t = 2 ^ 26")
    case True
    then have "t = 0x4000000" by (simp add: word_eq_iff_unsigned [where ?'a = nat])
    then have m: "m = - 1" and g4_0: "g4 = 0" using g4 by (simp_all add: m_def)
    have res: "res = [g0, g1, g2, g3, g4]" unfolding res_def m by simp
    have "limbs [h0, h1, h2, h3, h4] = P + limbs res"
      using sum True low unfolding res limbs_Cons g4_0 P_def by simp
    moreover have "limbs [h0, h1, h2, h3, h4] < 2 ^ 130" using hs unfolding limbs_Cons by simp
    then have "limbs res < 5"
      using sum True low unfolding res limbs_Cons g4_0 by simp
    ultimately have "limbs res = limbs [h0, h1, h2, h3, h4] mod P" by (simp add: P_def)
    moreover have "h_small res" unfolding res h_small_def nth5 g4_0 using g by simp
    ultimately show ?thesis by simp
  next
    case False
    then have tl: "unat t < 2 ^ 26" using t_le by simp
    have "unat g4 = 2 ^ 32 - (2 ^ 26 - unat t)" unfolding g4 using tl by (simp add: unat_sub_if')
    then have "unat (drop_bit 31 g4) = 1" using tl by (simp only: shift32) simp
    then have "drop_bit 31 g4 = 1" by (simp add: word_eq_iff_unsigned [where ?'a = nat])
    then have m: "m = 0" by (simp add: m_def)
    have res: "res = [h0, h1, h2, h3, h4]" unfolding res_def m by simp
    have "limbs [h0, h1, h2, h3, h4] < P" using sum tl low by (simp add: P_def)
    then show ?thesis using h unfolding res by simp
  qed
  then show "h_small res" "limbs res = limbs [h0, h1, h2, h3, h4] mod P" by simp_all
qed


text \<open>Pack into four words, modulo \<open>2^128\<close>.\<close>

lemma or_push_bit:
  fixes x y :: u32
  assumes "unat x < 2 ^ k" "k < 32"
  shows "unat ((x OR push_bit k y) AND 0xffffffff) = unat x + 2 ^ k * (unat y mod 2 ^ (32 - k))"
proof -
  have lt: "bit x n \<Longrightarrow> n < k" for n
  proof -
    assume "bit x n"
    then have "bit (unat x) n" by (simp add: bit_unsigned_iff)
    moreover have "take_bit k (unat x) = unat x" using assms(1) by (simp add: take_bit_nat_eq_self)
    ultimately show "n < k" by (metis bit_take_bit_iff)
  qed
  then have "x AND push_bit k y = 0" by (intro bit_word_eqI) (auto simp: bit_simps not_le dest: lt)
  then have "x OR push_bit k y = x + push_bit k y" by (simp add: disjunctive_add_eq_or)
  moreover have p: "unat (push_bit k y) = 2 ^ k * (unat y mod 2 ^ (32 - k))"
  proof -
    have "unat (push_bit k y) = take_bit 32 (push_bit k (unat y))" by (simp add: unsigned_push_bit_eq)
    also have "\<dots> = push_bit k (take_bit (32 - k) (unat y))"
      using assms(2) by (simp add: take_bit_push_bit)
    finally show ?thesis by (simp add: push_bit_eq_mult take_bit_eq_mod)
  qed
  moreover have "unat x + 2 ^ k * (unat y mod 2 ^ (32 - k)) < 2 ^ 32"
  proof -
    have "unat y mod 2 ^ (32 - k) + 1 \<le> 2 ^ (32 - k)" by (simp add: Suc_leI)
    then have "2 ^ k * (unat y mod 2 ^ (32 - k) + 1) \<le> 2 ^ k * 2 ^ (32 - k)" by (rule mult_le_mono2)
    also have "\<dots> = 2 ^ 32" using assms(2) by (simp flip: power_add)
    finally show ?thesis using assms(1) by simp
  qed
  moreover have "(0xffffffff :: u32) = - 1" by simp
  then have "w AND 0xffffffff = w" for w :: u32 by (metis and.right_neutral)
  ultimately show ?thesis by (simp add: unat_add32)
qed

definition words4 :: "u32 list \<Rightarrow> nat" where
  "words4 w = unat (w ! 0) + 2 ^ 32 * unat (w ! 1) + 2 ^ 64 * unat (w ! 2) + 2 ^ 96 * unat (w ! 3)"

lemma pack_digits:
  fixes h0 h1 h2 h3 h4 r1 r2 r3 r4 q1 q2 q3 q4 :: nat
  assumes "r1 + 2 ^ 6 * q1 = h1" "r2 + 2 ^ 12 * q2 = h2" "r3 + 2 ^ 18 * q3 = h3" "r4 + 2 ^ 24 * q4 = h4"
  shows "(h0 + 2 ^ 26 * r1) + 2 ^ 32 * (q1 + 2 ^ 20 * r2) + 2 ^ 64 * (q2 + 2 ^ 14 * r3) +
    2 ^ 96 * (q3 + 2 ^ 8 * r4) + 2 ^ 128 * q4 =
    h0 + 2 ^ 26 * h1 + 2 ^ 52 * h2 + 2 ^ 78 * h3 + 2 ^ 104 * h4"
  unfolding assms [symmetric] by simp

lemmas pack_nat = pack_digits [OF mod_mult_div_eq mod_mult_div_eq mod_mult_div_eq mod_mult_div_eq]

lemma pad_digits:
  fixes w0 w1 w2 w3 p0 p1 p2 p3 o0 o1 o2 o3 c0 c1 c2 c3 :: nat
  assumes "w0 + p0 = o0 + 2 ^ 32 * c0" "w1 + p1 + c0 = o1 + 2 ^ 32 * c1" "w2 + p2 + c1 = o2 + 2 ^ 32 * c2"
    "w3 + p3 + c2 = o3 + 2 ^ 32 * c3" "o0 < 2 ^ 32" "o1 < 2 ^ 32" "o2 < 2 ^ 32" "o3 < 2 ^ 32"
  shows "o0 + 2 ^ 32 * o1 + 2 ^ 64 * o2 + 2 ^ 96 * o3 =
    ((w0 + 2 ^ 32 * w1 + 2 ^ 64 * w2 + 2 ^ 96 * w3) + (p0 + 2 ^ 32 * p1 + 2 ^ 64 * p2 + 2 ^ 96 * p3)) mod 2 ^ 128"
proof -
  let ?o = "o0 + 2 ^ 32 * o1 + 2 ^ 64 * o2 + 2 ^ 96 * o3"
  have "(w0 + 2 ^ 32 * w1 + 2 ^ 64 * w2 + 2 ^ 96 * w3) + (p0 + 2 ^ 32 * p1 + 2 ^ 64 * p2 + 2 ^ 96 * p3) =
      ?o + 2 ^ 128 * c3"
    using assms(1-4) by simp
  moreover have "?o < 2 ^ 128" using assms(5-8) by simp
  ultimately show ?thesis by simp
qed

lemma reduce_pack:
  fixes h0 h1 h2 h3 h4 :: u32
  assumes h: "h_small [h0, h1, h2, h3, h4]"
  defines "w \<equiv> [(h0 OR push_bit 26 h1) AND 0xffffffff, (drop_bit 6 h1 OR push_bit 20 h2) AND 0xffffffff,
    (drop_bit 12 h2 OR push_bit 14 h3) AND 0xffffffff, (drop_bit 18 h3 OR push_bit 8 h4) AND 0xffffffff]"
  shows "\<exists>k. limbs [h0, h1, h2, h3, h4] = words4 w + 2 ^ 128 * k"
proof -
  have hs: "unat h0 < 2 ^ 26" "unat h1 < 2 ^ 26" "unat h2 < 2 ^ 26" "unat h3 < 2 ^ 26" "unat h4 < 2 ^ 26"
    using h by (simp_all add: h_small_def)
  have d: "unat h1 div 2 ^ 6 < 2 ^ 20" "unat h2 div 2 ^ 12 < 2 ^ 14" "unat h3 div 2 ^ 18 < 2 ^ 8"
    using hs by (simp_all add: div_less_iff_less_mult)
  have w0: "unat (w ! 0) = unat h0 + 2 ^ 26 * (unat h1 mod 2 ^ 6)"
    unfolding w_def nth_Cons_0 using or_push_bit [of h0 26 h1] hs(1) by simp
  have w1: "unat (w ! 1) = unat h1 div 2 ^ 6 + 2 ^ 20 * (unat h2 mod 2 ^ 12)"
    unfolding w_def using or_push_bit [of "drop_bit 6 h1" 20 h2] d(1) unfolding shift32 by simp
  have w2: "unat (w ! 2) = unat h2 div 2 ^ 12 + 2 ^ 14 * (unat h3 mod 2 ^ 18)"
    unfolding w_def using or_push_bit [of "drop_bit 12 h2" 14 h3] d(2) unfolding shift32 by simp
  have w3: "unat (w ! 3) = unat h3 div 2 ^ 18 + 2 ^ 8 * (unat h4 mod 2 ^ 24)"
    unfolding w_def using or_push_bit [of "drop_bit 18 h3" 8 h4] d(3) unfolding shift32 by simp
  have "limbs [h0, h1, h2, h3, h4] = words4 w + 2 ^ 128 * (unat h4 div 2 ^ 24)"
    unfolding words4_def w0 w1 w2 w3 limbs_Cons pack_nat ..
  then show ?thesis ..
qed

text \<open>Add the pad with carries.\<close>

lemma reduce_pad:
  fixes w0 w1 w2 w3 p0 p1 p2 p3 :: u32
  defines "f0 \<equiv> ucast w0 + ucast p0 :: u64"
  defines "f1 \<equiv> ucast w1 + ucast p1 + drop_bit 32 f0"
  defines "f2 \<equiv> ucast w2 + ucast p2 + drop_bit 32 f1"
  defines "f3 \<equiv> ucast w3 + ucast p3 + drop_bit 32 f2"
  shows "words4 [ucast f0, ucast f1, ucast f2, ucast f3] =
    (words4 [w0, w1, w2, w3] + words4 [p0, p1, p2, p3]) mod 2 ^ 128"
proof -
  have lt: "unat (x :: u32) \<le> 2 ^ 32 - 1" for x using unsigned_less [of x, where ?'a = nat] by simp
  have dr: "unat (drop_bit 32 (x :: u64)) = unat x div 2 ^ 32" for x
    by (simp only: unat_drop_bit_eq) (simp only: drop_bit_eq_div)
  have lo: "unat (ucast (x :: u64) :: u32) = unat x mod 2 ^ 32" for x
    by (simp add: unsigned_ucast_eq take_bit_eq_mod)
  have dl: "unat (drop_bit 32 (x :: u64)) \<le> 2 ^ 32 - 1" for x
    using unsigned_less [of x, where ?'a = nat] unfolding dr by simp
  have f0: "unat f0 = unat w0 + unat p0"
    unfolding f0_def using lt [of w0] lt [of p0] by (subst unat_add64) simp_all
  have s: "unat (ucast w + ucast p + drop_bit 32 f) = unat w + unat p + unat f div 2 ^ 32"
    for w p :: u32 and f :: u64
    using lt [of w] lt [of p] dl [of f] unfolding dr by (simp add: unat_add64 dr)
  have e: "x = y \<Longrightarrow> y = x mod 2 ^ 32 + 2 ^ 32 * (x div 2 ^ 32)" for x y :: nat by simp
  have f1: "unat f1 = unat w1 + unat p1 + unat f0 div 2 ^ 32" unfolding f1_def by (rule s)
  have f2: "unat f2 = unat w2 + unat p2 + unat f1 div 2 ^ 32" unfolding f2_def by (rule s)
  have f3: "unat f3 = unat w3 + unat p3 + unat f2 div 2 ^ 32" unfolding f3_def by (rule s)
  have "unat f0 mod 2 ^ 32 + 2 ^ 32 * (unat f1 mod 2 ^ 32) + 2 ^ 64 * (unat f2 mod 2 ^ 32) +
      2 ^ 96 * (unat f3 mod 2 ^ 32) =
      ((unat w0 + 2 ^ 32 * unat w1 + 2 ^ 64 * unat w2 + 2 ^ 96 * unat w3) +
       (unat p0 + 2 ^ 32 * unat p1 + 2 ^ 64 * unat p2 + 2 ^ 96 * unat p3)) mod 2 ^ 128"
    by (rule pad_digits [OF e [OF f0] e [OF f1] e [OF f2] e [OF f3]]) simp_all
  then show ?thesis by (simp add: words4_def lo)
qed

lemma poly1305_carry_limbs:
  assumes "h_ok h" "length h = 5"
  shows "h_small (poly1305_carry h)" "limbs (poly1305_carry h) mod P = limbs h mod P"
proof -
  obtain h0 h1 h2 h3 h4 where h: "h = [h0, h1, h2, h3, h4]" using list_5 [OF assms(2)] by blast
  have ok: "unat h0 < 2 ^ 26" "unat h1 < 2 ^ 26 + 64" "unat h2 < 2 ^ 26" "unat h3 < 2 ^ 26" "unat h4 < 2 ^ 26"
    using assms(1) by (simp_all add: h_ok_def h)
  show "h_small (poly1305_carry h)" "limbs (poly1305_carry h) mod P = limbs h mod P"
    unfolding h poly1305_carry_def Let_def nth5 by (rule reduce_carry [OF ok])+
qed

lemma length_poly1305_steps [simp]:
  "length (poly1305_carry h) = 5" "length (poly1305_select h) = 5" "length (poly1305_pack h) = 4"
  "length (poly1305_add_pad h pad) = 4"
  unfolding poly1305_carry_def poly1305_select_def poly1305_pack_def poly1305_add_pad_def
    Let_def length_Cons list.size(3) by simp_all

lemma poly1305_select_limbs:
  assumes "h_small h" "length h = 5"
  shows "h_small (poly1305_select h)" "limbs (poly1305_select h) = limbs h mod P"
proof -
  obtain h0 h1 h2 h3 h4 where h: "h = [h0, h1, h2, h3, h4]" using list_5 [OF assms(2)] by blast
  show "h_small (poly1305_select h)" "limbs (poly1305_select h) = limbs h mod P"
    using assms(1) unfolding h poly1305_select_def Let_def nth5 by (rule reduce_select)+
qed

lemma poly1305_pack_words:
  assumes "h_small h" "length h = 5"
  shows "words4 (poly1305_pack h) mod 2 ^ 128 = limbs h mod 2 ^ 128"
proof -
  obtain h0 h1 h2 h3 h4 where h: "h = [h0, h1, h2, h3, h4]" using list_5 [OF assms(2)] by blast
  have "\<exists>k. limbs h = words4 (poly1305_pack h) + 2 ^ 128 * k"
    using assms(1) unfolding h poly1305_pack_def Let_def nth5 by (rule reduce_pack)
  then show ?thesis by (metis mod_mult_self2)
qed

lemma poly1305_add_pad_words:
  assumes "length w = 4" "length pad = 4"
  shows "words4 (poly1305_add_pad w pad) = (words4 w + words4 pad) mod 2 ^ 128"
proof -
  obtain w0 w1 w2 w3 p0 p1 p2 p3 where w: "w = [w0, w1, w2, w3]" "pad = [p0, p1, p2, p3]"
    using assms length_4_conv by metis
  have nth4: "[a, b, c, d] ! 0 = a" "[a, b, c, d] ! 1 = b" "[a, b, c, d] ! 2 = c" "[a, b, c, d] ! 3 = d"
    for a b c d :: u32 by simp_all
  show ?thesis unfolding w poly1305_add_pad_def Let_def nth4 by (rule reduce_pad)
qed

lemma poly1305_reduce_words:
  assumes "h_ok h" "length h = 5" "length pad = 4"
  shows "words4 (poly1305_reduce h pad) = (limbs h mod P + words4 pad) mod 2 ^ 128"
proof -
  note c = poly1305_carry_limbs [OF assms(1,2)]
  note s = poly1305_select_limbs [OF c(1) length_poly1305_steps(1)]
  have "words4 (poly1305_reduce h pad) =
      (words4 (poly1305_pack (poly1305_select (poly1305_carry h))) + words4 pad) mod 2 ^ 128"
    using assms(3) by (simp add: poly1305_reduce_def poly1305_add_pad_words)
  also have "\<dots> = (limbs (poly1305_select (poly1305_carry h)) + words4 pad) mod 2 ^ 128"
    by (rule mod_add_cong [OF poly1305_pack_words [OF s(1)] refl]) simp
  finally show ?thesis using s(2) c(2) by simp
qed

end
