(* ===== verification/Poly1305_Correct.thy ===== *)
theory Poly1305_Correct
  imports Poly1305_Arith
begin

text \<open>
  What Poly1305 computes: the specification \<open>poly1305_mac\<close> evaluates the message as a polynomial
  modulo \<open>2^130 - 5\<close> at the clamped key and adds the pad modulo \<open>2^128\<close>; the buffered code
  computes its bytes, however the message is cut into updates.
\<close>

section \<open>The key\<close>

definition clamp_mask :: nat where
  "clamp_mask = 0x0ffffffc0ffffffc0ffffffc0fffffff"

text \<open>The multiplier and the pad a key of 32 bytes stands for.\<close>

definition key_r :: "bytes \<Rightarrow> nat" where
  "key_r key = le_val (take 16 key) AND clamp_mask"

definition key_s :: "bytes \<Rightarrow> nat" where
  "key_s key = le_val (take 16 (drop 16 key))"

definition key_limbs :: "bytes \<Rightarrow> u32 list" where
  "key_limbs key = st_r (crypto_onetimeauth_poly1305_init key)"

definition key_pad :: "bytes \<Rightarrow> u32 list" where
  "key_pad key = st_pad (crypto_onetimeauth_poly1305_init key)"

lemma and_piece:
  "(x AND c) div 2 ^ j mod 2 ^ 26 = (x div 2 ^ j mod 2 ^ 26) AND (c div 2 ^ j mod 2 ^ 26)" for x c :: nat
  by (simp only: drop_bit_and take_bit_and flip: drop_bit_eq_div take_bit_eq_mod)

lemma and_top: "(x AND c) div 2 ^ j = (x div 2 ^ j) AND (c div 2 ^ j)" for x c :: nat
  by (simp only: drop_bit_and flip: drop_bit_eq_div)

lemma load32_le_drop_take: "j + 4 \<le> n \<Longrightarrow> load32_le (drop j (take n bs)) = load32_le (drop j bs)"
  by (simp add: load32_le_def drop_take)

lemma key_piece:
  assumes "16 \<le> length key" "j + 4 \<le> 16" "s + 26 \<le> 32" "M AND 0x3ffffff = M"
  shows "unat (drop_bit s (load32_le (drop j key)) AND M) =
    (le_val (take 16 key) div 2 ^ (8 * j + s) mod 2 ^ 26) AND unat M"
proof -
  have "drop_bit s (load32_le (drop j key)) AND M =
      (drop_bit s (load32_le (drop j (take 16 key))) AND 0x3ffffff) AND M"
    using assms(2) by (simp only: load32_le_drop_take and.assoc and.commute [of "0x3ffffff" M] assms(4))
  then show ?thesis using load_piece [of "take 16 key" j s] assms(1-3) by (simp only: unsigned_and_eq) simp
qed

lemma key_limbs_eq:
  assumes "length key = 32"
  shows "limbs (key_limbs key) = key_r key" and "r_ok (key_limbs key)" and "length (key_limbs key) = 5"
proof -
  let ?x = "le_val (take 16 key)"
  have k: "key_limbs key ! 0 = load32_le key AND 0x3ffffff"
      "key_limbs key ! 1 = drop_bit 2 (load32_le (drop 3 key)) AND 0x3ffff03"
      "key_limbs key ! 2 = drop_bit 4 (load32_le (drop 6 key)) AND 0x3ffc0ff"
      "key_limbs key ! 3 = drop_bit 6 (load32_le (drop 9 key)) AND 0x3f03fff"
      "key_limbs key ! 4 = drop_bit 8 (load32_le (drop 12 key)) AND 0x00fffff"
    by (simp_all add: key_limbs_def crypto_onetimeauth_poly1305_init_def poly1305_init_def)
  have l: "16 \<le> length key" using assms by simp
  have k0: "unat (key_limbs key ! 0) = (?x AND clamp_mask) mod 2 ^ 26"
    using key_piece [OF l, of 0 0 "0x3ffffff"] and_piece [of ?x clamp_mask 0]
    by (simp add: k clamp_mask_def)
  have k1: "unat (key_limbs key ! 1) = (?x AND clamp_mask) div 2 ^ 26 mod 2 ^ 26"
    unfolding and_piece using key_piece [OF l, of 3 2 "0x3ffff03"] unfolding k
    by (simp add: clamp_mask_def)
  have k2: "unat (key_limbs key ! 2) = (?x AND clamp_mask) div 2 ^ 52 mod 2 ^ 26"
    unfolding and_piece using key_piece [OF l, of 6 4 "0x3ffc0ff"] unfolding k
    by (simp add: clamp_mask_def)
  have k3: "unat (key_limbs key ! 3) = (?x AND clamp_mask) div 2 ^ 78 mod 2 ^ 26"
    unfolding and_piece using key_piece [OF l, of 9 6 "0x3f03fff"] unfolding k
    by (simp add: clamp_mask_def)
  have "load32_le (drop 12 key) = load32_le (drop 12 (take 16 key))" by (simp add: load32_le_drop_take)
  then have k4: "unat (key_limbs key ! 4) = (?x AND clamp_mask) div 2 ^ 104"
    unfolding and_top k unsigned_and_eq using load_top [of "take 16 key"] l by (simp add: clamp_mask_def)
  show "limbs (key_limbs key) = key_r key"
    unfolding limbs_def k0 k1 k2 k3 k4 key_r_def by (rule block_pieces [symmetric])
  show "length (key_limbs key) = 5"
    by (simp add: key_limbs_def crypto_onetimeauth_poly1305_init_def poly1305_init_def)
  have "clamp_mask div 2 ^ 104 = mask 20" by (simp add: clamp_mask_def mask_eq_exp_minus_1)
  then have "(?x AND clamp_mask) div 2 ^ 104 = take_bit 20 (?x div 2 ^ 104)"
    by (simp only: and_top take_bit_eq_mask)
  then have "(?x AND clamp_mask) div 2 ^ 104 < 2 ^ 26"
    using take_bit_nat_less_exp [of 20 "?x div 2 ^ 104"] by simp
  then show "r_ok (key_limbs key)"
    unfolding r_ok_def k0 k1 k2 k3 k4 by simp
qed

section \<open>The specification: a polynomial modulo \<open>2^130 - 5\<close>\<close>

text \<open>Each piece of up to 16 bytes, with a byte 1 appended, is a coefficient.\<close>

function poly1305_eval :: "nat \<Rightarrow> nat \<Rightarrow> bytes \<Rightarrow> nat" where
  "poly1305_eval r acc msg =
     (if msg = [] then acc
      else poly1305_eval r ((acc + le_val (take 16 msg @ [1])) * r mod P) (drop 16 msg))"
  by pat_completeness auto
termination by (relation "measure (\<lambda>(r, acc, msg). length msg)") auto

declare poly1305_eval.simps [simp del]

definition poly1305_mac :: "bytes \<Rightarrow> bytes \<Rightarrow> nat" where
  "poly1305_mac msg key = (poly1305_eval (key_r key) 0 msg + key_s key) mod 2 ^ 128"

lemma poly1305_eval_Nil [simp]: "poly1305_eval r acc [] = acc"
  by (simp add: poly1305_eval.simps)

lemma poly1305_eval_append:
  "length a = 16 * k \<Longrightarrow> poly1305_eval r acc (a @ b) = poly1305_eval r (poly1305_eval r acc a) b"
proof (induction k arbitrary: a acc)
  case (Suc k)
  then have "a \<noteq> []" by auto
  then have "poly1305_eval r acc (a @ b) =
      poly1305_eval r ((acc + le_val (take 16 a @ [1])) * r mod P) (drop 16 a @ b)"
    using Suc.prems by (subst poly1305_eval.simps) simp
  also have "\<dots> = poly1305_eval r (poly1305_eval r ((acc + le_val (take 16 a @ [1])) * r mod P) (drop 16 a)) b"
    using Suc.prems by (intro Suc.IH) simp
  also have "\<dots> = poly1305_eval r (poly1305_eval r acc a) b"
    using \<open>a \<noteq> []\<close> by (subst (2) poly1305_eval.simps) simp
  finally show ?case .
qed simp

lemma poly1305_eval_less: "acc < P \<Longrightarrow> poly1305_eval r acc msg < P"
proof (induction msg arbitrary: acc rule: length_induct)
  case (1 msg)
  then show ?case by (subst poly1305_eval.simps) (simp add: P_def)
qed

lemma poly1305_eval_short:
  "msg \<noteq> [] \<Longrightarrow> length msg \<le> 16 \<Longrightarrow> poly1305_eval r acc msg = (acc + le_val (msg @ [1])) * r mod P"
  by (subst poly1305_eval.simps) simp

section \<open>The block loop\<close>

definition acc_ok :: "bytes \<Rightarrow> u32 list \<Rightarrow> nat \<Rightarrow> bool" where
  "acc_ok key h a \<longleftrightarrow> h_ok h \<and> length h = 5 \<and> limbs h mod P = a mod P"

lemma acc_ok_block:
  assumes "acc_ok key h a" "length key = 32" "length m = 16"
  shows "acc_ok key (poly1305_block 0x1000000 (key_limbs key) h m) ((a + le_val (m @ [1])) * key_r key mod P)"
    and "acc_ok key (poly1305_block 0 (key_limbs key) h m) ((a + le_val m) * key_r key mod P)"
proof -
  note k = key_limbs_eq [OF assms(2)]
  have h: "h_ok h" "limbs h mod P = a mod P" using assms(1) by (simp_all add: acc_ok_def)
  have step: "hibit = 0 \<or> hibit = 0x1000000 \<Longrightarrow>
      acc_ok key (poly1305_block hibit (key_limbs key) h m)
        ((a + (le_val m + unat hibit * 2 ^ 104)) * key_r key mod P)" for hibit :: u32
  proof -
    assume hb: "hibit = 0 \<or> hibit = 0x1000000"
    note b = poly1305_block_limbs [OF k(2,3) h(1) assms(3) hb]
    have "(limbs h + (le_val m + unat hibit * 2 ^ 104)) * limbs (key_limbs key) mod P =
        (a + (le_val m + unat hibit * 2 ^ 104)) * key_r key mod P"
      unfolding k(1) by (rule mod_mult_cong [OF mod_add_cong [OF h(2) refl] refl])
    with b show ?thesis by (simp add: acc_ok_def)
  qed
  show "acc_ok key (poly1305_block 0x1000000 (key_limbs key) h m) ((a + le_val (m @ [1])) * key_r key mod P)"
    using step [of "0x1000000"] assms(3) by (simp add: le_val_append mult.commute)
  show "acc_ok key (poly1305_block 0 (key_limbs key) h m) ((a + le_val m) * key_r key mod P)"
    using step [of 0] by simp
qed

lemma acc_ok_loop:
  assumes "acc_ok key h a" "length key = 32" "length m = 16 * k"
  shows "acc_ok key (poly1305_blocks_loop 0x1000000 (key_limbs key) h m) (poly1305_eval (key_r key) a m)"
  using assms(1,3)
proof (induction k arbitrary: h a m)
  case 0
  then show ?case by (simp add: poly1305_blocks_loop.simps)
next
  case (Suc k)
  have "acc_ok key (poly1305_block 0x1000000 (key_limbs key) h (take 16 m))
      ((a + le_val (take 16 m @ [1])) * key_r key mod P)"
    using Suc.prems assms(2) by (intro acc_ok_block) auto
  from Suc.IH [OF this, of "drop 16 m"] Suc.prems(2) show ?case
    by (subst poly1305_blocks_loop.simps, subst poly1305_eval.simps) auto
qed

lemma poly1305_blocks_loop_append:
  "length a = 16 * k \<Longrightarrow> poly1305_blocks_loop hb r h (a @ b) =
    poly1305_blocks_loop hb r (poly1305_blocks_loop hb r h a) b"
proof (induction k arbitrary: a h)
  case 0
  then show ?case by (simp add: poly1305_blocks_loop.simps [of _ _ _ "[]"])
next
  case (Suc k)
  then show ?case
    using Suc.IH [of "drop 16 a" "poly1305_block hb r h (take 16 a)"]
      poly1305_blocks_loop.simps [of hb r h a] poly1305_blocks_loop.simps [of hb r h "a @ b"]
    by simp
qed

lemma poly1305_blocks_loop_Nil [simp]: "poly1305_blocks_loop hb r h [] = h"
  by (simp add: poly1305_blocks_loop.simps)

section \<open>Streaming\<close>

definition poly1305_repr :: "bytes \<Rightarrow> poly1305_state_internal_t \<Rightarrow> bytes \<Rightarrow> bool" where
  "poly1305_repr key st msg \<longleftrightarrow>
     st_r st = key_limbs key \<and> st_pad st = key_pad key \<and> \<not> st_final st \<and>
     st_h st = poly1305_blocks_loop 0x1000000 (key_limbs key) [0, 0, 0, 0, 0] (whole 16 msg) \<and>
     length (st_buffer st) = 16 \<and> st_leftover st = length msg mod 16 \<and>
     take (st_leftover st) (st_buffer st) = rest 16 msg"

lemma poly1305_repr_init: "poly1305_repr key (crypto_onetimeauth_poly1305_init key) []"
  by (simp add: poly1305_repr_def key_limbs_def key_pad_def crypto_onetimeauth_poly1305_init_def
      poly1305_init_def)

lemma poly1305_update_blocks_eq:
  assumes "st_leftover st = 0" "length (st_buffer st) = 16" "\<not> st_final st"
  shows "poly1305_update_blocks st m = st\<lparr>
    st_h := poly1305_blocks_loop 0x1000000 (st_r st) (st_h st) (whole 16 m),
    st_buffer := write_at (st_buffer st) 0 (rest 16 m), st_leftover := length m mod 16\<rparr>"
proof -
  have r: "rest 16 m = [] \<longleftrightarrow> length m mod 16 = 0" by (metis length_0_conv length_rest)
  show ?thesis
  proof (cases "16 \<le> length m")
    case True
    then show ?thesis using assms r
      unfolding poly1305_update_blocks_def Let_def whole_def [symmetric] rest_def [symmetric]
      by (auto simp: poly1305_blocks_def write_at_def)
  next
    case False
    then show ?thesis using assms r
      by (auto simp: poly1305_update_blocks_def Let_def write_at_def)
  qed
qed

lemma poly1305_repr_update_whole:
  assumes "poly1305_repr key st msg" "length msg mod 16 = 0"
  shows "poly1305_repr key (poly1305_update_blocks st m) (msg @ m)"
proof -
  note r = assms(1) [unfolded poly1305_repr_def]
  obtain k where k: "length msg = 16 * k" using assms(2) by auto
  then have w: "whole 16 msg = msg" by (simp add: whole_def)
  show ?thesis
    using r assms(2) k w poly1305_update_blocks_eq [of st m]
      poly1305_blocks_loop_append [OF k, of "0x1000000" "key_limbs key" "[0, 0, 0, 0, 0]" "whole 16 m"]
    by (simp add: poly1305_repr_def whole_append [OF k] rest_append [OF k] write_at_def)
qed

lemma poly1305_repr_update:
  assumes "poly1305_repr key st msg"
  shows "poly1305_repr key (poly1305_update st m) (msg @ m)"
proof (cases "length msg mod 16 = 0")
  case True
  then have "st_leftover st = 0" using assms by (simp add: poly1305_repr_def)
  then show ?thesis using poly1305_repr_update_whole [OF assms True] by (simp add: poly1305_update_def)
next
  case False
  note r = assms [unfolded poly1305_repr_def]
  let ?l = "length msg mod 16"
  have l: "st_leftover st = ?l" "?l < 16" "take ?l (st_buffer st) = rest 16 msg" using r by auto
  show ?thesis
  proof (cases "?l + length m < 16")
    case True
    then have w: "min (16 - ?l) (length m) = length m" by simp
    have u: "poly1305_update st m = st\<lparr>st_buffer := write_at (st_buffer st) ?l m,
        st_leftover := ?l + length m\<rparr>"
      using True False l w by (simp add: poly1305_update_def Let_def)
    have "whole 16 (rest 16 msg @ m) = []" "rest 16 (rest 16 msg @ m) = rest 16 msg @ m"
      using True by simp_all
    then have "whole 16 (msg @ m) = whole 16 msg" "rest 16 (msg @ m) = rest 16 msg @ m"
      using whole_append_rest [of 16 msg m] rest_append_rest [of 16 msg m] by simp_all
    moreover have "(length msg + length m) mod 16 = ?l + length m"
      using True by (metis mod_add_left_eq mod_less)
    ultimately show ?thesis
      using r l(3) True u by (simp add: poly1305_repr_def take_write_at)
  next
    case False2: False
    let ?w = "16 - ?l"
    have w: "min ?w (length m) = ?w" using False2 by simp
    let ?buf = "write_at (st_buffer st) ?l (take ?w m)"
    have buf: "?buf = rest 16 msg @ take ?w m"
      using r l False2 by (simp add: write_at_def)
    have lb: "length ?buf = 16" using False2 l by (simp add: buf)
    let ?st = "poly1305_blocks (st\<lparr>st_buffer := ?buf, st_leftover := 16\<rparr>) ?buf\<lparr>st_leftover := 0\<rparr>"
    have u: "poly1305_update st m = poly1305_update_blocks ?st (drop ?w m)"
      using False False2 l w by (simp add: poly1305_update_def Let_def)
    have "length msg + (16 - ?l) = 16 * (length msg div 16 + 1)" by presburger
    then have mm: "length (msg @ take ?w m) = 16 * (length msg div 16 + 1)"
      using False2 l by simp
    have wh: "whole 16 (msg @ take ?w m) = whole 16 msg @ ?buf"
      unfolding buf using whole_multiple [OF mm] whole_rest [of 16 msg] by (metis append_assoc)
    have re: "rest 16 (msg @ take ?w m) = []"
      by (rule rest_multiple [OF mm])
    have "poly1305_repr key ?st (msg @ take ?w m)"
      using r lb wh re mm poly1305_blocks_loop_append [OF length_whole]
      by (simp add: poly1305_repr_def poly1305_blocks_def)
    from poly1305_repr_update_whole [OF this, of "drop ?w m"] show ?thesis
      unfolding mm u append_assoc append_take_drop_id by simp
  qed
qed

lemma le_val_words4:
  "length w = 4 \<Longrightarrow> le_val (concat (map store32_le w)) = words4 w"
  by (auto simp: length_4_conv le_val_append le_val_store32_le words4_def)

lemma words4_key_pad:
  assumes "length key = 32"
  shows "words4 (key_pad key) = key_s key" "length (key_pad key) = 4"
proof -
  have d: "store32_le (load32_le (drop j key)) = take 4 (drop j key)" if "j + 4 \<le> 32" for j
    using that assms store_load32_le [of "take 4 (drop j key)"] by (simp add: load32_le_take)
  have "take 16 (drop 16 key) = take 4 (drop 16 key) @ take 4 (drop 20 key) @ take 4 (drop 24 key) @ take 4 (drop 28 key)"
    using take_add [of 4 12 "drop 16 key"] take_add [of 4 8 "drop 20 key"] take_add [of 4 4 "drop 24 key"] by simp
  then have "concat (map store32_le (key_pad key)) = take 16 (drop 16 key)"
    by (simp add: key_pad_def crypto_onetimeauth_poly1305_init_def poly1305_init_def d)
  then show "words4 (key_pad key) = key_s key"
    using le_val_words4 [of "key_pad key"]
    by (simp add: key_s_def key_pad_def crypto_onetimeauth_poly1305_init_def poly1305_init_def)
  show "length (key_pad key) = 4"
    by (simp add: key_pad_def crypto_onetimeauth_poly1305_init_def poly1305_init_def)
qed

lemma poly1305_repr_finish:
  assumes "poly1305_repr key st msg" "length key = 32"
  shows "le_val (poly1305_finish st) = poly1305_mac msg key \<and> length (poly1305_finish st) = 16"
proof -
  note r = assms(1) [unfolded poly1305_repr_def]
  let ?l = "length msg mod 16"
  have l: "st_leftover st = ?l" "?l < 16" "take ?l (st_buffer st) = rest 16 msg" using r by auto
  let ?e = "poly1305_eval (key_r key)"
  have "acc_ok key [0, 0, 0, 0, 0] 0" by (simp add: acc_ok_def h_ok_def limbs_Cons)
  then have a0: "acc_ok key (st_h st) (?e 0 (whole 16 msg))"
    using r acc_ok_loop [OF _ assms(2) length_whole] by simp
  have reduce: "le_val (concat (map store32_le (poly1305_reduce h (key_pad key)))) = poly1305_mac msg key"
    if "acc_ok key h (?e 0 msg)" for h
  proof -
    have "?e 0 msg mod P = ?e 0 msg" using poly1305_eval_less [of 0 "key_r key" msg] by (simp add: P_def)
    then have "limbs h mod P = ?e 0 msg" using that by (simp add: acc_ok_def)
    then show ?thesis
      using that poly1305_reduce_words [of h "key_pad key"] words4_key_pad [OF assms(2)]
      by (simp add: acc_ok_def le_val_words4 poly1305_mac_def poly1305_reduce_def [of h])
  qed
  show ?thesis
  proof (cases "?l = 0")
    case True
    then have "rest 16 msg = []" by (metis length_0_conv length_rest)
    then have "whole 16 msg = msg" using whole_rest [of 16 msg] by simp
    then show ?thesis using True l a0 r reduce [of "st_h st"]
      by (simp add: poly1305_finish_def Let_def poly1305_reduce_def)
  next
    case False
    let ?buf = "write_at ((st_buffer st)[?l := 1]) (?l + 1) (replicate (16 - (?l + 1)) 0)"
    have buf: "?buf = rest 16 msg @ [1] @ replicate (15 - ?l) 0"
      using r l by (simp add: write_at_def take_Suc_conv_app_nth)
    have lb: "length ?buf = 16" unfolding buf using l(2) by simp
    let ?h = "poly1305_block 0 (key_limbs key) (st_h st) ?buf"
    have "le_val ?buf = le_val (rest 16 msg @ [1])" unfolding buf by (simp add: le_val_append)
    moreover have "rest 16 msg \<noteq> []" using False by (metis length_rest list.size(3))
    ultimately have "(?e 0 (whole 16 msg) + le_val ?buf) * key_r key mod P = ?e (?e 0 (whole 16 msg)) (rest 16 msg)"
      using l(2) by (simp add: poly1305_eval_short)
    also have "\<dots> = ?e 0 msg"
      using poly1305_eval_append [of "whole 16 msg" "length msg div 16" "key_r key" 0 "rest 16 msg"]
        whole_rest [of 16 msg] by simp
    finally have "acc_ok key ?h (?e 0 msg)"
      using acc_ok_block(2) [OF a0 assms(2) lb] by simp
    moreover have "poly1305_finish st = concat (map store32_le (poly1305_reduce ?h (key_pad key)))"
      using False l r lb poly1305_blocks_loop.simps [of 0 "key_limbs key" "st_h st" ?buf]
      by (simp add: poly1305_finish_def poly1305_blocks_def Let_def)
    ultimately show ?thesis using reduce [of ?h] by (simp add: poly1305_reduce_def)
  qed
qed

section \<open>The streaming interface\<close>

lemma poly1305_final_eq:
  assumes "poly1305_repr key st msg" "length key = 32"
  shows "poly1305_finish st = crypto_onetimeauth_poly1305 msg key"
proof (rule le_val_inj)
  have r: "poly1305_repr key (poly1305_update (crypto_onetimeauth_poly1305_init key) msg) ([] @ msg)"
    by (rule poly1305_repr_update [OF poly1305_repr_init])
  show "length (poly1305_finish st) = length (crypto_onetimeauth_poly1305 msg key)"
    "le_val (poly1305_finish st) = le_val (crypto_onetimeauth_poly1305 msg key)"
    using poly1305_repr_finish [OF assms] poly1305_repr_finish [OF r assms(2)]
    by (simp_all add: crypto_onetimeauth_poly1305_def)
qed

interpretation poly1305: streaming "poly1305_repr key" "\<lambda>n. length key = 32"
  "crypto_onetimeauth_poly1305_init key" poly1305_update poly1305_finish
  "\<lambda>m. crypto_onetimeauth_poly1305 m key" for key
  by unfold_locales (auto intro: poly1305_repr_init poly1305_repr_update poly1305_final_eq)

lemma length_crypto_onetimeauth_poly1305 [simp]:
  "length key = 32 \<Longrightarrow> length (crypto_onetimeauth_poly1305 m key) = 16"
  using poly1305_repr_finish [OF poly1305_repr_update [OF poly1305_repr_init]]
  by (simp add: crypto_onetimeauth_poly1305_def)

lemma crypto_onetimeauth_poly1305_verify_eq:
  assumes "length key = 32" "length h = 16"
  shows "crypto_onetimeauth_poly1305_verify h m key =
    (if h = crypto_onetimeauth_poly1305 m key then 0 else - 1)"
proof -
  have "(\<forall>i < 16. h ! i = crypto_onetimeauth_poly1305 m key ! i) \<longleftrightarrow> h = crypto_onetimeauth_poly1305 m key"
    using assms by (auto intro: nth_equalityI)
  then show ?thesis
    by (simp add: crypto_onetimeauth_poly1305_verify_def crypto_verify_16_def crypto_verify_n_eq)
qed

section \<open>Properties\<close>

text \<open>
  C39: Fed with the pieces of a message, cut anywhere, the buffered 26-bit limb code of Poly1305
  gives sixteen bytes that are the little-endian number
  \<open>(((c_1 r + c_2) r + ...) r mod 2^130 - 5) + s mod 2^128\<close>, where \<open>r\<close> is the clamped first half
  of the key, \<open>s\<close> the second half, and \<open>c_i\<close> the blocks of the message with a byte 1 appended.
\<close>

theorem poly1305_correct:
  assumes "length key = 32"
  shows "length (poly1305_finish (update_all poly1305_update (crypto_onetimeauth_poly1305_init key) ms)) = 16 \<and>
    le_val (poly1305_finish (update_all poly1305_update (crypto_onetimeauth_poly1305_init key) ms)) =
      (poly1305_eval (le_val (take 16 key) AND clamp_mask) 0 (concat ms) + le_val (drop 16 key)) mod 2 ^ 128"
  using poly1305_repr_finish [OF poly1305.repr_update_all [OF poly1305_repr_init, of key ms]] assms
  by (simp add: poly1305_mac_def key_r_def key_s_def)

lemma poly1305_correct_witness:
  "le_val (poly1305_finish (update_all poly1305_update
     (crypto_onetimeauth_poly1305_init (replicate 15 0xff @ replicate 17 3)) [[1, 2], [3]])) =
   (poly1305_eval (le_val (replicate 15 0xff @ [3]) AND clamp_mask) 0 [1, 2, 3] +
     le_val (replicate 16 3)) mod 2 ^ 128"
  using poly1305_correct [of "replicate 15 0xff @ replicate 17 3" "[[1, 2], [3]]"] by simp

end
