(* ===== verification/Secretbox.thy ===== *)
theory Secretbox
  imports Salsa Poly1305_Correct
begin

text \<open>
  Secret-key authenticated encryption, \<open>crypto_secretbox\<close>: XSalsa20 for the bytes and Poly1305,
  keyed with the first 32 bytes of the keystream, for the tag.  Both interfaces are modelled, the
  one of \<open>crypto_secretbox_easy.c\<close> (which mfcrypto uses) and the older one of
  \<open>xsalsa20poly1305/secretbox_xsalsa20poly1305.c\<close>, with its leading zero bytes.
\<close>

section \<open>The contract of authenticated encryption\<close>

text \<open>
  \<open>enc\<close> and \<open>dec\<close> at a fixed key and nonce; \<open>ok\<close> says that these are well formed, \<open>fits\<close> bounds
  the length of a message.
\<close>

locale auth_enc =
  fixes ok :: bool
    and fits :: "nat \<Rightarrow> bool"
    and overhead :: nat
    and enc :: "bytes \<Rightarrow> bytes result"
    and dec :: "bytes \<Rightarrow> bytes result"
  assumes enc_length: "ok \<Longrightarrow> fits (length m) \<Longrightarrow> \<exists>c. enc m = Inr c \<and> length c = length m + overhead"
    and dec_enc: "ok \<Longrightarrow> fits (length m) \<Longrightarrow> enc m = Inr c \<Longrightarrow> dec c = Inr m"
    and dec_sound: "ok \<Longrightarrow> dec c = Inr m \<Longrightarrow> fits (length m) \<Longrightarrow> enc m = Inr c"
begin

lemma enc_inject:
  "ok \<Longrightarrow> fits (length m) \<Longrightarrow> fits (length m') \<Longrightarrow> enc m = Inr c \<Longrightarrow> enc m' = Inr c \<Longrightarrow> m = m'"
  using dec_enc [of m c] dec_enc [of m' c] by simp

text \<open>A ciphertext is accepted exactly when it is the encryption of what it opens to.\<close>

lemma dec_iff: "ok \<Longrightarrow> fits (length m) \<Longrightarrow> dec c = Inr m \<longleftrightarrow> enc m = Inr c"
  using dec_enc dec_sound by blast

text \<open>Changing a ciphertext in any way makes it open to another message or not at all.\<close>

lemma tamper:
  assumes "ok" "fits (length m)" "enc m = Inr c" "c' \<noteq> c"
  shows "dec c' \<noteq> Inr m"
  using assms dec_sound [of c' m] by auto

lemma roundtrip: "ok \<Longrightarrow> fits (length m) \<Longrightarrow> (case enc m of Inl e \<Rightarrow> Inl e | Inr c \<Rightarrow> dec c) = Inr m"
  using enc_length [of m] dec_enc [of m] by auto

end

section \<open>crypto_secretbox_easy.c\<close>

definition crypto_secretbox_detached :: "bytes \<Rightarrow> bytes \<Rightarrow> bytes \<Rightarrow> bytes \<times> bytes" where
  "crypto_secretbox_detached m n k =
     (let subkey = crypto_core_hsalsa20 n k None;
          mlen0 = min (length m) (64 - 32);
          block0 = write_at (replicate 64 0) 32 (take mlen0 m);
          block0 = write_at block0 0
                     (crypto_stream_salsa20_xor (take (mlen0 + 32) block0) (drop 16 n) subkey);
          state = crypto_onetimeauth_poly1305_init (take 32 block0);
          c = take mlen0 (drop 32 block0) @
              (if mlen0 < length m
               then crypto_stream_salsa20_xor_ic (drop mlen0 m) (drop 16 n) 1 subkey else []);
          state = poly1305_update state c
      in (c, poly1305_finish state))"

text \<open>\<open>crypto_secretbox_MESSAGEBYTES_MAX\<close> is \<open>SODIUM_SIZE_MAX - 16\<close>.\<close>

definition crypto_secretbox_MESSAGEBYTES_MAX :: nat where
  "crypto_secretbox_MESSAGEBYTES_MAX = 2 ^ 64 - 1 - 16"

definition crypto_secretbox_easy :: "bytes \<Rightarrow> bytes \<Rightarrow> bytes \<Rightarrow> bytes result" where
  "crypto_secretbox_easy m n k =
     (if crypto_secretbox_MESSAGEBYTES_MAX < length m then Inl Abort
      else let (c, mac) = crypto_secretbox_detached m n k in Inr (mac @ c))"

text \<open>With \<open>m == NULL\<close> only the tag is checked and nothing is written.\<close>

definition crypto_secretbox_open_detached ::
    "bool \<Rightarrow> bytes \<Rightarrow> bytes \<Rightarrow> bytes \<Rightarrow> bytes \<Rightarrow> bytes result" where
  "crypto_secretbox_open_detached m_null c mac n k =
     (let subkey = crypto_core_hsalsa20 n k None;
          block0 = crypto_stream_salsa20 32 (drop 16 n) subkey
      in if crypto_onetimeauth_poly1305_verify mac c block0 \<noteq> 0 then Inl (Ret (- 1))
         else if m_null then Inr []
         else
           let mlen0 = min (length c) (64 - 32);
               block0 = block0 @ take mlen0 c;
               block0 = crypto_stream_salsa20_xor block0 (drop 16 n) subkey;
               m = take mlen0 (drop 32 block0) @
                   (if mlen0 < length c
                    then crypto_stream_salsa20_xor_ic (drop mlen0 c) (drop 16 n) 1 subkey else [])
           in Inr m)"

definition crypto_secretbox_open_easy :: "bytes \<Rightarrow> bytes \<Rightarrow> bytes \<Rightarrow> bytes result" where
  "crypto_secretbox_open_easy c n k =
     (if length c < 16 then Inl (Ret (- 1))
      else crypto_secretbox_open_detached False (drop 16 c) (take 16 c) n k)"

section \<open>secretbox_xsalsa20poly1305.c\<close>

definition crypto_secretbox_xsalsa20poly1305 :: "bytes \<Rightarrow> bytes \<Rightarrow> bytes \<Rightarrow> bytes result" where
  "crypto_secretbox_xsalsa20poly1305 m n k =
     (if length m < 32 then Inl (Ret (- 1))
      else
        let c = crypto_stream_xsalsa20_xor m n k;
            c = write_at c 16 (crypto_onetimeauth_poly1305 (drop 32 c) (take 32 c));
            c = write_at c 0 (replicate 16 0)
        in Inr c)"

definition crypto_secretbox_xsalsa20poly1305_open :: "bytes \<Rightarrow> bytes \<Rightarrow> bytes \<Rightarrow> bytes result" where
  "crypto_secretbox_xsalsa20poly1305_open c n k =
     (if length c < 32 then Inl (Ret (- 1))
      else
        let subkey = crypto_stream_xsalsa20 32 n k
        in if crypto_onetimeauth_poly1305_verify (take 16 (drop 16 c)) (drop 32 c) subkey \<noteq> 0
           then Inl (Ret (- 1))
           else
             let m = crypto_stream_xsalsa20_xor c n k
             in Inr (write_at m 0 (replicate 32 0)))"

definition crypto_secretbox :: "bytes \<Rightarrow> bytes \<Rightarrow> bytes \<Rightarrow> bytes result" where
  "crypto_secretbox m n k = crypto_secretbox_xsalsa20poly1305 m n k"

definition crypto_secretbox_open :: "bytes \<Rightarrow> bytes \<Rightarrow> bytes \<Rightarrow> bytes result" where
  "crypto_secretbox_open c n k = crypto_secretbox_xsalsa20poly1305_open c n k"

section \<open>Facts about the secret box\<close>

text \<open>The keystream of XSalsa20: its first 32 bytes key the authenticator.\<close>

definition xs_stream :: "bytes \<Rightarrow> bytes \<Rightarrow> nat \<Rightarrow> bytes" where
  "xs_stream n k len = keystream salsa20_core (drop 16 n) 0 (crypto_core_hsalsa20 n k None) len"

lemma length_xs_stream [simp]: "length (xs_stream n k len) = len"
  by (simp add: xs_stream_def)

lemma crypto_stream_xsalsa20_eq: "24 \<le> length n \<Longrightarrow> crypto_stream_xsalsa20 len n k = xs_stream n k len"
  by (simp add: crypto_stream_xsalsa20_def crypto_stream_salsa20_def xs_stream_def
      salsa20.stream_ref_keystream Let_def)

lemma crypto_stream_xsalsa20_xor_eq:
  "24 \<le> length n \<Longrightarrow> crypto_stream_xsalsa20_xor m n k = xor_buf m (xs_stream n k (length m))"
  by (simp add: crypto_stream_xsalsa20_xor_def crypto_stream_xsalsa20_xor_ic_def
      crypto_stream_salsa20_xor_ic_def xs_stream_def salsa20.stream_ref_xor_keystream Let_def)

lemma xs_stream_prefix: "l \<le> len \<Longrightarrow> take l (xs_stream n k len) = xs_stream n k l"
  by (simp add: xs_stream_def salsa20.keystream_prefix)

lemma xs_stream_64:
  "64 \<le> len \<Longrightarrow> xs_stream n k len = xs_stream n k 64 @
    keystream salsa20_core (drop 16 n) 1 (crypto_core_hsalsa20 n k None) (len - 64)"
  using salsa20.keystream_add [of "drop 16 n" 0 "crypto_core_hsalsa20 n k None" 1 "len - 64"]
  by (simp add: xs_stream_def)

text \<open>The two calls of the cipher, on the first block and on the rest, are one.\<close>

lemma secretbox_two_part:
  fixes m n k z :: bytes
  assumes "24 \<le> length n"
  defines "mlen0 \<equiv> min (length m) 32"
  defines "b \<equiv> crypto_stream_salsa20_xor (z @ take mlen0 m) (drop 16 n) (crypto_core_hsalsa20 n k None)"
  assumes "length z = 32"
  shows "b = xor_buf z (xs_stream n k 32) @ xor_buf (take mlen0 m) (drop 32 (xs_stream n k (32 + mlen0)))"
    and "take mlen0 (drop 32 b) @
      (if mlen0 < length m then crypto_stream_salsa20_xor_ic (drop mlen0 m) (drop 16 n) 1
        (crypto_core_hsalsa20 n k None) else []) =
      xor_buf m (drop 32 (xs_stream n k (32 + length m)))"
proof -
  have n: "8 \<le> length (drop 16 n)" using assms(1) by simp
  have len: "length (z @ take mlen0 m) = 32 + mlen0" using assms(4) by (simp add: mlen0_def)
  have "b = xor_buf (z @ take mlen0 m) (xs_stream n k (32 + mlen0))"
    unfolding b_def crypto_stream_salsa20_xor_def salsa20.stream_ref_xor_keystream [OF n] len
    by (simp add: xs_stream_def)
  also have "xs_stream n k (32 + mlen0) = xs_stream n k 32 @ drop 32 (xs_stream n k (32 + mlen0))"
    using xs_stream_prefix [of 32 "32 + mlen0" n k] by (metis append_take_drop_id le_add1)
  finally show b: "b = xor_buf z (xs_stream n k 32) @
      xor_buf (take mlen0 m) (drop 32 (xs_stream n k (32 + mlen0)))"
    using assms(4) by (simp add: xor_buf_append)
  have d: "drop 32 b = xor_buf (take mlen0 m) (drop 32 (xs_stream n k (32 + mlen0)))"
    unfolding b using assms(4) by simp
  show "take mlen0 (drop 32 b) @
      (if mlen0 < length m then crypto_stream_salsa20_xor_ic (drop mlen0 m) (drop 16 n) 1
        (crypto_core_hsalsa20 n k None) else []) =
      xor_buf m (drop 32 (xs_stream n k (32 + length m)))"
  proof (cases "mlen0 < length m")
    case True
    then have m0: "mlen0 = 32" by (auto simp: mlen0_def min_def split: if_splits)
    let ?ks = "keystream salsa20_core (drop 16 n) 1 (crypto_core_hsalsa20 n k None) (length m - 32)"
    have "xor_buf m (drop 32 (xs_stream n k (32 + length m))) =
        xor_buf (take 32 m @ drop 32 m) (drop 32 (xs_stream n k 64) @ ?ks)"
      using True m0 by (subst xs_stream_64) simp_all
    also have "\<dots> = xor_buf (take 32 m) (drop 32 (xs_stream n k 64)) @ xor_buf (drop 32 m) ?ks"
      using True m0 by (intro xor_buf_append) simp
    finally show ?thesis
      using True m0 n by (simp add: d crypto_stream_salsa20_xor_ic_def salsa20.stream_ref_xor_keystream)
  next
    case False
    then show ?thesis by (simp add: d mlen0_def)
  qed
qed

lemma secretbox_detached_eq:
  assumes "24 \<le> length n"
  shows "crypto_secretbox_detached m n k =
    (let c = xor_buf m (drop 32 (xs_stream n k (32 + length m)))
     in (c, crypto_onetimeauth_poly1305 c (xs_stream n k 32)))"
proof -
  let ?l = "min (length m) 32" and ?z = "replicate 32 (0 :: u8)"
  let ?sub = "crypto_core_hsalsa20 n k None"
  let ?b = "crypto_stream_salsa20_xor (?z @ take ?l m) (drop 16 n) ?sub"
  have z: "length ?z = 32" by simp
  have d: "64 - 32 = (32 :: nat)" by simp
  note two = secretbox_two_part [where z = ?z and m = m and k = k, OF assms z]
  have w: "take (?l + 32) (write_at (replicate 64 0) 32 (take ?l m)) = ?z @ take ?l m"
    by (simp add: write_at_def)
  have lb: "length ?b = ?l + 32" using two(1) by simp
  have t32: "take 32 (write_at x 0 ?b) = xs_stream n k 32" for x
    using two(1) by (simp add: write_at_def xor_buf_zeros)
  have d32: "take ?l (drop 32 (write_at x 0 ?b)) = take ?l (drop 32 ?b)" for x
    using lb by (simp add: write_at_def)
  show ?thesis
    unfolding crypto_secretbox_detached_def Let_def d w t32 d32 two(2)
    by (simp only: crypto_onetimeauth_poly1305_def)
qed


lemma secretbox_open_detached_eq:
  assumes "24 \<le> length n" "length mac = 16"
  shows "crypto_secretbox_open_detached m_null c mac n k =
    (if mac \<noteq> crypto_onetimeauth_poly1305 c (xs_stream n k 32) then Inl (Ret (- 1))
     else if m_null then Inr [] else Inr (xor_buf c (drop 32 (xs_stream n k (32 + length c)))))"
proof -
  let ?sub = "crypto_core_hsalsa20 n k None"
  have b: "crypto_stream_salsa20 32 (drop 16 n) ?sub = xs_stream n k 32"
    using crypto_stream_xsalsa20_eq [OF assms(1), of 32 k] by (simp add: crypto_stream_xsalsa20_def Let_def)
  have d: "64 - 32 = (32 :: nat)" by simp
  note two = secretbox_two_part(2) [where z = "xs_stream n k 32" and m = c and k = k, OF assms(1) length_xs_stream]
  show ?thesis
    unfolding crypto_secretbox_open_detached_def Let_def b d two
    using assms(2) by (simp add: crypto_onetimeauth_poly1305_verify_eq)
qed

definition secretbox_fits :: "nat \<Rightarrow> bool" where
  "secretbox_fits len \<longleftrightarrow> len \<le> crypto_secretbox_MESSAGEBYTES_MAX"

lemma secretbox_easy_eq:
  assumes "24 \<le> length n" "secretbox_fits (length m)"
  shows "crypto_secretbox_easy m n k =
    (let c = xor_buf m (drop 32 (xs_stream n k (32 + length m)))
     in Inr (crypto_onetimeauth_poly1305 c (xs_stream n k 32) @ c))"
  using assms by (simp add: crypto_secretbox_easy_def secretbox_fits_def secretbox_detached_eq Let_def)

lemma secretbox_open_easy_eq:
  assumes "24 \<le> length n"
  shows "crypto_secretbox_open_easy c n k =
    (if length c < 16 \<or> take 16 c \<noteq> crypto_onetimeauth_poly1305 (drop 16 c) (xs_stream n k 32)
     then Inl (Ret (- 1)) else Inr (xor_buf (drop 16 c) (drop 32 (xs_stream n k (16 + length c)))))"
  using assms by (simp add: crypto_secretbox_open_easy_def secretbox_open_detached_eq)

lemma xor_buf_stream_cancel:
  "length s = length m + j \<Longrightarrow> xor_buf (xor_buf m (drop j s)) (drop j s) = m"
  by (intro xor_buf_cancel) simp

interpretation secretbox: auth_enc "24 \<le> length n" secretbox_fits 16
  "\<lambda>m. crypto_secretbox_easy m n k" "\<lambda>c. crypto_secretbox_open_easy c n k" for n k
proof unfold_locales
  fix m :: bytes assume "24 \<le> length n" "secretbox_fits (length m)"
  then show "\<exists>c. crypto_secretbox_easy m n k = Inr c \<and> length c = length m + 16"
    by (simp add: secretbox_easy_eq Let_def)
next
  fix m c assume a: "24 \<le> length n" "secretbox_fits (length m)" "crypto_secretbox_easy m n k = Inr c"
  let ?s = "drop 32 (xs_stream n k (32 + length m))"
  have "c = crypto_onetimeauth_poly1305 (xor_buf m ?s) (xs_stream n k 32) @ xor_buf m ?s"
    using a by (simp add: secretbox_easy_eq Let_def)
  then show "crypto_secretbox_open_easy c n k = Inr m"
    using a(1) xor_buf_stream_cancel [of "xs_stream n k (32 + length m)" m 32]
    by (simp add: secretbox_open_easy_eq)
next
  fix c m assume a: "24 \<le> length n" "crypto_secretbox_open_easy c n k = Inr m" "secretbox_fits (length m)"
  let ?s = "drop 32 (xs_stream n k (16 + length c))"
  from a(1,2) have c: "16 \<le> length c" "take 16 c = crypto_onetimeauth_poly1305 (drop 16 c) (xs_stream n k 32)"
    "m = xor_buf (drop 16 c) ?s"
    by (auto simp: secretbox_open_easy_eq split: if_splits)
  have x: "xor_buf m ?s = drop 16 c"
    using c(1) xor_buf_stream_cancel [of "xs_stream n k (16 + length c)" "drop 16 c" 32] by (simp add: c(3))
  have l: "32 + length m = 16 + length c" using c(1,3) by simp
  show "crypto_secretbox_easy m n k = Inr c"
    unfolding secretbox_easy_eq [OF a(1,3)] Let_def l x c(2) [symmetric] by simp
qed

text \<open>The older interface is the same box with sixteen and thirty-two leading zero bytes.\<close>

lemma secretbox_xsalsa20poly1305_eq:
  assumes "24 \<le> length n" "secretbox_fits (length m)"
  shows "crypto_secretbox_xsalsa20poly1305 (replicate 32 0 @ m) n k =
    map_sum id (\<lambda>c. replicate 16 0 @ c) (crypto_secretbox_easy m n k)"
proof -
  let ?s = "xs_stream n k (32 + length m)"
  have "?s = xs_stream n k 32 @ drop 32 ?s"
    using xs_stream_prefix [of 32 "32 + length m" n k] by (metis append_take_drop_id le_add1)
  then have x: "crypto_stream_xsalsa20_xor (replicate 32 0 @ m) n k = xs_stream n k 32 @ xor_buf m (drop 32 ?s)"
    using assms(1) xor_buf_append [of "replicate 32 0" "xs_stream n k 32" m "drop 32 ?s"]
    by (simp add: crypto_stream_xsalsa20_xor_eq xor_buf_zeros)
  show ?thesis
    using assms by (simp add: crypto_secretbox_xsalsa20poly1305_def secretbox_easy_eq Let_def x write_at_def)
qed

section \<open>Properties\<close>

text \<open>
  C38: A secret box opens to the message that was put in; conversely whatever opens is the box of
  the message it opens to, so that any other sequence of bytes (a changed tag, a changed byte, a
  cut) is refused with \<open>-1\<close> or opens to a different message.
\<close>

theorem secretbox_roundtrip:
  assumes "24 \<le> length n" "length m \<le> crypto_secretbox_MESSAGEBYTES_MAX"
  shows "(\<exists>c. crypto_secretbox_easy m n k = Inr c \<and> length c = length m + 16 \<and>
      crypto_secretbox_open_easy c n k = Inr m) \<and>
    (\<forall>c. crypto_secretbox_open_easy c n k = Inr m \<longleftrightarrow> crypto_secretbox_easy m n k = Inr c)"
  using assms secretbox.enc_length [of n m k] secretbox.dec_iff [of n m _ k]
  by (fastforce simp: secretbox_fits_def)

lemma secretbox_roundtrip_witness:
  "\<exists>c. crypto_secretbox_easy [1, 2, 3] (replicate 24 7) (replicate 32 9) = Inr c \<and> length c = 3 + 16 \<and>
     crypto_secretbox_open_easy c (replicate 24 7) (replicate 32 9) = Inr [1, 2, 3]"
  using secretbox_roundtrip [of "replicate 24 7" "[1, 2, 3]" "replicate 32 9"]
  by (auto simp: crypto_secretbox_MESSAGEBYTES_MAX_def)

text \<open>
  The two implementations of the box agree: the NaCl-style function on the message behind 32
  zero bytes gives 16 zero bytes and then the tag and ciphertext of the "easy" function, although
  one runs the cipher over the whole buffer and the other in two pieces at counters 0 and 1.
\<close>

theorem secretbox_nacl_equiv:
  assumes "24 \<le> length n" "length m \<le> crypto_secretbox_MESSAGEBYTES_MAX"
  shows "crypto_secretbox (replicate 32 0 @ m) n k =
    (case crypto_secretbox_easy m n k of Inl e \<Rightarrow> Inl e | Inr c \<Rightarrow> Inr (replicate 16 0 @ c))"
  using assms secretbox_xsalsa20poly1305_eq [of n m k]
  by (simp add: crypto_secretbox_def secretbox_fits_def split: sum.split)

lemma secretbox_nacl_equiv_witness:
  "crypto_secretbox (replicate 32 0 @ [1, 2, 3]) (replicate 24 7) (replicate 32 9) =
    (case crypto_secretbox_easy [1, 2, 3] (replicate 24 7) (replicate 32 9) of
       Inl e \<Rightarrow> Inl e | Inr c \<Rightarrow> Inr (replicate 16 0 @ c))"
  by (rule secretbox_nacl_equiv) (simp_all add: crypto_secretbox_MESSAGEBYTES_MAX_def)

end
