(* ===== verification/Blake2b.thy ===== *)
theory Blake2b
  imports Streaming
begin

text \<open>
  BLAKE2b: the compression function of \<open>blake2b-compress-ref.c\<close>, the buffered hash of
  \<open>blake2b-ref.c\<close> and the wrappers \<open>crypto_generichash\<close> that libsodium exports.  A function that
  calls \<open>sodium_misuse\<close> aborts; the others return a status.
\<close>

section \<open>State\<close>

record blake2b_param =
  digest_length :: u8
  key_length :: u8
  fanout :: u8
  depth :: u8
  leaf_length :: bytes
  node_offset :: bytes
  node_depth :: u8
  inner_length :: u8
  reserved :: bytes
  salt :: bytes
  personal :: bytes

text \<open>The 64 bytes of the packed struct.\<close>

definition param_bytes :: "blake2b_param \<Rightarrow> bytes" where
  "param_bytes P =
     [digest_length P, key_length P, fanout P, depth P] @ leaf_length P @ node_offset P @
     [node_depth P, inner_length P] @ reserved P @ salt P @ personal P"

record blake2b_state =
  b2_h :: "u64 list"
  b2_t0 :: u64
  b2_t1 :: u64
  b2_f0 :: u64
  b2_f1 :: u64
  b2_buf :: bytes
  b2_buflen :: nat
  b2_last_node :: u8

section \<open>Compression (blake2b-compress-ref.c)\<close>

definition blake2b_IV :: "u64 list" where
  "blake2b_IV =
    [0x6a09e667f3bcc908, 0xbb67ae8584caa73b, 0x3c6ef372fe94f82b, 0xa54ff53a5f1d36f1,
     0x510e527fade682d1, 0x9b05688c2b3e6c1f, 0x1f83d9abfb41bd6b, 0x5be0cd19137e2179]"

definition blake2b_sigma :: "nat list list" where
  "blake2b_sigma =
    [[0, 1, 2, 3, 4, 5, 6, 7, 8, 9, 10, 11, 12, 13, 14, 15],
     [14, 10, 4, 8, 9, 15, 13, 6, 1, 12, 0, 2, 11, 7, 5, 3],
     [11, 8, 12, 0, 5, 2, 15, 13, 10, 14, 3, 6, 7, 1, 9, 4],
     [7, 9, 3, 1, 13, 12, 11, 14, 2, 6, 5, 10, 4, 0, 15, 8],
     [9, 0, 5, 7, 2, 4, 10, 15, 14, 1, 11, 12, 6, 8, 3, 13],
     [2, 12, 6, 10, 0, 11, 8, 3, 4, 13, 7, 5, 15, 14, 1, 9],
     [12, 5, 1, 15, 14, 13, 4, 10, 0, 7, 6, 3, 9, 2, 8, 11],
     [13, 11, 7, 14, 12, 1, 3, 9, 5, 0, 15, 4, 8, 6, 2, 10],
     [6, 15, 14, 9, 11, 3, 0, 8, 12, 2, 13, 7, 1, 4, 10, 5],
     [10, 2, 8, 4, 7, 6, 1, 5, 15, 11, 9, 14, 3, 12, 13, 0],
     [0, 1, 2, 3, 4, 5, 6, 7, 8, 9, 10, 11, 12, 13, 14, 15],
     [14, 10, 4, 8, 9, 15, 13, 6, 1, 12, 0, 2, 11, 7, 5, 3]]"

text \<open>The macro \<open>G(r, i, v[a], v[b], v[c], v[d])\<close>.\<close>

definition blake2b_G ::
    "u64 list \<Rightarrow> nat \<Rightarrow> nat \<Rightarrow> nat \<Rightarrow> nat \<Rightarrow> nat \<Rightarrow> nat \<Rightarrow> u64 list \<Rightarrow> u64 list" where
  "blake2b_G m r i a b c d v =
     (let v = v[a := v ! a + (v ! b + m ! (blake2b_sigma ! r ! (2 * i)))];
          v = v[d := rotr64 (v ! d XOR v ! a) 32];
          v = v[c := v ! c + v ! d];
          v = v[b := rotr64 (v ! b XOR v ! c) 24];
          v = v[a := v ! a + (v ! b + m ! (blake2b_sigma ! r ! (2 * i + 1)))];
          v = v[d := rotr64 (v ! d XOR v ! a) 16];
          v = v[c := v ! c + v ! d]
      in v[b := rotr64 (v ! b XOR v ! c) 63])"

definition blake2b_ROUND :: "u64 list \<Rightarrow> nat \<Rightarrow> u64 list \<Rightarrow> u64 list" where
  "blake2b_ROUND m r v =
     (let v = blake2b_G m r 0 0 4 8 12 v;
          v = blake2b_G m r 1 1 5 9 13 v;
          v = blake2b_G m r 2 2 6 10 14 v;
          v = blake2b_G m r 3 3 7 11 15 v;
          v = blake2b_G m r 4 0 5 10 15 v;
          v = blake2b_G m r 5 1 6 11 12 v;
          v = blake2b_G m r 6 2 7 8 13 v
      in blake2b_G m r 7 3 4 9 14 v)"

text \<open>The working vector after the loads, and the new chain value.\<close>

definition blake2b_F :: "u64 list \<Rightarrow> u64 \<Rightarrow> u64 \<Rightarrow> u64 \<Rightarrow> u64 \<Rightarrow> bytes \<Rightarrow> u64 list" where
  "blake2b_F h t0 t1 f0 f1 block =
     (let m = map (\<lambda>i. load64_le (drop (8 * i) block)) [0..<16];
          v = take 8 h @ take 4 blake2b_IV @
              [t0 XOR blake2b_IV ! 4, t1 XOR blake2b_IV ! 5, f0 XOR blake2b_IV ! 6, f1 XOR blake2b_IV ! 7];
          v = fold (blake2b_ROUND m) [0..<12] v
      in map (\<lambda>i. h ! i XOR v ! i XOR v ! (i + 8)) [0..<8])"

definition blake2b_compress_ref :: "blake2b_state \<Rightarrow> bytes \<Rightarrow> blake2b_state" where
  "blake2b_compress_ref S block =
     S\<lparr>b2_h := blake2b_F (b2_h S) (b2_t0 S) (b2_t1 S) (b2_f0 S) (b2_f1 S) block\<rparr>"

section \<open>The hash (blake2b-ref.c)\<close>

definition blake2b_set_lastnode :: "blake2b_state \<Rightarrow> blake2b_state" where
  "blake2b_set_lastnode S = S\<lparr>b2_f1 := - 1\<rparr>"

definition blake2b_is_lastblock :: "blake2b_state \<Rightarrow> bool" where
  "blake2b_is_lastblock S \<longleftrightarrow> b2_f0 S \<noteq> 0"

definition blake2b_set_lastblock :: "blake2b_state \<Rightarrow> blake2b_state" where
  "blake2b_set_lastblock S =
     (let S = (if b2_last_node S \<noteq> 0 then blake2b_set_lastnode S else S) in S\<lparr>b2_f0 := - 1\<rparr>)"

definition blake2b_increment_counter :: "blake2b_state \<Rightarrow> u64 \<Rightarrow> blake2b_state" where
  "blake2b_increment_counter S inc =
     (let S = S\<lparr>b2_t0 := b2_t0 S + inc\<rparr>
      in S\<lparr>b2_t1 := b2_t1 S + (if b2_t0 S < inc then 1 else 0)\<rparr>)"

definition blake2b_init0 :: blake2b_state where
  "blake2b_init0 = \<lparr>b2_h = blake2b_IV, b2_t0 = 0, b2_t1 = 0, b2_f0 = 0, b2_f1 = 0,
     b2_buf = replicate 256 0, b2_buflen = 0, b2_last_node = 0\<rparr>"

definition blake2b_init_param :: "blake2b_param \<Rightarrow> blake2b_state" where
  "blake2b_init_param P =
     (let S = blake2b_init0; p = param_bytes P
      in S\<lparr>b2_h := map (\<lambda>i. b2_h S ! i XOR load64_le (drop (8 * i) p)) [0..<8]\<rparr>)"

text \<open>The parameter block that all four initialisers fill in.\<close>

definition blake2b_fill_param ::
    "u8 \<Rightarrow> u8 \<Rightarrow> bytes option \<Rightarrow> bytes option \<Rightarrow> blake2b_param" where
  "blake2b_fill_param outlen keylen salt_opt personal_opt =
     \<lparr>digest_length = outlen, key_length = keylen, fanout = 1, depth = 1,
      leaf_length = store32_le 0, node_offset = store64_le 0, node_depth = 0, inner_length = 0,
      reserved = replicate 14 0,
      salt = (case salt_opt of Some s \<Rightarrow> take 16 s | None \<Rightarrow> replicate 16 0),
      personal = (case personal_opt of Some s \<Rightarrow> take 16 s | None \<Rightarrow> replicate 16 0)\<rparr>"

definition blake2b_init_salt_personal ::
    "u8 \<Rightarrow> bytes option \<Rightarrow> bytes option \<Rightarrow> blake2b_state result" where
  "blake2b_init_salt_personal outlen salt_opt personal_opt =
     (if outlen = 0 \<or> 64 < outlen then Inl Abort
      else Inr (blake2b_init_param (blake2b_fill_param outlen 0 salt_opt personal_opt)))"

definition blake2b_init :: "u8 \<Rightarrow> blake2b_state result" where
  "blake2b_init outlen =
     (if outlen = 0 \<or> 64 < outlen then Inl Abort
      else Inr (blake2b_init_param (blake2b_fill_param outlen 0 None None)))"

text \<open>
  The loop of \<open>blake2b_update\<close> over the two-block buffer: a block is compressed only when more
  input follows it.
\<close>

function blake2b_update :: "blake2b_state \<Rightarrow> bytes \<Rightarrow> blake2b_state" where
  "blake2b_update S inp =
     (if inp = [] then S
      else
        let left = b2_buflen S; fill = 2 * 128 - left
        in if fill < length inp then
             let S1 = S\<lparr>b2_buf := write_at (b2_buf S) left (take fill inp), b2_buflen := left + fill\<rparr>;
                 S2 = blake2b_increment_counter S1 128;
                 S3 = blake2b_compress_ref S2 (b2_buf S2);
                 S4 = S3\<lparr>b2_buf := write_at (b2_buf S3) 0 (take 128 (drop 128 (b2_buf S3))),
                         b2_buflen := b2_buflen S3 - 128\<rparr>
             in blake2b_update S4 (drop fill inp)
           else S\<lparr>b2_buf := write_at (b2_buf S) left inp, b2_buflen := left + length inp\<rparr>)"
  by pat_completeness auto
termination
  by (relation "measure (\<lambda>(S, inp). 2 * length inp + b2_buflen S)")
    (auto simp: blake2b_increment_counter_def blake2b_compress_ref_def Let_def)

declare blake2b_update.simps [simp del]

definition blake2b_init_key_salt_personal ::
    "u8 \<Rightarrow> bytes option \<Rightarrow> u8 \<Rightarrow> bytes option \<Rightarrow> bytes option \<Rightarrow> blake2b_state result" where
  "blake2b_init_key_salt_personal outlen key keylen salt_opt personal_opt =
     (if outlen = 0 \<or> 64 < outlen then Inl Abort
      else
        case key of
          None \<Rightarrow> Inl Abort
        | Some key \<Rightarrow>
            if keylen = 0 \<or> 64 < keylen then Inl Abort
            else
              let S = blake2b_init_param (blake2b_fill_param outlen keylen salt_opt personal_opt);
                  block = write_at (replicate 128 0) 0 (take (unat keylen) key)
              in Inr (blake2b_update S block))"

definition blake2b_init_key :: "u8 \<Rightarrow> bytes option \<Rightarrow> u8 \<Rightarrow> blake2b_state result" where
  "blake2b_init_key outlen key keylen = blake2b_init_key_salt_personal outlen key keylen None None"

text \<open>The last part of \<open>blake2b_final\<close>: pad, compress as the last block, give out and wipe.\<close>

definition blake2b_final_block :: "blake2b_state \<Rightarrow> u8 \<Rightarrow> bytes \<times> blake2b_state" where
  "blake2b_final_block S outlen =
     (let S = blake2b_increment_counter S (of_nat (b2_buflen S));
          S = blake2b_set_lastblock S;
          S = S\<lparr>b2_buf := write_at (b2_buf S) (b2_buflen S) (replicate (2 * 128 - b2_buflen S) 0)\<rparr>;
          S = blake2b_compress_ref S (b2_buf S);
          buffer = concat (map store64_le (b2_h S))
      in (take (unat outlen) buffer, S\<lparr>b2_h := replicate 8 0, b2_buf := replicate 256 0\<rparr>))"

definition blake2b_final :: "blake2b_state \<Rightarrow> u8 \<Rightarrow> (bytes \<times> blake2b_state) result" where
  "blake2b_final S outlen =
     (if outlen = 0 \<or> 64 < outlen then Inl Abort
      else if blake2b_is_lastblock S then Inl (Ret (- 1))
      else if 128 < b2_buflen S then
        let S = blake2b_increment_counter S 128;
            S = blake2b_compress_ref S (b2_buf S);
            S = S\<lparr>b2_buflen := b2_buflen S - 128\<rparr>
        in if 128 < b2_buflen S then Inl Abort
           else Inr (blake2b_final_block
                  (S\<lparr>b2_buf := write_at (b2_buf S) 0 (take (b2_buflen S) (drop 128 (b2_buf S)))\<rparr>) outlen)
      else Inr (blake2b_final_block S outlen))"

text \<open>
  The one-shot functions.  \<open>out\<close> is never a null pointer here; a null input with a length, which
  aborts in C, is not a buffer of the model.
\<close>

definition blake2b_salt_personal ::
    "bytes \<Rightarrow> bytes option \<Rightarrow> u8 \<Rightarrow> u8 \<Rightarrow> bytes option \<Rightarrow> bytes option \<Rightarrow> bytes result" where
  "blake2b_salt_personal inp key outlen keylen salt_opt personal_opt =
     (if outlen = 0 \<or> 64 < outlen then Inl Abort
      else if key = None \<and> keylen > 0 then Inl Abort
      else if keylen > 64 then Inl Abort
      else
        case (if keylen > 0 then blake2b_init_key_salt_personal outlen key keylen salt_opt personal_opt
              else blake2b_init_salt_personal outlen salt_opt personal_opt) of
          Inl e \<Rightarrow> Inl Abort
        | Inr S \<Rightarrow>
            (case blake2b_final (blake2b_update S inp) outlen of
               Inl e \<Rightarrow> Inl e
             | Inr (out, S') \<Rightarrow> Inr out))"

definition blake2b :: "bytes \<Rightarrow> bytes option \<Rightarrow> u8 \<Rightarrow> u8 \<Rightarrow> bytes result" where
  "blake2b inp key outlen keylen =
     (if outlen = 0 \<or> 64 < outlen then Inl Abort
      else if key = None \<and> keylen > 0 then Inl Abort
      else if keylen > 64 then Inl Abort
      else
        case (if keylen > 0 then blake2b_init_key outlen key keylen else blake2b_init outlen) of
          Inl e \<Rightarrow> Inl Abort
        | Inr S \<Rightarrow>
            (case blake2b_final (blake2b_update S inp) outlen of
               Inl e \<Rightarrow> Inl e
             | Inr (out, S') \<Rightarrow> Inr out))"

section \<open>The exported interface (generichash_blake2b.c, crypto_generichash.c)\<close>

definition crypto_generichash :: "nat \<Rightarrow> bytes \<Rightarrow> bytes option \<Rightarrow> nat \<Rightarrow> bytes result" where
  "crypto_generichash outlen inp key keylen =
     (if outlen \<le> 0 \<or> 64 < outlen \<or> 64 < keylen then Inl (Ret (- 1))
      else blake2b inp key (of_nat outlen) (of_nat keylen))"

definition crypto_generichash_init :: "bytes option \<Rightarrow> nat \<Rightarrow> nat \<Rightarrow> blake2b_state result" where
  "crypto_generichash_init key keylen outlen =
     (if outlen \<le> 0 \<or> 64 < outlen \<or> 64 < keylen then Inl (Ret (- 1))
      else if key = None \<or> keylen \<le> 0 then blake2b_init (of_nat outlen)
      else blake2b_init_key (of_nat outlen) key (of_nat keylen))"

definition crypto_generichash_update :: "blake2b_state \<Rightarrow> bytes \<Rightarrow> blake2b_state" where
  "crypto_generichash_update S inp = blake2b_update S inp"

text \<open>The assertion \<open>outlen <= UINT8_MAX\<close> comes before the call.\<close>

definition crypto_generichash_final :: "blake2b_state \<Rightarrow> nat \<Rightarrow> (bytes \<times> blake2b_state) result" where
  "crypto_generichash_final S outlen =
     (if 255 < outlen then Inl Abort else blake2b_final S (of_nat outlen))"

text \<open>The variants with a salt and a personalisation.\<close>

definition crypto_generichash_blake2b_salt_personal ::
    "nat \<Rightarrow> bytes \<Rightarrow> bytes option \<Rightarrow> nat \<Rightarrow> bytes option \<Rightarrow> bytes option \<Rightarrow> bytes result" where
  "crypto_generichash_blake2b_salt_personal outlen inp key keylen salt_opt personal_opt =
     (if outlen \<le> 0 \<or> 64 < outlen \<or> 64 < keylen then Inl (Ret (- 1))
      else blake2b_salt_personal inp key (of_nat outlen) (of_nat keylen) salt_opt personal_opt)"

definition crypto_generichash_blake2b_init_salt_personal ::
    "bytes option \<Rightarrow> nat \<Rightarrow> nat \<Rightarrow> bytes option \<Rightarrow> bytes option \<Rightarrow> blake2b_state result" where
  "crypto_generichash_blake2b_init_salt_personal key keylen outlen salt_opt personal_opt =
     (if outlen \<le> 0 \<or> 64 < outlen \<or> 64 < keylen then Inl (Ret (- 1))
      else if key = None \<or> keylen \<le> 0 then blake2b_init_salt_personal (of_nat outlen) salt_opt personal_opt
      else blake2b_init_key_salt_personal (of_nat outlen) key (of_nat keylen) salt_opt personal_opt)"

end
