(* ===== verification/Blake2b_Correct.thy ===== *)
theory Blake2b_Correct
  imports Blake2b
begin

text \<open>
  What the buffered BLAKE2b computes: \<open>blake2b_hash\<close> is the hash without a buffer, and
  \<open>blake2b_repr\<close> says which message a state has taken in.  The facts that the sealed box needs
  are those of the interpretation of \<open>streaming\<close>.
\<close>

section \<open>The specification\<close>

text \<open>The low and high word of the byte counter.\<close>

definition ctr_lo :: "nat \<Rightarrow> u64" where
  "ctr_lo t = of_nat t"

definition ctr_hi :: "nat \<Rightarrow> u64" where
  "ctr_hi t = of_nat (t div 2 ^ 64)"

text \<open>
  BLAKE2b without buffering: whole blocks of 128 bytes while more than one block is left, each with
  the count of bytes so far, then the last block padded with zeros and flagged.
\<close>

function blake2b_hash :: "u64 list \<Rightarrow> nat \<Rightarrow> bytes \<Rightarrow> u64 list" where
  "blake2b_hash h t msg =
     (if 128 < length msg
      then blake2b_hash (blake2b_F h (ctr_lo (t + 128)) (ctr_hi (t + 128)) 0 0 (take 128 msg)) (t + 128)
             (drop 128 msg)
      else blake2b_F h (ctr_lo (t + length msg)) (ctr_hi (t + length msg)) (- 1) 0
             (msg @ replicate (128 - length msg) 0))"
  by pat_completeness auto
termination by (relation "measure (\<lambda>(h, t, msg). length msg)") auto

declare blake2b_hash.simps [simp del]

definition blake2b_digest :: "u64 list \<Rightarrow> nat \<Rightarrow> bytes \<Rightarrow> bytes" where
  "blake2b_digest h outlen msg = take outlen (concat (map store64_le (blake2b_hash h 0 msg)))"

text \<open>The chain value after \<open>k\<close> blocks.\<close>

fun blake2b_chain :: "u64 list \<Rightarrow> bytes \<Rightarrow> nat \<Rightarrow> u64 list" where
  "blake2b_chain h msg 0 = h"
| "blake2b_chain h msg (Suc k) =
     blake2b_F (blake2b_chain h msg k) (ctr_lo (128 * Suc k)) (ctr_hi (128 * Suc k)) 0 0
       (take 128 (drop (128 * k) msg))"

lemma blake2b_chain_append:
  "128 * k \<le> length msg \<Longrightarrow> blake2b_chain h (msg @ m) k = blake2b_chain h msg k"
  by (induction k) auto

lemma blake2b_hash_chain:
  "k = 0 \<or> 128 * k < length msg \<Longrightarrow>
   blake2b_hash h 0 msg = blake2b_hash (blake2b_chain h msg k) (128 * k) (drop (128 * k) msg)"
proof (induction k)
  case (Suc k)
  then have "blake2b_hash h 0 msg = blake2b_hash (blake2b_chain h msg k) (128 * k) (drop (128 * k) msg)"
    by auto
  also have "\<dots> = blake2b_hash (blake2b_chain h msg (Suc k)) (128 * Suc k) (drop (128 * Suc k) msg)"
  proof -
    have "128 < length (drop (128 * k) msg)" using Suc.prems by simp
    then show ?thesis
      by (subst blake2b_hash.simps) (simp only: if_True blake2b_chain.simps mult_Suc_right drop_drop add.commute)
  qed
  finally show ?case .
qed simp

section \<open>One compression\<close>

lemma load64_le_take: "8 * i + 8 \<le> n \<Longrightarrow> load64_le (drop (8 * i) (take n b)) = load64_le (drop (8 * i) b)"
  by (simp add: load64_le_def drop_take)

lemma blake2b_F_take: "blake2b_F h t0 t1 f0 f1 (take 128 b) = blake2b_F h t0 t1 f0 f1 b"
proof -
  have "map (\<lambda>i. load64_le (drop (8 * i) (take 128 b))) [0..<16] = map (\<lambda>i. load64_le (drop (8 * i) b)) [0..<16]"
    by (intro map_cong refl load64_le_take) auto
  then show ?thesis by (simp only: blake2b_F_def Let_def)
qed

lemma length_blake2b_F [simp]: "length (blake2b_F h t0 t1 f0 f1 b) = 8"
  unfolding blake2b_F_def Let_def by simp

lemma length_blake2b_hash [simp]: "length (blake2b_hash h t msg) = 8"
  by (induction h t msg rule: blake2b_hash.induct) (subst blake2b_hash.simps, simp)

lemma ctr_step:
  fixes inc :: nat
  assumes "inc < 2 ^ 64"
  shows "ctr_lo t + of_nat inc = ctr_lo (t + inc)"
    and "ctr_hi t + (if ctr_lo (t + inc) < of_nat inc then 1 else 0) = ctr_hi (t + inc)"
proof -
  show "ctr_lo t + of_nat inc = ctr_lo (t + inc)" by (simp add: ctr_lo_def)
  have i: "unat (of_nat inc :: u64) = inc"
    using assms by (simp add: unsigned_of_nat take_bit_nat_eq_self)
  have "unat (ctr_lo (t + inc)) = (t + inc) mod 2 ^ 64"
    by (simp add: ctr_lo_def unsigned_of_nat take_bit_eq_mod del: of_nat_add)
  then have lt: "ctr_lo (t + inc) < of_nat inc \<longleftrightarrow> (t + inc) mod 2 ^ 64 < inc"
    by (simp only: word_less_nat_alt i)
  have "(t + inc) div M = t div M + (if (t + inc) mod M < inc then 1 else 0)" if "inc < M" for M :: nat
  proof (cases "t mod M + inc < M")
    case True
    then show ?thesis using that by (simp add: div_add1_eq [of t inc] mod_add_left_eq [of t M inc, symmetric])
  next
    case False
    have r: "t mod M < M" using that by simp
    have s: "M \<le> t mod M + inc" "t mod M + inc < 2 * M" using False that r by linarith+
    then have "(t mod M + inc) div M = 1" by (intro div_nat_eqI) simp_all
    moreover have "(t mod M + inc) mod M = t mod M + inc - M"
      using s by (simp only: le_mod_geq) (simp add: less_diff_conv2)
    ultimately have "(t mod M + inc) div M = 1" "(t mod M + inc) mod M = t mod M + inc - M"
      "t mod M + inc - M < inc" using s r by linarith+
    then show ?thesis
      using False that r by (simp add: div_add1_eq [of t inc] mod_add_left_eq [of t M inc, symmetric])
  qed
  from this [OF assms] show "ctr_hi t + (if ctr_lo (t + inc) < of_nat inc then 1 else 0) = ctr_hi (t + inc)"
    unfolding ctr_hi_def lt by simp
qed

section \<open>What a state has taken in\<close>

definition blake2b_taken :: "u64 list \<Rightarrow> nat \<Rightarrow> blake2b_state \<Rightarrow> bytes \<Rightarrow> bool" where
  "blake2b_taken h k S msg \<longleftrightarrow>
     length (b2_buf S) = 256 \<and> b2_f0 S = 0 \<and> b2_f1 S = 0 \<and> b2_last_node S = 0 \<and>
     length msg = 128 * k + b2_buflen S \<and> b2_buflen S \<le> 256 \<and>
     take (b2_buflen S) (b2_buf S) = drop (128 * k) msg \<and>
     b2_h S = blake2b_chain h msg k \<and> b2_t0 S = ctr_lo (128 * k) \<and> b2_t1 S = ctr_hi (128 * k)"

definition blake2b_repr :: "u64 list \<Rightarrow> blake2b_state \<Rightarrow> bytes \<Rightarrow> bool" where
  "blake2b_repr h S msg \<longleftrightarrow> (\<exists>k. blake2b_taken h k S msg \<and> (k = 0 \<or> 128 < b2_buflen S))"

definition blake2b_consume :: "blake2b_state \<Rightarrow> blake2b_state" where
  "blake2b_consume S = blake2b_compress_ref (blake2b_increment_counter S 128) (b2_buf (blake2b_increment_counter S 128))"

lemma blake2b_consume_taken:
  assumes "blake2b_taken h k S msg" "128 \<le> b2_buflen S"
  defines "S' \<equiv> blake2b_consume S"
  defines "S'' \<equiv> S'\<lparr>b2_buf := write_at (b2_buf S) 0 (take (b2_buflen S - 128) (drop 128 (b2_buf S))),
    b2_buflen := b2_buflen S - 128\<rparr>"
  shows "blake2b_taken h (Suc k) S'' msg"
proof -
  note t = assms(1) [unfolded blake2b_taken_def]
  have tk: "take (b2_buflen S) (b2_buf S) = drop (128 * k) msg" using t by auto
  have blk: "take 128 (b2_buf S) = take 128 (drop (128 * k) msg)"
    using arg_cong [OF tk, of "take 128"] assms(2) by (simp add: min_absorb1)
  have rest: "take (b2_buflen S - 128) (drop 128 (b2_buf S)) = drop (128 * Suc k) msg"
    using arg_cong [OF tk, of "drop 128"] by (simp add: drop_take add.commute)
  have "b2_h S' = blake2b_chain h msg (Suc k)"
    using t blake2b_F_take [of _ _ _ _ _ "b2_buf S"] ctr_step [of 128 "128 * k"]
    unfolding S'_def blake2b_consume_def
    by (simp add: blake2b_compress_ref_def blake2b_increment_counter_def Let_def blk [symmetric] add.commute)
  moreover have "b2_buflen S - 128 \<le> 256" using t by auto
  ultimately show ?thesis
    using t assms(2) rest ctr_step [of 128 "128 * k"]
    by (simp add: blake2b_taken_def S''_def S'_def blake2b_consume_def blake2b_compress_ref_def
        blake2b_increment_counter_def Let_def write_at_def add.commute)
qed


lemma blake2b_taken_append:
  assumes "blake2b_taken h k S msg" "length m \<le> 256 - b2_buflen S"
  shows "blake2b_taken h k (S\<lparr>b2_buf := write_at (b2_buf S) (b2_buflen S) m,
    b2_buflen := b2_buflen S + length m\<rparr>) (msg @ m)"
proof -
  note t = assms(1) [unfolded blake2b_taken_def]
  have "take (b2_buflen S) (b2_buf S) = drop (128 * k) msg" "b2_buflen S + length m \<le> 256"
    using t assms(2) by auto
  then show ?thesis
    using t by (simp add: blake2b_taken_def take_write_at blake2b_chain_append)
qed

lemma blake2b_update_repr:
  "blake2b_taken h k S msg \<Longrightarrow> k = 0 \<or> (128 \<le> b2_buflen S \<and> (inp = [] \<longrightarrow> 128 < b2_buflen S)) \<Longrightarrow>
   blake2b_repr h (blake2b_update S inp) (msg @ inp)"
proof (induction S inp arbitrary: k msg rule: blake2b_update.induct)
  case (1 S inp)
  let ?left = "b2_buflen S"
  let ?fill = "2 * 128 - ?left"
  have l: "?left \<le> 256" using 1(2) by (auto simp: blake2b_taken_def)
  consider "inp = []" | "inp \<noteq> []" "length inp \<le> ?fill" | "inp \<noteq> []" "?fill < length inp" by linarith
  then show ?case
  proof cases
    case 1
    then show ?thesis using "1.prems" by (auto simp: blake2b_update.simps blake2b_repr_def)
  next
    case 2
    have "blake2b_taken h k (blake2b_update S inp) (msg @ inp)"
      using 2 blake2b_taken_append [OF 1(2), of inp] by (simp add: blake2b_update.simps [of S inp] Let_def)
    moreover have "b2_buflen (blake2b_update S inp) = ?left + length inp"
      using 2 by (simp add: blake2b_update.simps [of S inp] Let_def)
    moreover have "k = 0 \<or> 128 < ?left + length inp" using 1(3) 2(1) by (cases inp) auto
    ultimately show ?thesis unfolding blake2b_repr_def by (intro exI [of _ k]) simp
  next
    case 3
    define S1 where "S1 = S\<lparr>b2_buf := write_at (b2_buf S) ?left (take ?fill inp), b2_buflen := ?left + ?fill\<rparr>"
    define S3 where "S3 = blake2b_consume S1"
    define S4 where "S4 = S3\<lparr>b2_buf := write_at (b2_buf S3) 0 (take 128 (drop 128 (b2_buf S3))),
      b2_buflen := b2_buflen S3 - 128\<rparr>"
    have u: "blake2b_update S inp = blake2b_update S4 (drop ?fill inp)"
      using 3 unfolding S4_def S3_def blake2b_consume_def S1_def
      by (subst blake2b_update.simps) (simp only: Let_def if_True if_False)
    have t1: "blake2b_taken h k S1 (msg @ take ?fill inp)"
      using blake2b_taken_append [OF 1(2), of "take ?fill inp"] 3 by (simp add: S1_def min_absorb2)
    have b1: "b2_buflen S1 = 256" using l by (simp add: S1_def)
    have keep: "b2_buf S3 = b2_buf S1" "b2_buflen S3 = b2_buflen S1"
      by (simp_all add: S3_def blake2b_consume_def blake2b_increment_counter_def blake2b_compress_ref_def Let_def)
    have t4: "blake2b_taken h (Suc k) S4 (msg @ take ?fill inp)"
      using blake2b_consume_taken [OF t1] b1 by (simp add: keep S4_def flip: S3_def)
    have "128 \<le> b2_buflen S4 \<and> (drop ?fill inp = [] \<longrightarrow> 128 < b2_buflen S4)"
      using 3(2) b1 by (simp add: S4_def keep)
    with 1(1) [OF 3(1) refl refl 3(2) refl refl refl refl, of "Suc k" "msg @ take ?fill inp"] t4
    have "blake2b_repr h (blake2b_update S4 (drop ?fill inp)) ((msg @ take ?fill inp) @ drop ?fill inp)"
      unfolding S4_def S3_def blake2b_consume_def S1_def by blast
    then show ?thesis using u by simp
  qed
qed

lemma blake2b_repr_update: "blake2b_repr h S msg \<Longrightarrow> blake2b_repr h (blake2b_update S m) (msg @ m)"
  unfolding blake2b_repr_def [of h S] by (auto intro: blake2b_update_repr)

text \<open>A fresh state, from any of the initialisers.\<close>

definition blake2b_fresh :: "u64 list \<Rightarrow> blake2b_state" where
  "blake2b_fresh h = blake2b_init0\<lparr>b2_h := h\<rparr>"

lemma blake2b_repr_fresh: "blake2b_repr h (blake2b_fresh h) []"
  by (auto simp: blake2b_repr_def blake2b_taken_def blake2b_fresh_def blake2b_init0_def ctr_lo_def ctr_hi_def
      intro!: exI [of _ 0])

lemma blake2b_final_block_taken:
  assumes "blake2b_taken h k S msg" "b2_buflen S \<le> 128"
  shows "fst (blake2b_final_block S outlen) =
    take (unat outlen) (concat (map store64_le (blake2b_hash (blake2b_chain h msg k) (128 * k) (drop (128 * k) msg))))"
proof -
  note t = assms(1) [unfolded blake2b_taken_def]
  let ?r = "drop (128 * k) msg"
  have tk: "take (b2_buflen S) (b2_buf S) = ?r" and lr: "length ?r = b2_buflen S" using t by auto
  have e: "blake2b_hash (blake2b_chain h msg k) (128 * k) ?r =
      blake2b_F (blake2b_chain h msg k) (ctr_lo (128 * k + length ?r)) (ctr_hi (128 * k + length ?r)) (- 1) 0
        (?r @ replicate (128 - length ?r) 0)"
    using lr assms(2) by (subst blake2b_hash.simps) simp
  have b: "take 128 (write_at (b2_buf S) (b2_buflen S) (replicate (256 - b2_buflen S) 0)) =
      ?r @ replicate (128 - length ?r) 0"
    using t tk lr assms(2) by (simp add: write_at_def)
  show ?thesis
    unfolding e using t lr b ctr_step [of "b2_buflen S" "128 * k"] assms(2)
      blake2b_F_take [of _ _ _ _ _ "write_at (b2_buf S) (b2_buflen S) (replicate (256 - b2_buflen S) 0)"]
    by (simp add: blake2b_final_block_def blake2b_increment_counter_def blake2b_set_lastblock_def
        blake2b_compress_ref_def Let_def)
qed

lemma blake2b_repr_final:
  assumes "blake2b_repr h S msg" "outlen \<noteq> 0" "outlen \<le> 64"
  shows "\<exists>S'. blake2b_final S outlen = Inr (blake2b_digest h (unat outlen) msg, S')"
proof -
  obtain k where t: "blake2b_taken h k S msg" and k: "k = 0 \<or> 128 < b2_buflen S"
    using assms(1) by (auto simp: blake2b_repr_def)
  note t' = t [unfolded blake2b_taken_def]
  have nl: "\<not> blake2b_is_lastblock S" using t' by (simp add: blake2b_is_lastblock_def)
  have out: "\<not> (outlen = 0 \<or> 64 < outlen)" using assms(2,3) by (auto simp: not_less)
  show ?thesis
  proof (cases "128 < b2_buflen S")
    case False
    then have "fst (blake2b_final_block S outlen) = blake2b_digest h (unat outlen) msg"
      using blake2b_final_block_taken [OF t] k by (simp add: blake2b_digest_def)
    then show ?thesis using False nl out
      by (simp add: blake2b_final_def) (metis surjective_pairing)
  next
    case True
    let ?S3 = "blake2b_consume S"
    define S4 where "S4 = ?S3\<lparr>b2_buf := write_at (b2_buf S) 0 (take (b2_buflen S - 128) (drop 128 (b2_buf S))),
      b2_buflen := b2_buflen S - 128\<rparr>"
    have t4: "blake2b_taken h (Suc k) S4 msg"
      unfolding S4_def using t True by (intro blake2b_consume_taken) auto
    have "b2_buflen S \<le> 256" using t' by blast
    then have b4: "b2_buflen S4 \<le> 128" by (simp add: S4_def)
    have lm: "128 * Suc k < length msg" using t' True by simp
    have "fst (blake2b_final_block S4 outlen) = blake2b_digest h (unat outlen) msg"
      using blake2b_final_block_taken [OF t4 b4] blake2b_hash_chain [of "Suc k" msg h] lm
      by (simp add: blake2b_digest_def)
    moreover have sw: "X\<lparr>b2_buflen := n, b2_buf := b\<rparr> = X\<lparr>b2_buf := b, b2_buflen := n\<rparr>"
      for X :: blake2b_state and n b by simp
    have "blake2b_final S outlen = Inr (blake2b_final_block S4 outlen)"
      using True nl out b4
      by (simp add: sw blake2b_final_def Let_def S4_def blake2b_consume_def blake2b_increment_counter_def
          blake2b_compress_ref_def)
    ultimately show ?thesis by (metis surjective_pairing)
  qed
qed


section \<open>The streaming interface\<close>

interpretation blake2b: streaming "blake2b_repr h" "\<lambda>n. outlen \<noteq> 0 \<and> outlen \<le> 64" "blake2b_fresh h"
  blake2b_update "\<lambda>S. map_sum id fst (blake2b_final S outlen)"
  "\<lambda>msg. Inr (blake2b_digest h (unat outlen) msg)" for h :: "u64 list" and outlen :: u8
proof unfold_locales
  fix S msg assume "blake2b_repr h S msg" "outlen \<noteq> 0 \<and> outlen \<le> 64"
  then show "map_sum id fst (blake2b_final S outlen) = Inr (blake2b_digest h (unat outlen) msg)"
    using blake2b_repr_final by fastforce
qed (auto intro: blake2b_repr_fresh blake2b_repr_update)

text \<open>The chain value at the start, and the block the key is hashed as.\<close>

definition blake2b_h0 :: "nat \<Rightarrow> nat \<Rightarrow> u64 list" where
  "blake2b_h0 outlen keylen = b2_h (blake2b_init_param (blake2b_fill_param (of_nat outlen) (of_nat keylen) None None))"

definition key_block :: "bytes option \<Rightarrow> nat \<Rightarrow> bytes" where
  "key_block key keylen =
     (case key of
        None \<Rightarrow> []
      | Some k \<Rightarrow> if keylen = 0 then [] else write_at (replicate 128 0) 0 (take keylen k))"

lemma blake2b_init_param_fresh: "blake2b_init_param P = blake2b_fresh (b2_h (blake2b_init_param P))"
  by (simp add: blake2b_init_param_def blake2b_fresh_def Let_def)

lemma unat_small_byte: "n \<le> 64 \<Longrightarrow> unat (of_nat n :: u8) = n"
  by (simp add: unsigned_of_nat take_bit_nat_eq_self)

lemma small_byte:
  assumes "n \<le> 64"
  shows "(of_nat n :: u8) \<le> 64" "(of_nat n :: u8) = 0 \<longleftrightarrow> n = 0"
proof -
  show "(of_nat n :: u8) \<le> 64" using assms by (simp only: word_le_nat_alt unat_small_byte) simp
  have "(of_nat n :: u8) = 0 \<longleftrightarrow> unat (of_nat n :: u8) = 0" by (simp only: unat_eq_zero)
  then show "(of_nat n :: u8) = 0 \<longleftrightarrow> n = 0" by (simp only: unat_small_byte [OF assms])
qed

lemma range_byte:
  "1 \<le> n \<Longrightarrow> n \<le> 64 \<Longrightarrow> ((of_nat n :: u8) = 0 \<or> 64 < (of_nat n :: u8)) = False"
  using small_byte [of n] by (simp add: not_less)

lemma generichash_init_repr:
  assumes "1 \<le> outlen" "outlen \<le> 64" "keylen \<le> 64" "key = None \<longrightarrow> keylen = 0"
  shows "\<exists>S. crypto_generichash_init key keylen outlen = Inr S \<and>
    (if keylen = 0 then blake2b_init (of_nat outlen) else blake2b_init_key (of_nat outlen) key (of_nat keylen)) = Inr S \<and>
    blake2b_repr (blake2b_h0 outlen keylen) S (key_block key keylen)"
proof (cases "keylen = 0")
  case True
  let ?S = "blake2b_fresh (blake2b_h0 outlen 0)"
  have "blake2b_init (of_nat outlen) = Inr ?S"
    unfolding blake2b_init_def blake2b_h0_def blake2b_init_param_fresh [symmetric] range_byte [OF assms(1,2)]
    by simp
  then show ?thesis using True assms blake2b_repr_fresh
    by (auto simp: crypto_generichash_init_def key_block_def split: option.split)
next
  case False
  then obtain k where k: "key = Some k" using assms(4) by auto
  have kl: "1 \<le> keylen" using False by simp
  let ?S = "blake2b_update (blake2b_fresh (blake2b_h0 outlen keylen)) (key_block key keylen)"
  have "blake2b_init_key (of_nat outlen) key (of_nat keylen) = Inr ?S"
    using False unfolding blake2b_init_key_def blake2b_init_key_salt_personal_def blake2b_h0_def key_block_def k
      blake2b_init_param_fresh [symmetric] range_byte [OF assms(1,2)] Let_def option.case if_False
      range_byte [OF kl assms(3)] unat_small_byte [OF assms(3)] by simp
  moreover have "blake2b_repr (blake2b_h0 outlen keylen) ?S ([] @ key_block key keylen)"
    by (rule blake2b_repr_update [OF blake2b_repr_fresh])
  ultimately show ?thesis using False assms k by (simp add: crypto_generichash_init_def)
qed

lemma length_blake2b_digest: "n \<le> 64 \<Longrightarrow> length (blake2b_digest h n msg) = n"
proof -
  have "length (concat (map store64_le ws)) = 8 * length ws" for ws by (induction ws) auto
  then show "n \<le> 64 \<Longrightarrow> length (blake2b_digest h n msg) = n" by (simp add: blake2b_digest_def)
qed

lemma generichash_update_all: "update_all crypto_generichash_update S ms = update_all blake2b_update S ms"
  by (induction ms arbitrary: S) (simp_all add: crypto_generichash_update_def)

lemma generichash_final_repr:
  assumes "blake2b_repr h S msg" "1 \<le> outlen" "outlen \<le> 64"
  shows "\<exists>S'. crypto_generichash_final S outlen = Inr (blake2b_digest h outlen msg, S')"
  using blake2b_repr_final [OF assms(1), of "of_nat outlen"] small_byte [OF assms(3)] assms(2,3)
    unat_small_byte [OF assms(3)]
  by (simp add: crypto_generichash_final_def)

lemma generichash_eq:
  assumes "1 \<le> outlen" "outlen \<le> 64" "keylen \<le> 64" "key = None \<longrightarrow> keylen = 0"
  shows "crypto_generichash outlen msg key keylen =
    Inr (blake2b_digest (blake2b_h0 outlen keylen) outlen (key_block key keylen @ msg))"
proof -
  obtain S where S: "(if keylen = 0 then blake2b_init (of_nat outlen)
      else blake2b_init_key (of_nat outlen) key (of_nat keylen)) = Inr S"
    "blake2b_repr (blake2b_h0 outlen keylen) S (key_block key keylen)"
    using generichash_init_repr [OF assms] by blast
  obtain S' where S': "blake2b_final (blake2b_update S msg) (of_nat outlen) =
      Inr (blake2b_digest (blake2b_h0 outlen keylen) (unat (of_nat outlen :: u8)) (key_block key keylen @ msg), S')"
    using blake2b_repr_final [OF blake2b_repr_update [OF S(2)], of "of_nat outlen" msg]
      small_byte [OF assms(2)] assms(1) by auto
  have kl: "0 < (of_nat keylen :: u8) \<longleftrightarrow> keylen \<noteq> 0" "\<not> 64 < (of_nat keylen :: u8)"
    using small_byte [OF assms(3)] by (simp_all add: word_gt_0 not_less)
  show ?thesis
    using assms S(1) S' kl small_byte [OF assms(2)] unat_small_byte [OF assms(2)]
    by (auto simp: crypto_generichash_def blake2b_def not_less split: if_splits)
qed

section \<open>Properties\<close>

text \<open>
  Hashing a message in pieces with \<open>crypto_generichash_init\<close>, \<open>_update\<close> and \<open>_final\<close>, with or
  without a key, gives what the one-shot \<open>crypto_generichash\<close> gives on the whole message, and this
  is the unbuffered BLAKE2b of the key block and the message: the lazy two-block buffer never
  compresses the last block early, whatever the lengths of the pieces.
\<close>

theorem generichash_streaming:
  assumes "1 \<le> outlen" "outlen \<le> 64" "keylen \<le> 64" "key = None \<longrightarrow> keylen = 0"
  shows "\<exists>S S' digest. crypto_generichash_init key keylen outlen = Inr S \<and>
    crypto_generichash_final (update_all crypto_generichash_update S ms) outlen = Inr (digest, S') \<and>
    crypto_generichash outlen (concat ms) key keylen = Inr digest \<and> length digest = outlen \<and>
    digest = take outlen (concat (map store64_le
      (blake2b_hash (blake2b_h0 outlen keylen) 0 (key_block key keylen @ concat ms))))"
proof -
  obtain S where S: "crypto_generichash_init key keylen outlen = Inr S"
    "blake2b_repr (blake2b_h0 outlen keylen) S (key_block key keylen)"
    using generichash_init_repr [OF assms] by blast
  have "blake2b_repr (blake2b_h0 outlen keylen) (update_all blake2b_update S ms) (key_block key keylen @ concat ms)"
    using S(2) by (rule blake2b.repr_update_all [where outlen = 1]) simp
  from generichash_final_repr [OF this assms(1,2)] S(1) generichash_eq [OF assms]
    length_blake2b_digest [OF assms(2)]
  show ?thesis by (auto simp: generichash_update_all blake2b_digest_def)
qed

lemma generichash_streaming_witness:
  "\<exists>S S' digest. crypto_generichash_init (Some [1, 2]) 2 24 = Inr S \<and>
    crypto_generichash_final (update_all crypto_generichash_update S [[3], [4, 5]]) 24 = Inr (digest, S') \<and>
    crypto_generichash 24 [3, 4, 5] (Some [1, 2]) 2 = Inr digest \<and> length digest = 24"
  using generichash_streaming [of 24 2 "Some [1, 2]" "[[3], [4, 5]]"] by auto

end
