(* ===== verification/Sha2.thy ===== *)
theory Sha2
  imports Streaming
begin

text \<open>
  What SHA-256 and SHA-512 share.  The two files \<open>hash_sha256_cp.c\<close> and \<open>hash_sha512_cp.c\<close> are
  the same program over words of 32 and 64 bits: the macros of the round and of the message
  schedule, the block buffer of \<open>update\<close>, and the padding.  They are modelled once, over the word
  length, the block size \<open>b\<close> and the size \<open>l\<close> of the length field, and instantiated in \<open>Sha256\<close>
  and \<open>Sha512\<close>.  The reference description is the one of FIPS 180-4, with eight working
  variables that move down at each round.
\<close>

section \<open>The macros Ch, Maj, RND, RNDr and MSCH\<close>

definition sha2_Ch :: "'a::len word \<Rightarrow> 'a word \<Rightarrow> 'a word \<Rightarrow> 'a word" where
  "sha2_Ch x y z = (x AND (y XOR z)) XOR z"

definition sha2_Maj :: "'a::len word \<Rightarrow> 'a word \<Rightarrow> 'a word \<Rightarrow> 'a word" where
  "sha2_Maj x y z = (x AND (y OR z)) OR (y AND z)"

text \<open>The four functions on words that differ between the two hashes, and the constants.\<close>

record 'w sha2_params =
  sha2_S0 :: "'w \<Rightarrow> 'w"
  sha2_S1 :: "'w \<Rightarrow> 'w"
  sha2_s0 :: "'w \<Rightarrow> 'w"
  sha2_s1 :: "'w \<Rightarrow> 'w"
  sha2_Krnd :: "'w list"

text \<open>\<open>RND(S[a], S[b], ..., S[h], k)\<close>, the variables given by their places in \<open>S\<close>.\<close>

definition sha2_RND :: "'a::len word sha2_params \<Rightarrow> (nat \<Rightarrow> nat) \<Rightarrow> 'a word \<Rightarrow> 'a word list \<Rightarrow> 'a word list" where
  "sha2_RND p v k S =
     (let a = v 0; b = v 1; c = v 2; d = v 3; e = v 4; f = v 5; g = v 6; h = v 7;
          S = S[h := S ! h + (sha2_S1 p (S ! e) + sha2_Ch (S ! e) (S ! f) (S ! g) + k)];
          S = S[d := S ! d + S ! h]
      in S[h := S ! h + (sha2_S0 p (S ! a) + sha2_Maj (S ! a) (S ! b) (S ! c))])"

text \<open>The places are \<open>(64 - i) % 8\<close>, ..., \<open>(71 - i) % 8\<close>; with 80 for 64 they are the same.\<close>

definition sha2_RNDr ::
    "'a::len word sha2_params \<Rightarrow> nat \<Rightarrow> 'a word list \<Rightarrow> nat \<Rightarrow> nat \<Rightarrow> 'a word list \<Rightarrow> 'a word list" where
  "sha2_RNDr p n W ii i S = sha2_RND p (\<lambda>j. (n + j - i) mod 8) (W ! (i + ii) + sha2_Krnd p ! (i + ii)) S"

definition sha2_MSCH :: "'a::len word sha2_params \<Rightarrow> nat \<Rightarrow> nat \<Rightarrow> 'a word list \<Rightarrow> 'a word list" where
  "sha2_MSCH p ii i W =
     W[i + ii + 16 := sha2_s1 p (W ! (i + ii + 14)) + W ! (i + ii + 9) + sha2_s0 p (W ! (i + ii + 1)) + W ! (i + ii)]"

text \<open>The loop \<open>for (i = 0; i < n; i += 16)\<close>, left in the middle of its last pass.\<close>

function sha2_loop ::
    "'a::len word sha2_params \<Rightarrow> nat \<Rightarrow> nat \<Rightarrow> 'a word list \<times> 'a word list \<Rightarrow> 'a word list" where
  "sha2_loop p n ii (W, S) =
     (if ii < n then
        let S = fold (sha2_RNDr p n W ii) [0..<16] S
        in if ii + 16 = n then S
           else sha2_loop p n (ii + 16) (fold (sha2_MSCH p ii) [0..<16] W, S)
      else S)"
  by pat_completeness auto
termination by (relation "measure (\<lambda>(p, n, ii, W, S). n - ii)") auto

declare sha2_loop.simps [simp del]

definition sha2_transform ::
    "'a::len word sha2_params \<Rightarrow> nat \<Rightarrow> 'a word list \<Rightarrow> 'a word list \<Rightarrow> 'a word list" where
  "sha2_transform p n state W = map2 (+) state (sha2_loop p n 0 (W @ replicate (n - 16) 0, state))"

section \<open>The block buffer\<close>

text \<open>The loop \<open>while (inlen >= b)\<close> over whole blocks.\<close>

function md_blocks :: "('h \<Rightarrow> bytes \<Rightarrow> 'h) \<Rightarrow> nat \<Rightarrow> 'h \<Rightarrow> bytes \<Rightarrow> 'h" where
  "md_blocks f b h m =
     (if 0 < b \<and> b \<le> length m then md_blocks f b (f h (take b m)) (drop b m) else h)"
  by pat_completeness auto
termination by (relation "measure (\<lambda>(f, b, h, m). length m)") auto

declare md_blocks.simps [simp del]

text \<open>\<open>update\<close> with \<open>r\<close> bytes in the buffer: fill it up, compress, go over the blocks, keep the rest.\<close>

definition md_absorb ::
    "('h \<Rightarrow> bytes \<Rightarrow> 'h) \<Rightarrow> nat \<Rightarrow> 'h \<Rightarrow> bytes \<Rightarrow> nat \<Rightarrow> bytes \<Rightarrow> 'h \<times> bytes" where
  "md_absorb f b h buf r inp =
     (if length inp < b - r then (h, write_at buf r inp)
      else
        let buf = write_at buf r (take (b - r) inp);
            h = f h buf;
            inp = drop (b - r) inp;
            h = md_blocks f b h inp
        in (h, write_at buf 0 (rest b inp)))"

text \<open>
  The padding: a byte 0x80 and zeros up to the length field of \<open>l\<close> bytes, in one block or two.
\<close>

definition md_PAD :: "nat \<Rightarrow> bytes" where
  "md_PAD b = 0x80 # replicate (b - 1) 0"

definition md_pad ::
    "('h \<Rightarrow> bytes \<Rightarrow> 'h) \<Rightarrow> nat \<Rightarrow> nat \<Rightarrow> 'h \<Rightarrow> bytes \<Rightarrow> nat \<Rightarrow> bytes \<Rightarrow> 'h" where
  "md_pad f b l h buf r len =
     (let (h, buf) =
        (if r < b - l then (h, write_at buf r (take (b - l - r) (md_PAD b)))
         else
           let buf = write_at buf r (take (b - r) (md_PAD b));
               h = f h buf
           in (h, write_at buf 0 (replicate (b - l) 0)))
      in f h (write_at buf (b - l) len))"

section \<open>Facts about the buffer\<close>

lemma md_blocks_short [simp]: "length m < b \<Longrightarrow> md_blocks f b h m = h"
  by (simp add: md_blocks.simps)

lemma md_blocks_step: "0 < b \<Longrightarrow> length m = b \<Longrightarrow> md_blocks f b h (m @ x) = md_blocks f b (f h m) x"
  by (subst md_blocks.simps) simp

lemma md_blocks_0 [simp]: "md_blocks f 0 h m = h"
  by (subst md_blocks.simps) simp

lemma md_blocks_Nil [simp]: "md_blocks f b h [] = h"
  by (cases "b = 0") simp_all

lemma md_blocks_append:
  "length a = b * k \<Longrightarrow> md_blocks f b h (a @ x) = md_blocks f b (md_blocks f b h a) x"
proof (induction k arbitrary: a h)
  case (Suc k)
  show ?case
  proof (cases "b = 0")
    case False
    have a: "a = take b a @ drop b a" "length (take b a) = b" "length (drop b a) = b * k"
      using Suc.prems by simp_all
    show ?thesis
      using False Suc.IH [OF a(3)] md_blocks_step [of b "take b a" f h "drop b a @ x"]
        md_blocks_step [of b "take b a" f h "drop b a"] a(1,2)
      by (metis append_assoc neq0_conv)
  qed (simp add: md_blocks.simps)
qed simp

lemma md_blocks_whole: "md_blocks f b h m = md_blocks f b h (whole b m)"
proof (cases "b = 0")
  case False
  then show ?thesis
    using md_blocks_append [of "whole b m" b "length m div b" f h "rest b m"] whole_rest [of b m] by simp
qed (simp add: md_blocks.simps)

definition md_repr :: "('h \<Rightarrow> bytes \<Rightarrow> 'h) \<Rightarrow> nat \<Rightarrow> 'h \<Rightarrow> 'h \<Rightarrow> bytes \<Rightarrow> bytes \<Rightarrow> bool" where
  "md_repr f b h0 h buf msg \<longleftrightarrow>
     h = md_blocks f b h0 (whole b msg) \<and> length buf = b \<and> take (length msg mod b) buf = rest b msg"

lemma md_absorb_repr:
  assumes "md_repr f b h0 h buf msg" "0 < b"
  shows "md_repr f b h0 (fst (md_absorb f b h buf (length msg mod b) inp))
    (snd (md_absorb f b h buf (length msg mod b) inp)) (msg @ inp)"
proof -
  let ?r = "length msg mod b"
  have r: "?r < b" using assms(2) by simp
  have h: "h = md_blocks f b h0 (whole b msg)" and lb: "length buf = b" and tk: "take ?r buf = rest b msg"
    using assms(1) by (auto simp: md_repr_def)
  show ?thesis
  proof (cases "length inp < b - ?r")
    case True
    then have "whole b (rest b msg @ inp) = []" "rest b (rest b msg @ inp) = rest b msg @ inp" by simp_all
    then have "whole b (msg @ inp) = whole b msg" "rest b (msg @ inp) = rest b msg @ inp"
      using whole_append_rest [OF assms(2), of msg inp] rest_append_rest [OF assms(2), of msg inp] by simp_all
    moreover have "(length msg + length inp) mod b = ?r + length inp"
      using True by (metis less_diff_conv add.commute mod_add_left_eq mod_less)
    ultimately show ?thesis
      using True h lb tk by (simp add: md_repr_def md_absorb_def take_write_at)
  next
    case False
    let ?w = "b - ?r"
    let ?buf = "write_at buf ?r (take ?w inp)"
    have buf: "?buf = rest b msg @ take ?w inp" using False r lb tk by (simp add: write_at_def)
    have lbuf: "length ?buf = b" unfolding buf using False r by simp
    have gen: "n + (b - k) = b * (q + 1)" if "n = b * q + k" "k < b" for n q k
      using that by (simp add: add_mult_distrib2)
    have "length msg + ?w = b * (length msg div b + 1)"
      by (rule gen [OF _ r]) simp
    then have mm: "length (msg @ take ?w inp) = b * (length msg div b + 1)" using False by simp
    have wh: "whole b (msg @ inp) = (whole b msg @ ?buf) @ whole b (drop ?w inp)"
      using whole_append [OF mm assms(2), of "drop ?w inp"] whole_rest [of b msg]
      unfolding buf by (metis append_assoc append_take_drop_id)
    have re: "rest b (msg @ inp) = rest b (drop ?w inp)"
      using rest_append [OF mm assms(2), of "drop ?w inp"] by simp
    have f: "f h ?buf = md_blocks f b h0 (whole b msg @ ?buf)"
      using md_blocks_append [OF length_whole, of f b h0 msg ?buf] md_blocks_step [OF assms(2) lbuf, of f h "[]"]
        h assms(2) by simp
    have "md_blocks f b (f h ?buf) (drop ?w inp) = md_blocks f b h0 (whole b (msg @ inp))"
      unfolding wh f by (subst md_blocks_append [where k = "length msg div b + 1"])
        (simp_all add: lbuf flip: md_blocks_whole)
    moreover have "length (rest b (drop ?w inp)) \<le> b" using assms(2) by (simp add: less_imp_le)
    moreover have "(length msg + length inp) mod b = length (rest b (drop ?w inp))"
      using re by (metis length_append length_rest)
    ultimately show ?thesis
      using False re lbuf
      by (simp add: md_repr_def md_absorb_def Let_def) (simp add: write_at_def)
  qed
qed

text \<open>The padded message, in the words of the standard.\<close>

definition md_padded :: "nat \<Rightarrow> nat \<Rightarrow> bytes \<Rightarrow> bytes \<Rightarrow> bytes" where
  "md_padded b l msg len =
     (let r = length msg mod b;
          z = (if r < b - l then b - l - r - 1 else b - r - 1 + (b - l))
      in msg @ [0x80] @ replicate z 0 @ len)"

lemma take_md_PAD: "0 < n \<Longrightarrow> n \<le> b \<Longrightarrow> take n (md_PAD b) = 0x80 # replicate (n - 1) 0"
  by (cases n) (simp_all add: md_PAD_def min_def)

lemma md_pad_repr:
  assumes repr: "md_repr f b h0 h buf msg" and len: "length len = l" and lb: "l < b"
  shows "md_pad f b l h buf (length msg mod b) len = md_blocks f b h0 (md_padded b l msg len)"
    and "length (md_padded b l msg len) mod b = 0"
proof -
  let ?r = "length msg mod b"
  have b: "0 < b" using lb by simp
  then have r: "?r < b" by simp
  have h: "h = md_blocks f b h0 (whole b msg)" and lbuf: "length buf = b" and tk: "take ?r buf = rest b msg"
    using repr by (auto simp: md_repr_def)
  have step: "md_blocks f b h0 (whole b msg @ x) = md_blocks f b h x" for x
    unfolding h by (rule md_blocks_append [OF length_whole])
  have one: "md_blocks f b g x = f g x" if "length x = b" for g x
    using md_blocks_step [OF b that, of f g "[]"] by simp
  have "md_pad f b l h buf ?r len = md_blocks f b h0 (md_padded b l msg len) \<and>
    (\<exists>x. md_padded b l msg len = whole b msg @ x \<and> length x mod b = 0)"
  proof (cases "?r < b - l")
    case True
    let ?blk = "rest b msg @ 0x80 # replicate (b - l - ?r - 1) 0 @ len"
    have w: "write_at (write_at buf ?r (take (b - l - ?r) (md_PAD b))) (b - l) len = ?blk"
    proof -
      obtain z where z: "b - l = ?r + Suc z" using True less_imp_Suc_add by fastforce
      then have "write_at buf ?r (take (b - l - ?r) (md_PAD b)) =
          (rest b msg @ 0x80 # replicate z 0) @ drop (b - l) buf"
        using r lbuf tk lb by (simp add: take_md_PAD write_at_def)
      then show ?thesis using z lbuf len lb by (simp add: write_at_def)
    qed
    have p: "md_padded b l msg len = whole b msg @ ?blk"
      using True arg_cong [OF whole_rest [of b msg], of "\<lambda>x. x @ 0x80 # replicate (b - l - ?r - 1) 0 @ len"]
      by (simp add: md_padded_def Let_def)
    have l: "length ?blk = b" using True len lb by simp
    have "md_pad f b l h buf ?r len = f h ?blk"
      using True w by (simp add: md_pad_def)
    then have "md_pad f b l h buf ?r len = md_blocks f b h0 (md_padded b l msg len)"
      unfolding p step one [OF l] .
    moreover have "length ?blk mod b = 0" unfolding l by simp
    ultimately show ?thesis using p by (intro conjI exI [of _ ?blk]) simp_all
  next
    case False
    let ?blk = "rest b msg @ 0x80 # replicate (b - ?r - 1) 0"
    let ?last = "replicate (b - l) 0 @ len"
    have w: "write_at buf ?r (take (b - ?r) (md_PAD b)) = ?blk"
      using r lbuf tk by (simp add: take_md_PAD write_at_def)
    have w2: "write_at (write_at x 0 (replicate (b - l) 0)) (b - l) len = ?last" if "length x = b" for x
      using that lb len by (simp add: write_at_def)
    have p: "md_padded b l msg len = whole b msg @ ?blk @ ?last"
    proof -
      have "md_padded b l msg len = msg @ [0x80] @ replicate (b - ?r - 1 + (b - l)) 0 @ len"
        using False by (simp add: md_padded_def Let_def)
      also have "\<dots> = (whole b msg @ rest b msg) @ [0x80] @ replicate (b - ?r - 1 + (b - l)) 0 @ len"
        by (simp only: whole_rest)
      finally show ?thesis by (simp only: replicate_add append_assoc append_Cons append_Nil)
    qed
    have "length ?blk = ?r + Suc (b - ?r - 1)" by simp
    also have "\<dots> = b" using r by linarith
    finally have l: "length ?blk = b" "length ?last = b" using len lb by simp_all
    have "md_pad f b l h buf ?r len = f (f h ?blk) ?last"
      using False w w2 [OF l(1)] by (simp add: md_pad_def Let_def)
    moreover have "length (?blk @ ?last) mod b = 0" using l by (simp only: length_append mod_add_self2 mod_self)
    ultimately show ?thesis
      using p md_blocks_step [OF b l(1), of f h ?last] one [OF l(2)] step [of "?blk @ ?last"]
      by (intro conjI exI [of _ "?blk @ ?last"]) simp_all
  qed
  then show "md_pad f b l h buf ?r len = md_blocks f b h0 (md_padded b l msg len)"
    and "length (md_padded b l msg len) mod b = 0"
    by auto
qed

section \<open>The compression function, as the standard describes it\<close>

text \<open>One round: the eight working variables move down, the first and the fifth are new.\<close>

fun sha2_round :: "'a::len word sha2_params \<Rightarrow> 'a word \<Rightarrow> 'a word \<Rightarrow> 'a word list \<Rightarrow> 'a word list" where
  "sha2_round p k w [a, b, c, d, e, f, g, h] =
     (let T1 = h + sha2_S1 p e + ((e AND f) XOR (NOT e AND g)) + k + w;
          T2 = sha2_S0 p a + ((a AND b) XOR (a AND c) XOR (b AND c))
      in [T1 + T2, a, b, c, d + T1, e, f, g])"
| "sha2_round p k w v = v"

text \<open>The message schedule, one word longer.\<close>

definition sha2_extend :: "'a::len word sha2_params \<Rightarrow> 'a word list \<Rightarrow> 'a word list" where
  "sha2_extend p W =
     (let t = length W
      in W @ [sha2_s1 p (W ! (t - 2)) + W ! (t - 7) + sha2_s0 p (W ! (t - 15)) + W ! (t - 16)])"

definition sha2_schedule :: "'a::len word sha2_params \<Rightarrow> nat \<Rightarrow> 'a word list \<Rightarrow> 'a word list" where
  "sha2_schedule p k M = (sha2_extend p ^^ k) M"

definition sha2_compress :: "'a::len word sha2_params \<Rightarrow> nat \<Rightarrow> 'a word list \<Rightarrow> 'a word list \<Rightarrow> 'a word list" where
  "sha2_compress p n state M =
     map2 (+) state (fold (\<lambda>t. sha2_round p (sha2_Krnd p ! t) (sha2_schedule p (n - 16) M ! t)) [0..<n] state)"

lemma sha2_Ch_eq: "sha2_Ch x y z = (x AND y) XOR (NOT x AND z)"
  by (rule bit_word_eqI) (auto simp: sha2_Ch_def bit_simps)

lemma sha2_Maj_eq: "sha2_Maj x y z = (x AND y) XOR (x AND z) XOR (y AND z)"
  by (rule bit_word_eqI) (auto simp: sha2_Maj_def bit_simps)

text \<open>The array \<open>S\<close> after \<open>i\<close> rounds holds the working variables from place \<open>(n - i) % 8\<close> on.\<close>

lemma upt_0_8: "[0..<8] = [0, 1, 2, 3, 4, 5, 6, 7]"
  by code_simp

definition sha2_view :: "nat \<Rightarrow> nat \<Rightarrow> 'a list \<Rightarrow> 'a list" where
  "sha2_view n i S = map (\<lambda>j. S ! ((n + j - i) mod 8)) [0..<8]"

lemma mod8_shift: "8 dvd n \<Longrightarrow> 16 \<le> n \<Longrightarrow> i \<le> 16 \<Longrightarrow> (n + j - i) mod 8 = (16 + j - i) mod (8 :: nat)"
proof -
  assume "8 dvd n" "16 \<le> n" and i: "i \<le> 16"
  then obtain q where n: "n = 16 + 8 * q"
    by (metis dvdE le_Suc_ex dvd_diff_nat diff_add_inverse dvd_triv_left mult.commute numeral_Bit0
        dvd_def mult_2)
  have "n + j - i = 16 + j - i + 8 * q" using n i by simp
  then show ?thesis by (simp only: mod_mult_self2)
qed

lemma sha2_view_cong: "8 dvd n \<Longrightarrow> 16 \<le> n \<Longrightarrow> i \<le> 16 \<Longrightarrow> sha2_view n i S = sha2_view 16 i S"
  unfolding sha2_view_def by (simp only: mod8_shift)

lemma sha2_view_0: "length S = 8 \<Longrightarrow> 8 dvd n \<Longrightarrow> 16 \<le> n \<Longrightarrow> sha2_view n 0 S = S"
  by (subst sha2_view_cong) (auto simp: length_8_conv sha2_view_def upt_0_8)

lemma sha2_view_16: "length S = 8 \<Longrightarrow> 8 dvd n \<Longrightarrow> 16 \<le> n \<Longrightarrow> sha2_view n 16 S = S"
  by (subst sha2_view_cong) (auto simp: length_8_conv sha2_view_def upt_0_8)

lemma length_sha2_RNDr [simp]: "length (sha2_RNDr p n W ii i S) = length S"
  by (simp add: sha2_RNDr_def sha2_RND_def Let_def)

lemma sha2_RNDr_16: "8 dvd n \<Longrightarrow> 16 \<le> n \<Longrightarrow> i \<le> 16 \<Longrightarrow> sha2_RNDr p n W ii i S = sha2_RNDr p 16 W ii i S"
  unfolding sha2_RNDr_def by (simp only: mod8_shift)

lemma sha2_RNDr_view:
  assumes "length S = 8" "8 dvd n" "16 \<le> n" "i < 16"
  shows "sha2_view n (Suc i) (sha2_RNDr p n W ii i S) =
    sha2_round p (sha2_Krnd p ! (i + ii)) (W ! (i + ii)) (sha2_view n i S)"
proof -
  obtain a b c d e f g h where S: "S = [a, b, c, d, e, f, g, h]" using assms(1) by (auto simp: length_8_conv)
  obtain x y where ab: "i = 4 * x + y" "x < 4" "y < 4"
    using assms(4) that [of "i div 4" "i mod 4"] by simp
  have "sha2_view 16 (Suc i) (sha2_RNDr p 16 W ii i S) =
    sha2_round p (sha2_Krnd p ! (i + ii)) (W ! (i + ii)) (sha2_view 16 i S)"
    using less_4_cases [OF ab(2)] less_4_cases [OF ab(3)] unfolding S ab(1)
    by (elim disjE; hypsubst)
      (simp_all add: sha2_view_def upt_0_8 sha2_RNDr_def sha2_RND_def sha2_Ch_eq sha2_Maj_eq Let_def algebra_simps)
  then show ?thesis
    using sha2_view_cong [OF assms(2,3), of i S] sha2_RNDr_16 [OF assms(2,3), of i p W ii S]
      sha2_view_cong [OF assms(2,3), of "Suc i" "sha2_RNDr p 16 W ii i S"] assms(4) by simp
qed

lemma length_sha2_extend [simp]: "length (sha2_extend p W) = Suc (length W)"
  by (simp add: sha2_extend_def Let_def)

lemma length_sha2_schedule [simp]: "length (sha2_schedule p k M) = length M + k"
  by (induction k) (simp_all add: sha2_schedule_def)

lemma sha2_schedule_Suc: "sha2_schedule p (Suc k) M = sha2_extend p (sha2_schedule p k M)"
  by (simp add: sha2_schedule_def)

lemma sha2_schedule_nth: "t < length M + k \<Longrightarrow> sha2_schedule p (k + j) M ! t = sha2_schedule p k M ! t"
proof (induction j)
  case (Suc j)
  then show ?case
    by (simp add: sha2_schedule_Suc) (simp add: sha2_extend_def Let_def nth_append)
qed simp

lemma fold_sha2_RNDr:
  assumes "length S = 8" "8 dvd n" "16 \<le> n" "i \<le> 16"
  shows "length (fold (sha2_RNDr p n W ii) [0..<i] S) = 8 \<and>
    sha2_view n i (fold (sha2_RNDr p n W ii) [0..<i] S) =
    fold (\<lambda>t. sha2_round p (sha2_Krnd p ! (t + ii)) (W ! (t + ii))) [0..<i] S"
  using assms(4)
proof (induction i)
  case 0
  then show ?case using assms by (simp add: sha2_view_0)
next
  case (Suc i)
  then show ?case using assms by (simp add: sha2_RNDr_view)
qed

lemma sha2_MSCH_schedule:
  assumes "take (ii + 16 + j) V = sha2_schedule p (ii + j) M" "length M = 16" "ii + 16 + j < length V"
  shows "take (Suc (ii + 16 + j)) (sha2_MSCH p ii j V) = sha2_schedule p (ii + Suc j) M"
proof -
  have nth: "V ! k = sha2_schedule p (ii + j) M ! k" if "k < ii + 16 + j" for k
    using arg_cong [OF assms(1), of "\<lambda>x. x ! k"] that by simp
  have "take (Suc (ii + 16 + j)) (sha2_MSCH p ii j V) =
      take (ii + 16 + j) V @ [sha2_MSCH p ii j V ! (ii + 16 + j)]"
    using assms(3) by (subst take_Suc_conv_app_nth) (simp_all add: sha2_MSCH_def add.commute add.left_commute)
  also have "\<dots> = sha2_schedule p (ii + Suc j) M"
    unfolding assms(1)
    using assms(3) nth [of "j + ii + 14"] nth [of "j + ii + 9"] nth [of "j + ii + 1"] nth [of "j + ii"]
    by (simp add: assms(2) sha2_schedule_Suc sha2_extend_def Let_def sha2_MSCH_def ac_simps)
  finally show ?thesis .
qed

lemma length_sha2_MSCH [simp]: "length (sha2_MSCH p ii j V) = length V"
  by (simp add: sha2_MSCH_def)

lemma fold_sha2_MSCH:
  assumes "take (ii + 16) W = sha2_schedule p ii M" "length M = 16"
  shows "ii + 16 + j \<le> length W \<Longrightarrow> length (fold (sha2_MSCH p ii) [0..<j] W) = length W \<and>
    take (ii + 16 + j) (fold (sha2_MSCH p ii) [0..<j] W) = sha2_schedule p (ii + j) M"
proof (induction j)
  case (Suc j)
  then have "length (fold (sha2_MSCH p ii) [0..<j] W) = length W"
    "take (ii + 16 + j) (fold (sha2_MSCH p ii) [0..<j] W) = sha2_schedule p (ii + j) M" by simp_all
  then show ?case
    using sha2_MSCH_schedule [of ii j "fold (sha2_MSCH p ii) [0..<j] W" p M] assms(2) Suc.prems by simp
qed (use assms in simp)

lemma fold_shift_upt: "fold (\<lambda>t. f (t + a)) [0..<b] = fold f [a..<a + b]"
proof -
  have "[a..<a + b] = map (\<lambda>t. t + a) [0..<b]" by (simp add: map_add_upt add.commute)
  then show ?thesis by (simp add: fold_map comp_def)
qed

text \<open>The loop computes the rounds of the standard over its schedule.\<close>

lemma sha2_loop_compress:
  assumes "length M = 16" "16 * N = n" "k < N" "length W = n" "length S = 8"
    "take (16 * k + 16) W = sha2_schedule p (16 * k) M"
  shows "sha2_loop p n (16 * k) (W, S) =
    fold (\<lambda>t. sha2_round p (sha2_Krnd p ! t) (sha2_schedule p (n - 16) M ! t)) [16 * k..<n] S"
  using assms(3-)
proof (induction "N - k" arbitrary: k W S)
  case (Suc m)
  let ?ii = "16 * k"
  let ?f = "\<lambda>t. sha2_round p (sha2_Krnd p ! t) (sha2_schedule p (n - 16) M ! t)"
  let ?S = "fold (sha2_RNDr p n W ?ii) [0..<16] S"
  let ?W = "fold (sha2_MSCH p ?ii) [0..<16] W"
  have n: "8 dvd n" "16 \<le> n" using assms(2) Suc.prems(1) by auto
  have nth: "W ! t = sha2_schedule p (n - 16) M ! t" if "t < ?ii + 16" for t
  proof -
    have "W ! t = take (16 * k + 16) W ! t" using that by simp
    also have "\<dots> = sha2_schedule p (?ii + (n - 16 - ?ii)) M ! t"
      unfolding Suc.prems(4) by (rule sha2_schedule_nth [symmetric]) (use that assms(1) in simp)
    also have "?ii + (n - 16 - ?ii) = n - 16" using Suc.prems(1) assms(2) by simp
    finally show ?thesis .
  qed
  have S: "length ?S = 8"
    using fold_sha2_RNDr [OF Suc.prems(3) n, of 16 p W ?ii] by simp
  have "?S = fold (\<lambda>t. sha2_round p (sha2_Krnd p ! (t + ?ii)) (W ! (t + ?ii))) [0..<16] S"
    using fold_sha2_RNDr [OF Suc.prems(3) n, of 16 p W ?ii] sha2_view_16 [OF _ n, of ?S] by simp
  also have "fold (\<lambda>t. sha2_round p (sha2_Krnd p ! (t + ?ii)) (W ! (t + ?ii))) [0..<16] S =
      fold (\<lambda>t. ?f (t + ?ii)) [0..<16] S"
    by (rule fold_cong) (simp_all add: nth)
  also have "\<dots> = fold ?f [?ii..<?ii + 16] S" by (simp only: fold_shift_upt [of ?f])
  finally have Sf: "?S = fold ?f [?ii..<?ii + 16] S" .
  show ?case
  proof (cases "Suc k = N")
    case True
    then have "?ii + 16 = n" using assms(2) by simp
    then show ?thesis using Sf by (subst sha2_loop.simps) (simp add: Let_def)
  next
    case False
    then have k: "Suc k < N" using Suc.prems(1) by simp
    then have le: "?ii + 16 + 16 \<le> n" "?ii + 16 \<noteq> n" "?ii < n" using assms(2) by simp_all
    have W: "length ?W = n" "take (?ii + 16 + 16) ?W = sha2_schedule p (?ii + 16) M"
      using fold_sha2_MSCH [OF Suc.prems(4) assms(1), of 16] le(1) Suc.prems(2) by simp_all
    have "sha2_loop p n ?ii (W, S) = sha2_loop p n (16 * Suc k) (?W, ?S)"
      using le(2,3) by (subst sha2_loop.simps) (simp add: Let_def add.commute)
    also have "\<dots> = fold ?f [16 * Suc k..<n] ?S"
      by (rule Suc.hyps(1)) (use Suc.hyps(2) k W S in \<open>simp_all add: add.commute\<close>)
    also have "\<dots> = fold ?f [?ii..<n] S"
      unfolding Sf using le(1) upt_add_eq_append [of ?ii "?ii + 16" "n - (?ii + 16)"] by (simp add: add.commute)
    finally show ?thesis .
  qed
qed simp

lemma sha2_transform_compress:
  assumes "length M = 16" "16 dvd n" "0 < n" "length state = 8"
  shows "sha2_transform p n state M = sha2_compress p n state M"
proof -
  obtain N where N: "16 * N = n" using assms(2) by (metis dvdE)
  then have "0 < N" using assms(3) by simp
  then have "16 \<le> n" using N by simp
  then show ?thesis
    using sha2_loop_compress [OF assms(1) N \<open>0 < N\<close>, of "M @ replicate (n - 16) 0" state p] assms
    by (simp add: sha2_transform_def sha2_compress_def sha2_schedule_def)
qed

lemma length_sha2_round [simp]: "length (sha2_round p k w v) = length v"
  by (cases "(p, k, w, v)" rule: sha2_round.cases) (simp_all add: Let_def)

lemma length_fold_sha2_round [simp]: "length (fold (\<lambda>t. sha2_round p (f t) (g t)) ts v) = length v"
  by (induction ts arbitrary: v) simp_all

lemma length_sha2_compress [simp]: "length state = 8 \<Longrightarrow> length (sha2_compress p n state M) = 8"
  unfolding sha2_compress_def by simp

lemma md_blocks_cong_len:
  assumes "\<And>h m. length h = n \<Longrightarrow> f h m = g h m" "\<And>h m. length h = n \<Longrightarrow> length (g h m) = n"
  shows "length h = n \<Longrightarrow> md_blocks f b h m = md_blocks g b h m"
proof (induction "length m" arbitrary: h m rule: less_induct)
  case less
  show ?case
  proof (cases "0 < b \<and> b \<le> length m")
    case True
    then have "md_blocks f b (g h (take b m)) (drop b m) = md_blocks g b (g h (take b m)) (drop b m)"
      by (intro less.hyps assms(2) less.prems) auto
    then show ?thesis using True assms(1) less.prems by (subst (1 2) md_blocks.simps) simp
  next
    case False
    then show ?thesis by (subst (1 2) md_blocks.simps) auto
  qed
qed

text \<open>The place in the buffer, from the bit counter: the counter may wrap, the low bits stay right.\<close>

lemma buffer_place:
  assumes "k \<le> 61"
  shows "unat (drop_bit 3 (of_nat (8 * n) :: u64) AND mask k) = n mod 2 ^ k"
proof -
  have u: "unat (of_nat (8 * n) :: u64) = 8 * n mod 2 ^ 64" by (simp only: unat_of_nat) simp
  have "unat (drop_bit 3 c AND mask k) = take_bit k (drop_bit 3 (unat c))" for c :: u64
    by (simp only: take_bit_eq_mask [symmetric] unsigned_take_bit_eq unat_drop_bit_eq)
  then have "unat (drop_bit 3 (of_nat (8 * n) :: u64) AND mask k) = 8 * n mod 2 ^ 64 div 2 ^ 3 mod 2 ^ k"
    by (simp only: u take_bit_eq_mod drop_bit_eq_div)
  also have "8 * n mod 2 ^ 64 = 8 * (n mod 2 ^ 61)"
    using mult_mod_right [of 8 n "2 ^ 61"] by simp
  also have "\<dots> div 2 ^ 3 mod 2 ^ k = n mod 2 ^ k"
    using mod_mod_cancel [OF le_imp_power_dvd [OF assms, of 2], of n] by simp
  finally show ?thesis .
qed

lemma md_repr_start: "length buf = b \<Longrightarrow> md_repr f b h0 h0 buf []"
  by (simp add: md_repr_def whole_def rest_def)

end
