(* ===== verification/Sha256.thy ===== *)
theory Sha256
  imports Sha2
begin

text \<open>
  \<open>crypto_hash/sha256/cp/hash_sha256_cp.c\<close>: SHA-256, the hash behind \<open>MFCrypto_Hash\<close>.  The state is
  the C structure; \<open>crypto_hash_sha256_init\<close> leaves the block buffer as it was, so the one-shot
  function takes the contents of its uninitialised local as an argument, and the theorems show that
  they do not matter.
\<close>

definition sha256_Krnd :: "u32 list" where
  "sha256_Krnd = concat
     [[0x428a2f98, 0x71374491, 0xb5c0fbcf, 0xe9b5dba5],
      [0x3956c25b, 0x59f111f1, 0x923f82a4, 0xab1c5ed5],
      [0xd807aa98, 0x12835b01, 0x243185be, 0x550c7dc3],
      [0x72be5d74, 0x80deb1fe, 0x9bdc06a7, 0xc19bf174],
      [0xe49b69c1, 0xefbe4786, 0x0fc19dc6, 0x240ca1cc],
      [0x2de92c6f, 0x4a7484aa, 0x5cb0a9dc, 0x76f988da],
      [0x983e5152, 0xa831c66d, 0xb00327c8, 0xbf597fc7],
      [0xc6e00bf3, 0xd5a79147, 0x06ca6351, 0x14292967],
      [0x27b70a85, 0x2e1b2138, 0x4d2c6dfc, 0x53380d13],
      [0x650a7354, 0x766a0abb, 0x81c2c92e, 0x92722c85],
      [0xa2bfe8a1, 0xa81a664b, 0xc24b8b70, 0xc76c51a3],
      [0xd192e819, 0xd6990624, 0xf40e3585, 0x106aa070],
      [0x19a4c116, 0x1e376c08, 0x2748774c, 0x34b0bcb5],
      [0x391c0cb3, 0x4ed8aa4a, 0x5b9cca4f, 0x682e6ff3],
      [0x748f82ee, 0x78a5636f, 0x84c87814, 0x8cc70208],
      [0x90befffa, 0xa4506ceb, 0xbef9a3f7, 0xc67178f2]]"

definition sha256_S0 :: "u32 \<Rightarrow> u32" where
  "sha256_S0 x = rotr32 x 2 XOR rotr32 x 13 XOR rotr32 x 22"

definition sha256_S1 :: "u32 \<Rightarrow> u32" where
  "sha256_S1 x = rotr32 x 6 XOR rotr32 x 11 XOR rotr32 x 25"

definition sha256_s0 :: "u32 \<Rightarrow> u32" where
  "sha256_s0 x = rotr32 x 7 XOR rotr32 x 18 XOR drop_bit 3 x"

definition sha256_s1 :: "u32 \<Rightarrow> u32" where
  "sha256_s1 x = rotr32 x 17 XOR rotr32 x 19 XOR drop_bit 10 x"

definition sha256_params :: "u32 sha2_params" where
  "sha256_params = \<lparr>sha2_S0 = sha256_S0, sha2_S1 = sha256_S1, sha2_s0 = sha256_s0, sha2_s1 = sha256_s1,
     sha2_Krnd = sha256_Krnd\<rparr>"

definition be32enc_vect :: "u32 list \<Rightarrow> bytes" where
  "be32enc_vect src = concat (map store32_be src)"

definition be32dec_vect :: "bytes \<Rightarrow> nat \<Rightarrow> u32 list" where
  "be32dec_vect src len = map (\<lambda>i. load32_be (drop (4 * i) src)) [0..<len div 4]"

definition SHA256_Transform :: "u32 list \<Rightarrow> bytes \<Rightarrow> u32 list" where
  "SHA256_Transform state block = sha2_transform sha256_params 64 state (be32dec_vect block 64)"

record crypto_hash_sha256_state =
  sha256_state :: "u32 list"
  sha256_count :: u64
  sha256_buf :: bytes

definition sha256_r :: "crypto_hash_sha256_state \<Rightarrow> nat" where
  "sha256_r st = unat (drop_bit 3 (sha256_count st) AND 0x3f)"

definition SHA256_Pad :: "crypto_hash_sha256_state \<Rightarrow> u32 list" where
  "SHA256_Pad st =
     md_pad SHA256_Transform 64 8 (sha256_state st) (sha256_buf st) (sha256_r st) (store64_be (sha256_count st))"

definition sha256_initial_state :: "u32 list" where
  "sha256_initial_state =
     [0x6a09e667, 0xbb67ae85, 0x3c6ef372, 0xa54ff53a,
      0x510e527f, 0x9b05688c, 0x1f83d9ab, 0x5be0cd19]"

definition crypto_hash_sha256_init :: "crypto_hash_sha256_state \<Rightarrow> crypto_hash_sha256_state" where
  "crypto_hash_sha256_init st = st\<lparr>sha256_count := 0, sha256_state := sha256_initial_state\<rparr>"

definition crypto_hash_sha256_update :: "crypto_hash_sha256_state \<Rightarrow> bytes \<Rightarrow> crypto_hash_sha256_state" where
  "crypto_hash_sha256_update st inp =
     (if inp = [] then st
      else
        let (h, buf) = md_absorb SHA256_Transform 64 (sha256_state st) (sha256_buf st) (sha256_r st) inp
        in \<lparr>sha256_state = h, sha256_count = sha256_count st + push_bit 3 (of_nat (length inp)),
            sha256_buf = buf\<rparr>)"

definition crypto_hash_sha256_final :: "crypto_hash_sha256_state \<Rightarrow> bytes" where
  "crypto_hash_sha256_final st = be32enc_vect (SHA256_Pad st)"

definition crypto_hash_sha256 :: "crypto_hash_sha256_state \<Rightarrow> bytes \<Rightarrow> bytes" where
  "crypto_hash_sha256 local inp =
     crypto_hash_sha256_final (crypto_hash_sha256_update (crypto_hash_sha256_init local) inp)"

section \<open>The standard\<close>

text \<open>Compression with the round of FIPS 180-4, over the padded message.\<close>

definition sha256_compress :: "u32 list \<Rightarrow> bytes \<Rightarrow> u32 list" where
  "sha256_compress state block = sha2_compress sha256_params 64 state (be32dec_vect block 64)"

definition sha256_digest :: "bytes \<Rightarrow> bytes" where
  "sha256_digest msg =
     be32enc_vect (md_blocks sha256_compress 64 sha256_initial_state
       (md_padded 64 8 msg (store64_be (of_nat (8 * length msg)))))"

lemma length_be32dec_vect [simp]: "length (be32dec_vect src len) = len div 4"
  by (simp add: be32dec_vect_def)

lemma SHA256_Transform_compress: "length state = 8 \<Longrightarrow> SHA256_Transform state block = sha256_compress state block"
  by (simp add: SHA256_Transform_def sha256_compress_def sha2_transform_compress)

section \<open>Correctness\<close>

text \<open>
  What a state has taken in.  The bit counter wraps at 2^64; the place in the buffer, its
  bits 3 to 8, stays right, as 512 divides 2^64.
\<close>

definition sha256_repr :: "crypto_hash_sha256_state \<Rightarrow> bytes \<Rightarrow> bool" where
  "sha256_repr st msg \<longleftrightarrow>
     md_repr SHA256_Transform 64 sha256_initial_state (sha256_state st) (sha256_buf st) msg \<and>
     sha256_count st = of_nat (8 * length msg)"

lemma push_bit_3_of_nat: "push_bit 3 (of_nat n :: 'a::len word) = of_nat (8 * n)"
  by (simp add: push_bit_eq_mult mult.commute)

lemma sha256_r_of_nat: "sha256_count st = of_nat (8 * n) \<Longrightarrow> sha256_r st = n mod 64"
  using buffer_place [of 6 n] by (simp add: sha256_r_def mask_eq_exp_minus_1)

lemma sha256_repr_init:
  "length (sha256_buf st) = 64 \<Longrightarrow> sha256_repr (crypto_hash_sha256_init st) []"
  by (simp add: sha256_repr_def crypto_hash_sha256_init_def md_repr_start)

lemma sha256_repr_update:
  assumes "sha256_repr st a"
  shows "sha256_repr (crypto_hash_sha256_update st b) (a @ b)"
proof (cases "b = []")
  case False
  have c: "sha256_count st = of_nat (8 * length a)"
    and r: "md_repr SHA256_Transform 64 sha256_initial_state (sha256_state st) (sha256_buf st) a"
    using assms by (simp_all add: sha256_repr_def)
  show ?thesis
    using False md_absorb_repr [OF r, of b] c
    by (simp add: sha256_repr_def crypto_hash_sha256_update_def sha256_r_of_nat [OF c] push_bit_3_of_nat
        split_beta algebra_simps)
qed (simp add: assms crypto_hash_sha256_update_def)

lemma sha256_repr_final:
  assumes "sha256_repr st a"
  shows "crypto_hash_sha256_final st = sha256_digest a"
proof -
  have c: "sha256_count st = of_nat (8 * length a)"
    and r: "md_repr SHA256_Transform 64 sha256_initial_state (sha256_state st) (sha256_buf st) a"
    using assms by (simp_all add: sha256_repr_def)
  have "md_blocks SHA256_Transform 64 sha256_initial_state m = md_blocks sha256_compress 64 sha256_initial_state m"
    for m
    by (rule md_blocks_cong_len [where n = 8])
      (simp_all add: SHA256_Transform_compress sha256_compress_def sha256_initial_state_def)
  then show ?thesis
    using md_pad_repr(1) [OF r, of "store64_be (of_nat (8 * length a))" 8] c
    by (simp add: crypto_hash_sha256_final_def SHA256_Pad_def sha256_digest_def sha256_r_of_nat [OF c])
qed




lemma crypto_hash_sha256_digest:
  "length (sha256_buf local) = 64 \<Longrightarrow> crypto_hash_sha256 local inp = sha256_digest inp"
  using sha256_repr_final [OF sha256_repr_update [OF sha256_repr_init, of local inp]]
  by (simp add: crypto_hash_sha256_def)

lemma length_sha256_digest [simp]: "length (sha256_digest msg) = 32"
proof -
  have "length (md_blocks sha256_compress 64 h m) = 8" if "length h = 8" for h m
    using that
  proof (induction "length m" arbitrary: h m rule: less_induct)
    case less
    then show ?case by (subst md_blocks.simps) (auto simp: sha256_compress_def)
  qed
  moreover have "length (concat (map store32_be ws)) = 4 * length ws" for ws by (induction ws) auto
  ultimately show ?thesis by (simp add: sha256_digest_def be32enc_vect_def sha256_initial_state_def)
qed

end
