(* ===== verification/Sha512.thy ===== *)
theory Sha512
  imports Sha2
begin

text \<open>
  \<open>crypto_hash/sha512/cp/hash_sha512_cp.c\<close>: SHA-512, which derives the box key pair from a seed
  (\<open>crypto_box_seed_keypair\<close>).  The bit count is kept in two words of 64 bits, high word first.
\<close>

definition sha512_Krnd :: "u64 list" where
  "sha512_Krnd = concat
     [[0x428a2f98d728ae22, 0x7137449123ef65cd],
      [0xb5c0fbcfec4d3b2f, 0xe9b5dba58189dbbc],
      [0x3956c25bf348b538, 0x59f111f1b605d019],
      [0x923f82a4af194f9b, 0xab1c5ed5da6d8118],
      [0xd807aa98a3030242, 0x12835b0145706fbe],
      [0x243185be4ee4b28c, 0x550c7dc3d5ffb4e2],
      [0x72be5d74f27b896f, 0x80deb1fe3b1696b1],
      [0x9bdc06a725c71235, 0xc19bf174cf692694],
      [0xe49b69c19ef14ad2, 0xefbe4786384f25e3],
      [0x0fc19dc68b8cd5b5, 0x240ca1cc77ac9c65],
      [0x2de92c6f592b0275, 0x4a7484aa6ea6e483],
      [0x5cb0a9dcbd41fbd4, 0x76f988da831153b5],
      [0x983e5152ee66dfab, 0xa831c66d2db43210],
      [0xb00327c898fb213f, 0xbf597fc7beef0ee4],
      [0xc6e00bf33da88fc2, 0xd5a79147930aa725],
      [0x06ca6351e003826f, 0x142929670a0e6e70],
      [0x27b70a8546d22ffc, 0x2e1b21385c26c926],
      [0x4d2c6dfc5ac42aed, 0x53380d139d95b3df],
      [0x650a73548baf63de, 0x766a0abb3c77b2a8],
      [0x81c2c92e47edaee6, 0x92722c851482353b],
      [0xa2bfe8a14cf10364, 0xa81a664bbc423001],
      [0xc24b8b70d0f89791, 0xc76c51a30654be30],
      [0xd192e819d6ef5218, 0xd69906245565a910],
      [0xf40e35855771202a, 0x106aa07032bbd1b8],
      [0x19a4c116b8d2d0c8, 0x1e376c085141ab53],
      [0x2748774cdf8eeb99, 0x34b0bcb5e19b48a8],
      [0x391c0cb3c5c95a63, 0x4ed8aa4ae3418acb],
      [0x5b9cca4f7763e373, 0x682e6ff3d6b2b8a3],
      [0x748f82ee5defb2fc, 0x78a5636f43172f60],
      [0x84c87814a1f0ab72, 0x8cc702081a6439ec],
      [0x90befffa23631e28, 0xa4506cebde82bde9],
      [0xbef9a3f7b2c67915, 0xc67178f2e372532b],
      [0xca273eceea26619c, 0xd186b8c721c0c207],
      [0xeada7dd6cde0eb1e, 0xf57d4f7fee6ed178],
      [0x06f067aa72176fba, 0x0a637dc5a2c898a6],
      [0x113f9804bef90dae, 0x1b710b35131c471b],
      [0x28db77f523047d84, 0x32caab7b40c72493],
      [0x3c9ebe0a15c9bebc, 0x431d67c49c100d4c],
      [0x4cc5d4becb3e42b6, 0x597f299cfc657e2a],
      [0x5fcb6fab3ad6faec, 0x6c44198c4a475817]]"

definition sha512_S0 :: "u64 \<Rightarrow> u64" where
  "sha512_S0 x = rotr64 x 28 XOR rotr64 x 34 XOR rotr64 x 39"

definition sha512_S1 :: "u64 \<Rightarrow> u64" where
  "sha512_S1 x = rotr64 x 14 XOR rotr64 x 18 XOR rotr64 x 41"

definition sha512_s0 :: "u64 \<Rightarrow> u64" where
  "sha512_s0 x = rotr64 x 1 XOR rotr64 x 8 XOR drop_bit 7 x"

definition sha512_s1 :: "u64 \<Rightarrow> u64" where
  "sha512_s1 x = rotr64 x 19 XOR rotr64 x 61 XOR drop_bit 6 x"

definition sha512_params :: "u64 sha2_params" where
  "sha512_params = \<lparr>sha2_S0 = sha512_S0, sha2_S1 = sha512_S1, sha2_s0 = sha512_s0, sha2_s1 = sha512_s1,
     sha2_Krnd = sha512_Krnd\<rparr>"

definition be64enc_vect :: "u64 list \<Rightarrow> bytes" where
  "be64enc_vect src = concat (map store64_be src)"

definition be64dec_vect :: "bytes \<Rightarrow> nat \<Rightarrow> u64 list" where
  "be64dec_vect src len = map (\<lambda>i. load64_be (drop (8 * i) src)) [0..<len div 8]"

definition SHA512_Transform :: "u64 list \<Rightarrow> bytes \<Rightarrow> u64 list" where
  "SHA512_Transform state block = sha2_transform sha512_params 80 state (be64dec_vect block 128)"

record crypto_hash_sha512_state =
  sha512_state :: "u64 list"
  sha512_count0 :: u64
  sha512_count1 :: u64
  sha512_buf :: bytes

definition sha512_r :: "crypto_hash_sha512_state \<Rightarrow> nat" where
  "sha512_r st = unat (drop_bit 3 (sha512_count1 st) AND 0x7f)"

definition SHA512_Pad :: "crypto_hash_sha512_state \<Rightarrow> u64 list" where
  "SHA512_Pad st =
     md_pad SHA512_Transform 128 16 (sha512_state st) (sha512_buf st) (sha512_r st)
       (be64enc_vect [sha512_count0 st, sha512_count1 st])"

definition sha512_initial_state :: "u64 list" where
  "sha512_initial_state =
     [0x6a09e667f3bcc908, 0xbb67ae8584caa73b, 0x3c6ef372fe94f82b,
      0xa54ff53a5f1d36f1, 0x510e527fade682d1, 0x9b05688c2b3e6c1f,
      0x1f83d9abfb41bd6b, 0x5be0cd19137e2179]"

definition crypto_hash_sha512_init :: "crypto_hash_sha512_state \<Rightarrow> crypto_hash_sha512_state" where
  "crypto_hash_sha512_init st = st\<lparr>sha512_count0 := 0, sha512_count1 := 0, sha512_state := sha512_initial_state\<rparr>"

text \<open>The count: the low word first, the carry out of it, then the high bits of the length.\<close>

definition sha512_count_add :: "u64 \<times> u64 \<Rightarrow> u64 \<Rightarrow> u64 \<times> u64" where
  "sha512_count_add c inlen =
     (let bitlen1 = push_bit 3 inlen;
          bitlen0 = drop_bit 61 inlen;
          count1 = snd c + bitlen1;
          count0 = (if count1 < bitlen1 then fst c + 1 else fst c)
      in (count0 + bitlen0, count1))"

definition crypto_hash_sha512_update :: "crypto_hash_sha512_state \<Rightarrow> bytes \<Rightarrow> crypto_hash_sha512_state" where
  "crypto_hash_sha512_update st inp =
     (if inp = [] then st
      else
        let (h, buf) = md_absorb SHA512_Transform 128 (sha512_state st) (sha512_buf st) (sha512_r st) inp;
            (count0, count1) = sha512_count_add (sha512_count0 st, sha512_count1 st) (of_nat (length inp))
        in \<lparr>sha512_state = h, sha512_count0 = count0, sha512_count1 = count1, sha512_buf = buf\<rparr>)"

definition crypto_hash_sha512_final :: "crypto_hash_sha512_state \<Rightarrow> bytes" where
  "crypto_hash_sha512_final st = be64enc_vect (SHA512_Pad st)"

definition crypto_hash_sha512 :: "crypto_hash_sha512_state \<Rightarrow> bytes \<Rightarrow> bytes" where
  "crypto_hash_sha512 local inp =
     crypto_hash_sha512_final (crypto_hash_sha512_update (crypto_hash_sha512_init local) inp)"

section \<open>The standard\<close>

definition sha512_compress :: "u64 list \<Rightarrow> bytes \<Rightarrow> u64 list" where
  "sha512_compress state block = sha2_compress sha512_params 80 state (be64dec_vect block 128)"

definition sha512_digest :: "bytes \<Rightarrow> bytes" where
  "sha512_digest msg =
     be64enc_vect (md_blocks sha512_compress 128 sha512_initial_state
       (md_padded 128 16 msg
         (be64enc_vect [of_nat (8 * length msg div 2 ^ 64), of_nat (8 * length msg)])))"

lemma length_be64dec_vect [simp]: "length (be64dec_vect src len) = len div 8"
  by (simp add: be64dec_vect_def)

lemma SHA512_Transform_compress: "length state = 8 \<Longrightarrow> SHA512_Transform state block = sha512_compress state block"
  by (simp add: SHA512_Transform_def sha512_compress_def sha2_transform_compress)

section \<open>Correctness\<close>

text \<open>The two words of the count are the 128-bit number of bits.\<close>

lemma sha512_count_add_of_nat:
  assumes "b < 2 ^ 64"
  shows "sha512_count_add (of_nat (8 * a div 2 ^ 64), of_nat (8 * a)) (of_nat b) =
    (of_nat (8 * (a + b) div 2 ^ 64), of_nat (8 * (a + b)))"
proof -
  let ?m = "(2 :: nat) ^ 64"
  have b1: "push_bit 3 (of_nat b :: u64) = of_nat (8 * b)"
    by (simp add: push_bit_eq_mult mult.commute)
  have "unat (drop_bit 61 (of_nat b :: u64)) = b div 2 ^ 61"
  proof -
    have "unat (of_nat b :: u64) = b" using assms by (simp add: unat_of_nat)
    then have "unat (drop_bit 61 (of_nat b :: u64)) = drop_bit 61 b" by (simp only: unat_drop_bit_eq)
    then show ?thesis by (simp only: drop_bit_eq_div)
  qed
  moreover have "b div 2 ^ 61 < ?m" using assms by (simp add: div_less_dividend less_mult_imp_div_less)
  ultimately have b0: "drop_bit 61 (of_nat b :: u64) = of_nat (8 * b div ?m)"
    by (simp add: word_eq_iff_unsigned [where ?'a = nat] unat_of_nat)
  have u: "unat (of_nat n :: u64) = n mod ?m" for n by (simp add: unat_of_nat)
  have wrap: "Z < Y \<longleftrightarrow> m \<le> X + Y"
    if "X < m" "Y < m" "Z = (if m \<le> X + Y then X + Y - m else X + Y)" for X Y Z m :: nat
    using that by (cases "m \<le> X + Y") auto
  have carry: "(x + y) mod ?m < y mod ?m \<longleftrightarrow> ?m \<le> x mod ?m + y mod ?m" for x y
  proof -
    have bnd: "x mod ?m < ?m" "y mod ?m < ?m" by simp_all
    have "(x + y) mod ?m = (x mod ?m + y mod ?m) mod ?m" by (simp only: mod_add_eq)
    also have "\<dots> = (if ?m \<le> x mod ?m + y mod ?m then x mod ?m + y mod ?m - ?m else x mod ?m + y mod ?m)"
      using bnd by (simp only: mod_if [of "x mod ?m + y mod ?m"] not_less le_mod_geq split: if_splits) auto
    finally show ?thesis by (rule wrap [OF bnd])
  qed
  have "(x mod ?m + y mod ?m) div ?m = (if ?m \<le> x mod ?m + y mod ?m then 1 else 0)" for x y
  proof -
    have bnd: "x mod ?m < ?m" "y mod ?m < ?m" by simp_all
    have "(X + Y) div m = (if m \<le> X + Y then 1 else 0)" if "X < m" "Y < m" for X Y m :: nat
      using that by (auto intro: div_nat_eqI)
    from this [OF bnd] show ?thesis .
  qed
  then have hi: "(x + y) div ?m = x div ?m + y div ?m + (if ?m \<le> x mod ?m + y mod ?m then 1 else 0)" for x y
    by (simp only: div_add1_eq [of x y])
  have lo: "of_nat (8 * a) + of_nat (8 * b) = (of_nat (8 * a + 8 * b) :: u64)" by (simp only: of_nat_add)
  have cmp: "(of_nat (8 * a + 8 * b) :: u64) < of_nat (8 * b) \<longleftrightarrow> ?m \<le> (8 * a) mod ?m + (8 * b) mod ?m"
    unfolding word_less_nat_alt u by (rule carry)
  show ?thesis
    unfolding sha512_count_add_def Let_def fst_conv snd_conv b0 b1 lo cmp add_mult_distrib2 hi
    by (simp only: of_nat_add) (simp split: if_splits)
qed

text \<open>What a state has taken in, for messages of less than 2^64 bytes.\<close>

definition sha512_repr :: "crypto_hash_sha512_state \<Rightarrow> bytes \<Rightarrow> bool" where
  "sha512_repr st msg \<longleftrightarrow>
     md_repr SHA512_Transform 128 sha512_initial_state (sha512_state st) (sha512_buf st) msg \<and>
     sha512_count0 st = of_nat (8 * length msg div 2 ^ 64) \<and> sha512_count1 st = of_nat (8 * length msg)"

lemma sha512_r_of_nat: "sha512_count1 st = of_nat (8 * n) \<Longrightarrow> sha512_r st = n mod 128"
  using buffer_place [of 7 n] by (simp add: sha512_r_def mask_eq_exp_minus_1)

lemma sha512_repr_init:
  "length (sha512_buf st) = 128 \<Longrightarrow> sha512_repr (crypto_hash_sha512_init st) []"
  by (simp add: sha512_repr_def crypto_hash_sha512_init_def md_repr_start)

lemma sha512_repr_update:
  assumes "sha512_repr st a" "length b < 2 ^ 64"
  shows "sha512_repr (crypto_hash_sha512_update st b) (a @ b)"
proof (cases "b = []")
  case False
  have c: "sha512_count1 st = of_nat (8 * length a)" "sha512_count0 st = of_nat (8 * length a div 2 ^ 64)"
    and r: "md_repr SHA512_Transform 128 sha512_initial_state (sha512_state st) (sha512_buf st) a"
    using assms(1) by (simp_all add: sha512_repr_def)
  have n: "sha512_count_add (sha512_count0 st, sha512_count1 st) (of_nat (length b)) =
      (of_nat (8 * length (a @ b) div 2 ^ 64), of_nat (8 * length (a @ b)))"
    unfolding c length_append by (rule sha512_count_add_of_nat [OF assms(2)])
  show ?thesis
    unfolding sha512_repr_def crypto_hash_sha512_update_def sha512_r_of_nat [OF c(1)] n
    using False md_absorb_repr [OF r, of b] by (simp add: split_beta)
qed (simp add: assms crypto_hash_sha512_update_def)

lemma sha512_repr_final:
  assumes "sha512_repr st a"
  shows "crypto_hash_sha512_final st = sha512_digest a"
proof -
  have c: "sha512_count1 st = of_nat (8 * length a)" "sha512_count0 st = of_nat (8 * length a div 2 ^ 64)"
    and r: "md_repr SHA512_Transform 128 sha512_initial_state (sha512_state st) (sha512_buf st) a"
    using assms by (simp_all add: sha512_repr_def)
  have b: "md_blocks SHA512_Transform 128 sha512_initial_state m = md_blocks sha512_compress 128 sha512_initial_state m"
    for m
    by (rule md_blocks_cong_len [where n = 8])
      (simp_all add: SHA512_Transform_compress sha512_compress_def sha512_initial_state_def)
  have "length (be64enc_vect [x, y]) = 16" for x y by (simp add: be64enc_vect_def)
  from md_pad_repr(1) [OF r this, of "sha512_count0 st" "sha512_count1 st"] show ?thesis
    unfolding crypto_hash_sha512_final_def SHA512_Pad_def sha512_digest_def sha512_r_of_nat [OF c(1)] b
    by (simp only: c)
qed

interpretation sha512: streaming sha512_repr "\<lambda>n. n < 2 ^ 64"
  "crypto_hash_sha512_init \<lparr>sha512_state = s, sha512_count0 = c, sha512_count1 = d,
     sha512_buf = take 128 (buf @ replicate 128 0)\<rparr>"
  crypto_hash_sha512_update crypto_hash_sha512_final sha512_digest for s c d buf
  by unfold_locales (auto intro: sha512_repr_init sha512_repr_update sha512_repr_final)

text \<open>
  However a message of less than 2^64 bytes is cut, \<open>init\<close>, \<open>update\<close> on each piece and
  \<open>final\<close> compute the SHA-512 digest of the standard, with the 128-bit length of the message kept
  in two words whose carry is propagated.
\<close>

theorem sha512_streaming:
  assumes "length (sha512_buf local) = 128" "length (concat ms) < 2 ^ 64"
  shows "crypto_hash_sha512_final (update_all crypto_hash_sha512_update (crypto_hash_sha512_init local) ms) =
    sha512_digest (concat ms)"
  using sha512.final_update_all [where ms = ms and s = "sha512_state local" and c = "sha512_count0 local"
      and d = "sha512_count1 local" and buf = "sha512_buf local"] assms
  by (cases local) simp

lemma sha512_streaming_witness:
  "crypto_hash_sha512_final (update_all crypto_hash_sha512_update
     (crypto_hash_sha512_init
       \<lparr>sha512_state = [], sha512_count0 = 5, sha512_count1 = 6, sha512_buf = replicate 128 7\<rparr>) [[1, 2], [], [3]]) =
   sha512_digest [1, 2, 3]"
  using sha512_streaming [of "\<lparr>sha512_state = [], sha512_count0 = 5, sha512_count1 = 6, sha512_buf = replicate 128 7\<rparr>"
      "[[1, 2], [], [3]]"]
  by simp

lemma crypto_hash_sha512_digest:
  "length (sha512_buf local) = 128 \<Longrightarrow> length inp < 2 ^ 64 \<Longrightarrow> crypto_hash_sha512 local inp = sha512_digest inp"
  using sha512_repr_final [OF sha512_repr_update [OF sha512_repr_init, of local inp]]
  by (simp add: crypto_hash_sha512_def)

lemma length_sha512_digest [simp]: "length (sha512_digest msg) = 64"
proof -
  have "length (md_blocks sha512_compress 128 h m) = 8" if "length h = 8" for h m
    using that
  proof (induction "length m" arbitrary: h m rule: less_induct)
    case less
    then show ?case by (subst md_blocks.simps) (auto simp: sha512_compress_def)
  qed
  moreover have "length (concat (map store64_be ws)) = 8 * length ws" for ws by (induction ws) auto
  ultimately show ?thesis by (simp add: sha512_digest_def be64enc_vect_def sha512_initial_state_def)
qed

end
