(* ===== verification/Box.thy ===== *)
theory Box
  imports Secretbox Blake2b_Correct Sha512
begin

text \<open>
  Public-key boxes and sealed boxes, \<open>crypto_box\<close>: the curve25519xsalsa20poly1305 functions of
  \<open>box_curve25519xsalsa20poly1305.c\<close>, \<open>crypto_box_easy.c\<close> and \<open>crypto_box_seal.c\<close>.  The point
  multiplications of the curve are parameters, the record \<open>curve\<close>; what the round trips need of
  them, that the two parties of a Diffie-Hellman exchange arrive at the same point, is the
  hypothesis \<open>dh_agree\<close> at the keys concerned.  Random bytes (\<open>randombytes_buf\<close>) are an argument.
\<close>

section \<open>The curve\<close>

text \<open>\<open>mult(q, n, p)\<close> of the selected implementation, and \<open>mult_base(q, n)\<close>.\<close>

record curve =
  cv_mult :: "bytes \<Rightarrow> bytes \<Rightarrow> bytes result"
  cv_mult_base :: "bytes \<Rightarrow> bytes result"

text \<open>The all-zero result is refused: \<open>-(1 & ((d - 1) >> 8))\<close> with \<open>d\<close> the disjunction of the bytes.\<close>

definition crypto_scalarmult_curve25519 :: "curve \<Rightarrow> bytes \<Rightarrow> bytes \<Rightarrow> bytes result" where
  "crypto_scalarmult_curve25519 C n p =
     (case cv_mult C n p of
        Inl e \<Rightarrow> Inl (fail_minus1 e)
      | Inr q \<Rightarrow>
          (let d = fold (\<lambda>b d. d OR b) (take 32 q) (0 :: u8);
               r = - (1 AND signed_drop_bit 8 (ucast d - 1 :: i32))
           in if r = 0 then Inr q else Inl (Ret r)))"

definition crypto_scalarmult_curve25519_base :: "curve \<Rightarrow> bytes \<Rightarrow> bytes result" where
  "crypto_scalarmult_curve25519_base C n = cv_mult_base C n"

section \<open>box_curve25519xsalsa20poly1305.c\<close>

text \<open>Key pairs are given as \<open>(pk, sk)\<close>; \<open>local\<close> is the uninitialised hash state on the stack.\<close>

definition crypto_box_seed_keypair :: "curve \<Rightarrow> crypto_hash_sha512_state \<Rightarrow> bytes \<Rightarrow> (bytes \<times> bytes) result" where
  "crypto_box_seed_keypair C local seed =
     (let hash = crypto_hash_sha512 local (take 32 seed);
          sk = take 32 hash
      in map_sum id (\<lambda>pk. (pk, sk)) (crypto_scalarmult_curve25519_base C sk))"

definition crypto_box_keypair :: "curve \<Rightarrow> bytes \<Rightarrow> (bytes \<times> bytes) result" where
  "crypto_box_keypair C rnd =
     (let sk = take 32 rnd
      in map_sum id (\<lambda>pk. (pk, sk)) (crypto_scalarmult_curve25519_base C sk))"

definition crypto_box_beforenm :: "curve \<Rightarrow> bytes \<Rightarrow> bytes \<Rightarrow> bytes result" where
  "crypto_box_beforenm C pk sk =
     (case crypto_scalarmult_curve25519 C sk pk of
        Inl e \<Rightarrow> Inl (fail_minus1 e)
      | Inr s \<Rightarrow> Inr (crypto_core_hsalsa20 (replicate 16 0) s None))"

definition crypto_box_afternm :: "bytes \<Rightarrow> bytes \<Rightarrow> bytes \<Rightarrow> bytes result" where
  "crypto_box_afternm m n k = crypto_secretbox_xsalsa20poly1305 m n k"

definition crypto_box_open_afternm :: "bytes \<Rightarrow> bytes \<Rightarrow> bytes \<Rightarrow> bytes result" where
  "crypto_box_open_afternm c n k = crypto_secretbox_xsalsa20poly1305_open c n k"

text \<open>A failure of \<open>beforenm\<close> is returned as \<open>-1\<close>.\<close>

definition with_shared :: "bytes result \<Rightarrow> (bytes \<Rightarrow> 'a result) \<Rightarrow> 'a result" where
  "with_shared k f =
     (case k of
        Inl e \<Rightarrow> Inl (fail_minus1 e)
      | Inr k \<Rightarrow> f k)"

definition crypto_box :: "curve \<Rightarrow> bytes \<Rightarrow> bytes \<Rightarrow> bytes \<Rightarrow> bytes \<Rightarrow> bytes result" where
  "crypto_box C m n pk sk = with_shared (crypto_box_beforenm C pk sk) (\<lambda>k. crypto_box_afternm m n k)"

definition crypto_box_open :: "curve \<Rightarrow> bytes \<Rightarrow> bytes \<Rightarrow> bytes \<Rightarrow> bytes \<Rightarrow> bytes result" where
  "crypto_box_open C c n pk sk = with_shared (crypto_box_beforenm C pk sk) (\<lambda>k. crypto_box_open_afternm c n k)"

section \<open>crypto_box_easy.c\<close>

definition crypto_box_detached_afternm :: "bytes \<Rightarrow> bytes \<Rightarrow> bytes \<Rightarrow> bytes \<times> bytes" where
  "crypto_box_detached_afternm m n k = crypto_secretbox_detached m n k"

definition crypto_box_detached :: "curve \<Rightarrow> bytes \<Rightarrow> bytes \<Rightarrow> bytes \<Rightarrow> bytes \<Rightarrow> (bytes \<times> bytes) result" where
  "crypto_box_detached C m n pk sk =
     with_shared (crypto_box_beforenm C pk sk) (\<lambda>k. Inr (crypto_box_detached_afternm m n k))"

definition crypto_box_easy_afternm :: "bytes \<Rightarrow> bytes \<Rightarrow> bytes \<Rightarrow> bytes result" where
  "crypto_box_easy_afternm m n k =
     (if crypto_secretbox_MESSAGEBYTES_MAX < length m then Inl Abort
      else let (c, mac) = crypto_box_detached_afternm m n k in Inr (mac @ c))"

definition crypto_box_easy :: "curve \<Rightarrow> bytes \<Rightarrow> bytes \<Rightarrow> bytes \<Rightarrow> bytes \<Rightarrow> bytes result" where
  "crypto_box_easy C m n pk sk =
     (if crypto_secretbox_MESSAGEBYTES_MAX < length m then Inl Abort
      else map_sum id (\<lambda>(c, mac). mac @ c) (crypto_box_detached C m n pk sk))"

definition crypto_box_open_detached_afternm :: "bool \<Rightarrow> bytes \<Rightarrow> bytes \<Rightarrow> bytes \<Rightarrow> bytes \<Rightarrow> bytes result" where
  "crypto_box_open_detached_afternm m_null c mac n k = crypto_secretbox_open_detached m_null c mac n k"

definition crypto_box_open_detached ::
    "curve \<Rightarrow> bool \<Rightarrow> bytes \<Rightarrow> bytes \<Rightarrow> bytes \<Rightarrow> bytes \<Rightarrow> bytes \<Rightarrow> bytes result" where
  "crypto_box_open_detached C m_null c mac n pk sk =
     with_shared (crypto_box_beforenm C pk sk) (\<lambda>k. crypto_box_open_detached_afternm m_null c mac n k)"

definition crypto_box_open_easy_afternm :: "bytes \<Rightarrow> bytes \<Rightarrow> bytes \<Rightarrow> bytes result" where
  "crypto_box_open_easy_afternm c n k =
     (if length c < 16 then Inl (Ret (- 1))
      else crypto_box_open_detached_afternm False (drop 16 c) (take 16 c) n k)"

definition crypto_box_open_easy :: "curve \<Rightarrow> bytes \<Rightarrow> bytes \<Rightarrow> bytes \<Rightarrow> bytes \<Rightarrow> bytes result" where
  "crypto_box_open_easy C c n pk sk =
     (if length c < 16 then Inl (Ret (- 1))
      else crypto_box_open_detached C False (drop 16 c) (take 16 c) n pk sk)"

section \<open>crypto_box_seal.c\<close>

text \<open>
  The results of the four hash calls are not looked at by the code; they cannot fail at these
  lengths, which is lemma \<open>seal_nonce_eq\<close>.
\<close>

definition crypto_box_seal_nonce :: "bytes \<Rightarrow> bytes \<Rightarrow> bytes result" where
  "crypto_box_seal_nonce pk1 pk2 =
     (case crypto_generichash_init None 0 24 of
        Inl e \<Rightarrow> Inl e
      | Inr st \<Rightarrow>
          (let st = crypto_generichash_update st (take 32 pk1);
               st = crypto_generichash_update st (take 32 pk2)
           in map_sum id fst (crypto_generichash_final st 24)))"

text \<open>The ciphertext starts with the ephemeral public key; its secret key is forgotten.\<close>

definition crypto_box_seal :: "curve \<Rightarrow> bytes \<Rightarrow> bytes \<Rightarrow> bytes \<Rightarrow> bytes result" where
  "crypto_box_seal C rnd m pk =
     (case crypto_box_keypair C rnd of
        Inl e \<Rightarrow> Inl (fail_minus1 e)
      | Inr (epk, esk) \<Rightarrow>
          (case crypto_box_seal_nonce epk pk of
             Inl e \<Rightarrow> Inl e
           | Inr nonce \<Rightarrow> map_sum id (\<lambda>c. take 32 epk @ c) (crypto_box_easy C m nonce pk esk)))"

definition crypto_box_SEALBYTES :: nat where
  "crypto_box_SEALBYTES = 32 + 16"

definition crypto_box_seal_open :: "curve \<Rightarrow> bytes \<Rightarrow> bytes \<Rightarrow> bytes \<Rightarrow> bytes result" where
  "crypto_box_seal_open C c pk sk =
     (if length c < crypto_box_SEALBYTES then Inl (Ret (- 1))
      else
        case crypto_box_seal_nonce (take 32 c) pk of
          Inl e \<Rightarrow> Inl e
        | Inr nonce \<Rightarrow> crypto_box_open_easy C (drop 32 c) nonce (take 32 c) sk)"

section \<open>Facts about boxes\<close>

lemma with_shared_Inr: "with_shared r f = Inr x \<longleftrightarrow> (\<exists>k. r = Inr k \<and> f k = Inr x)"
  by (simp add: with_shared_def split: sum.split fault.split)

lemma box_easy_secretbox:
  "crypto_box_beforenm C pk sk = Inr k \<Longrightarrow> crypto_box_easy C m n pk sk = crypto_secretbox_easy m n k"
  by (simp add: crypto_box_easy_def crypto_secretbox_easy_def crypto_box_detached_def with_shared_def
      crypto_box_detached_afternm_def split: prod.split)

lemma box_open_easy_secretbox:
  "crypto_box_beforenm C pk sk = Inr k \<Longrightarrow> crypto_box_open_easy C c n pk sk = crypto_secretbox_open_easy c n k"
  by (simp add: crypto_box_open_easy_def crypto_secretbox_open_easy_def crypto_box_open_detached_def
      with_shared_def crypto_box_open_detached_afternm_def)

lemma box_afternm_secretbox:
  "crypto_box_easy_afternm m n k = crypto_secretbox_easy m n k"
  "crypto_box_open_easy_afternm c n k = crypto_secretbox_open_easy c n k"
  by (simp_all add: crypto_box_easy_afternm_def crypto_secretbox_easy_def crypto_box_detached_afternm_def
      crypto_box_open_easy_afternm_def crypto_secretbox_open_easy_def crypto_box_open_detached_afternm_def)

text \<open>
  The documented behaviour of X25519 at two key pairs: both parties compute the same point, and it
  is not one of the few the function refuses.
\<close>

definition dh_agree :: "curve \<Rightarrow> bytes \<times> bytes \<Rightarrow> bytes \<times> bytes \<Rightarrow> bool" where
  "dh_agree C = (\<lambda>(pk1, sk1) (pk2, sk2).
     \<exists>s. crypto_scalarmult_curve25519 C sk1 pk2 = Inr s \<and> crypto_scalarmult_curve25519 C sk2 pk1 = Inr s)"

lemma dh_agree_beforenm:
  "dh_agree C (pk1, sk1) (pk2, sk2) \<Longrightarrow>
   \<exists>k. crypto_box_beforenm C pk2 sk1 = Inr k \<and> crypto_box_beforenm C pk1 sk2 = Inr k"
  by (auto simp: dh_agree_def crypto_box_beforenm_def)

text \<open>A box from the first party to the second is authenticated encryption.\<close>

interpretation box: auth_enc "24 \<le> length n \<and> dh_agree C (pk1, sk1) (pk2, sk2)" secretbox_fits 16
  "\<lambda>m. crypto_box_easy C m n pk2 sk1" "\<lambda>c. crypto_box_open_easy C c n pk1 sk2" for n C pk1 sk1 pk2 sk2
proof unfold_locales
  fix m :: bytes assume ok: "24 \<le> length n \<and> dh_agree C (pk1, sk1) (pk2, sk2)" "secretbox_fits (length m)"
  then obtain k where "crypto_box_beforenm C pk2 sk1 = Inr k" using dh_agree_beforenm by blast
  then show "\<exists>c. crypto_box_easy C m n pk2 sk1 = Inr c \<and> length c = length m + 16"
    using ok secretbox.enc_length [of n m k] by (simp add: box_easy_secretbox)
next
  fix m c assume ok: "24 \<le> length n \<and> dh_agree C (pk1, sk1) (pk2, sk2)" "secretbox_fits (length m)"
    "crypto_box_easy C m n pk2 sk1 = Inr c"
  then obtain k where "crypto_box_beforenm C pk2 sk1 = Inr k" "crypto_box_beforenm C pk1 sk2 = Inr k"
    using dh_agree_beforenm by blast
  then show "crypto_box_open_easy C c n pk1 sk2 = Inr m"
    using ok secretbox.dec_enc [of n m k c] by (simp add: box_easy_secretbox box_open_easy_secretbox)
next
  fix c m assume ok: "24 \<le> length n \<and> dh_agree C (pk1, sk1) (pk2, sk2)"
    "crypto_box_open_easy C c n pk1 sk2 = Inr m" "secretbox_fits (length m)"
  then obtain k where "crypto_box_beforenm C pk2 sk1 = Inr k" "crypto_box_beforenm C pk1 sk2 = Inr k"
    using dh_agree_beforenm by blast
  then show "crypto_box_easy C m n pk2 sk1 = Inr c"
    using ok secretbox.dec_sound [of n c k m] by (simp add: box_easy_secretbox box_open_easy_secretbox)
qed

section \<open>Facts about sealed boxes\<close>

text \<open>The nonce is the BLAKE2b hash of the two public keys, 24 bytes.\<close>

definition seal_nonce :: "bytes \<Rightarrow> bytes \<Rightarrow> bytes" where
  "seal_nonce pk1 pk2 = blake2b_digest (blake2b_h0 24 0) 24 (take 32 pk1 @ take 32 pk2)"

lemma length_seal_nonce [simp]: "length (seal_nonce pk1 pk2) = 24"
  by (simp add: seal_nonce_def length_blake2b_digest)

lemma seal_nonce_eq: "crypto_box_seal_nonce pk1 pk2 = Inr (seal_nonce pk1 pk2)"
proof -
  obtain S where S: "crypto_generichash_init None 0 24 = Inr S" "blake2b_repr (blake2b_h0 24 0) S []"
    using generichash_init_repr [of 24 0 None] by (auto simp: key_block_def)
  have "blake2b_repr (blake2b_h0 24 0) (blake2b_update (blake2b_update S (take 32 pk1)) (take 32 pk2))
      (take 32 pk1 @ take 32 pk2)"
    using blake2b_repr_update [OF blake2b_repr_update [OF S(2)], of "take 32 pk1" "take 32 pk2"] by simp
  from generichash_final_repr [OF this, of 24] S(1) show ?thesis
    by (auto simp: crypto_box_seal_nonce_def crypto_generichash_update_def seal_nonce_def)
qed

lemma crypto_box_seal_nonce_take [simp]: "seal_nonce (take 32 a) b = seal_nonce a b"
  by (simp add: seal_nonce_def)

text \<open>A sealed box is made with the keys the ephemeral pair and the receiver share.\<close>

lemma box_seal_eq:
  assumes "crypto_box_keypair C rnd = Inr (epk, esk)"
  shows "crypto_box_seal C rnd m pk =
    map_sum id (\<lambda>c. take 32 epk @ c) (crypto_box_easy C m (seal_nonce epk pk) pk esk)"
  using assms by (simp add: crypto_box_seal_def seal_nonce_eq)

lemma box_seal_open_eq:
  "crypto_box_seal_open C c pk sk =
    (if length c < 48 then Inl (Ret (- 1))
     else crypto_box_open_easy C (drop 32 c) (seal_nonce c pk) (take 32 c) sk)"
  by (simp add: crypto_box_seal_open_def crypto_box_SEALBYTES_def seal_nonce_eq)

text \<open>
  The sealed box as authenticated encryption from the ephemeral pair made of \<open>rnd\<close> to the receiver.
\<close>

definition seal_ok :: "curve \<Rightarrow> bytes \<Rightarrow> bytes \<Rightarrow> bytes \<Rightarrow> bool" where
  "seal_ok C rnd pk sk \<longleftrightarrow>
     (case crypto_box_keypair C rnd of
        Inl e \<Rightarrow> False
      | Inr (epk, esk) \<Rightarrow> length epk = 32 \<and> dh_agree C (epk, esk) (pk, sk))"

lemma seal_roundtrip:
  assumes "seal_ok C rnd pk sk" "secretbox_fits (length m)"
  shows "\<exists>c. crypto_box_seal C rnd m pk = Inr c \<and> length c = length m + 48 \<and>
    crypto_box_seal_open C c pk sk = Inr m"
proof -
  obtain epk esk where e: "crypto_box_keypair C rnd = Inr (epk, esk)" "length epk = 32"
    "dh_agree C (epk, esk) (pk, sk)"
    using assms(1) by (auto simp: seal_ok_def split: sum.splits)
  let ?n = "seal_nonce epk pk"
  have ok: "24 \<le> length ?n \<and> dh_agree C (epk, esk) (pk, sk)" using e(3) by simp
  obtain c where c: "crypto_box_easy C m ?n pk esk = Inr c" "length c = length m + 16"
    using box.enc_length [OF ok assms(2)] by blast
  have "seal_nonce (epk @ c) pk = ?n"
    using e(2) by (simp add: seal_nonce_def)
  moreover have "crypto_box_open_easy C c ?n epk sk = Inr m"
    by (rule box.dec_enc [OF ok assms(2) c(1)])
  ultimately show ?thesis
    using c e by (simp add: box_seal_eq box_seal_open_eq)
qed

text \<open>Whatever opens was sealed for this receiver under the public key it starts with.\<close>

lemma seal_open_sound:
  assumes "crypto_box_seal_open C c pk sk = Inr m" "secretbox_fits (length m)"
  shows "\<exists>k. crypto_box_beforenm C (take 32 c) sk = Inr k \<and>
    crypto_secretbox_easy m (seal_nonce c pk) k = Inr (drop 32 c) \<and> length c = length m + 48"
proof -
  from assms(1) have l: "48 \<le> length c" and
    o: "crypto_box_open_easy C (drop 32 c) (seal_nonce c pk) (take 32 c) sk = Inr m"
    by (simp_all add: box_seal_open_eq split: if_splits)
  from o obtain k where k: "crypto_box_beforenm C (take 32 c) sk = Inr k"
    by (auto simp: crypto_box_open_easy_def crypto_box_open_detached_def with_shared_Inr split: if_splits)
  have e: "crypto_secretbox_easy m (seal_nonce c pk) k = Inr (drop 32 c)"
    using secretbox.dec_sound [of "seal_nonce c pk" "drop 32 c" k m] o assms(2)
    by (simp add: box_open_easy_secretbox [OF k])
  then obtain d where "drop 32 c = d" "length d = length m + 16"
    using secretbox.enc_length [of "seal_nonce c pk" m k] assms(2) by auto
  then have "length (drop 32 c) = length m + 16" by simp
  then have "length c = length m + 48" using l by simp
  then show ?thesis using k e by blast
qed

section \<open>Properties\<close>

text \<open>
  A curve on which the hypothesis holds, for the witnesses: points are added byte by byte.
\<close>

definition sum_curve :: curve where
  "sum_curve = \<lparr>cv_mult = (\<lambda>n p. Inr (map2 (+) n p)), cv_mult_base = (\<lambda>n. Inr n)\<rparr>"

lemma sum_curve_mult:
  "crypto_scalarmult_curve25519 sum_curve (replicate 32 a) (replicate 32 b) =
    (if a + b = 0 then Inl (Ret (- 1)) else Inr (replicate 32 (a + b)))"
proof -
  have f: "fold (\<lambda>b d. d OR b) (replicate n x) y = (if n = 0 then y else y OR x)" for n and x y :: u8
    by (induction n arbitrary: y) (simp_all add: or.assoc)
  show ?thesis
    by (simp add: crypto_scalarmult_curve25519_def sum_curve_def f map2_map_map zip_replicate Let_def byte_pred_sshift
        del: fold_replicate)
qed

lemma sum_curve_keypair [simp]:
  "crypto_box_keypair sum_curve (replicate 32 a) = Inr (replicate 32 a, replicate 32 a)"
  by (simp add: crypto_box_keypair_def crypto_scalarmult_curve25519_base_def sum_curve_def Let_def)

lemma sum_curve_agree [simp]:
  "a + b \<noteq> 0 \<Longrightarrow>
   dh_agree sum_curve (replicate 32 a, replicate 32 a) (replicate 32 b, replicate 32 b)"
  by (simp add: dh_agree_def sum_curve_mult add.commute)

text \<open>
  C24: A sealed box opens to the message that was sealed: when the ephemeral key pair drawn by
  \<open>crypto_box_seal\<close> and the receiver's pair agree on the curve, the ciphertext is 48 bytes longer
  than the message and \<open>crypto_box_seal_open\<close> with the receiver's keys gives the message back.
\<close>

theorem box_seal_roundtrip:
  assumes "crypto_box_keypair C rnd = Inr (epk, esk)" "length epk = 32" "dh_agree C (epk, esk) (pk, sk)"
    "length m \<le> crypto_secretbox_MESSAGEBYTES_MAX"
  shows "\<exists>c. crypto_box_seal C rnd m pk = Inr c \<and> length c = length m + crypto_box_SEALBYTES \<and>
    take 32 c = epk \<and> crypto_box_seal_open C c pk sk = Inr m"
proof -
  have "seal_ok C rnd pk sk" using assms by (simp add: seal_ok_def)
  from seal_roundtrip [OF this, of m] assms show ?thesis
    by (auto simp: secretbox_fits_def crypto_box_SEALBYTES_def box_seal_eq map_sum_Inr)
qed

lemma box_seal_roundtrip_witness:
  "\<exists>c. crypto_box_seal sum_curve (replicate 32 1) [1, 2, 3] (replicate 32 2) = Inr c \<and>
    length c = 51 \<and> take 32 c = replicate 32 1 \<and>
    crypto_box_seal_open sum_curve c (replicate 32 2) (replicate 32 2) = Inr [1, 2, 3]"
  using box_seal_roundtrip [of sum_curve "replicate 32 1" "replicate 32 1" "replicate 32 1" "replicate 32 2"
      "replicate 32 2" "[1, 2, 3]"]
  by (simp add: crypto_secretbox_MESSAGEBYTES_MAX_def crypto_box_SEALBYTES_def)

text \<open>
  Nothing else opens: a byte string that \<open>crypto_box_seal_open\<close> accepts is at least 48 bytes
  long, its first 32 bytes are a public key with which the receiver's secret key has a shared
  secret, and the rest is exactly the secret box of the message under that secret and the nonce
  hashed from the two public keys.
\<close>

theorem box_seal_open_authentic:
  assumes "crypto_box_seal_open C c pk sk = Inr m" "length m \<le> crypto_secretbox_MESSAGEBYTES_MAX"
  shows "\<exists>k. crypto_box_beforenm C (take 32 c) sk = Inr k \<and>
    crypto_secretbox_easy m (seal_nonce (take 32 c) pk) k = Inr (drop 32 c) \<and>
    length c = length m + crypto_box_SEALBYTES"
  using seal_open_sound [OF assms(1)] assms(2) by (simp add: secretbox_fits_def crypto_box_SEALBYTES_def)

lemma box_seal_open_authentic_witness:
  "\<exists>c k. crypto_box_beforenm sum_curve (take 32 c) (replicate 32 2) = Inr k \<and>
    crypto_secretbox_easy [1, 2, 3] (seal_nonce (take 32 c) (replicate 32 2)) k = Inr (drop 32 c)"
proof -
  have "seal_ok sum_curve (replicate 32 1) (replicate 32 2) (replicate 32 2)"
    by (simp add: seal_ok_def)
  from seal_roundtrip [OF this, of "[1, 2, 3]"]
  obtain c where "crypto_box_seal_open sum_curve c (replicate 32 2) (replicate 32 2) = Inr [1, 2, 3]"
    by (auto simp: secretbox_fits_def crypto_secretbox_MESSAGEBYTES_MAX_def)
  from box_seal_open_authentic [OF this] show ?thesis
    by (auto simp: crypto_secretbox_MESSAGEBYTES_MAX_def)
qed

end
