(* ===== verification/ChaCha.thy ===== *)
theory ChaCha
  imports StreamCipher
begin

text \<open>
  ChaCha20: \<open>crypto_stream/chacha20/ref/chacha20_ref.c\<close>, the interface
  \<open>crypto_stream/chacha20/stream_chacha20.c\<close>, the key derivation
  \<open>crypto_core/hchacha20/core_hchacha20.c\<close> and \<open>xchacha20\<close>; and
  \<open>randombytes_buf_deterministic\<close>, from which \<open>MFCrypto_SymKeyGenSeed\<close> derives a key.  The context
  is the list of its sixteen words.
\<close>

section \<open>chacha20_ref.c\<close>

definition chacha_QUARTERROUND :: "nat \<times> nat \<times> nat \<times> nat \<Rightarrow> u32 list \<Rightarrow> u32 list" where
  "chacha_QUARTERROUND = (\<lambda>(a, b, c, d) x.
     (let x = x[a := x ! a + x ! b]; x = x[d := rotl32 (x ! d XOR x ! a) 16];
          x = x[c := x ! c + x ! d]; x = x[b := rotl32 (x ! b XOR x ! c) 12];
          x = x[a := x ! a + x ! b]; x = x[d := rotl32 (x ! d XOR x ! a) 8];
          x = x[c := x ! c + x ! d]; x = x[b := rotl32 (x ! b XOR x ! c) 7]
      in x))"

definition chacha_doubleround :: "u32 list \<Rightarrow> u32 list" where
  "chacha_doubleround x = fold chacha_QUARTERROUND
     [(0, 4, 8, 12), (1, 5, 9, 13), (2, 6, 10, 14), (3, 7, 11, 15),
      (0, 5, 10, 15), (1, 6, 11, 12), (2, 7, 8, 13), (3, 4, 9, 14)] x"

definition chacha_keysetup :: "bytes \<Rightarrow> u32 list" where
  "chacha_keysetup k =
     [0x61707865, 0x3320646e, 0x79622d32, 0x6b206574] @
     map (\<lambda>i. load32_le (drop (4 * i) k)) [0..<8]"

definition chacha_ivsetup :: "u32 list \<Rightarrow> bytes \<Rightarrow> bytes option \<Rightarrow> u32 list" where
  "chacha_ivsetup inp iv counter =
     take 12 inp @
     [case counter of None \<Rightarrow> 0 | Some c \<Rightarrow> load32_le c,
      case counter of None \<Rightarrow> 0 | Some c \<Rightarrow> load32_le (drop 4 c),
      load32_le iv, load32_le (drop 4 iv)]"

definition chacha_ietf_ivsetup :: "u32 list \<Rightarrow> bytes \<Rightarrow> bytes option \<Rightarrow> u32 list" where
  "chacha_ietf_ivsetup inp iv counter =
     take 12 inp @
     [case counter of None \<Rightarrow> 0 | Some c \<Rightarrow> load32_le c,
      load32_le iv, load32_le (drop 4 iv), load32_le (drop 8 iv)]"

text \<open>One pass of the loop of \<open>chacha20_encrypt_bytes\<close> on 64 bytes, and the step of the counter.\<close>

definition chacha20_body :: "u32 list \<Rightarrow> bytes \<Rightarrow> bytes" where
  "chacha20_body j m =
     (let x = map2 (+) ((chacha_doubleround ^^ 10) j) j
      in concat (map (\<lambda>i. store32_le (x ! i XOR load32_le (drop (4 * i) m))) [0..<16]))"

definition chacha20_next :: "u32 list \<Rightarrow> u32 list" where
  "chacha20_next j =
     (let j = j[12 := j ! 12 + 1] in if j ! 12 = 0 then j[13 := j ! 13 + 1] else j)"

function chacha20_encrypt_loop :: "u32 list \<Rightarrow> bytes \<Rightarrow> bytes \<times> u32 list" where
  "chacha20_encrypt_loop j m =
     (if length m < 64 then
        (take (length m) (chacha20_body j (m @ replicate (64 - length m) 0)), chacha20_next j)
      else if length m = 64 then (chacha20_body j m, chacha20_next j)
      else
        let (c, j') = chacha20_encrypt_loop (chacha20_next j) (drop 64 m)
        in (chacha20_body j (take 64 m) @ c, j'))"
  by pat_completeness auto
termination by (relation "measure (\<lambda>(j, m). length m)") auto

declare chacha20_encrypt_loop.simps [simp del]

text \<open>The ciphertext and the context with its counter words written back.\<close>

definition chacha20_encrypt_bytes :: "u32 list \<Rightarrow> bytes \<Rightarrow> bytes \<times> u32 list" where
  "chacha20_encrypt_bytes inp m =
     (if m = [] then ([], inp)
      else
        let (c, j) = chacha20_encrypt_loop inp m
        in (c, inp[12 := j ! 12, 13 := j ! 13]))"

definition chacha_stream_ref :: "nat \<Rightarrow> bytes \<Rightarrow> bytes \<Rightarrow> bytes" where
  "chacha_stream_ref clen n k =
     (if clen = 0 then []
      else fst (chacha20_encrypt_bytes (chacha_ivsetup (chacha_keysetup k) n None) (replicate clen 0)))"

definition chacha_stream_ietf_ext_ref :: "nat \<Rightarrow> bytes \<Rightarrow> bytes \<Rightarrow> bytes" where
  "chacha_stream_ietf_ext_ref clen n k =
     (if clen = 0 then []
      else fst (chacha20_encrypt_bytes (chacha_ietf_ivsetup (chacha_keysetup k) n None) (replicate clen 0)))"

definition chacha_stream_ref_xor_ic :: "bytes \<Rightarrow> bytes \<Rightarrow> u64 \<Rightarrow> bytes \<Rightarrow> bytes" where
  "chacha_stream_ref_xor_ic m n ic k =
     (if m = [] then []
      else
        let ic_high = ucast (drop_bit 32 ic);
            ic_low = ucast ic;
            ic_bytes = store32_le ic_low @ store32_le ic_high
        in fst (chacha20_encrypt_bytes (chacha_ivsetup (chacha_keysetup k) n (Some ic_bytes)) m))"

definition chacha_stream_ietf_ext_ref_xor_ic :: "bytes \<Rightarrow> bytes \<Rightarrow> u32 \<Rightarrow> bytes \<Rightarrow> bytes" where
  "chacha_stream_ietf_ext_ref_xor_ic m n ic k =
     (if m = [] then []
      else fst (chacha20_encrypt_bytes
        (chacha_ietf_ivsetup (chacha_keysetup k) n (Some (store32_le ic))) m))"

section \<open>stream_chacha20.c\<close>

text \<open>\<open>SODIUM_SIZE_MAX\<close> and \<open>SODIUM_MIN(SODIUM_SIZE_MAX, 64ULL * (1ULL << 32))\<close>.\<close>

definition crypto_stream_chacha20_MESSAGEBYTES_MAX :: nat where
  "crypto_stream_chacha20_MESSAGEBYTES_MAX = 2 ^ 64 - 1"

definition crypto_stream_chacha20_ietf_MESSAGEBYTES_MAX :: nat where
  "crypto_stream_chacha20_ietf_MESSAGEBYTES_MAX = 64 * 2 ^ 32"

definition crypto_stream_chacha20 :: "nat \<Rightarrow> bytes \<Rightarrow> bytes \<Rightarrow> bytes result" where
  "crypto_stream_chacha20 clen n k =
     require (clen \<le> crypto_stream_chacha20_MESSAGEBYTES_MAX) Abort (Inr (chacha_stream_ref clen n k))"

definition crypto_stream_chacha20_xor_ic :: "bytes \<Rightarrow> bytes \<Rightarrow> u64 \<Rightarrow> bytes \<Rightarrow> bytes result" where
  "crypto_stream_chacha20_xor_ic m n ic k =
     require (length m \<le> crypto_stream_chacha20_MESSAGEBYTES_MAX) Abort
       (Inr (chacha_stream_ref_xor_ic m n ic k))"

definition crypto_stream_chacha20_xor :: "bytes \<Rightarrow> bytes \<Rightarrow> bytes \<Rightarrow> bytes result" where
  "crypto_stream_chacha20_xor m n k =
     require (length m \<le> crypto_stream_chacha20_MESSAGEBYTES_MAX) Abort
       (Inr (chacha_stream_ref_xor_ic m n 0 k))"

definition crypto_stream_chacha20_ietf_ext :: "nat \<Rightarrow> bytes \<Rightarrow> bytes \<Rightarrow> bytes result" where
  "crypto_stream_chacha20_ietf_ext clen n k =
     require (clen \<le> crypto_stream_chacha20_MESSAGEBYTES_MAX) Abort
       (Inr (chacha_stream_ietf_ext_ref clen n k))"

definition crypto_stream_chacha20_ietf_ext_xor_ic :: "bytes \<Rightarrow> bytes \<Rightarrow> u32 \<Rightarrow> bytes \<Rightarrow> bytes result" where
  "crypto_stream_chacha20_ietf_ext_xor_ic m n ic k =
     require (length m \<le> crypto_stream_chacha20_MESSAGEBYTES_MAX) Abort
       (Inr (chacha_stream_ietf_ext_ref_xor_ic m n ic k))"

definition crypto_stream_chacha20_ietf_ext_xor :: "bytes \<Rightarrow> bytes \<Rightarrow> bytes \<Rightarrow> bytes result" where
  "crypto_stream_chacha20_ietf_ext_xor m n k =
     require (length m \<le> crypto_stream_chacha20_MESSAGEBYTES_MAX) Abort
       (Inr (chacha_stream_ietf_ext_ref_xor_ic m n 0 k))"

definition crypto_stream_chacha20_ietf :: "nat \<Rightarrow> bytes \<Rightarrow> bytes \<Rightarrow> bytes result" where
  "crypto_stream_chacha20_ietf clen n k =
     require (clen \<le> crypto_stream_chacha20_ietf_MESSAGEBYTES_MAX) Abort
       (crypto_stream_chacha20_ietf_ext clen n k)"

text \<open>The guard compares \<open>ic\<close> with the blocks left, in 64-bit arithmetic that can wrap below zero.\<close>

definition crypto_stream_chacha20_ietf_xor_ic :: "bytes \<Rightarrow> bytes \<Rightarrow> u32 \<Rightarrow> bytes \<Rightarrow> bytes result" where
  "crypto_stream_chacha20_ietf_xor_ic m n ic k =
     require (\<not> (64 * 0x100000000) div 64 - (of_nat (length m) + 63) div 64 < (ucast ic :: u64)) Abort
       (crypto_stream_chacha20_ietf_ext_xor_ic m n ic k)"

definition crypto_stream_chacha20_ietf_xor :: "bytes \<Rightarrow> bytes \<Rightarrow> bytes \<Rightarrow> bytes result" where
  "crypto_stream_chacha20_ietf_xor m n k =
     require (length m \<le> crypto_stream_chacha20_ietf_MESSAGEBYTES_MAX) Abort
       (crypto_stream_chacha20_ietf_ext_xor m n k)"

section \<open>HChaCha20 and XChaCha20\<close>

definition crypto_core_hchacha20 :: "bytes \<Rightarrow> bytes \<Rightarrow> bytes option \<Rightarrow> bytes" where
  "crypto_core_hchacha20 inp k c =
     (let w = (case c of
                 None \<Rightarrow> [0x61707865, 0x3320646e, 0x79622d32, 0x6b206574]
               | Some c \<Rightarrow> [load32_le c, load32_le (drop 4 c), load32_le (drop 8 c), load32_le (drop 12 c)]);
          x = w @ map (\<lambda>i. load32_le (drop (4 * i) k)) [0..<8] @ map (\<lambda>i. load32_le (drop (4 * i) inp)) [0..<4];
          x = (chacha_doubleround ^^ 10) x
      in concat (map (\<lambda>i. store32_le (x ! i)) [0, 1, 2, 3, 12, 13, 14, 15]))"

definition crypto_stream_xchacha20 :: "nat \<Rightarrow> bytes \<Rightarrow> bytes \<Rightarrow> bytes result" where
  "crypto_stream_xchacha20 clen n k =
     (let k2 = crypto_core_hchacha20 n k None in crypto_stream_chacha20 clen (drop 16 n) k2)"

definition crypto_stream_xchacha20_xor_ic :: "bytes \<Rightarrow> bytes \<Rightarrow> u64 \<Rightarrow> bytes \<Rightarrow> bytes result" where
  "crypto_stream_xchacha20_xor_ic m n ic k =
     (let k2 = crypto_core_hchacha20 n k None in crypto_stream_chacha20_xor_ic m (drop 16 n) ic k2)"

definition crypto_stream_xchacha20_xor :: "bytes \<Rightarrow> bytes \<Rightarrow> bytes \<Rightarrow> bytes result" where
  "crypto_stream_xchacha20_xor m n k = crypto_stream_xchacha20_xor_ic m n 0 k"

section \<open>randombytes_buf_deterministic\<close>

text \<open>The nonce is the text "LibsodiumDRG".\<close>

definition randombytes_buf_deterministic :: "nat \<Rightarrow> bytes \<Rightarrow> bytes result" where
  "randombytes_buf_deterministic len seed =
     require (len \<le> 0x4000000000) Abort
       (crypto_stream_chacha20_ietf len
          [0x4c, 0x69, 0x62, 0x73, 0x6f, 0x64, 0x69, 0x75, 0x6d, 0x44, 0x52, 0x47] seed)"

section \<open>The keystream\<close>

text \<open>The block function over the key and the 16 bytes of nonce and counter.\<close>

definition chacha20_block :: "u32 list \<Rightarrow> bytes" where
  "chacha20_block j = concat (map store32_le (map2 (+) ((chacha_doubleround ^^ 10) j) j))"

definition chacha20_core :: "bytes \<Rightarrow> bytes \<Rightarrow> bytes" where
  "chacha20_core inp k = chacha20_block (chacha_ivsetup (chacha_keysetup k) inp (Some (drop 8 inp)))"

lemma length_chacha_QUARTERROUND [simp]: "length (chacha_QUARTERROUND q x) = length x"
  by (simp add: chacha_QUARTERROUND_def Let_def split: prod.split)

lemma length_fold_QUARTERROUND [simp]: "length (fold chacha_QUARTERROUND qs x) = length x"
  by (induction qs arbitrary: x) auto

lemma length_chacha_doubleround [simp]: "length (chacha_doubleround x) = length x"
  by (simp add: chacha_doubleround_def)

lemma length_chacha_rounds [simp]: "length ((chacha_doubleround ^^ i) x) = length x"
  by (induction i) auto

lemma length_chacha20_block [simp]: "length j = 16 \<Longrightarrow> length (chacha20_block j) = 64"
  by (simp add: chacha20_block_def del: map_map)

lemma length_chacha_keysetup [simp]: "length (chacha_keysetup k) = 12"
  by (simp add: chacha_keysetup_def)

lemma length_chacha_ivsetup [simp]: "12 \<le> length inp \<Longrightarrow> length (chacha_ivsetup inp iv c) = 16"
  "12 \<le> length inp \<Longrightarrow> length (chacha_ietf_ivsetup inp iv c) = 16"
  by (simp_all add: chacha_ivsetup_def chacha_ietf_ivsetup_def)

interpretation chacha20: block_stream chacha20_core
  by unfold_locales (simp add: chacha20_core_def)

text \<open>The words of the exclusive-or are the exclusive-or of the bytes.\<close>

lemma store32_le_xor: "4 \<le> length m \<Longrightarrow> store32_le (x XOR load32_le m) = xor_buf (store32_le x) (take 4 m)"
proof -
  assume "4 \<le> length m"
  then have "store32_le (load32_le m) = take 4 m"
    using store_load32_le [of "take 4 m"] by (simp add: load32_le_take)
  moreover have "store32_le (x XOR y) = xor_buf (store32_le x) (store32_le y)" for y
    by (simp add: store32_le_def drop_bit_xor unsigned_xor_eq)
  ultimately show ?thesis by simp
qed

lemma concat_xor_words:
  "4 * length ws \<le> length m \<Longrightarrow>
   concat (map (\<lambda>i. store32_le (ws ! i XOR load32_le (drop (4 * i) m))) [0..<length ws]) =
   xor_buf (concat (map store32_le ws)) m"
proof (induction ws arbitrary: m)
  case (Cons w ws)
  have u: "[0..<length (w # ws)] = 0 # map Suc [0..<length ws]" by (simp add: upt_conv_Cons map_Suc_upt del: upt_Suc)
  have "concat (map (\<lambda>i. store32_le (ws ! i XOR load32_le (drop (4 * i) (drop 4 m)))) [0..<length ws]) =
      xor_buf (concat (map store32_le ws)) (drop 4 m)"
    using Cons.prems by (intro Cons.IH) simp
  moreover have "xor_buf (store32_le w @ concat (map store32_le ws)) (take 4 m @ drop 4 m) =
      xor_buf (store32_le w) (take 4 m) @ xor_buf (concat (map store32_le ws)) (drop 4 m)"
    using Cons.prems by (intro xor_buf_append) simp
  ultimately show ?case
    using Cons.prems unfolding u by (simp add: store32_le_xor comp_def add.commute)
qed simp

lemma chacha20_body_xor:
  assumes "length j = 16" "64 \<le> length m"
  shows "chacha20_body j m = xor_buf (chacha20_block j) m"
proof -
  let ?x = "map2 (+) ((chacha_doubleround ^^ 10) j) j"
  have l: "length ?x = 16" using assms(1) by simp
  show ?thesis
    using concat_xor_words [of ?x m] assms(2) unfolding l by (simp add: chacha20_body_def chacha20_block_def)
qed

lemma store64_le_split: "store64_le ic = store32_le (ucast ic) @ store32_le (ucast (drop_bit 32 ic))"
  by (simp add: store64_le_def store32_le_def) (auto intro!: bit_word_eqI simp: bit_simps ac_simps)

text \<open>The context for a nonce of eight bytes and a 64-bit block number.\<close>

definition chacha_at :: "bytes \<Rightarrow> u64 \<Rightarrow> bytes \<Rightarrow> u32 list" where
  "chacha_at n ic k =
     chacha_keysetup k @ [ucast ic, ucast (drop_bit 32 ic), load32_le n, load32_le (drop 4 n)]"

lemma length_chacha_at [simp]: "length (chacha_at n ic k) = 16"
  by (simp add: chacha_at_def)

lemma load32_le_cong: "take 4 a = take 4 b \<Longrightarrow> load32_le a = load32_le b"
proof -
  assume t: "take 4 a = take 4 b"
  have "a ! i = b ! i" if "i < 4" for i
    using arg_cong [OF t, of "\<lambda>x. x ! i"] that by simp
  then show ?thesis by (simp add: load32_le_def)
qed

lemma chacha_keysetup_take [simp]: "chacha_keysetup (take 32 k) = chacha_keysetup k"
  by (auto simp: chacha_keysetup_def drop_take intro!: load32_le_cong)

lemma chacha20_core_at:
  assumes "8 \<le> length n"
  shows "chacha20_core (take 8 n @ store64_le ic) (take 32 k) = chacha20_block (chacha_at n ic k)"
proof -
  have "load32_le (take 8 n @ x) = load32_le n" "load32_le (drop 4 (take 8 n @ x)) = load32_le (drop 4 n)" for x
    using assms by (auto intro!: load32_le_cong simp: drop_take)
  moreover have "load32_le (store64_le ic) = ucast ic" "load32_le (drop 4 (store64_le ic)) = ucast (drop_bit 32 ic)"
    using load_store32_le [of _ "[]"] by (simp_all add: store64_le_split)
  ultimately show ?thesis
    using assms by (simp add: chacha20_core_def chacha_ivsetup_def chacha_at_def)
qed

lemma chacha20_next_at: "chacha20_next (chacha_at n ic k) = chacha_at n (ic + 1) k"
proof -
  have u: "unat (ucast w :: u32) = unat w mod 2 ^ 32" for w :: u64
    by (simp add: unsigned_ucast_eq take_bit_eq_mod)
  have lo: "unat (ucast (ic + 1) :: u32) = (unat ic + 1) mod 2 ^ 32"
    by (simp add: u unat_word_ariths mod_mod_cancel)
  have "unat (drop_bit 32 w) = drop_bit 32 (unat w)" for w :: u64 by (rule unat_drop_bit_eq)
  then have d: "unat (drop_bit 32 w) = unat w div 2 ^ 32" for w :: u64 by (simp only: drop_bit_eq_div)
  have hi: "unat (ucast (drop_bit 32 (ic + 1)) :: u32) = (unat ic + 1) div 2 ^ 32 mod 2 ^ 32"
    using div_exp_mod_exp_eq [of "unat ic + 1" 32 32] by (simp only: u d) (simp add: unat_word_ariths)
  have lo': "(ucast ic :: u32) + 1 = ucast (ic + 1)"
    by (simp only: word_eq_iff_unsigned [where ?'a = nat] lo) (simp add: u unat_word_ariths mod_Suc_eq)
  have carry: "(x + 1) div m = (if (x + 1) mod m = 0 then x div m + 1 else x div m)" if "0 < m" for x m :: nat
    using that by (simp add: div_Suc)
  have "(ucast (drop_bit 32 (ic + 1)) :: u32) =
      (if (ucast (ic + 1) :: u32) = 0 then ucast (drop_bit 32 ic) + 1 else ucast (drop_bit 32 ic))"
  proof (cases "(unat ic + 1) mod 2 ^ 32 = 0")
    case True
    then have "unat (ucast (ic + 1) :: u32) = 0" unfolding lo .
    then have "(ucast (ic + 1) :: u32) = 0" using unat_eq_zero by blast
    moreover have "(ucast (drop_bit 32 (ic + 1)) :: u32) = ucast (drop_bit 32 ic) + 1"
      using True carry [of "2 ^ 32" "unat ic"]
      by (simp only: word_eq_iff_unsigned [where ?'a = nat] hi) (simp add: unat_word_ariths u d mod_Suc_eq)
    ultimately show ?thesis by simp
  next
    case False
    then have "unat (ucast (ic + 1) :: u32) \<noteq> 0" unfolding lo .
    then have "(ucast (ic + 1) :: u32) \<noteq> 0" by (metis unsigned_0)
    moreover have "(ucast (drop_bit 32 (ic + 1)) :: u32) = ucast (drop_bit 32 ic)"
      using False carry [of "2 ^ 32" "unat ic"]
      by (simp only: word_eq_iff_unsigned [where ?'a = nat] hi) (simp add: u d)
    ultimately show ?thesis by simp
  qed
  then show ?thesis
    by (simp add: chacha20_next_def chacha_at_def Let_def nth_append list_update_append lo')
qed

lemma chacha20_encrypt_loop_keystream:
  assumes "8 \<le> length n"
  shows "fst (chacha20_encrypt_loop (chacha_at n ic k) m) = xor_buf m (keystream chacha20_core n ic k (length m))"
proof (induction m arbitrary: ic rule: length_induct)
  case (1 m)
  have comm: "xor_buf a b = xor_buf b a" if "length a = length b" for a b
    using that by (induction a b rule: list_induct2) (simp_all add: xor.commute)
  let ?j = "chacha_at n ic k"
  consider "length m < 64" | "length m = 64" | "64 < length m" by linarith
  then show ?case
  proof cases
    assume l: "length m < 64"
    have "take (length m) (chacha20_body ?j (m @ replicate (64 - length m) 0)) =
        xor_buf (take (length m) (chacha20_block ?j)) m"
      using l by (simp add: chacha20_body_xor take_xor_buf)
    then show ?thesis
      using l comm [of m "take (length m) (chacha20_block ?j)"]
      by (subst chacha20_encrypt_loop.simps)
        (simp add: chacha20.keystream_short chacha20_core_at [OF assms])
  next
    assume l: "length m = 64"
    then show ?thesis
      using comm [of m "chacha20_block ?j"]
      by (subst chacha20_encrypt_loop.simps)
        (simp add: chacha20.keystream_short chacha20_core_at [OF assms] chacha20_body_xor)
  next
    assume l: "64 < length m"
    have "xor_buf m (keystream chacha20_core n ic k (length m)) =
        xor_buf (take 64 m @ drop 64 m) (chacha20_block ?j @ keystream chacha20_core n (ic + 1) k (length m - 64))"
      using l by (simp add: chacha20.keystream_64 chacha20_core_at [OF assms])
    also have "\<dots> = xor_buf (take 64 m) (chacha20_block ?j) @
        xor_buf (drop 64 m) (keystream chacha20_core n (ic + 1) k (length m - 64))"
      using l by (intro xor_buf_append) simp
    also have "xor_buf (take 64 m) (chacha20_block ?j) = chacha20_body ?j (take 64 m)"
      using l comm [of "take 64 m" "chacha20_block ?j"] by (simp add: chacha20_body_xor)
    finally show ?thesis
      using l "1.IH" [rule_format, of "drop 64 m" "ic + 1"]
      by (subst chacha20_encrypt_loop.simps) (simp add: chacha20_next_at split_beta Let_def)
  qed
qed

section \<open>The ciphers as keystreams\<close>

lemma chacha_ivsetup_at:
  "chacha_ivsetup (chacha_keysetup k) n None = chacha_at n 0 k"
  "chacha_ivsetup (chacha_keysetup k) n (Some (store32_le (ucast ic) @ store32_le (ucast (drop_bit 32 ic)))) =
    chacha_at n ic k"
  using load_store32_le [of _ "[]"] by (simp_all add: chacha_ivsetup_def chacha_at_def)

text \<open>The IETF variant starts with the first word of its nonce in the high half of the counter.\<close>

definition ietf_ic :: "bytes \<Rightarrow> u32 \<Rightarrow> u64" where
  "ietf_ic n ic = ucast ic OR push_bit 32 (ucast (load32_le n))"

lemma chacha_ietf_ivsetup_at:
  "chacha_ietf_ivsetup (chacha_keysetup k) n None = chacha_at (drop 4 n) (ietf_ic n 0) k"
  "chacha_ietf_ivsetup (chacha_keysetup k) n (Some (store32_le ic)) = chacha_at (drop 4 n) (ietf_ic n ic) k"
proof -
  have "ucast (ietf_ic n c) = c" for c
    by (rule bit_word_eqI) (simp add: ietf_ic_def bit_simps)
  moreover have "ucast (drop_bit 32 (ietf_ic n c)) = load32_le n" for c
    by (rule bit_word_eqI) (auto simp: ietf_ic_def bit_simps dest: bit_imp_le_length)
  ultimately show
    "chacha_ietf_ivsetup (chacha_keysetup k) n None = chacha_at (drop 4 n) (ietf_ic n 0) k"
    "chacha_ietf_ivsetup (chacha_keysetup k) n (Some (store32_le ic)) = chacha_at (drop 4 n) (ietf_ic n ic) k"
    using load_store32_le [of _ "[]"] by (simp_all add: chacha_ietf_ivsetup_def chacha_at_def)
qed

lemma chacha20_encrypt_bytes_keystream:
  "8 \<le> length n \<Longrightarrow>
   fst (chacha20_encrypt_bytes (chacha_at n ic k) m) = xor_buf m (keystream chacha20_core n ic k (length m))"
  using chacha20_encrypt_loop_keystream [of n ic k m]
  by (simp add: chacha20_encrypt_bytes_def split_beta Let_def)

lemma keystream_0 [simp]: "keystream core n ic k 0 = []"
  by (simp add: keystream_def)

lemma chacha_xor_ic_keystream:
  "8 \<le> length n \<Longrightarrow>
   chacha_stream_ref_xor_ic m n ic k = xor_buf m (keystream chacha20_core n ic k (length m))"
  by (simp add: chacha_stream_ref_xor_ic_def Let_def chacha_ivsetup_at chacha20_encrypt_bytes_keystream)

lemma chacha_stream_keystream:
  "8 \<le> length n \<Longrightarrow> chacha_stream_ref clen n k = keystream chacha20_core n 0 k clen"
  using chacha20.length_keystream [of n 0 k clen]
  by (auto simp: chacha_stream_ref_def chacha_ivsetup_at chacha20_encrypt_bytes_keystream xor_buf_zeros)

lemma chacha_ietf_xor_ic_keystream:
  "12 \<le> length n \<Longrightarrow> chacha_stream_ietf_ext_ref_xor_ic m n ic k =
    xor_buf m (keystream chacha20_core (drop 4 n) (ietf_ic n ic) k (length m))"
  by (simp add: chacha_stream_ietf_ext_ref_xor_ic_def chacha_ietf_ivsetup_at chacha20_encrypt_bytes_keystream)

lemma chacha_ietf_stream_keystream:
  "12 \<le> length n \<Longrightarrow>
   chacha_stream_ietf_ext_ref clen n k = keystream chacha20_core (drop 4 n) (ietf_ic n 0) k clen"
  using chacha20.length_keystream [of "drop 4 n" "ietf_ic n 0" k clen]
  by (auto simp: chacha_stream_ietf_ext_ref_def chacha_ietf_ivsetup_at chacha20_encrypt_bytes_keystream xor_buf_zeros)

lemma length_chacha_stream [simp]:
  "8 \<le> length n \<Longrightarrow> length (chacha_stream_ref clen n k) = clen"
  "8 \<le> length n \<Longrightarrow> length (chacha_stream_ref_xor_ic m n ic k) = length m"
  "12 \<le> length n \<Longrightarrow> length (chacha_stream_ietf_ext_ref clen n k) = clen"
  "12 \<le> length n \<Longrightarrow> length (chacha_stream_ietf_ext_ref_xor_ic m n c k) = length m"
  by (simp_all add: chacha_stream_keystream chacha_xor_ic_keystream chacha_ietf_stream_keystream
      chacha_ietf_xor_ic_keystream)

text \<open>Below the end of the 32-bit counter, adding blocks does not touch the nonce word.\<close>

lemma ietf_ic_add:
  assumes "unat ic + j < 2 ^ 32"
  shows "ietf_ic n ic + of_nat j = ietf_ic n (ic + of_nat j)"
proof -
  have plus: "ietf_ic n c = push_bit 32 (ucast (load32_le n)) + ucast c" for c
  proof -
    have "i < 32" if "bit c i" for i using bit_imp_le_length [OF that] by simp
    then have "push_bit 32 (ucast (load32_le n)) AND (ucast c :: u64) = 0"
      by (intro bit_word_eqI) (auto simp: bit_simps not_le)
    then show ?thesis unfolding ietf_ic_def by (subst disjunctive_add_eq_or) (simp_all add: or.commute)
  qed
  have "unat (ic + of_nat j) = unat ic + j"
    using assms by (simp add: unat_word_ariths unat_of_nat mod_add_right_eq)
  then have "(ucast (ic + of_nat j) :: u64) = ucast ic + of_nat j"
    using assms by (simp add: word_eq_iff_unsigned [where ?'a = nat] unat_ucast_32_64 unat_word_ariths unat_of_nat
        mod_add_right_eq)
  then show ?thesis unfolding plus by simp
qed

section \<open>Properties\<close>

text \<open>The guard of the IETF variant, for lengths below its limit.\<close>

lemma chacha_ietf_guard:
  assumes "len \<le> 64 * 2 ^ 32"
  shows "(64 * 0x100000000) div 64 - (of_nat len + 63) div 64 < (ucast ic :: u64) \<longleftrightarrow>
    2 ^ 32 < unat (ic :: u32) + (len + 63) div 64"
proof -
  have l: "unat (of_nat len :: u64) = len" using assms by (simp add: unat_of_nat)
  then have l63: "unat ((of_nat len :: u64) + 63) = len + 63" using assms by (simp add: unat_word_ariths)
  have q: "unat ((of_nat len + 63) div 64 :: u64) = (len + 63) div 64"
    by (simp only: unat_div_distrib l63) simp
  have c: "(64 * 0x100000000) div 64 = (0x100000000 :: u64)" by simp
  have "(len + 63) div 64 \<le> 0x100000000" using assms by simp
  then have "unat ((64 * 0x100000000) div 64 - (of_nat len + 63) div 64 :: u64) = 0x100000000 - (len + 63) div 64"
    unfolding c by (subst unat_sub) (simp_all only: word_le_nat_alt q, simp_all)
  moreover have "unat (ucast ic :: u64) = unat ic" by (rule unat_ucast_32_64)
  ultimately show ?thesis
    using \<open>(len + 63) div 64 \<le> 0x100000000\<close> by (simp only: word_less_nat_alt) auto
qed

text \<open>
  The IETF cipher may be run in pieces: while the block counter stays below 2^32, the
  ciphertext of two pieces, the second at the counter of its first block, is the ciphertext of the
  whole, and no call aborts.  The carry of the counter word into the nonce word, which
  \<open>chacha20_encrypt_bytes\<close> performs for the sake of the other variant, never happens.
\<close>

theorem chacha20_ietf_seek:
  assumes "12 \<le> length n" "length a = 64 * j" "unat ic + j + (length b + 63) div 64 < 2 ^ 32"
  shows "\<exists>ca cb. crypto_stream_chacha20_ietf_xor_ic a n ic k = Inr ca \<and>
    crypto_stream_chacha20_ietf_xor_ic b n (ic + of_nat j) k = Inr cb \<and>
    crypto_stream_chacha20_ietf_xor_ic (a @ b) n ic k = Inr (ca @ cb) \<and>
    crypto_stream_chacha20_ietf_xor_ic (ca @ cb) n ic k = Inr (a @ b)"
proof -
  let ?x = "\<lambda>m c. xor_buf m (keystream chacha20_core (drop 4 n) (ietf_ic n c) k (length m))"
  have eq: "crypto_stream_chacha20_ietf_xor_ic m n c k = Inr (?x m c)"
    if "unat c + (length m + 63) div 64 < 2 ^ 32" for m c
  proof -
    have len: "length m \<le> 64 * 2 ^ 32" using that by simp
    then show ?thesis
      using that chacha_ietf_guard [OF len, of c] assms(1)
      by (simp add: crypto_stream_chacha20_ietf_xor_ic_def crypto_stream_chacha20_ietf_ext_xor_ic_def
          crypto_stream_chacha20_MESSAGEBYTES_MAX_def chacha_ietf_xor_ic_keystream)
  qed
  have ab: "(64 * j + length b + 63) div 64 = j + (length b + 63) div 64" by (simp add: add.assoc)
  have ic: "unat (ic + of_nat j) = unat ic + j"
    using assms(3) by (simp add: unat_word_ariths unat_of_nat mod_add_right_eq)
  have "?x (a @ b) ic = ?x a ic @ ?x b (ic + of_nat j)"
    using chacha20.keystream_add [of "drop 4 n" "ietf_ic n ic" k j "length b"] assms(2,3)
      ietf_ic_add [of ic j n] by (simp add: xor_buf_append)
  moreover have "?x (?x (a @ b) ic) ic = a @ b" by (simp add: xor_buf_cancel)
  moreover have "length (?x a ic @ ?x b (ic + of_nat j)) = length (a @ b)" by simp
  ultimately show ?thesis
    using eq [of ic a] eq [of "ic + of_nat j" b] eq [of ic "a @ b"] eq [of ic "?x (a @ b) ic"] assms(2,3) ic ab
    by (simp only: length_append) auto
qed

lemma chacha20_ietf_seek_witness:
  "\<exists>ca cb. crypto_stream_chacha20_ietf_xor_ic (replicate 64 1) (replicate 12 2) 5 (replicate 32 3) = Inr ca \<and>
    crypto_stream_chacha20_ietf_xor_ic [4, 5] (replicate 12 2) 6 (replicate 32 3) = Inr cb \<and>
    crypto_stream_chacha20_ietf_xor_ic (replicate 64 1 @ [4, 5]) (replicate 12 2) 5 (replicate 32 3) = Inr (ca @ cb)"
  using chacha20_ietf_seek [of "replicate 12 2" "replicate 64 1" 1 5 "[4, 5]" "replicate 32 3"]
  by auto

text \<open>Bytes drawn from a seed are a prefix of those drawn with a larger length.\<close>

lemma randombytes_deterministic_prefix:
  assumes "l \<le> len" "len \<le> 0x4000000000"
  shows "\<exists>r. randombytes_buf_deterministic len seed = Inr r \<and> length r = len \<and>
    randombytes_buf_deterministic l seed = Inr (take l r)"
  using assms
  by (simp add: randombytes_buf_deterministic_def crypto_stream_chacha20_ietf_def
      crypto_stream_chacha20_ietf_ext_def crypto_stream_chacha20_MESSAGEBYTES_MAX_def
      crypto_stream_chacha20_ietf_MESSAGEBYTES_MAX_def chacha_ietf_stream_keystream chacha20.keystream_prefix)

end
