(* ===== verification/MFCrypto.thy ===== *)
theory MFCrypto
  imports Box ChaCha Sha256
begin

text \<open>
  \<open>mfcrypto/mfcrypto.c\<close>: the messenger's keys and the wrappers of libsodium it uses everywhere else.
  Ed25519 is a parameter, the record \<open>signer\<close>; \<open>sign_correct\<close> says of one key pair what its
  documentation promises; the theory \<open>Ed25519\<close> has the instance \<open>ed25519_signer\<close>.  Bytes drawn with \<open>randombytes_buf\<close> are arguments.
\<close>

section \<open>Keys\<close>

record MFCRYPTO_PUBLIC_KEY =
  pk_Enc :: bytes
  pk_Sign :: bytes

record MFCRYPTO_SECRET_KEY =
  sk_Enc :: bytes
  sk_Sign :: bytes

text \<open>The Ed25519 functions: key pair \<open>(pk, sk)\<close> from a seed, detached signature, verification.\<close>

record signer =
  sg_seed_keypair :: "bytes \<Rightarrow> bytes \<times> bytes"
  sg_sign_detached :: "bytes \<Rightarrow> bytes \<Rightarrow> bytes result"
  sg_verify_detached :: "bytes \<Rightarrow> bytes \<Rightarrow> bytes \<Rightarrow> i32"

text \<open>
  Both return values of \<open>MFCrypto_KeyGen\<close> are ignored by the code; when the multiplication by the
  base point fails there is no key.  The first random bytes are the box secret key, the second
  the seed of \<open>crypto_sign_keypair\<close>.
\<close>

definition MFCrypto_KeyGen ::
    "curve \<Rightarrow> signer \<Rightarrow> bytes \<Rightarrow> bytes \<Rightarrow> (MFCRYPTO_PUBLIC_KEY \<times> MFCRYPTO_SECRET_KEY) result" where
  "MFCrypto_KeyGen C G rnd1 rnd2 =
     rbind (crypto_box_keypair C rnd1) (\<lambda>(pke, ske).
       let (pks, sks) = sg_seed_keypair G (take 32 rnd2)
       in Inr (\<lparr>pk_Enc = pke, pk_Sign = pks\<rparr>, \<lparr>sk_Enc = ske, sk_Sign = sks\<rparr>))"

definition MFCrypto_KeyGenSeed ::
    "curve \<Rightarrow> signer \<Rightarrow> crypto_hash_sha512_state \<Rightarrow> bytes \<Rightarrow> (MFCRYPTO_PUBLIC_KEY \<times> MFCRYPTO_SECRET_KEY) result" where
  "MFCrypto_KeyGenSeed C G local Seed =
     rbind (crypto_box_seed_keypair C local Seed) (\<lambda>(pke, ske).
       let (pks, sks) = sg_seed_keypair G (take 32 Seed)
       in Inr (\<lparr>pk_Enc = pke, pk_Sign = pks\<rparr>, \<lparr>sk_Enc = ske, sk_Sign = sks\<rparr>))"

section \<open>Encryption and signatures\<close>

text \<open>\<open>assert(ret == 0)\<close>: any failure ends the process.\<close>

definition assert_ok :: "'a result \<Rightarrow> 'a result" where
  "assert_ok r = (case r of Inl Undef \<Rightarrow> Inl Undef | Inl _ \<Rightarrow> Inl Abort | Inr x \<Rightarrow> Inr x)"

text \<open>The ciphertext begins in the header \<open>Ct\<close> and runs on behind it, 48 bytes and the message.\<close>

definition MFCrypto_Encrypt :: "curve \<Rightarrow> bytes \<Rightarrow> MFCRYPTO_PUBLIC_KEY \<Rightarrow> bytes \<Rightarrow> bytes result" where
  "MFCrypto_Encrypt C rnd PK Pt = assert_ok (crypto_box_seal C rnd Pt (pk_Enc PK))"

definition MFCrypto_Decrypt ::
    "curve \<Rightarrow> MFCRYPTO_PUBLIC_KEY \<Rightarrow> MFCRYPTO_SECRET_KEY \<Rightarrow> bytes \<Rightarrow> bytes result" where
  "MFCrypto_Decrypt C PK SK Ct = crypto_box_seal_open C Ct (pk_Enc PK) (sk_Enc SK)"

definition MFCrypto_Sign :: "signer \<Rightarrow> MFCRYPTO_SECRET_KEY \<Rightarrow> bytes \<Rightarrow> bytes result" where
  "MFCrypto_Sign G SK Buffer = assert_ok (sg_sign_detached G (sk_Sign SK) Buffer)"

definition MFCrypto_Verify :: "signer \<Rightarrow> MFCRYPTO_PUBLIC_KEY \<Rightarrow> bytes \<Rightarrow> bytes \<Rightarrow> i32" where
  "MFCrypto_Verify G PK Signature Buffer = sg_verify_detached G (pk_Sign PK) Signature Buffer"

section \<open>Symmetric encryption\<close>

definition MFCrypto_SymKeyGen :: "bytes \<Rightarrow> bytes" where
  "MFCrypto_SymKeyGen rnd = take 32 rnd"

definition MFCrypto_SymKeyGenSeed :: "bytes \<Rightarrow> bytes result" where
  "MFCrypto_SymKeyGenSeed Seed = randombytes_buf_deterministic 32 Seed"

text \<open>The header \<open>MFCRYPTO_SYMENC_HEADER\<close> is the nonce and the tag; the ciphertext follows.\<close>

definition MFCrypto_SymEncrypt :: "bytes \<Rightarrow> bytes \<Rightarrow> bytes \<Rightarrow> bytes result" where
  "MFCrypto_SymEncrypt rnd Key Buffer =
     (let Nonce = take 24 rnd
      in map_sum id (\<lambda>c. Nonce @ c) (crypto_secretbox_easy Buffer Nonce Key))"

text \<open>
  \<open>Length - sizeof(Buffer->Nonce)\<close> is computed in \<open>size_t\<close>: below 24 it wraps, and the box is read
  far behind the buffer.
\<close>

definition MFCrypto_SymDecrypt :: "bytes \<Rightarrow> bytes \<Rightarrow> bytes result" where
  "MFCrypto_SymDecrypt Key Buffer =
     (let clen = of_nat (length Buffer) - 24 :: u64
      in require (24 + unat clen \<le> length Buffer) Undef
           (crypto_secretbox_open_easy (take (unat clen) (drop 24 Buffer)) (take 24 Buffer) Key))"

section \<open>Hash and random bytes\<close>

text \<open>
  \<open>memset(Digest, 0, sizeof(Digest))\<close> clears as many bytes as a pointer has, eight, of the digest;
  the hash then overwrites all 32.
\<close>

definition MFCrypto_Hash :: "crypto_hash_sha256_state \<Rightarrow> bytes \<Rightarrow> bytes \<Rightarrow> bytes" where
  "MFCrypto_Hash local Buffer Digest =
     (let Digest = write_at Digest 0 (replicate 8 0)
      in write_at Digest 0 (crypto_hash_sha256 local Buffer))"

definition MFCrypto_RandomBuffer :: "bytes \<Rightarrow> nat \<Rightarrow> bytes" where
  "MFCrypto_RandomBuffer rnd Length = take Length rnd"

section \<open>Facts\<close>

lemma assert_ok_simps [simp]: "assert_ok (Inr x) = Inr x"
  by (simp add: assert_ok_def)

lemma assert_ok_Inr [simp]: "assert_ok r = Inr x \<longleftrightarrow> r = Inr x"
  by (auto simp: assert_ok_def split: sum.splits fault.splits)

text \<open>
  A pair of long-term keys works with the ephemeral pair drawn from \<open>rnd\<close>: the hypothesis under
  which a sealed message opens.
\<close>

definition seals_to :: "curve \<Rightarrow> bytes \<Rightarrow> MFCRYPTO_PUBLIC_KEY \<Rightarrow> MFCRYPTO_SECRET_KEY \<Rightarrow> bool" where
  "seals_to C rnd PK SK \<longleftrightarrow> seal_ok C rnd (pk_Enc PK) (sk_Enc SK)"

lemma MFCrypto_Encrypt_Decrypt:
  assumes "seals_to C rnd PK SK" "length Pt \<le> crypto_secretbox_MESSAGEBYTES_MAX"
  shows "\<exists>Ct. MFCrypto_Encrypt C rnd PK Pt = Inr Ct \<and> length Ct = length Pt + 48 \<and>
    MFCrypto_Decrypt C PK SK Ct = Inr Pt"
  using seal_roundtrip [of C rnd "pk_Enc PK" "sk_Enc SK" Pt] assms
  by (auto simp: seals_to_def MFCrypto_Encrypt_def MFCrypto_Decrypt_def secretbox_fits_def)

text \<open>An accepted ciphertext opens to one message only, which determines it under its first 32 bytes.\<close>

lemma MFCrypto_Decrypt_inject:
  assumes "MFCrypto_Decrypt C PK SK a = Inr Pt" "MFCrypto_Decrypt C PK SK b = Inr Pt"
    "take 32 a = take 32 b" "length Pt \<le> crypto_secretbox_MESSAGEBYTES_MAX"
  shows "a = b"
proof -
  have fits: "secretbox_fits (length Pt)" using assms(4) by (simp add: secretbox_fits_def)
  have n: "seal_nonce a (pk_Enc PK) = seal_nonce b (pk_Enc PK)"
    using assms(3) by (simp add: seal_nonce_def)
  obtain k where k: "crypto_box_beforenm C (take 32 a) (sk_Enc SK) = Inr k"
    "crypto_secretbox_easy Pt (seal_nonce a (pk_Enc PK)) k = Inr (drop 32 a)"
    using seal_open_sound [of C a "pk_Enc PK" "sk_Enc SK" Pt] assms(1) fits
    by (auto simp: MFCrypto_Decrypt_def)
  obtain k' where k': "crypto_box_beforenm C (take 32 b) (sk_Enc SK) = Inr k'"
    "crypto_secretbox_easy Pt (seal_nonce b (pk_Enc PK)) k' = Inr (drop 32 b)"
    using seal_open_sound [of C b "pk_Enc PK" "sk_Enc SK" Pt] assms(2) fits
    by (auto simp: MFCrypto_Decrypt_def)
  have "drop 32 a = drop 32 b" using k k' n assms(3) by simp
  then show ?thesis using assms(3) by (metis append_take_drop_id)
qed

text \<open>What the documentation of Ed25519 promises of a key pair.\<close>

definition sign_correct :: "signer \<Rightarrow> MFCRYPTO_PUBLIC_KEY \<Rightarrow> MFCRYPTO_SECRET_KEY \<Rightarrow> bool" where
  "sign_correct G PK SK \<longleftrightarrow>
     (\<forall>m. \<exists>s. sg_sign_detached G (sk_Sign SK) m = Inr s \<and> length s = 64 \<and>
        sg_verify_detached G (pk_Sign PK) s m = 0)"

lemma MFCrypto_Sign_Verify:
  "sign_correct G PK SK \<Longrightarrow>
   \<exists>s. MFCrypto_Sign G SK m = Inr s \<and> length s = 64 \<and> MFCrypto_Verify G PK s m = 0"
  by (simp add: sign_correct_def MFCrypto_Sign_def MFCrypto_Verify_def)

lemma MFCrypto_Hash_eq:
  "length (sha256_buf local) = 64 \<Longrightarrow> length Digest = 32 \<Longrightarrow> MFCrypto_Hash local m Digest = sha256_digest m"
  by (simp add: MFCrypto_Hash_def crypto_hash_sha256_digest write_at_def Let_def)

lemma MFCrypto_SymDecrypt_eq:
  assumes "24 \<le> length b" "length b < 2 ^ 64"
  shows "MFCrypto_SymDecrypt Key b = crypto_secretbox_open_easy (drop 24 b) (take 24 b) Key"
proof -
  have l: "unat (of_nat (length b) :: u64) = length b" using assms(2) by (simp add: unat_of_nat)
  have "unat (of_nat (length b) - 24 :: u64) = length b - 24"
    using assms(1) l by (subst unat_sub) (simp_all add: word_le_nat_alt)
  then show ?thesis using assms(1) by (simp add: MFCrypto_SymDecrypt_def Let_def)
qed

lemma MFCrypto_SymDecrypt_short:
  assumes "length b < 24"
  shows "MFCrypto_SymDecrypt Key b = Inl Undef"
proof -
  have l: "unat (of_nat (length b) :: u64) = length b" using assms by (simp add: unat_of_nat)
  have "unat (of_nat (length b) - 24 :: u64) = 2 ^ 64 + length b - 24"
    using assms l by (simp add: unat_sub_if' )
  then show ?thesis using assms by (simp add: MFCrypto_SymDecrypt_def Let_def)
qed

section \<open>Properties\<close>

text \<open>
  C37: A symmetric key opens what it encrypted, under any nonce, and nothing but what it encrypted:
  an accepted buffer is the one \<open>MFCrypto_SymEncrypt\<close> makes of the message when its nonce is drawn.
\<close>

theorem MFCrypto_Sym_roundtrip:
  assumes "length rnd = 24" "length Pt + 40 < 2 ^ 64"
  shows "(\<exists>Ct. MFCrypto_SymEncrypt rnd Key Pt = Inr Ct \<and> length Ct = length Pt + 40 \<and>
      MFCrypto_SymDecrypt Key Ct = Inr Pt) \<and>
    (\<forall>Ct. length Ct < 2 ^ 64 \<and> take 24 Ct = rnd \<and> MFCrypto_SymDecrypt Key Ct = Inr Pt \<longrightarrow>
      MFCrypto_SymEncrypt rnd Key Pt = Inr Ct)"
proof -
  have ok: "24 \<le> length rnd" using assms(1) by simp
  have fits: "secretbox_fits (length Pt)"
    using assms(2) by (simp add: secretbox_fits_def crypto_secretbox_MESSAGEBYTES_MAX_def)
  obtain c where c: "crypto_secretbox_easy Pt rnd Key = Inr c" "length c = length Pt + 16"
    using secretbox.enc_length [OF ok fits] by blast
  have "crypto_secretbox_open_easy c rnd Key = Inr Pt" by (rule secretbox.dec_enc [OF ok fits c(1)])
  then have 1: "MFCrypto_SymEncrypt rnd Key Pt = Inr (rnd @ c)" "length (rnd @ c) = length Pt + 40"
    "MFCrypto_SymDecrypt Key (rnd @ c) = Inr Pt"
    using assms c by (simp_all add: MFCrypto_SymEncrypt_def MFCrypto_SymDecrypt_eq)
  have "MFCrypto_SymEncrypt rnd Key Pt = Inr Ct"
    if l: "length Ct < 2 ^ 64" and t: "take 24 Ct = rnd" and d: "MFCrypto_SymDecrypt Key Ct = Inr Pt" for Ct
  proof -
    have "24 \<le> length Ct" using d MFCrypto_SymDecrypt_short [of Ct Key] by (cases "24 \<le> length Ct") simp_all
    then have "crypto_secretbox_open_easy (drop 24 Ct) rnd Key = Inr Pt"
      using l t d by (simp add: MFCrypto_SymDecrypt_eq)
    then have "crypto_secretbox_easy Pt rnd Key = Inr (drop 24 Ct)"
      by (rule secretbox.dec_sound [OF ok _ fits])
    then show ?thesis using assms(1) t by (simp add: MFCrypto_SymEncrypt_def) (metis append_take_drop_id)
  qed
  then show ?thesis using 1 by blast
qed

lemma MFCrypto_Sym_roundtrip_witness:
  "\<exists>Ct. MFCrypto_SymEncrypt (replicate 24 7) (replicate 32 9) [1, 2, 3] = Inr Ct \<and>
    MFCrypto_SymDecrypt (replicate 32 9) Ct = Inr [1, 2, 3]"
  using MFCrypto_Sym_roundtrip [of "replicate 24 7" "[1, 2, 3]" "replicate 32 9"] by auto

text \<open>
  Decrypting a symmetric message has defined behaviour exactly when the buffer holds a nonce.
  With fewer than 24 bytes the length passed to the box wraps around and the box is read far
  outside the buffer, before the tag is ever checked.
\<close>

theorem MFCrypto_SymDecrypt_defined:
  assumes "length b < 2 ^ 64"
  shows "MFCrypto_SymDecrypt Key b \<noteq> Inl Undef \<longleftrightarrow> 24 \<le> length b"
proof (cases "24 \<le> length b")
  case True
  then show ?thesis
    using assms by (simp add: MFCrypto_SymDecrypt_eq secretbox_open_easy_eq)
next
  case False
  then show ?thesis by (simp add: MFCrypto_SymDecrypt_short)
qed

lemma MFCrypto_SymDecrypt_defined_witness: "MFCrypto_SymDecrypt (replicate 32 9) [1, 2, 3] = Inl Undef"
  using MFCrypto_SymDecrypt_defined [of "[1, 2, 3]" "replicate 32 9"] by simp

text \<open>
  Keys derived from a seed are a function of the seed alone: the box secret key is the first
  half of its SHA-512 digest, whatever the hash state on the stack held before, and the symmetric
  key is defined and has 32 bytes.
\<close>

theorem MFCrypto_KeyGenSeed_deterministic:
  assumes "length Seed = 32" "length (sha512_buf local) = 128"
    "MFCrypto_KeyGenSeed C G local Seed = Inr (PK, SK)"
  shows "sk_Enc SK = take 32 (sha512_digest Seed) \<and>
    crypto_scalarmult_curve25519_base C (sk_Enc SK) = Inr (pk_Enc PK) \<and>
    (pk_Sign PK, sk_Sign SK) = sg_seed_keypair G Seed \<and>
    (\<exists>k. MFCrypto_SymKeyGenSeed Seed = Inr k \<and> length k = 32)"
proof -
  have h: "crypto_hash_sha512 local Seed = sha512_digest Seed"
    using assms(1,2) by (simp add: crypto_hash_sha512_digest)
  have r: "MFCrypto_KeyGenSeed C G local Seed =
      rbind (map_sum id (\<lambda>pk. (pk, take 32 (sha512_digest Seed)))
        (crypto_scalarmult_curve25519_base C (take 32 (sha512_digest Seed)))) (\<lambda>(pke, ske).
        Inr (\<lparr>pk_Enc = pke, pk_Sign = fst (sg_seed_keypair G Seed)\<rparr>,
             \<lparr>sk_Enc = ske, sk_Sign = snd (sg_seed_keypair G Seed)\<rparr>))"
    using assms(1) by (simp add: MFCrypto_KeyGenSeed_def crypto_box_seed_keypair_def h split_beta Let_def)
  obtain k where "randombytes_buf_deterministic 32 Seed = Inr k" "length k = 32"
    using randombytes_deterministic_prefix [of 32 32 Seed] by auto
  then show ?thesis
    using assms(3) unfolding r by (auto simp: rbind_Inr map_sum_Inr MFCrypto_SymKeyGenSeed_def)
qed

lemma MFCrypto_KeyGenSeed_deterministic_witness:
  "\<exists>PK SK. MFCrypto_KeyGenSeed sum_curve \<lparr>sg_seed_keypair = (\<lambda>s. (s, s)), sg_sign_detached = (\<lambda>k m. Inr m),
       sg_verify_detached = (\<lambda>p s m. 0)\<rparr>
     \<lparr>sha512_state = [], sha512_count0 = 1, sha512_count1 = 2, sha512_buf = replicate 128 3\<rparr> (replicate 32 4) =
       Inr (PK, SK) \<and> sk_Enc SK = take 32 (sha512_digest (replicate 32 4))"
proof -
  let ?G = "\<lparr>sg_seed_keypair = (\<lambda>s. (s, s)), sg_sign_detached = (\<lambda>k m. Inr m), sg_verify_detached = (\<lambda>p s m. 0)\<rparr>"
  let ?l = "\<lparr>sha512_state = [], sha512_count0 = 1, sha512_count1 = 2, sha512_buf = replicate 128 3\<rparr>"
  obtain PK SK where k: "MFCrypto_KeyGenSeed sum_curve ?G ?l (replicate 32 4) = Inr (PK, SK)"
    by (auto simp: MFCrypto_KeyGenSeed_def crypto_box_seed_keypair_def crypto_scalarmult_curve25519_base_def
        sum_curve_def Let_def)
  with MFCrypto_KeyGenSeed_deterministic [of "replicate 32 4" ?l sum_curve ?G PK SK] show ?thesis by auto
qed

text \<open>\<open>MFCrypto_Hash\<close> gives the SHA-256 digest of the buffer, whatever the digest held before.\<close>

theorem MFCrypto_Hash_digest:
  assumes "length (sha256_buf local) = 64" "length Digest = 32"
  shows "MFCrypto_Hash local Buffer Digest = sha256_digest Buffer"
  using assms by (rule MFCrypto_Hash_eq)

lemma MFCrypto_Hash_digest_witness:
  "MFCrypto_Hash \<lparr>sha256_state = [], sha256_count = 1, sha256_buf = replicate 64 5\<rparr> [1, 2] (replicate 32 6) =
    sha256_digest [1, 2]"
  by (rule MFCrypto_Hash_digest) simp_all

end
