(* ===== verification/RefCounting.thy ===== *)
theory RefCounting
  imports Prelude
begin

text \<open>
  The contract of a reference-counted resource, shared by the memory blocks of \<open>mfmemory.c\<close> and
  the connections of \<open>mfbroker.c\<close>.  \<open>count\<close> gives the number of references held, 0 for a
  resource that does not exist.  What the clients rely on: taking and dropping references within
  what the ledger allows never touches a dead resource, and leaves the counts the ledger says.
\<close>

datatype 'r rc_op = AddRef 'r | Release 'r

text \<open>
  The ledger: how many references are held after a sequence of operations; \<open>None\<close> when one of them
  uses a resource to which no reference is held, or exceeds the range of the counter.
\<close>

fun rc_ledger :: "nat \<Rightarrow> ('r \<Rightarrow> nat) \<Rightarrow> 'r rc_op list \<Rightarrow> ('r \<Rightarrow> nat) option" where
  "rc_ledger lim f [] = Some f"
| "rc_ledger lim f (AddRef r # ops) =
     (if 0 < f r \<and> Suc (f r) < lim then rc_ledger lim (f(r := Suc (f r))) ops else None)"
| "rc_ledger lim f (Release r # ops) =
     (if 0 < f r then rc_ledger lim (f(r := f r - 1)) ops else None)"

fun rc_run :: "('r \<Rightarrow> 'st \<Rightarrow> 'st result) \<Rightarrow> ('r \<Rightarrow> 'st \<Rightarrow> 'st result) \<Rightarrow> 'r rc_op list \<Rightarrow> 'st \<Rightarrow> 'st result" where
  "rc_run addref release [] st = Inr st"
| "rc_run addref release (AddRef r # ops) st = rbind (addref r st) (rc_run addref release ops)"
| "rc_run addref release (Release r # ops) st = rbind (release r st) (rc_run addref release ops)"

locale refcounted =
  fixes lim :: nat
    and inv :: "'st \<Rightarrow> bool"
    and count :: "'st \<Rightarrow> 'r \<Rightarrow> nat"
    and addref :: "'r \<Rightarrow> 'st \<Rightarrow> 'st result"
    and release :: "'r \<Rightarrow> 'st \<Rightarrow> 'st result"
  assumes addref: "inv st \<Longrightarrow> 0 < count st r \<Longrightarrow> Suc (count st r) < lim \<Longrightarrow>
      \<exists>st'. addref r st = Inr st' \<and> inv st' \<and> count st' = (count st)(r := Suc (count st r))"
    and release: "inv st \<Longrightarrow> 0 < count st r \<Longrightarrow>
      \<exists>st'. release r st = Inr st' \<and> inv st' \<and> count st' = (count st)(r := count st r - 1)"
begin

text \<open>No operation the ledger allows goes wrong.\<close>

lemma run_ledger:
  "inv st \<Longrightarrow> rc_ledger lim (count st) ops = Some f \<Longrightarrow>
   \<exists>st'. rc_run addref release ops st = Inr st' \<and> inv st' \<and> count st' = f"
proof (induction ops arbitrary: st)
  case (Cons op ops)
  show ?case
  proof (cases op)
    case (AddRef r)
    with Cons.prems addref [of st r] obtain st' where
      "addref r st = Inr st'" "inv st'" "count st' = (count st)(r := Suc (count st r))"
      by (auto split: if_splits)
    moreover from this Cons.prems AddRef have "rc_ledger lim (count st') ops = Some f"
      by (simp split: if_splits)
    ultimately show ?thesis using Cons.IH [of st'] AddRef by (simp del: fun_upd_apply)
  next
    case (Release r)
    with Cons.prems release [of st r] obtain st' where
      "release r st = Inr st'" "inv st'" "count st' = (count st)(r := count st r - 1)"
      by (auto split: if_splits)
    moreover from this Cons.prems Release have "rc_ledger lim (count st') ops = Some f"
      by (simp split: if_splits)
    ultimately show ?thesis using Cons.IH [of st'] Release by (simp del: fun_upd_apply)
  qed
qed auto

text \<open>References taken and given back leave the counts as they were.\<close>

lemma borrow:
  assumes "inv st" "0 < count st r" "Suc (count st r) < lim"
  shows "\<exists>st'. rc_run addref release [AddRef r, Release r] st = Inr st' \<and> inv st' \<and> count st' = count st"
  using run_ledger [of st "[AddRef r, Release r]" "count st"] assms by simp

end

lemma rc_ledger_append:
  "rc_ledger lim f (a @ b) = (case rc_ledger lim f a of None \<Rightarrow> None | Some g \<Rightarrow> rc_ledger lim g b)"
proof (induction a arbitrary: f)
  case (Cons op a)
  then show ?case by (cases op) (simp_all del: fun_upd_apply)
qed simp

lemma rc_run_append:
  "rc_run ad re (a @ b) st = rbind (rc_run ad re a st) (rc_run ad re b)"
  by (induction ad re a st rule: rc_run.induct) (auto simp: rbind_def split: sum.split)

text \<open>Operations on one resource only.\<close>

fun rc_target :: "'r rc_op \<Rightarrow> 'r" where
  "rc_target (AddRef r) = r"
| "rc_target (Release r) = r"

end
