(* ===== verification/Memory.thy ===== *)
theory Memory
  imports RefCounting
begin

text \<open>
  \<open>mfmemory/mfmemory.c\<close>: reference-counted memory blocks.  A block is what \<open>CoTaskMemAlloc\<close> gave:
  16 bytes that hold the counter, then the contents.  The heap maps the base address of a block to
  its counter and its contents, of any type \<open>'c\<close>; the pointer the callers hold is the base plus 16.
  The allocator of the system is a parameter: asked for a number of bytes it gives a base address
  or fails.
\<close>

record 'c block =
  RefCount :: i32
  Contents :: 'c

type_synonym 'c heap = "u64 \<Rightarrow> 'c block option"

type_synonym 'c allocator = "u64 \<Rightarrow> 'c heap \<Rightarrow> u64 option"

definition E_OUTOFMEMORY :: i32 where
  "E_OUTOFMEMORY = 0x8007000E"

text \<open>
  \<open>zero n\<close> is a content of \<open>n\<close> cleared bytes.  \<open>NumberOfBytes + 0x10\<close> is computed in \<open>size_t\<close>; when
  it wraps, the counter and the pointer handed out lie outside the block.
\<close>

definition MFGen_RefMemAlloc ::
    "'c allocator \<Rightarrow> (nat \<Rightarrow> 'c) \<Rightarrow> u64 \<Rightarrow> 'c heap \<Rightarrow> (i32 \<times> u64 option \<times> 'c heap) result" where
  "MFGen_RefMemAlloc os zero NumberOfBytes h =
     (let total = NumberOfBytes + 0x10
      in case os total h of
           None \<Rightarrow> Inr (E_OUTOFMEMORY, None, h)
         | Some base \<Rightarrow>
             require (0x10 \<le> total) Undef
               (Inr (0, Some (base + 0x10), h(base \<mapsto> \<lparr>RefCount = 1, Contents = zero (unat (total - 0x10))\<rparr>))))"

definition MFGen_RefMemAddRef :: "u64 \<Rightarrow> 'c heap \<Rightarrow> 'c heap result" where
  "MFGen_RefMemAddRef Buffer h =
     (case h (Buffer - 0x10) of
        None \<Rightarrow> Inl Undef
      | Some b \<Rightarrow> Inr (h(Buffer - 0x10 \<mapsto> b\<lparr>RefCount := RefCount b + 1\<rparr>)))"

definition MFGen_RefMemRelease :: "u64 \<Rightarrow> 'c heap \<Rightarrow> 'c heap result" where
  "MFGen_RefMemRelease Buffer h =
     (if Buffer = 0 then Inr h
      else
        case h (Buffer - 0x10) of
          None \<Rightarrow> Inl Undef
        | Some b \<Rightarrow>
            (let n = RefCount b - 1
             in if n = 0 then Inr (h(Buffer - 0x10 := None))
                else Inr (h(Buffer - 0x10 \<mapsto> b\<lparr>RefCount := n\<rparr>))))"

text \<open>Reading and writing the contents through the pointer.\<close>

definition mem_read :: "u64 \<Rightarrow> 'c heap \<Rightarrow> 'c result" where
  "mem_read Buffer h = (case h (Buffer - 0x10) of None \<Rightarrow> Inl Undef | Some b \<Rightarrow> Inr (Contents b))"

definition mem_write :: "u64 \<Rightarrow> 'c \<Rightarrow> 'c heap \<Rightarrow> 'c heap result" where
  "mem_write Buffer c h =
     (case h (Buffer - 0x10) of
        None \<Rightarrow> Inl Undef
      | Some b \<Rightarrow> Inr (h(Buffer - 0x10 \<mapsto> b\<lparr>Contents := c\<rparr>)))"

section \<open>Well-formed heaps\<close>

text \<open>
  No live block has the counter 0, and no block lies where its pointer would be null.  The system
  allocator gives addresses of no live block, not so high that the pointer would be null.
\<close>

definition heap_ok :: "'c heap \<Rightarrow> bool" where
  "heap_ok h \<longleftrightarrow> (\<forall>a b. h a = Some b \<longrightarrow> RefCount b \<noteq> 0 \<and> a + 0x10 \<noteq> 0)"

definition alloc_fresh :: "'c allocator \<Rightarrow> bool" where
  "alloc_fresh os \<longleftrightarrow> (\<forall>n h a. os n h = Some a \<longrightarrow> h a = None \<and> a + 0x10 \<noteq> 0)"

definition refs :: "'c heap \<Rightarrow> u64 \<Rightarrow> nat" where
  "refs h Buffer = (case h (Buffer - 0x10) of None \<Rightarrow> 0 | Some b \<Rightarrow> unat (RefCount b))"

lemma heap_okD: "heap_ok h \<Longrightarrow> h a = Some b \<Longrightarrow> RefCount b \<noteq> 0 \<and> a + 0x10 \<noteq> 0"
  by (auto simp: heap_ok_def)

lemma refs_pos: "0 < refs h p \<Longrightarrow> \<exists>b. h (p - 0x10) = Some b \<and> refs h p = unat (RefCount b)"
  by (auto simp: refs_def split: option.splits)

lemma refs_null: "heap_ok h \<Longrightarrow> refs h 0 = 0"
  by (auto simp: refs_def dest: heap_okD split: option.split)

lemma refs_alive: "heap_ok h \<Longrightarrow> 0 < refs h p \<longleftrightarrow> h (p - 0x10) \<noteq> None"
  by (auto simp: refs_def heap_ok_def unat_gt_0 split: option.split)

lemma refs_upd: "refs (h(p - 0x10 \<mapsto> b)) = (refs h)(p := unat (RefCount b))"
  by (auto simp: refs_def fun_eq_iff)

lemma refs_del: "refs (h(p - 0x10 := None)) = (refs h)(p := 0)"
  by (auto simp: refs_def fun_eq_iff)

lemma unat_plus_1: "unat (w :: 32 word) + 1 < 2 ^ 32 \<Longrightarrow> unat (w + 1) = unat w + 1"
  by (simp add: unat_word_ariths)

lemma unat_minus_1: "0 < unat (w :: 32 word) \<Longrightarrow> unat (w - 1) = unat w - 1"
  by (subst unat_sub) (simp_all add: word_le_nat_alt)

interpretation refmem: refcounted "2 ^ 32" heap_ok refs MFGen_RefMemAddRef MFGen_RefMemRelease
proof unfold_locales
  fix h :: "'c heap" and p
  assume h: "heap_ok h" and p: "0 < refs h p" and lim: "Suc (refs h p) < 2 ^ 32"
  obtain b where b: "h (p - 0x10) = Some b" "refs h p = unat (RefCount b)" using refs_pos [OF p] by blast
  have u: "unat (RefCount b + 1) = Suc (refs h p)" using lim b(2) by (simp add: unat_plus_1)
  then have "RefCount b + 1 \<noteq> 0" by auto
  then have "heap_ok (h(p - 0x10 \<mapsto> b\<lparr>RefCount := RefCount b + 1\<rparr>))"
    using h heap_okD [OF h b(1)] by (auto simp: heap_ok_def)
  then show "\<exists>h'. MFGen_RefMemAddRef p h = Inr h' \<and> heap_ok h' \<and> refs h' = (refs h)(p := Suc (refs h p))"
    using b(1) u by (auto simp: MFGen_RefMemAddRef_def refs_upd)
next
  fix h :: "'c heap" and p
  assume h: "heap_ok h" and p: "0 < refs h p"
  obtain b where b: "h (p - 0x10) = Some b" "refs h p = unat (RefCount b)" using refs_pos [OF p] by blast
  have nz: "p \<noteq> 0" using refs_null [OF h] p by auto
  have u: "unat (RefCount b - 1) = refs h p - 1" using p b(2) by (simp add: unat_minus_1)
  show "\<exists>h'. MFGen_RefMemRelease p h = Inr h' \<and> heap_ok h' \<and> refs h' = (refs h)(p := refs h p - 1)"
  proof (cases "RefCount b - 1 = 0")
    case True
    then have "refs h p - 1 = 0" using u by simp
    moreover have "heap_ok (h(p - 0x10 := None))" using h by (auto simp: heap_ok_def)
    ultimately show ?thesis using b(1) nz True by (auto simp: MFGen_RefMemRelease_def Let_def refs_del)
  next
    case False
    then have "heap_ok (h(p - 0x10 \<mapsto> b\<lparr>RefCount := RefCount b - 1\<rparr>))"
      using h heap_okD [OF h b(1)] by (auto simp: heap_ok_def)
    then show ?thesis using b(1) nz u False by (auto simp: MFGen_RefMemRelease_def Let_def refs_upd)
  qed
qed

text \<open>What an allocation does.\<close>

lemma RefMemAlloc_ok:
  assumes "alloc_fresh os" "heap_ok h" "unat n + 16 < 2 ^ 64" "os (n + 0x10) h = Some a"
  shows "\<exists>p h'. MFGen_RefMemAlloc os zero n h = Inr (0, Some p, h') \<and> p \<noteq> 0 \<and> refs h p = 0 \<and>
    heap_ok h' \<and> refs h' = (refs h)(p := 1) \<and> mem_read p h' = Inr (zero (unat n)) \<and>
    h' = h(p - 0x10 \<mapsto> \<lparr>RefCount = 1, Contents = zero (unat n)\<rparr>)"
proof -
  have f: "h a = None" "a + 0x10 \<noteq> 0" using assms(1,4) by (auto simp: alloc_fresh_def)
  have "unat (n + 0x10) = unat n + 16" using assms(3) by (simp add: unat_word_ariths)
  then have t: "0x10 \<le> n + 0x10" by (simp add: word_le_nat_alt)
  have r: "MFGen_RefMemAlloc os zero n h =
      Inr (0, Some (a + 0x10), h(a \<mapsto> \<lparr>RefCount = 1, Contents = zero (unat n)\<rparr>))"
    using assms(4) t by (simp add: MFGen_RefMemAlloc_def Let_def)
  show ?thesis
    using f assms(2) refs_upd [of h "a + 0x10"] unfolding r
    by (intro exI [of _ "a + 0x10"] exI conjI refl) (auto simp: refs_def mem_read_def heap_ok_def)
qed

lemma RefMemAlloc_fail:
  "os (n + 0x10) h = None \<Longrightarrow> MFGen_RefMemAlloc os zero n h = Inr (E_OUTOFMEMORY, None, h)"
  by (simp add: MFGen_RefMemAlloc_def Let_def)

text \<open>Operations on other blocks, and on the counter, leave the contents alone.\<close>

lemma rc_step_contents:
  "MFGen_RefMemAddRef r h = Inr h' \<Longrightarrow> h' a = Some b' \<Longrightarrow> \<exists>b. h a = Some b \<and> Contents b' = Contents b"
  "MFGen_RefMemRelease r h = Inr h' \<Longrightarrow> h' a = Some b' \<Longrightarrow> \<exists>b. h a = Some b \<and> Contents b' = Contents b"
  by (auto simp: MFGen_RefMemAddRef_def MFGen_RefMemRelease_def Let_def split: option.splits if_splits)

lemma rc_step_frame:
  "MFGen_RefMemAddRef r h = Inr h' \<Longrightarrow> r - 0x10 \<noteq> a \<Longrightarrow> h' a = h a"
  "MFGen_RefMemRelease r h = Inr h' \<Longrightarrow> r - 0x10 \<noteq> a \<Longrightarrow> h' a = h a"
  by (auto simp: MFGen_RefMemAddRef_def MFGen_RefMemRelease_def Let_def split: option.splits if_splits)

lemma rc_run_contents:
  "rc_run MFGen_RefMemAddRef MFGen_RefMemRelease ops h = Inr h' \<Longrightarrow> h' a = Some b' \<Longrightarrow>
   \<exists>b. h a = Some b \<and> Contents b' = Contents b"
proof (induction ops arbitrary: h)
  case (Cons op ops)
  obtain h1 where h1: "(case op of AddRef r \<Rightarrow> MFGen_RefMemAddRef r h | Release r \<Rightarrow> MFGen_RefMemRelease r h) = Inr h1"
    "rc_run MFGen_RefMemAddRef MFGen_RefMemRelease ops h1 = Inr h'"
    using Cons.prems(1) by (cases op) (auto simp: rbind_Inr)
  obtain b where b: "h1 a = Some b" "Contents b' = Contents b" using Cons.IH [OF h1(2) Cons.prems(2)] by blast
  show ?case using h1(1) rc_step_contents [of _ h h1 a b] b by (cases op) auto
qed simp

lemma rc_run_frame:
  "rc_run MFGen_RefMemAddRef MFGen_RefMemRelease ops h = Inr h' \<Longrightarrow>
   \<forall>op \<in> set ops. rc_target op - 0x10 \<noteq> a \<Longrightarrow> h' a = h a"
proof (induction ops arbitrary: h)
  case (Cons op ops)
  then show ?case by (cases op) (auto simp: rbind_Inr dest: rc_step_frame)
qed simp

section \<open>Properties\<close>

text \<open>
  C20: The life of a block.  A block that \<open>MFGen_RefMemAlloc\<close> gave out, and on which callers then
  take and drop references, never dropping one they do not hold, is alive with its contents
  untouched as long as a reference is left; when the last one is dropped it is freed, and the heap
  is what it was before the allocation.  No operation touches freed memory.
\<close>

theorem RefMem_lifetime:
  assumes "alloc_fresh os" "heap_ok h" "unat n + 16 < 2 ^ 64" "os (n + 0x10) h \<noteq> None"
  shows "\<exists>p h1. MFGen_RefMemAlloc os zero n h = Inr (0, Some p, h1) \<and>
    (\<forall>ops f. (\<forall>op \<in> set ops. rc_target op = p) \<and> rc_ledger (2 ^ 32) (refs h1) ops = Some f \<longrightarrow>
      (\<exists>h2. rc_run MFGen_RefMemAddRef MFGen_RefMemRelease ops h1 = Inr h2 \<and> heap_ok h2 \<and>
        (if f p = 0 then h2 = h
         else mem_read p h2 = Inr (zero (unat n)) \<and> refs h2 p = f p \<and> (\<forall>q. q \<noteq> p - 0x10 \<longrightarrow> h2 q = h q))))"
proof -
  from assms(4) obtain a where "os (n + 0x10) h = Some a" by auto
  from RefMemAlloc_ok [OF assms(1-3) this, of zero] obtain p h1 where
    al: "MFGen_RefMemAlloc os zero n h = Inr (0, Some p, h1)" "heap_ok h1" "refs h1 = (refs h)(p := 1)"
    "refs h p = 0" and h1: "h1 = h(p - 0x10 \<mapsto> \<lparr>RefCount = 1, Contents = zero (unat n)\<rparr>)" by blast
  have dead: "h (p - 0x10) = None" using refs_alive [OF assms(2), of p] al(4) by auto
  have "\<exists>h2. rc_run MFGen_RefMemAddRef MFGen_RefMemRelease ops h1 = Inr h2 \<and> heap_ok h2 \<and>
        (if f p = 0 then h2 = h
         else mem_read p h2 = Inr (zero (unat n)) \<and> refs h2 p = f p \<and> (\<forall>q. q \<noteq> p - 0x10 \<longrightarrow> h2 q = h q))"
    if ops: "\<forall>op \<in> set ops. rc_target op = p" and led: "rc_ledger (2 ^ 32) (refs h1) ops = Some f" for ops f
  proof -
    obtain h2 where h2: "rc_run MFGen_RefMemAddRef MFGen_RefMemRelease ops h1 = Inr h2" "heap_ok h2" "refs h2 = f"
      using refmem.run_ledger [OF al(2) led] by blast
    have frame: "h2 q = h q" if "q \<noteq> p - 0x10" for q
      using rc_run_frame [OF h2(1), of q] ops that h1 by auto
    show ?thesis
    proof (cases "f p = 0")
      case True
      then have "h2 (p - 0x10) = None" using refs_alive [OF h2(2), of p] h2(3) by auto
      then have "h2 = h" using frame dead by (metis ext)
      then show ?thesis using h2 True by auto
    next
      case False
      then obtain b where b: "h2 (p - 0x10) = Some b" using refs_pos [of h2 p] h2(3) by auto
      then have "Contents b = zero (unat n)" using rc_run_contents [OF h2(1) b] h1 by auto
      then show ?thesis using h2 False b frame by (auto simp: mem_read_def)
    qed
  qed
  then show ?thesis using al(1) by blast
qed

lemma RefMem_lifetime_witness:
  "\<exists>p h1 h2. MFGen_RefMemAlloc (\<lambda>n h. if h 0x1000 = None then Some 0x1000 else None) (\<lambda>n. replicate n (0 :: u8)) 5
      Map.empty = Inr (0, Some p, h1) \<and>
    rc_run MFGen_RefMemAddRef MFGen_RefMemRelease [AddRef p, Release p, Release p] h1 = Inr h2 \<and> h2 = Map.empty"
proof -
  let ?os = "\<lambda>n h. if h 0x1000 = None then Some 0x1000 else (None :: u64 option)"
  have fresh: "alloc_fresh ?os" by (auto simp: alloc_fresh_def)
  have ok: "heap_ok Map.empty" by (simp add: heap_ok_def)
  from RefMem_lifetime [OF fresh ok, of 5 "\<lambda>n. replicate n (0 :: u8)"] obtain p h1 where
    al: "MFGen_RefMemAlloc ?os (\<lambda>n. replicate n (0 :: u8)) 5 Map.empty = Inr (0, Some p, h1)" and
    run: "\<forall>ops f. (\<forall>op \<in> set ops. rc_target op = p) \<and> rc_ledger (2 ^ 32) (refs h1) ops = Some f \<longrightarrow>
      (\<exists>h2. rc_run MFGen_RefMemAddRef MFGen_RefMemRelease ops h1 = Inr h2 \<and> heap_ok h2 \<and>
        (if f p = 0 then h2 = Map.empty
         else mem_read p h2 = Inr (replicate (unat (5 :: u64)) 0) \<and> refs h2 p = f p \<and>
           (\<forall>q. q \<noteq> p - 0x10 \<longrightarrow> h2 q = Map.empty q)))"
    by auto
  have "refs h1 p = 1" using al by (auto simp: MFGen_RefMemAlloc_def Let_def refs_def)
  then have "rc_ledger (2 ^ 32) (refs h1) [AddRef p, Release p, Release p] = Some ((refs h1)(p := 0))" by simp
  with run [rule_format, of "[AddRef p, Release p, Release p]" "(refs h1)(p := 0)"] al show ?thesis by auto
qed

end
