(* ===== verification/Messages.thy ===== *)
theory Messages
  imports MFCrypto Memory
begin

text \<open>
  \<open>mfmessages/mfmessages.c\<close>: the message header, its encryption in two layers and its signature.
  A message is the record of the header followed by the bytes behind it (\<open>Payload\<close>);
  \<open>message_bytes\<close> is its image in memory, with the layout the compiler gives the structure (224
  bytes, no padding), and \<open>parse_message\<close> reads it back.  Where the code works on the raw bytes (it
  signs the image, seals the tail of the header in place, fills bytes with noise) the model goes
  through the image.
\<close>

section \<open>The header\<close>

definition MF_PROTOCOL_VERSION :: u16 where "MF_PROTOCOL_VERSION = 1"

definition MF_MESSAGE_SIGNED :: u16 where "MF_MESSAGE_SIGNED = 1"

definition MF_MESSAGE_HEADER_ENCRYPTED :: u16 where "MF_MESSAGE_HEADER_ENCRYPTED = 2"

definition MF_MESSAGE_DATA_ENCRYPTED :: u16 where "MF_MESSAGE_DATA_ENCRYPTED = 4"

definition MF_MESSAGE_DATA_COMPRESSED :: u16 where "MF_MESSAGE_DATA_COMPRESSED = 8"

record MF_MESSAGE_HEADER =
  MessageSize :: u32
  Version :: u16
  Flags :: u16
  MessageSignature :: bytes
  HeaderEncryption :: bytes
  MessageType :: u32
  DataSize :: u32
  PacketCounter :: u64
  Context :: u64
  Source :: bytes
  Dest :: bytes
  DataEncryption :: bytes

record MF_MESSAGE = MF_MESSAGE_HEADER +
  Payload :: bytes

definition sizeof_MF_MESSAGE_HEADER :: nat where
  "sizeof_MF_MESSAGE_HEADER = 224"

text \<open>The tail, behind \<open>HeaderEncryption\<close>, which the header encryption covers.\<close>

definition header_tail :: "MF_MESSAGE \<Rightarrow> bytes" where
  "header_tail m =
     store32_le (MessageType m) @ store32_le (DataSize m) @ store64_le (PacketCounter m) @
     store64_le (Context m) @ Source m @ Dest m @ DataEncryption m"

definition header_bytes :: "MF_MESSAGE \<Rightarrow> bytes" where
  "header_bytes m =
     store32_le (MessageSize m) @ store16_le (Version m) @ store16_le (Flags m) @
     MessageSignature m @ HeaderEncryption m @ header_tail m"

definition message_bytes :: "MF_MESSAGE \<Rightarrow> bytes" where
  "message_bytes m = header_bytes m @ Payload m"

definition set_header_tail :: "bytes \<Rightarrow> MF_MESSAGE \<Rightarrow> MF_MESSAGE" where
  "set_header_tail t m = m\<lparr>
     MessageType := load32_le t, DataSize := load32_le (drop 4 t), PacketCounter := load64_le (drop 8 t),
     Context := load64_le (drop 16 t), Source := take 16 (drop 24 t), Dest := take 16 (drop 40 t),
     DataEncryption := take 48 (drop 56 t)\<rparr>"

definition parse_message :: "bytes \<Rightarrow> MF_MESSAGE" where
  "parse_message b = set_header_tail (drop 120 b)
     \<lparr>MessageSize = load32_le b, Version = load16_le (drop 4 b), Flags = load16_le (drop 6 b),
      MessageSignature = take 64 (drop 8 b), HeaderEncryption = take 48 (drop 72 b),
      MessageType = 0, DataSize = 0, PacketCounter = 0, Context = 0, Source = [], Dest = [],
      DataEncryption = [], Payload = drop 224 b\<rparr>"

text \<open>The arrays of the structure have their sizes.\<close>

definition msg_ok :: "MF_MESSAGE \<Rightarrow> bool" where
  "msg_ok m \<longleftrightarrow> length (MessageSignature m) = 64 \<and> length (HeaderEncryption m) = 48 \<and>
     length (Source m) = 16 \<and> length (Dest m) = 16 \<and> length (DataEncryption m) = 48"

section \<open>Allocation\<close>

text \<open>
  \<open>totalSize\<close> and \<open>DataSize\<close> are 32-bit: the length is cut to 32 bits, but \<open>memcpy\<close> copies all of
  it.  The heap holds the images of the messages.
\<close>

definition MFMessage_Alloc ::
    "bytes allocator \<Rightarrow> u32 \<Rightarrow> bytes option \<Rightarrow> bytes option \<Rightarrow> bytes \<Rightarrow> bytes heap \<Rightarrow>
     (i32 \<times> u64 option \<times> bytes heap) result" where
  "MFMessage_Alloc os Type Src Dst Data h =
     (let totalSize = of_nat sizeof_MF_MESSAGE_HEADER + of_nat (length Data) :: u32
      in rbind (MFGen_RefMemAlloc os (\<lambda>n. replicate n 0) (ucast totalSize) h) (\<lambda>(ret, p, h).
           case p of
             None \<Rightarrow> Inr (ret, None, h)
           | Some tmpMsg \<Rightarrow>
               require (sizeof_MF_MESSAGE_HEADER + length Data \<le> unat totalSize) Undef
                 (let m = parse_message (replicate (unat totalSize) 0);
                      m = m\<lparr>Version := MF_PROTOCOL_VERSION, MessageSize := totalSize, MessageType := Type,
                            DataSize := of_nat (length Data), Payload := Data\<rparr>;
                      m = (case Src of None \<Rightarrow> m | Some g \<Rightarrow> m\<lparr>Source := g\<rparr>);
                      m = (case Dst of None \<Rightarrow> m | Some g \<Rightarrow> m\<lparr>Dest := g\<rparr>)
                  in rbind (mem_write tmpMsg (message_bytes m) h) (\<lambda>h. Inr (ret, Some tmpMsg, h)))))"

definition MFMessage_Free :: "u64 \<Rightarrow> bytes heap \<Rightarrow> bytes heap result" where
  "MFMessage_Free Msg h = MFGen_RefMemRelease Msg h"

section \<open>Encryption and signature\<close>

text \<open>
  The data are sealed in place: the header of the ciphertext goes to \<open>DataEncryption\<close>, the rest over
  the data.  Then \<open>remaining\<close> bytes of noise are written up to the end of the \<open>DataSize\<close> bytes of
  data (the code has \<open>Header->DataSize - remaining\<close>).  A start before the message is out of bounds.
\<close>

definition MFMessage_DataEncrypt ::
    "curve \<Rightarrow> bytes \<Rightarrow> bytes \<Rightarrow> MF_MESSAGE \<Rightarrow> MFCRYPTO_PUBLIC_KEY \<Rightarrow> MF_MESSAGE result" where
  "MFMessage_DataEncrypt C rnd noise m Key =
     require (Flags m AND MF_MESSAGE_DATA_ENCRYPTED = 0) Abort
     (require (Flags m AND MF_MESSAGE_HEADER_ENCRYPTED = 0) Abort
     (require (unat (DataSize m) \<le> length (Payload m)) Undef
     (rbind (MFCrypto_Encrypt C rnd Key (take (unat (DataSize m)) (Payload m))) (\<lambda>ct.
        let m = m\<lparr>DataEncryption := take 48 ct,
                  Payload := drop 48 ct @ drop (unat (DataSize m)) (Payload m)\<rparr>;
            remaining = ucast (MessageSize m) - of_nat sizeof_MF_MESSAGE_HEADER - ucast (DataSize m) :: u64;
            end = sizeof_MF_MESSAGE_HEADER + unat (DataSize m)
        in require (unat remaining \<le> end) Undef
             (let m = parse_message (write_at (message_bytes m) (end - unat remaining)
                        (MFCrypto_RandomBuffer noise (unat remaining)))
              in Inr (m\<lparr>Flags := (Flags m OR MF_MESSAGE_DATA_ENCRYPTED) AND NOT MF_MESSAGE_SIGNED\<rparr>))))))"

text \<open>The result is the returned status with the message as it is then.\<close>

definition MFMessage_DataDecrypt ::
    "curve \<Rightarrow> MF_MESSAGE \<Rightarrow> MFCRYPTO_PUBLIC_KEY \<Rightarrow> MFCRYPTO_SECRET_KEY \<Rightarrow> (i32 \<times> MF_MESSAGE) result" where
  "MFMessage_DataDecrypt C m PK SK =
     require (Flags m AND MF_MESSAGE_HEADER_ENCRYPTED = 0) Abort
     (require (Flags m AND MF_MESSAGE_DATA_ENCRYPTED \<noteq> 0) Abort
     (require (unat (DataSize m) \<le> length (Payload m)) Undef
     (case MFCrypto_Decrypt C PK SK (DataEncryption m @ take (unat (DataSize m)) (Payload m)) of
        Inl (Ret e) \<Rightarrow> Inr (e, m)
      | Inl e \<Rightarrow> Inl e
      | Inr pt \<Rightarrow>
          Inr (0, m\<lparr>Payload := pt @ drop (unat (DataSize m)) (Payload m),
                    Flags := (Flags m AND NOT MF_MESSAGE_DATA_ENCRYPTED) AND NOT MF_MESSAGE_SIGNED\<rparr>))))"

definition MFMessage_Sign :: "signer \<Rightarrow> MF_MESSAGE \<Rightarrow> MFCRYPTO_SECRET_KEY \<Rightarrow> MF_MESSAGE result" where
  "MFMessage_Sign G m SecretKey =
     (let m = m\<lparr>Flags := Flags m OR MF_MESSAGE_SIGNED, MessageSignature := replicate 64 0\<rparr>
      in require (unat (MessageSize m) \<le> length (message_bytes m)) Undef
           (rbind (MFCrypto_Sign G SecretKey (take (unat (MessageSize m)) (message_bytes m))) (\<lambda>s.
              Inr (m\<lparr>MessageSignature := s\<rparr>))))"

definition MFMessage_Verify :: "signer \<Rightarrow> MF_MESSAGE \<Rightarrow> MFCRYPTO_PUBLIC_KEY \<Rightarrow> (i32 \<times> MF_MESSAGE) result" where
  "MFMessage_Verify G m Key =
     require (Flags m AND MF_MESSAGE_SIGNED \<noteq> 0) Abort
     (let s = MessageSignature m;
          m = m\<lparr>MessageSignature := replicate 64 0\<rparr>
      in require (unat (MessageSize m) \<le> length (message_bytes m)) Undef
           (let ret = MFCrypto_Verify G Key s (take (unat (MessageSize m)) (message_bytes m))
            in Inr (ret, m\<lparr>MessageSignature := s\<rparr>)))"

definition MFMessage_HeaderEncrypt ::
    "curve \<Rightarrow> bytes \<Rightarrow> MF_MESSAGE \<Rightarrow> MFCRYPTO_PUBLIC_KEY \<Rightarrow> MF_MESSAGE result" where
  "MFMessage_HeaderEncrypt C rnd m Key =
     require (Flags m AND MF_MESSAGE_HEADER_ENCRYPTED = 0) Abort
     (rbind (MFCrypto_Encrypt C rnd Key (header_tail m)) (\<lambda>ct.
        let m = set_header_tail (drop 48 ct) (m\<lparr>HeaderEncryption := take 48 ct\<rparr>)
        in Inr (m\<lparr>Flags := (Flags m OR MF_MESSAGE_HEADER_ENCRYPTED) AND NOT MF_MESSAGE_SIGNED\<rparr>)))"

definition MFMessage_HeaderDecrypt ::
    "curve \<Rightarrow> MF_MESSAGE \<Rightarrow> MFCRYPTO_PUBLIC_KEY \<Rightarrow> MFCRYPTO_SECRET_KEY \<Rightarrow> (i32 \<times> MF_MESSAGE) result" where
  "MFMessage_HeaderDecrypt C m PK SK =
     require (Flags m AND MF_MESSAGE_HEADER_ENCRYPTED \<noteq> 0) Abort
     (case MFCrypto_Decrypt C PK SK (HeaderEncryption m @ header_tail m) of
        Inl (Ret e) \<Rightarrow> Inr (e, m)
      | Inl e \<Rightarrow> Inl e
      | Inr t \<Rightarrow>
          (let m = set_header_tail t m
           in Inr (0, m\<lparr>Flags := (Flags m AND NOT MF_MESSAGE_HEADER_ENCRYPTED) AND NOT MF_MESSAGE_SIGNED\<rparr>)))"

definition MFMessage_SetContext :: "MF_MESSAGE \<Rightarrow> u64 \<Rightarrow> MF_MESSAGE" where
  "MFMessage_SetContext m c = m\<lparr>Context := c\<rparr>"

definition MFMessage_SetCounter :: "MF_MESSAGE \<Rightarrow> u64 \<Rightarrow> MF_MESSAGE" where
  "MFMessage_SetCounter m c = m\<lparr>PacketCounter := c\<rparr>"

definition MFMessage_GetContext :: "MF_MESSAGE \<Rightarrow> u64" where
  "MFMessage_GetContext m = Context m"

definition MFMessage_GetCounter :: "MF_MESSAGE \<Rightarrow> u64" where
  "MFMessage_GetCounter m = PacketCounter m"

section \<open>The image of a message\<close>

lemma length_header_tail [simp]: "msg_ok m \<Longrightarrow> length (header_tail m) = 104"
  by (simp add: header_tail_def msg_ok_def)

lemma length_header_bytes [simp]: "msg_ok m \<Longrightarrow> length (header_bytes m) = 224"
  by (simp add: header_bytes_def) (simp add: msg_ok_def)

lemma length_message_bytes [simp]: "msg_ok m \<Longrightarrow> length (message_bytes m) = 224 + length (Payload m)"
  by (simp add: message_bytes_def)

lemma set_header_tail_bytes: "msg_ok m \<Longrightarrow> set_header_tail (header_tail m @ x) n = n\<lparr>
    MessageType := MessageType m, DataSize := DataSize m, PacketCounter := PacketCounter m,
    Context := Context m, Source := Source m, Dest := Dest m, DataEncryption := DataEncryption m\<rparr>"
  by (simp add: set_header_tail_def header_tail_def msg_ok_def)

lemma parse_message_bytes [simp]: "msg_ok m \<Longrightarrow> parse_message (message_bytes m) = m"
proof -
  assume ok: "msg_ok m"
  have d: "drop 120 (message_bytes m) = header_tail m @ Payload m"
    using ok by (simp add: message_bytes_def header_bytes_def msg_ok_def)
  have p: "drop 224 (message_bytes m) = Payload m"
    using ok by (simp add: message_bytes_def)
  show ?thesis
    unfolding parse_message_def d p set_header_tail_bytes [OF ok]
    using ok by (cases m) (simp add: message_bytes_def header_bytes_def msg_ok_def)
qed

lemma msg_ok_updates [simp]:
  "msg_ok (m\<lparr>MessageSize := a\<rparr>) = msg_ok m" "msg_ok (m\<lparr>Version := b\<rparr>) = msg_ok m"
  "msg_ok (m\<lparr>Flags := b\<rparr>) = msg_ok m" "msg_ok (m\<lparr>MessageType := a\<rparr>) = msg_ok m"
  "msg_ok (m\<lparr>DataSize := a\<rparr>) = msg_ok m" "msg_ok (m\<lparr>PacketCounter := c\<rparr>) = msg_ok m"
  "msg_ok (m\<lparr>Context := c\<rparr>) = msg_ok m" "msg_ok (m\<lparr>Payload := p\<rparr>) = msg_ok m"
  "length x = 64 \<Longrightarrow> msg_ok (m\<lparr>MessageSignature := x\<rparr>) = (msg_ok (m\<lparr>MessageSignature := replicate 64 0\<rparr>))"
  "msg_ok m \<Longrightarrow> length x = 64 \<Longrightarrow> msg_ok (m\<lparr>MessageSignature := x\<rparr>)"
  "msg_ok m \<Longrightarrow> length x = 48 \<Longrightarrow> msg_ok (m\<lparr>HeaderEncryption := x\<rparr>)"
  "msg_ok m \<Longrightarrow> length x = 48 \<Longrightarrow> msg_ok (m\<lparr>DataEncryption := x\<rparr>)"
  "msg_ok m \<Longrightarrow> length x = 16 \<Longrightarrow> msg_ok (m\<lparr>Source := x\<rparr>)"
  "msg_ok m \<Longrightarrow> length x = 16 \<Longrightarrow> msg_ok (m\<lparr>Dest := x\<rparr>)"
  by (auto simp: msg_ok_def)

lemma header_bytes_Payload [simp]: "header_bytes (m\<lparr>Payload := p\<rparr>) = header_bytes m"
  by (simp add: header_bytes_def header_tail_def)

text \<open>Writing behind the header is writing into the payload.\<close>

lemma parse_write_payload:
  assumes "msg_ok m"
  shows "parse_message (write_at (message_bytes m) (224 + i) x) = m\<lparr>Payload := write_at (Payload m) i x\<rparr>"
proof -
  have "write_at (message_bytes m) (224 + i) x = message_bytes (m\<lparr>Payload := write_at (Payload m) i x\<rparr>)"
    using assms by (simp add: write_at_def message_bytes_def add.assoc)
  then show ?thesis using assms by simp
qed

text \<open>Any tail of 104 bytes is the tail of a message.\<close>

lemma header_tail_set:
  assumes "length t = 104"
  shows "header_tail (set_header_tail t m) = t"
proof -
  have "t = take 4 t @ take 4 (drop 4 t) @ take 8 (drop 8 t) @ take 8 (drop 16 t) @ take 16 (drop 24 t) @
      take 16 (drop 40 t) @ take 48 (drop 56 t)"
    using assms append_take_drop_id [of 4 t] append_take_drop_id [of 4 "drop 4 t"]
      append_take_drop_id [of 8 "drop 8 t"] append_take_drop_id [of 8 "drop 16 t"]
      append_take_drop_id [of 16 "drop 24 t"] append_take_drop_id [of 16 "drop 40 t"] by simp
  moreover have "store32_le (load32_le t) = take 4 t" "store32_le (load32_le (drop 4 t)) = take 4 (drop 4 t)"
    using store_load32_le [of "take 4 t"] store_load32_le [of "take 4 (drop 4 t)"] assms
    by (simp_all add: load32_le_take)
  moreover have "load64_le (take 8 b) = load64_le b" for b by (simp add: load64_le_def)
  then have "store64_le (load64_le (drop 8 t)) = take 8 (drop 8 t)"
    "store64_le (load64_le (drop 16 t)) = take 8 (drop 16 t)"
    using store_load64_le [of "take 8 (drop 8 t)"] store_load64_le [of "take 8 (drop 16 t)"] assms by simp_all
  ultimately show ?thesis by (simp add: header_tail_def set_header_tail_def)
qed

lemma msg_ok_set_header_tail [simp]: "msg_ok m \<Longrightarrow> length t = 104 \<Longrightarrow> msg_ok (set_header_tail t m)"
  by (simp add: msg_ok_def set_header_tail_def)

section \<open>Flags\<close>

lemmas flag_defs = MF_MESSAGE_SIGNED_def MF_MESSAGE_HEADER_ENCRYPTED_def MF_MESSAGE_DATA_ENCRYPTED_def

lemma flag_bits:
  "F AND MF_MESSAGE_SIGNED = 0 \<longleftrightarrow> \<not> bit F 0"
  "F AND MF_MESSAGE_HEADER_ENCRYPTED = 0 \<longleftrightarrow> \<not> bit F 1"
  "F AND MF_MESSAGE_DATA_ENCRYPTED = 0 \<longleftrightarrow> \<not> bit F 2"
  using and_exp_eq_0_iff_not_bit [of F 0] and_exp_eq_0_iff_not_bit [of F 1] and_exp_eq_0_iff_not_bit [of F 2]
  by (simp_all add: flag_defs)

lemma bit_flag:
  "bit MF_MESSAGE_SIGNED i \<longleftrightarrow> i = 0" "bit MF_MESSAGE_HEADER_ENCRYPTED i \<longleftrightarrow> i = 1"
  "bit MF_MESSAGE_DATA_ENCRYPTED i \<longleftrightarrow> i = 2"
  using bit_exp_iff [of 0 i, where ?'a = u16] bit_exp_iff [of 1 i, where ?'a = u16]
    bit_exp_iff [of 2 i, where ?'a = u16]
  by (auto simp: flag_defs possible_bit_def)

lemma flags_undo:
  "F AND MF_MESSAGE_DATA_ENCRYPTED = 0 \<Longrightarrow>
   ((((F OR MF_MESSAGE_DATA_ENCRYPTED) AND NOT MF_MESSAGE_SIGNED) AND NOT MF_MESSAGE_DATA_ENCRYPTED)
     AND NOT MF_MESSAGE_SIGNED) = F AND NOT MF_MESSAGE_SIGNED"
  "F AND MF_MESSAGE_HEADER_ENCRYPTED = 0 \<Longrightarrow>
   ((((F OR MF_MESSAGE_HEADER_ENCRYPTED) AND NOT MF_MESSAGE_SIGNED) AND NOT MF_MESSAGE_HEADER_ENCRYPTED)
     AND NOT MF_MESSAGE_SIGNED) = F AND NOT MF_MESSAGE_SIGNED"
  by (auto simp: flag_bits bit_flag bit_simps intro!: bit_word_eqI)

lemma flags_after:
  "((F OR MF_MESSAGE_DATA_ENCRYPTED) AND NOT MF_MESSAGE_SIGNED) AND MF_MESSAGE_DATA_ENCRYPTED \<noteq> 0"
  "F AND MF_MESSAGE_HEADER_ENCRYPTED = 0 \<Longrightarrow>
   ((F OR MF_MESSAGE_DATA_ENCRYPTED) AND NOT MF_MESSAGE_SIGNED) AND MF_MESSAGE_HEADER_ENCRYPTED = 0"
  "((F OR MF_MESSAGE_HEADER_ENCRYPTED) AND NOT MF_MESSAGE_SIGNED) AND MF_MESSAGE_HEADER_ENCRYPTED \<noteq> 0"
  "(F OR MF_MESSAGE_SIGNED) AND MF_MESSAGE_SIGNED \<noteq> 0"
  by (simp_all only: flag_bits) (simp_all add: bit_flag bit_simps)

section \<open>The layers undo each other\<close>

text \<open>What \<open>DataEncrypt\<close> and \<open>HeaderEncrypt\<close> do when they do not abort.\<close>

lemma seal_parts:
  assumes "seals_to C rnd PK SK" "length Pt \<le> crypto_secretbox_MESSAGEBYTES_MAX"
  obtains Ct where "MFCrypto_Encrypt C rnd PK Pt = Inr Ct" "length Ct = length Pt + 48"
    "MFCrypto_Decrypt C PK SK Ct = Inr Pt" "length (take 48 Ct) = 48" "length (drop 48 Ct) = length Pt"
  using MFCrypto_Encrypt_Decrypt [OF assms] by auto

lemma DataEncrypt_noise:
  assumes "msg_ok m" "Flags m AND MF_MESSAGE_DATA_ENCRYPTED = 0" "Flags m AND MF_MESSAGE_HEADER_ENCRYPTED = 0"
    "unat (DataSize m) \<le> length (Payload m)"
    "unat (MessageSize m) = 224 + unat (DataSize m) + r" "r \<le> unat (DataSize m)" "r \<le> length noise"
    "MFCrypto_Encrypt C rnd PK (take (unat (DataSize m)) (Payload m)) = Inr ct"
    "length ct = unat (DataSize m) + 48"
  shows "MFMessage_DataEncrypt C rnd noise m PK = Inr (m\<lparr>DataEncryption := take 48 ct,
    Payload := take (unat (DataSize m) - r) (drop 48 ct) @ take r noise @ drop (unat (DataSize m)) (Payload m),
    Flags := (Flags m OR MF_MESSAGE_DATA_ENCRYPTED) AND NOT MF_MESSAGE_SIGNED\<rparr>)"
proof -
  let ?D = "unat (DataSize m)"
  let ?m = "m\<lparr>DataEncryption := take 48 ct, Payload := drop 48 ct @ drop ?D (Payload m)\<rparr>"
  have ok: "msg_ok ?m" using assms(1,9) by simp
  have "unat (MessageSize m) < 2 ^ 32" using unsigned_less [of "MessageSize m", where ?'a = nat] by simp
  then have small: "224 + ?D + r < 2 ^ 64" using assms(5) by simp
  have rem: "unat (ucast (MessageSize m) - of_nat sizeof_MF_MESSAGE_HEADER - ucast (DataSize m) :: u64) = r"
  proof -
    have "(ucast (MessageSize m) :: u64) = of_nat (unat (MessageSize m))"
      "(ucast (DataSize m) :: u64) = of_nat ?D"
      by (simp_all add: word_eq_iff_unsigned [where ?'a = nat] unat_ucast_32_64 unat_of_nat)
    moreover have "of_nat (224 + d + r) - of_nat 224 - of_nat d = (of_nat r :: u64)" for d by simp
    ultimately have "ucast (MessageSize m) - of_nat sizeof_MF_MESSAGE_HEADER - ucast (DataSize m) = (of_nat r :: u64)"
      by (simp only: assms(5) sizeof_MF_MESSAGE_HEADER_def)
    then show ?thesis using small by (simp add: unat_of_nat)
  qed
  have w: "parse_message (write_at (message_bytes ?m) (224 + (?D - r)) (take r noise)) =
      ?m\<lparr>Payload := write_at (Payload ?m) (?D - r) (take r noise)\<rparr>"
    by (rule parse_write_payload [OF ok])
  have "write_at (drop 48 ct @ drop ?D (Payload m)) (?D - r) (take r noise) =
      take (?D - r) (drop 48 ct) @ take r noise @ drop ?D (Payload m)"
    using assms(4,6,7,9) by (simp add: write_at_def)
  then show ?thesis
    using assms w by (simp add: MFMessage_DataEncrypt_def Let_def rem MFCrypto_RandomBuffer_def)
      (simp add: sizeof_MF_MESSAGE_HEADER_def)
qed

lemma fits_u32: "unat (w :: u32) \<le> crypto_secretbox_MESSAGEBYTES_MAX"
proof -
  have "unat w < 2 ^ 32" using unsigned_less [of w, where ?'a = nat] by simp
  then show ?thesis by (simp add: crypto_secretbox_MESSAGEBYTES_MAX_def)
qed

text \<open>The message a round trip through a layer gives back: unsigned, with the ciphertext header left.\<close>

lemma Data_roundtrip:
  assumes "msg_ok m" "Flags m AND MF_MESSAGE_DATA_ENCRYPTED = 0" "Flags m AND MF_MESSAGE_HEADER_ENCRYPTED = 0"
    "unat (DataSize m) \<le> length (Payload m)" "unat (MessageSize m) = 224 + unat (DataSize m)"
    "seals_to C rnd PK SK"
  shows "\<exists>m'. MFMessage_DataEncrypt C rnd noise m PK = Inr m' \<and> msg_ok m' \<and>
    Flags m' = (Flags m OR MF_MESSAGE_DATA_ENCRYPTED) AND NOT MF_MESSAGE_SIGNED \<and>
    MessageSize m' = MessageSize m \<and> DataSize m' = DataSize m \<and> length (Payload m') = length (Payload m) \<and>
    (\<forall>e s. MFMessage_DataDecrypt C (m'\<lparr>HeaderEncryption := e, MessageSignature := s\<rparr>) PK SK =
      Inr (0, m\<lparr>DataEncryption := DataEncryption m', Flags := Flags m AND NOT MF_MESSAGE_SIGNED,
        HeaderEncryption := e, MessageSignature := s\<rparr>))"
proof -
  let ?D = "unat (DataSize m)"
  let ?Pt = "take ?D (Payload m)"
  have D: "length ?Pt = ?D" using assms(4) by simp
  have "length ?Pt \<le> crypto_secretbox_MESSAGEBYTES_MAX" unfolding D by (rule fits_u32)
  then obtain ct where ct: "MFCrypto_Encrypt C rnd PK ?Pt = Inr ct" "length ct = length ?Pt + 48"
    "MFCrypto_Decrypt C PK SK ct = Inr ?Pt" "length (take 48 ct) = 48" "length (drop 48 ct) = length ?Pt"
    by (rule seal_parts [OF assms(6)])
  have lct: "length ct = ?D + 48" using ct(2) D by simp
  let ?m = "m\<lparr>DataEncryption := take 48 ct, Payload := drop 48 ct @ drop ?D (Payload m),
    Flags := (Flags m OR MF_MESSAGE_DATA_ENCRYPTED) AND NOT MF_MESSAGE_SIGNED\<rparr>"
  have e: "MFMessage_DataEncrypt C rnd noise m PK = Inr ?m"
    using DataEncrypt_noise [OF assms(1-4), of 0 noise C rnd PK ct] assms(5) ct(1) lct by simp
  have t: "take 48 ct @ take ?D (drop 48 ct) = ct" using lct by (metis add.commute append_take_drop_id drop_drop
      length_drop take_all_iff diff_add_inverse2 order_refl)
  have "take ?D (Payload m) @ drop ?D (Payload m) = Payload m" by simp
  then have "MFMessage_DataDecrypt C (?m\<lparr>HeaderEncryption := e, MessageSignature := s\<rparr>) PK SK =
      Inr (0, m\<lparr>DataEncryption := take 48 ct, Flags := Flags m AND NOT MF_MESSAGE_SIGNED,
        HeaderEncryption := e, MessageSignature := s\<rparr>)" for e s
    using assms(2-4) lct ct(3) t
    by (simp add: MFMessage_DataDecrypt_def flags_after flags_undo)
  then show ?thesis using e assms(1,4) lct by (intro exI [of _ ?m]) simp
qed

lemma Header_roundtrip:
  assumes "msg_ok m" "Flags m AND MF_MESSAGE_HEADER_ENCRYPTED = 0" "seals_to C rnd PK SK"
  shows "\<exists>m'. MFMessage_HeaderEncrypt C rnd m PK = Inr m' \<and> msg_ok m' \<and>
    Flags m' = (Flags m OR MF_MESSAGE_HEADER_ENCRYPTED) AND NOT MF_MESSAGE_SIGNED \<and>
    MessageSize m' = MessageSize m \<and> Payload m' = Payload m \<and>
    (\<forall>F s. F AND MF_MESSAGE_HEADER_ENCRYPTED \<noteq> 0 \<longrightarrow>
      MFMessage_HeaderDecrypt C (m'\<lparr>Flags := F, MessageSignature := s\<rparr>) PK SK =
      Inr (0, m\<lparr>HeaderEncryption := HeaderEncryption m', MessageSignature := s,
        Flags := (F AND NOT MF_MESSAGE_HEADER_ENCRYPTED) AND NOT MF_MESSAGE_SIGNED\<rparr>))"
proof -
  have "length (header_tail m) \<le> crypto_secretbox_MESSAGEBYTES_MAX"
    using assms(1) by (simp add: crypto_secretbox_MESSAGEBYTES_MAX_def)
  then obtain ct where ct: "MFCrypto_Encrypt C rnd PK (header_tail m) = Inr ct"
    "MFCrypto_Decrypt C PK SK ct = Inr (header_tail m)" "length (take 48 ct) = 48"
    "length (drop 48 ct) = length (header_tail m)"
    using seal_parts [OF assms(3)] by metis
  let ?F = "(Flags m OR MF_MESSAGE_HEADER_ENCRYPTED) AND NOT MF_MESSAGE_SIGNED"
  let ?m = "(set_header_tail (drop 48 ct) (m\<lparr>HeaderEncryption := take 48 ct\<rparr>))\<lparr>Flags := ?F\<rparr>"
  have l: "length (drop 48 ct) = 104" using ct(4) assms(1) by simp
  have e: "MFMessage_HeaderEncrypt C rnd m PK = Inr ?m"
    using assms(2) ct(1) by (simp add: MFMessage_HeaderEncrypt_def Let_def) (simp add: set_header_tail_def)
  have ht: "header_tail (n\<lparr>Flags := f, MessageSignature := s\<rparr>) = header_tail n" for n f s
    by (simp add: header_tail_def)
  have he: "HeaderEncryption ?m = take 48 ct" by (simp add: set_header_tail_def)
  have dec: "MFMessage_HeaderDecrypt C (?m\<lparr>Flags := F, MessageSignature := s\<rparr>) PK SK =
      Inr (0, m\<lparr>HeaderEncryption := take 48 ct, MessageSignature := s,
        Flags := (F AND NOT MF_MESSAGE_HEADER_ENCRYPTED) AND NOT MF_MESSAGE_SIGNED\<rparr>)"
    if "F AND MF_MESSAGE_HEADER_ENCRYPTED \<noteq> 0" for F s
  proof -
    let ?n = "?m\<lparr>Flags := F, MessageSignature := s\<rparr>"
    have t: "header_tail ?n = drop 48 ct" using header_tail_set [OF l] by (simp add: header_tail_def)
    have h: "HeaderEncryption ?n = take 48 ct" "Flags ?n = F" by (simp_all add: set_header_tail_def)
    have st: "set_header_tail (header_tail m) ?n =
        m\<lparr>HeaderEncryption := take 48 ct, Flags := F, MessageSignature := s\<rparr>"
      using set_header_tail_bytes [OF assms(1), of "[]" ?n] by (cases m) (simp add: set_header_tail_def)
    have d: "MFCrypto_Decrypt C PK SK (HeaderEncryption ?n @ header_tail ?n) = Inr (header_tail m)"
      unfolding t h append_take_drop_id by (rule ct(2))
    show ?thesis
      unfolding MFMessage_HeaderDecrypt_def d sum.case Let_def st using that h(2) by simp
  qed
  have "msg_ok ?m" using assms(1) l ct(3) by simp
  then show ?thesis
    using e he dec by (intro exI [of _ ?m]) (simp add: set_header_tail_def)
qed

lemma Sign_Verify:
  assumes "msg_ok m" "unat (MessageSize m) \<le> 224 + length (Payload m)" "sign_correct G PK SK"
  shows "\<exists>m'. MFMessage_Sign G m SK = Inr m' \<and> msg_ok m' \<and>
    m' = m\<lparr>Flags := Flags m OR MF_MESSAGE_SIGNED, MessageSignature := MessageSignature m'\<rparr> \<and>
    MFMessage_Verify G m' PK = Inr (0, m')"
proof -
  let ?m = "m\<lparr>Flags := Flags m OR MF_MESSAGE_SIGNED, MessageSignature := replicate 64 0\<rparr>"
  have ok: "msg_ok ?m" using assms(1) by (simp add: msg_ok_def)
  let ?b = "take (unat (MessageSize m)) (message_bytes ?m)"
  obtain s where s: "MFCrypto_Sign G SK ?b = Inr s" "length s = 64" "MFCrypto_Verify G PK s ?b = 0"
    using MFCrypto_Sign_Verify [OF assms(3)] by blast
  let ?m' = "m\<lparr>Flags := Flags m OR MF_MESSAGE_SIGNED, MessageSignature := s\<rparr>"
  have b: "unat (MessageSize ?m) \<le> length (message_bytes ?m)" "MessageSize ?m = MessageSize m"
    unfolding length_message_bytes [OF ok] using assms(2) by simp_all
  have e: "?m\<lparr>MessageSignature := s\<rparr> = ?m'" "?m'\<lparr>MessageSignature := replicate 64 0\<rparr> = ?m" by simp_all
  have "MFMessage_Sign G m SK = rbind (MFCrypto_Sign G SK ?b) (\<lambda>s. Inr (?m\<lparr>MessageSignature := s\<rparr>))"
    using b unfolding MFMessage_Sign_def Let_def by (simp only: require_simps simp_thms)
  then have "MFMessage_Sign G m SK = Inr ?m'" unfolding s(1) rbind_simps e .
  moreover have "MFMessage_Verify G ?m' PK = Inr (0, ?m')"
  proof -
    have f: "Flags ?m' AND MF_MESSAGE_SIGNED \<noteq> 0" "MessageSignature ?m' = s"
      using flags_after(4) by simp_all
    have "?m\<lparr>MessageSignature := s\<rparr> = ?m'" by simp
    then show ?thesis
      using b f unfolding MFMessage_Verify_def Let_def e(2) f(2) by (simp only: require_simps simp_thms s(3))
  qed
  moreover have "msg_ok ?m'" using assms(1) s(2) by (simp add: msg_ok_def)
  ultimately show ?thesis by (intro exI [of _ ?m']) simp
qed

text \<open>Messages as the allocator makes them.\<close>

definition fresh_message :: "u32 \<Rightarrow> bytes option \<Rightarrow> bytes option \<Rightarrow> bytes \<Rightarrow> MF_MESSAGE" where
  "fresh_message Type Src Dst Data =
     \<lparr>MessageSize = of_nat (224 + length Data), Version = MF_PROTOCOL_VERSION, Flags = 0,
      MessageSignature = replicate 64 0, HeaderEncryption = replicate 48 0, MessageType = Type,
      DataSize = of_nat (length Data), PacketCounter = 0, Context = 0,
      Source = (case Src of None \<Rightarrow> replicate 16 0 | Some g \<Rightarrow> g),
      Dest = (case Dst of None \<Rightarrow> replicate 16 0 | Some g \<Rightarrow> g),
      DataEncryption = replicate 48 0, Payload = Data\<rparr>"

lemma parse_zeros:
  "224 \<le> n \<Longrightarrow> parse_message (replicate n 0) =
    \<lparr>MessageSize = 0, Version = 0, Flags = 0, MessageSignature = replicate 64 0,
     HeaderEncryption = replicate 48 0, MessageType = 0, DataSize = 0, PacketCounter = 0, Context = 0,
     Source = replicate 16 0, Dest = replicate 16 0, DataEncryption = replicate 48 0,
     Payload = replicate (n - 224) 0\<rparr>"
  by (simp add: parse_message_def set_header_tail_def load32_le_def load16_le_def load64_le_def)

lemma ucast_of_nat_32_64: "n < 2 ^ 32 \<Longrightarrow> (ucast (of_nat n :: u32) :: u64) = of_nat n"
proof -
  assume n: "n < 2 ^ 32"
  then have "unat (of_nat n :: u32) = n" "unat (of_nat n :: u64) = n" by (simp_all add: unat_of_nat)
  then show ?thesis by (simp only: word_eq_iff_unsigned [where ?'a = nat] unat_ucast_32_64)
qed

lemma MFMessage_Alloc_eq:
  assumes "alloc_fresh os" "heap_ok h" "224 + length Data < 2 ^ 32" "os (of_nat (224 + length Data) + 0x10) h = Some a"
  shows "\<exists>p h'. MFMessage_Alloc os Type Src Dst Data h = Inr (0, Some p, h') \<and> p \<noteq> 0 \<and> refs h p = 0 \<and>
    heap_ok h' \<and> refs h' = (refs h)(p := 1) \<and>
    h' = h(p - 0x10 \<mapsto> \<lparr>RefCount = 1, Contents = message_bytes (fresh_message Type Src Dst Data)\<rparr>)"
proof -
  let ?n = "224 + length Data"
  let ?c = "message_bytes (fresh_message Type Src Dst Data)"
  have t: "unat (of_nat sizeof_MF_MESSAGE_HEADER + of_nat (length Data) :: u32) = ?n"
  proof -
    have "k < 2 ^ 32 \<Longrightarrow> unat (of_nat k :: u32) = k" for k by (simp add: unat_of_nat)
    then show ?thesis
      unfolding sizeof_MF_MESSAGE_HEADER_def of_nat_add [symmetric] using assms(3) by blast
  qed
  have u: "(ucast (of_nat sizeof_MF_MESSAGE_HEADER + of_nat (length Data) :: u32) :: u64) = of_nat ?n"
    unfolding sizeof_MF_MESSAGE_HEADER_def of_nat_add [symmetric] by (rule ucast_of_nat_32_64 [OF assms(3)])
  have "k < 2 ^ 32 \<Longrightarrow> unat (of_nat k :: u64) = k" for k by (simp add: unat_of_nat)
  then have un: "unat (of_nat ?n :: u64) = ?n" using assms(3) by blast
  have lim: "unat (of_nat ?n :: u64) + 16 < 2 ^ 64" unfolding un using assms(3) by simp
  from RefMemAlloc_ok [OF assms(1,2) lim assms(4), of "\<lambda>n. replicate n 0"] obtain p h1 where
    al: "MFGen_RefMemAlloc os (\<lambda>n. replicate n 0) (of_nat ?n) h = Inr (0, Some p, h1)" "p \<noteq> 0" "refs h p = 0"
    "heap_ok h1" "refs h1 = (refs h)(p := 1)" and
    h1: "h1 = h(p - 0x10 \<mapsto> \<lparr>RefCount = 1, Contents = replicate ?n 0\<rparr>)" unfolding un by blast
  have sz: "of_nat sizeof_MF_MESSAGE_HEADER + of_nat (length Data) = (of_nat ?n :: u32)"
    by (simp add: sizeof_MF_MESSAGE_HEADER_def)
  note t = t [unfolded sz] and u = u [unfolded sz]
  have le: "sizeof_MF_MESSAGE_HEADER + length Data \<le> ?n" by (simp add: sizeof_MF_MESSAGE_HEADER_def)
  let ?h = "h(p - 0x10 \<mapsto> \<lparr>RefCount = 1, Contents = ?c\<rparr>)"
  let ?z = "parse_message (replicate ?n 0)\<lparr>Version := MF_PROTOCOL_VERSION, MessageSize := of_nat ?n,
    MessageType := Type, DataSize := of_nat (length Data), Payload := Data\<rparr>"
  let ?s = "case Src of None \<Rightarrow> ?z | Some g \<Rightarrow> ?z\<lparr>Source := g\<rparr>"
  have w: "mem_write p ?c h1 = Inr ?h" by (simp add: mem_write_def h1)
  have z: "?z = fresh_message Type None None Data"
    by (simp add: parse_zeros fresh_message_def)
  have b: "(case Dst of None \<Rightarrow> ?s | Some g \<Rightarrow> ?s\<lparr>Dest := g\<rparr>) = fresh_message Type Src Dst Data"
    unfolding z by (simp add: fresh_message_def split: option.split)
  have "MFMessage_Alloc os Type Src Dst Data h = require (sizeof_MF_MESSAGE_HEADER + length Data \<le> ?n) Undef
      (rbind (mem_write p (message_bytes (case Dst of None \<Rightarrow> ?s | Some g \<Rightarrow> ?s\<lparr>Dest := g\<rparr>)) h1)
        (\<lambda>h. Inr (0, Some p, h)))"
    unfolding MFMessage_Alloc_def Let_def t u al(1) rbind_simps prod.case option.case sz ..
  then have "MFMessage_Alloc os Type Src Dst Data h = Inr (0, Some p, ?h)"
    using le unfolding b w by (simp only: require_simps rbind_simps)
  moreover have "heap_ok ?h" using assms(2) al(2) unfolding heap_ok_def by auto
  moreover have "refs ?h = (refs h)(p := 1)" by (simp add: refs_upd)
  ultimately show ?thesis using al(2,3) by blast
qed

text \<open>A key pair and a signer that meet the hypotheses, for the instances below.\<close>

definition demo_PK :: MFCRYPTO_PUBLIC_KEY where
  "demo_PK = \<lparr>pk_Enc = replicate 32 2, pk_Sign = []\<rparr>"

definition demo_SK :: MFCRYPTO_SECRET_KEY where
  "demo_SK = \<lparr>sk_Enc = replicate 32 2, sk_Sign = []\<rparr>"

definition demo_signer :: signer where
  "demo_signer = \<lparr>sg_seed_keypair = (\<lambda>s. (s, s)), sg_sign_detached = (\<lambda>k m. Inr (replicate 64 (foldr (+) m 0))),
     sg_verify_detached = (\<lambda>k s m. if s = replicate 64 (foldr (+) m 0) then 0 else - 1)\<rparr>"

lemma demo_keys: "seals_to sum_curve (replicate 32 1) demo_PK demo_SK" "sign_correct demo_signer PK SK"
  by (simp_all add: seals_to_def seal_ok_def demo_PK_def demo_SK_def sign_correct_def demo_signer_def)

definition demo_message :: MF_MESSAGE where
  "demo_message = fresh_message 7 (Some (replicate 16 1)) (Some (replicate 16 2)) [1, 2, 3, 4]"

lemma demo_message_ok:
  "msg_ok demo_message" "Flags demo_message AND MF_MESSAGE_DATA_ENCRYPTED = 0"
  "Flags demo_message AND MF_MESSAGE_HEADER_ENCRYPTED = 0" "unat (DataSize demo_message) = 4"
  "length (Payload demo_message) = 4" "unat (MessageSize demo_message) = 228"
  by (simp_all add: demo_message_def fresh_message_def msg_ok_def)

text \<open>
  The allocation of a message whose 32-bit size overflows: the block is too small and the copy
  of the data runs over its end.
\<close>

lemma MFMessage_Alloc_overflow:
  assumes "2 ^ 32 \<le> 224 + length Data" "os (ucast (of_nat 224 + of_nat (length Data) :: u32) + 0x10) h \<noteq> None"
  shows "MFMessage_Alloc os Type Src Dst Data h = Inl Undef"
proof -
  let ?n = "of_nat 224 + of_nat (length Data) :: u32"
  have "unat ?n < 2 ^ 32" using unsigned_less [of ?n, where ?'a = nat] by simp
  then have 1: "\<not> sizeof_MF_MESSAGE_HEADER + length Data \<le> unat ?n"
    unfolding sizeof_MF_MESSAGE_HEADER_def using assms(1) by linarith
  have "unat (ucast ?n :: u64) + 16 < 2 ^ 64" using \<open>unat ?n < 2 ^ 32\<close> unfolding unat_ucast_32_64 by simp
  then have "unat (ucast ?n + 0x10 :: u64) = unat (ucast ?n :: u64) + 16" by (simp add: unat_word_ariths)
  then have 2: "0x10 \<le> (ucast ?n + 0x10 :: u64)" by (simp add: word_le_nat_alt)
  obtain a where a: "os (ucast ?n + 0x10) h = Some a" using assms(2) by auto
  note d = sizeof_MF_MESSAGE_HEADER_def
  have "\<exists>p h'. MFGen_RefMemAlloc os (\<lambda>n. replicate n 0) (ucast ?n) h = Inr (0, Some p, h')"
    unfolding MFGen_RefMemAlloc_def Let_def a using 2 by simp
  then obtain p h' where al: "MFGen_RefMemAlloc os (\<lambda>n. replicate n 0) (ucast ?n) h = Inr (0, Some p, h')" by blast
  show ?thesis
    using 1 al unfolding MFMessage_Alloc_def Let_def d
    by (simp only: al rbind_simps prod.case option.case require_simps not_le) simp
qed

section \<open>Properties\<close>

text \<open>
  \<open>MFMessage_Alloc\<close> makes a message whose image in the heap is the header the caller asked for
  and the data, 224 bytes longer than the data, with one reference, and no other block changes.
  The message has no flags set, \<open>MessageSize\<close> and \<open>DataSize\<close> agree, and reading the image back
  gives the message.
\<close>

theorem MFMessage_Alloc_message:
  assumes "alloc_fresh os" "heap_ok h" "224 + length Data < 2 ^ 32"
    "os (of_nat (224 + length Data) + 0x10) h \<noteq> None" "\<forall>g. Src = Some g \<longrightarrow> length g = 16"
    "\<forall>g. Dst = Some g \<longrightarrow> length g = 16"
  shows "\<exists>p h' m. MFMessage_Alloc os Type Src Dst Data h = Inr (0, Some p, h') \<and>
    mem_read p h' = Inr (message_bytes m) \<and> length (message_bytes m) = 224 + length Data \<and>
    parse_message (message_bytes m) = m \<and> msg_ok m \<and> refs h' = (refs h)(p := 1) \<and>
    (\<forall>q. q \<noteq> p - 0x10 \<longrightarrow> h' q = h q) \<and>
    unat (MessageSize m) = 224 + unat (DataSize m) \<and> unat (DataSize m) = length Data \<and> Payload m = Data \<and>
    Flags m = 0 \<and> MessageType m = Type \<and> (\<forall>g. Src = Some g \<longrightarrow> Source m = g) \<and> (\<forall>g. Dst = Some g \<longrightarrow> Dest m = g)"
proof -
  let ?m = "fresh_message Type Src Dst Data"
  obtain a where "os (of_nat (224 + length Data) + 0x10) h = Some a" using assms(4) by auto
  from MFMessage_Alloc_eq [OF assms(1-3) this, of Type Src Dst] obtain p h' where
    al: "MFMessage_Alloc os Type Src Dst Data h = Inr (0, Some p, h')" "refs h' = (refs h)(p := 1)"
    "h' = h(p - 0x10 \<mapsto> \<lparr>RefCount = 1, Contents = message_bytes ?m\<rparr>)" by blast
  have ok: "msg_ok ?m" using assms(5,6) by (auto simp: msg_ok_def fresh_message_def split: option.split)
  have f: "Payload ?m = Data" "Flags ?m = 0" "MessageType ?m = Type"
    "\<forall>g. Src = Some g \<longrightarrow> Source ?m = g" "\<forall>g. Dst = Some g \<longrightarrow> Dest ?m = g"
    by (auto simp: fresh_message_def)
  have s: "unat (DataSize ?m) = length Data" "unat (MessageSize ?m) = 224 + length Data"
    using assms(3) by (simp_all only: fresh_message_def MF_MESSAGE_HEADER.select_convs unat_of_nat)
      (simp_all add: take_bit_nat_eq_self)
  have r: "mem_read p h' = Inr (message_bytes ?m)" "\<forall>q. q \<noteq> p - 0x10 \<longrightarrow> h' q = h q"
    unfolding al(3) by (simp_all add: mem_read_def)
  have l: "length (message_bytes ?m) = 224 + length Data" using ok f(1) by simp
  show ?thesis
    by (intro exI [of _ p] exI [of _ h'] exI [of _ ?m] conjI al(1,2) r l parse_message_bytes ok f s(1))
      (simp add: s)
qed

lemma MFMessage_Alloc_message_witness:
  "\<exists>p h' m. MFMessage_Alloc (\<lambda>n h. if h 0x1000 = None then Some 0x1000 else None) 2 (Some (replicate 16 1)) None
      [1, 2, 3] Map.empty = Inr (0, Some p, h') \<and> mem_read p h' = Inr (message_bytes m) \<and>
    Payload m = [1, 2, 3] \<and> MessageType m = 2 \<and> Source m = replicate 16 1"
proof -
  have f: "alloc_fresh (\<lambda>n h. if h 0x1000 = None then Some 0x1000 else None)" by (auto simp: alloc_fresh_def)
  have e: "heap_ok Map.empty" by (simp add: heap_ok_def)
  show ?thesis
    using MFMessage_Alloc_message [OF f e, of "[1, 2, 3]" "Some (replicate 16 1)" None 2] by auto
qed

text \<open>
  C3: The layers of a message that goes over the wire.  Sealing the data, sealing the header and
  signing, then on the other side verifying, opening the header and opening the data, gives back
  the message that was sent: its data, its type, context, counter, source and destination.  Only
  the ciphertext headers and the signature are left behind, and the signed flag is cleared.
\<close>

theorem MFMessage_transport:
  assumes "msg_ok m" "Flags m AND MF_MESSAGE_DATA_ENCRYPTED = 0" "Flags m AND MF_MESSAGE_HEADER_ENCRYPTED = 0"
    "unat (DataSize m) \<le> length (Payload m)" "unat (MessageSize m) = 224 + unat (DataSize m)"
    "seals_to C rnd1 PK SK" "seals_to C rnd2 PK SK" "sign_correct G SPK SSK"
  shows "\<exists>m1 m2 wire m3 m4 sig he de.
    MFMessage_DataEncrypt C rnd1 noise m PK = Inr m1 \<and> MFMessage_HeaderEncrypt C rnd2 m1 PK = Inr m2 \<and>
    MFMessage_Sign G m2 SSK = Inr wire \<and>
    MFMessage_Verify G wire SPK = Inr (0, wire) \<and> MFMessage_HeaderDecrypt C wire PK SK = Inr (0, m3) \<and>
    MFMessage_DataDecrypt C m3 PK SK = Inr (0, m4) \<and>
    m4 = m\<lparr>Flags := Flags m AND NOT MF_MESSAGE_SIGNED, MessageSignature := sig,
      HeaderEncryption := he, DataEncryption := de\<rparr>"
proof -
  obtain m1 where m1: "MFMessage_DataEncrypt C rnd1 noise m PK = Inr m1" "msg_ok m1"
    "Flags m1 = (Flags m OR MF_MESSAGE_DATA_ENCRYPTED) AND NOT MF_MESSAGE_SIGNED" "MessageSize m1 = MessageSize m"
    "length (Payload m1) = length (Payload m)"
    "\<And>e s. MFMessage_DataDecrypt C (m1\<lparr>HeaderEncryption := e, MessageSignature := s\<rparr>) PK SK =
      Inr (0, m\<lparr>DataEncryption := DataEncryption m1, Flags := Flags m AND NOT MF_MESSAGE_SIGNED,
        HeaderEncryption := e, MessageSignature := s\<rparr>)"
    using Data_roundtrip [OF assms(1-6), of noise] by blast
  have f1: "Flags m1 AND MF_MESSAGE_HEADER_ENCRYPTED = 0" unfolding m1(3) by (rule flags_after(2) [OF assms(3)])
  obtain m2 where m2: "MFMessage_HeaderEncrypt C rnd2 m1 PK = Inr m2" "msg_ok m2"
    "Flags m2 = (Flags m1 OR MF_MESSAGE_HEADER_ENCRYPTED) AND NOT MF_MESSAGE_SIGNED"
    "MessageSize m2 = MessageSize m1" "Payload m2 = Payload m1"
    "\<And>F s. F AND MF_MESSAGE_HEADER_ENCRYPTED \<noteq> 0 \<Longrightarrow>
      MFMessage_HeaderDecrypt C (m2\<lparr>Flags := F, MessageSignature := s\<rparr>) PK SK =
      Inr (0, m1\<lparr>HeaderEncryption := HeaderEncryption m2, MessageSignature := s,
        Flags := (F AND NOT MF_MESSAGE_HEADER_ENCRYPTED) AND NOT MF_MESSAGE_SIGNED\<rparr>)"
    using Header_roundtrip [OF m1(2) f1 assms(7)] by blast
  have "unat (MessageSize m2) \<le> 224 + length (Payload m2)" using assms(4,5) m1(4,5) m2(4,5) by simp
  from Sign_Verify [OF m2(2) this assms(8)] obtain wire where w: "MFMessage_Sign G m2 SSK = Inr wire"
    "wire = m2\<lparr>Flags := Flags m2 OR MF_MESSAGE_SIGNED, MessageSignature := MessageSignature wire\<rparr>"
    "MFMessage_Verify G wire SPK = Inr (0, wire)" by blast
  have fw: "(Flags m2 OR MF_MESSAGE_SIGNED) AND MF_MESSAGE_HEADER_ENCRYPTED \<noteq> 0"
    "((Flags m2 OR MF_MESSAGE_SIGNED) AND NOT MF_MESSAGE_HEADER_ENCRYPTED) AND NOT MF_MESSAGE_SIGNED = Flags m1"
    using m1(3) f1 unfolding m2(3) flag_bits
    by (simp_all add: bit_flag bit_simps flag_bits) (auto simp: bit_flag bit_simps intro!: bit_word_eqI)
  let ?m3 = "m1\<lparr>HeaderEncryption := HeaderEncryption m2, MessageSignature := MessageSignature wire\<rparr>"
  have h: "MFMessage_HeaderDecrypt C wire PK SK = Inr (0, ?m3)"
    using m2(6) [OF fw(1), of "MessageSignature wire"] unfolding fw(2) w(2) [symmetric] by simp
  let ?m4 = "m\<lparr>Flags := Flags m AND NOT MF_MESSAGE_SIGNED, MessageSignature := MessageSignature wire,
    HeaderEncryption := HeaderEncryption m2, DataEncryption := DataEncryption m1\<rparr>"
  have d: "MFMessage_DataDecrypt C ?m3 PK SK = Inr (0, ?m4)" using m1(6) by simp
  show ?thesis
    by (intro exI [of _ m1] exI [of _ m2] exI [of _ wire] exI [of _ ?m3] exI [of _ ?m4]
        exI [of _ "MessageSignature wire"] exI [of _ "HeaderEncryption m2"] exI [of _ "DataEncryption m1"]
        conjI m1(1) m2(1) w(1,3) h d refl)
qed

lemma MFMessage_transport_witness:
  "\<exists>m1 m2 wire m3 m4 sig he de.
    MFMessage_DataEncrypt sum_curve (replicate 32 1) [] demo_message demo_PK = Inr m1 \<and>
    MFMessage_HeaderEncrypt sum_curve (replicate 32 1) m1 demo_PK = Inr m2 \<and>
    MFMessage_Sign demo_signer m2 demo_SK = Inr wire \<and>
    MFMessage_Verify demo_signer wire demo_PK = Inr (0, wire) \<and>
    MFMessage_HeaderDecrypt sum_curve wire demo_PK demo_SK = Inr (0, m3) \<and>
    MFMessage_DataDecrypt sum_curve m3 demo_PK demo_SK = Inr (0, m4) \<and>
    m4 = demo_message\<lparr>Flags := Flags demo_message AND NOT MF_MESSAGE_SIGNED, MessageSignature := sig,
      HeaderEncryption := he, DataEncryption := de\<rparr>"
  by (rule MFMessage_transport [OF demo_message_ok(1-3) _ _ demo_keys(1) demo_keys(1) demo_keys(2)])
    (simp_all add: demo_message_ok)

lemma DataDecrypt_sealed:
  assumes "Flags m AND MF_MESSAGE_DATA_ENCRYPTED = 0" "Flags m AND MF_MESSAGE_HEADER_ENCRYPTED = 0"
    "length p = unat (DataSize m)"
  shows "MFMessage_DataDecrypt C (m\<lparr>DataEncryption := x, Payload := p @ y,
      Flags := (Flags m OR MF_MESSAGE_DATA_ENCRYPTED) AND NOT MF_MESSAGE_SIGNED\<rparr>) PK SK =
    (case MFCrypto_Decrypt C PK SK (x @ p) of
      Inl (Ret e) \<Rightarrow> Inr (e, m\<lparr>DataEncryption := x, Payload := p @ y,
        Flags := (Flags m OR MF_MESSAGE_DATA_ENCRYPTED) AND NOT MF_MESSAGE_SIGNED\<rparr>)
    | Inl e \<Rightarrow> Inl e
    | Inr pt \<Rightarrow> Inr (0, m\<lparr>DataEncryption := x, Payload := pt @ y, Flags := Flags m AND NOT MF_MESSAGE_SIGNED\<rparr>))"
proof -
  let ?m = "m\<lparr>DataEncryption := x, Payload := p @ y,
    Flags := (Flags m OR MF_MESSAGE_DATA_ENCRYPTED) AND NOT MF_MESSAGE_SIGNED\<rparr>"
  have f: "Flags ?m AND MF_MESSAGE_HEADER_ENCRYPTED = 0" "Flags ?m AND MF_MESSAGE_DATA_ENCRYPTED \<noteq> 0"
    "(Flags ?m AND NOT MF_MESSAGE_DATA_ENCRYPTED) AND NOT MF_MESSAGE_SIGNED = Flags m AND NOT MF_MESSAGE_SIGNED"
    using flags_after(1) flags_after(2) [OF assms(2)] flags_undo(1) [OF assms(1)] by simp_all
  have d: "unat (DataSize ?m) \<le> length (Payload ?m)" "take (unat (DataSize ?m)) (Payload ?m) = p"
    "drop (unat (DataSize ?m)) (Payload ?m) = y" "DataEncryption ?m = x"
    using assms(3) by simp_all
  show ?thesis
    unfolding MFMessage_DataDecrypt_def f d require_def
    by (simp add: flags_after(1) assms(3) split: sum.split fault.split)
qed

lemma decrypt_error: "MFCrypto_Decrypt C PK SK ct = Inl (Ret e) \<Longrightarrow> e = - 1"
  by (auto simp: MFCrypto_Decrypt_def box_seal_open_eq crypto_box_open_easy_def crypto_box_open_detached_def
      with_shared_def crypto_box_open_detached_afternm_def crypto_secretbox_open_detached_def fail_minus1_def Let_def
      split: if_splits sum.splits fault.splits)

text \<open>
  C21: When the size of the message leaves \<open>r\<close> bytes behind the data, \<open>MFMessage_DataEncrypt\<close> does
  not fill them with noise: it writes the noise over the last \<open>r\<close> bytes of the ciphertext.  Such a
  message opens to what was sealed exactly when the noise happens to be the bytes it destroyed.
\<close>

theorem MFMessage_noise_destroys:
  assumes "msg_ok m" "Flags m AND MF_MESSAGE_DATA_ENCRYPTED = 0" "Flags m AND MF_MESSAGE_HEADER_ENCRYPTED = 0"
    "unat (DataSize m) \<le> length (Payload m)" "unat (MessageSize m) = 224 + unat (DataSize m) + r"
    "r \<le> unat (DataSize m)" "r \<le> length noise" "seals_to C rnd PK SK"
  shows "\<exists>ct m'. MFCrypto_Encrypt C rnd PK (take (unat (DataSize m)) (Payload m)) = Inr ct \<and>
    MFMessage_DataEncrypt C rnd noise m PK = Inr m' \<and>
    drop (unat (DataSize m)) (Payload m') = drop (unat (DataSize m)) (Payload m) \<and>
    ((\<exists>m''. MFMessage_DataDecrypt C m' PK SK = Inr (0, m'') \<and> Payload m'' = Payload m) \<longleftrightarrow>
      take r noise = drop (48 + unat (DataSize m) - r) ct)"
proof -
  let ?D = "unat (DataSize m)"
  let ?Pt = "take ?D (Payload m)"
  have D: "length ?Pt = ?D" using assms(4) by simp
  have fit: "length ?Pt \<le> crypto_secretbox_MESSAGEBYTES_MAX" unfolding D by (rule fits_u32)
  obtain ct where ct: "MFCrypto_Encrypt C rnd PK ?Pt = Inr ct" "length ct = length ?Pt + 48"
    "MFCrypto_Decrypt C PK SK ct = Inr ?Pt" by (rule seal_parts [OF assms(8) fit])
  have lct: "length ct = ?D + 48" using ct(2) D by simp
  let ?p = "take (?D - r) (drop 48 ct) @ take r noise"
  let ?m = "m\<lparr>DataEncryption := take 48 ct, Payload := ?p @ drop ?D (Payload m),
    Flags := (Flags m OR MF_MESSAGE_DATA_ENCRYPTED) AND NOT MF_MESSAGE_SIGNED\<rparr>"
  have lp: "length ?p = ?D" using lct assms(6,7) by simp
  have e: "MFMessage_DataEncrypt C rnd noise m PK = Inr ?m"
    using DataEncrypt_noise [OF assms(1-7) ct(1) lct] by simp
  have "?D - r + 48 = 48 + ?D - r" using assms(6) by simp
  then have split: "take 48 ct @ take (?D - r) (drop 48 ct) @ drop (48 + ?D - r) ct = ct"
    by (metis append_take_drop_id drop_drop)
  have dec: "MFMessage_DataDecrypt C ?m PK SK = (case MFCrypto_Decrypt C PK SK (take 48 ct @ ?p) of
      Inl (Ret e) \<Rightarrow> Inr (e, ?m) | Inl e \<Rightarrow> Inl e
    | Inr pt \<Rightarrow> Inr (0, m\<lparr>DataEncryption := take 48 ct, Payload := pt @ drop ?D (Payload m),
        Flags := Flags m AND NOT MF_MESSAGE_SIGNED\<rparr>))"
    by (rule DataDecrypt_sealed [OF assms(2,3) lp])
  have "(\<exists>m''. MFMessage_DataDecrypt C ?m PK SK = Inr (0, m'') \<and> Payload m'' = Payload m) \<longleftrightarrow>
      take r noise = drop (48 + ?D - r) ct" (is "?L \<longleftrightarrow> ?R")
  proof
    assume ?R
    then have "take 48 ct @ ?p = ct" using split by simp
    then show ?L unfolding dec by (simp add: ct(3))
  next
    assume ?L
    then obtain pt where pt: "MFCrypto_Decrypt C PK SK (take 48 ct @ ?p) = Inr pt"
      "pt @ drop ?D (Payload m) = Payload m"
      using decrypt_error [of C PK SK "take 48 ct @ ?p" 0] unfolding dec by (auto split: sum.splits fault.splits)
    have "length pt + length (drop ?D (Payload m)) = length (Payload m)"
      using arg_cong [OF pt(2), of length] by (simp only: length_append)
    then have "length pt = ?D" using assms(4) by simp
    then have "pt = ?Pt" using arg_cong [OF pt(2), of "take ?D"] by simp
    then have "take 48 ct @ ?p = ct"
      using MFCrypto_Decrypt_inject [of C PK SK "take 48 ct @ ?p" ?Pt ct] pt(1) ct(3) fit lct by simp
    then have "take (?D - r) (drop 48 ct) @ take r noise = take (?D - r) (drop 48 ct) @ drop (48 + ?D - r) ct"
      using split by (metis same_append_eq)
    then show ?R by simp
  qed
  then show ?thesis using e ct(1) lp by (intro exI [of _ ct] exI [of _ ?m]) simp
qed

lemma MFMessage_noise_destroys_witness:
  "\<exists>ct m'. MFMessage_DataEncrypt sum_curve (replicate 32 1) [9, 9]
      (demo_message\<lparr>MessageSize := 230, Payload := [1, 2, 3, 4, 0, 0]\<rparr>) demo_PK = Inr m' \<and>
    drop 4 (Payload m') = [0, 0] \<and>
    ((\<exists>m''. MFMessage_DataDecrypt sum_curve m' demo_PK demo_SK = Inr (0, m'') \<and> Payload m'' = [1, 2, 3, 4, 0, 0]) \<longleftrightarrow>
      [9, 9] = drop 50 (ct :: bytes))"
  using MFMessage_noise_destroys [of "demo_message\<lparr>MessageSize := 230, Payload := [1, 2, 3, 4, 0, 0]\<rparr>" 2 "[9, 9]"
      sum_curve "replicate 32 1" demo_PK demo_SK] demo_message_ok demo_keys(1) by auto

end
