(* ===== verification/Protocol.thy ===== *)
theory Protocol
  imports Messages
begin

text \<open>
  \<open>mfprotocol/mfprotocol.c\<close>: the messages of the messenger protocol.  The structures of
  \<open>include/mfprotocol.h\<close> are records with their images in memory; the builders fill one in and hand
  it to \<open>MFMessage_Alloc\<close>.  Pointers that may be null are options, a C string is the memory it
  points to.
\<close>

section \<open>The structures\<close>

datatype EMFMessageType =
  mfmtPing | mfmtQueryServerInfo | mfmtNewUser | mfmtNewUserKeyProof | mfmtDeleteUser | mfmtNewChannel |
  mfmtEnterChannel | mfmtEnterChannelResponse | mfmtLeaveChannel | mfmtError | mfmtMax

fun message_type_code :: "EMFMessageType \<Rightarrow> u32" where
  "message_type_code mfmtPing = 0"
| "message_type_code mfmtQueryServerInfo = 1"
| "message_type_code mfmtNewUser = 2"
| "message_type_code mfmtNewUserKeyProof = 3"
| "message_type_code mfmtDeleteUser = 4"
| "message_type_code mfmtNewChannel = 5"
| "message_type_code mfmtEnterChannel = 6"
| "message_type_code mfmtEnterChannelResponse = 7"
| "message_type_code mfmtLeaveChannel = 8"
| "message_type_code mfmtError = 9"
| "message_type_code mfmtMax = 10"

definition public_key_bytes :: "MFCRYPTO_PUBLIC_KEY \<Rightarrow> bytes" where
  "public_key_bytes k = pk_Enc k @ pk_Sign k"

record MF_MESSAGE_USER_INFO =
  ui_Id :: bytes
  ui_Key :: MFCRYPTO_PUBLIC_KEY
  ui_Name :: bytes

definition user_info_bytes :: "MF_MESSAGE_USER_INFO \<Rightarrow> bytes" where
  "user_info_bytes u = ui_Id u @ public_key_bytes (ui_Key u) @ ui_Name u"

record MF_MESSAGE_CHANNEL_INFO =
  ci_Id :: bytes
  ci_Name :: bytes
  ci_SeedCount :: u32
  ci_Flags :: u32
  ci_PasswordHash :: bytes
  ci_PasswordKeySeed2 :: bytes

definition channel_info_bytes :: "MF_MESSAGE_CHANNEL_INFO \<Rightarrow> bytes" where
  "channel_info_bytes c =
     ci_Id c @ ci_Name c @ store32_le (ci_SeedCount c) @ store32_le (ci_Flags c) @
     ci_PasswordHash c @ ci_PasswordKeySeed2 c"

record MF_MESSAGE_SERVER_INFO_OUT =
  si_ServerPublicKey :: MFCRYPTO_PUBLIC_KEY
  si_ServerKeyChallengeSignature :: bytes
  si_ServerName :: bytes
  si_Flags :: u32
  si_SupportedVersions :: u32
  si_UserCount :: u32
  si_ChannelCount :: u32

definition server_info_bytes :: "MF_MESSAGE_SERVER_INFO_OUT \<Rightarrow> bytes" where
  "server_info_bytes s =
     public_key_bytes (si_ServerPublicKey s) @ si_ServerKeyChallengeSignature s @ si_ServerName s @
     store32_le (si_Flags s) @ store32_le (si_SupportedVersions s) @
     store32_le (si_UserCount s) @ store32_le (si_ChannelCount s)"

record MF_MESSAGE_NEW_USER_IN =
  nu_PublicKey :: MFCRYPTO_PUBLIC_KEY
  nu_ExpirationDate :: u64
  nu_Flags :: u32
  nu_Padding :: bytes
  nu_Name :: bytes

definition new_user_bytes :: "MF_MESSAGE_NEW_USER_IN \<Rightarrow> bytes" where
  "new_user_bytes u =
     public_key_bytes (nu_PublicKey u) @ store64_le (nu_ExpirationDate u) @ store32_le (nu_Flags u) @
     nu_Padding u @ nu_Name u"

section \<open>The builders\<close>

text \<open>\<open>strlen\<close> runs off the end of memory that holds no terminator.\<close>

definition strlen :: "bytes \<Rightarrow> nat result" where
  "strlen s = require (0 \<in> set s) Undef (Inr (length (takeWhile (\<lambda>c. c \<noteq> 0) s)))"

definition MFProtocol_ServerInfoIn ::
    "bytes allocator \<Rightarrow> bytes \<Rightarrow> bytes option \<Rightarrow> bytes heap \<Rightarrow> (i32 \<times> u64 option \<times> bytes heap) result" where
  "MFProtocol_ServerInfoIn os rnd ServerKeyChallenge h =
     (let challenge = (case ServerKeyChallenge of Some c \<Rightarrow> c | None \<Rightarrow> MFCrypto_RandomBuffer rnd 32)
      in MFMessage_Alloc os (message_type_code mfmtQueryServerInfo) None None challenge h)"

text \<open>
  The builders with data of variable length: allocate a cleared buffer, fill it, make the message
  from it and release it.  \<open>fill\<close> takes the cleared buffer.
\<close>

definition temp_message ::
    "bytes allocator \<Rightarrow> u32 \<Rightarrow> u64 \<Rightarrow> (bytes \<Rightarrow> bytes result) \<Rightarrow> bytes heap \<Rightarrow>
     (i32 \<times> u64 option \<times> bytes heap) result" where
  "temp_message os Type dataSize fill h =
     rbind (MFGen_RefMemAlloc os (\<lambda>n. replicate n 0) dataSize h) (\<lambda>(ret, p, h).
       case p of
         None \<Rightarrow> Inr (ret, None, h)
       | Some si \<Rightarrow>
           rbind (fill (replicate (unat dataSize) 0)) (\<lambda>buf.
           rbind (mem_write si buf h) (\<lambda>h.
           rbind (MFMessage_Alloc os Type None None buf h) (\<lambda>(ret, m, h).
           rbind (MFGen_RefMemRelease si h) (\<lambda>h. Inr (ret, m, h))))))"



text \<open>The string goes out with its terminator; \<open>StringLen\<close> is cut to 32 bits.\<close>

definition error_fill :: "u32 \<Rightarrow> bytes \<Rightarrow> bytes \<Rightarrow> bytes result" where
  "error_fill ErrorCode text buf =
     require (8 + length text \<le> length buf) Undef
       (Inr (write_at buf 0 (store32_le ErrorCode @ store32_le (of_nat (length text)) @ text)))"

definition MFProtocol_ErrorMessage ::
    "bytes allocator \<Rightarrow> u32 \<Rightarrow> bytes option \<Rightarrow> bytes heap \<Rightarrow> (i32 \<times> u64 option \<times> bytes heap) result" where
  "MFProtocol_ErrorMessage os ErrorCode ErrorMessage h =
     rbind (case ErrorMessage of None \<Rightarrow> Inr 0 | Some s \<Rightarrow> map_sum id Suc (strlen s)) (\<lambda>nameLen.
       temp_message os (message_type_code mfmtError) (8 + of_nat nameLen)
         (error_fill ErrorCode (case ErrorMessage of None \<Rightarrow> [] | Some s \<Rightarrow> take nameLen s)) h)"

text \<open>\<open>strlen(Name)\<close> is not compared with the 64 bytes of the field; more bytes leave the structure.\<close>

definition MFProtocol_NewUserIn ::
    "bytes allocator \<Rightarrow> bytes \<Rightarrow> bytes \<Rightarrow> MFCRYPTO_PUBLIC_KEY \<Rightarrow> u64 \<Rightarrow> u32 \<Rightarrow> bytes heap \<Rightarrow>
     (i32 \<times> u64 option \<times> bytes heap) result" where
  "MFProtocol_NewUserIn os rnd Name PublicKey ExpirationTime Flag h =
     rbind (strlen Name) (\<lambda>nameLen.
       require (nameLen \<le> 64) Undef
         (let data = \<lparr>nu_PublicKey = PublicKey, nu_ExpirationDate = ExpirationTime, nu_Flags = Flag,
                nu_Padding = MFCrypto_RandomBuffer rnd 4, nu_Name = write_at (replicate 64 0) 0 (take nameLen Name)\<rparr>
          in MFMessage_Alloc os (message_type_code mfmtNewUser) None None (new_user_bytes data) h))"

definition MFProtocol_NewUserOut ::
    "bytes allocator \<Rightarrow> bytes \<Rightarrow> bytes \<Rightarrow> bytes option \<Rightarrow> bytes heap \<Rightarrow> (i32 \<times> u64 option \<times> bytes heap) result" where
  "MFProtocol_NewUserOut os rnd Guid UserKeyChallenge h =
     (let challenge = (case UserKeyChallenge of Some c \<Rightarrow> c | None \<Rightarrow> MFCrypto_RandomBuffer rnd 32)
      in MFMessage_Alloc os (message_type_code mfmtNewUser) None None (Guid @ challenge) h)"

definition MFProtocol_UserKeyProofIn ::
    "bytes allocator \<Rightarrow> bytes \<Rightarrow> bytes \<Rightarrow> bytes heap \<Rightarrow> (i32 \<times> u64 option \<times> bytes heap) result" where
  "MFProtocol_UserKeyProofIn os UserId UserKeyResponse h =
     MFMessage_Alloc os (message_type_code mfmtNewUserKeyProof) (Some UserId) None (UserId @ UserKeyResponse) h"

section \<open>Sizes\<close>

definition key_ok :: "MFCRYPTO_PUBLIC_KEY \<Rightarrow> bool" where
  "key_ok k \<longleftrightarrow> length (pk_Enc k) = 32 \<and> length (pk_Sign k) = 32"

definition user_info_ok :: "MF_MESSAGE_USER_INFO \<Rightarrow> bool" where
  "user_info_ok u \<longleftrightarrow> length (ui_Id u) = 16 \<and> key_ok (ui_Key u) \<and> length (ui_Name u) = 64"

definition channel_info_ok :: "MF_MESSAGE_CHANNEL_INFO \<Rightarrow> bool" where
  "channel_info_ok c \<longleftrightarrow> length (ci_Id c) = 16 \<and> length (ci_Name c) = 64 \<and>
     length (ci_PasswordHash c) = 32 \<and> length (ci_PasswordKeySeed2 c) = 32"

definition server_info_ok :: "MF_MESSAGE_SERVER_INFO_OUT \<Rightarrow> bool" where
  "server_info_ok s \<longleftrightarrow> key_ok (si_ServerPublicKey s) \<and> length (si_ServerKeyChallengeSignature s) = 64 \<and>
     length (si_ServerName s) = 256"

lemma length_key_bytes [simp]: "key_ok k \<Longrightarrow> length (public_key_bytes k) = 64"
  by (simp add: key_ok_def public_key_bytes_def)

lemma length_user_info_bytes [simp]: "user_info_ok u \<Longrightarrow> length (user_info_bytes u) = 144"
  by (simp add: user_info_ok_def user_info_bytes_def)

lemma length_channel_info_bytes [simp]: "channel_info_ok c \<Longrightarrow> length (channel_info_bytes c) = 152"
  by (simp add: channel_info_ok_def channel_info_bytes_def)

lemma length_server_info_bytes [simp]: "server_info_ok s \<Longrightarrow> length (server_info_bytes s) = 400"
  by (simp add: server_info_ok_def server_info_bytes_def)


lemma strlen_append_0: "0 \<notin> set s \<Longrightarrow> strlen (s @ 0 # t) = Inr (length s)"
  by (simp add: strlen_def takeWhile_append)

section \<open>What a builder does\<close>

text \<open>
  The outcome of a builder on a heap: out of memory and nothing changed, or one new block with one
  reference that holds the message, and nothing else changed.
\<close>

fun message_made :: "u32 \<Rightarrow> bytes option \<Rightarrow> bytes \<Rightarrow> bytes heap \<Rightarrow> i32 \<times> u64 option \<times> bytes heap \<Rightarrow> bool" where
  "message_made Type Src Data h (ret, None, h') \<longleftrightarrow> ret = E_OUTOFMEMORY \<and> h' = h"
| "message_made Type Src Data h (ret, Some p, h') \<longleftrightarrow> ret = 0 \<and> p \<noteq> 0 \<and> h (p - 0x10) = None \<and>
     h' = h(p - 0x10 \<mapsto> \<lparr>RefCount = 1, Contents = message_bytes (fresh_message Type Src None Data)\<rparr>)"

lemma MFMessage_Alloc_made:
  assumes "alloc_fresh os" "heap_ok h" "224 + length Data < 2 ^ 32"
  shows "\<exists>r. MFMessage_Alloc os Type Src None Data h = Inr r \<and> message_made Type Src Data h r"
proof (cases "os (of_nat (224 + length Data) + 0x10) h")
  case None
  have "ucast (of_nat sizeof_MF_MESSAGE_HEADER + of_nat (length Data) :: u32) = (of_nat (224 + length Data) :: u64)"
    unfolding sizeof_MF_MESSAGE_HEADER_def of_nat_add [symmetric] by (rule ucast_of_nat_32_64 [OF assms(3)])
  then have "MFMessage_Alloc os Type Src None Data h = Inr (E_OUTOFMEMORY, None, h)"
    using RefMemAlloc_fail [of os, OF None] unfolding MFMessage_Alloc_def Let_def by simp
  then show ?thesis by simp
next
  case (Some a)
  from MFMessage_Alloc_eq [OF assms Some, of Type Src None] obtain p h' where
    "MFMessage_Alloc os Type Src None Data h = Inr (0, Some p, h')" "p \<noteq> 0" "refs h p = 0"
    "h' = h(p - 0x10 \<mapsto> \<lparr>RefCount = 1, Contents = message_bytes (fresh_message Type Src None Data)\<rparr>)" by blast
  then show ?thesis using refs_alive [OF assms(2), of p] by auto
qed

lemma temp_message_made:
  assumes "alloc_fresh os" "heap_ok h" "224 + unat n < 2 ^ 32" "fill (replicate (unat n) 0) = Inr buf"
    "length buf = unat n"
  shows "\<exists>r. temp_message os Type n fill h = Inr r \<and> message_made Type None buf h r"
proof (cases "os (n + 0x10) h")
  case None
  then have "temp_message os Type n fill h = Inr (E_OUTOFMEMORY, None, h)"
    by (simp add: temp_message_def RefMemAlloc_fail)
  then show ?thesis by simp
next
  case (Some a)
  have "unat n + 16 < 2 ^ 64" using assms(3) by simp
  from RefMemAlloc_ok [OF assms(1,2) this Some, of "\<lambda>n. replicate n 0"] obtain p h1 where
    al: "MFGen_RefMemAlloc os (\<lambda>n. replicate n 0) n h = Inr (0, Some p, h1)" "p \<noteq> 0" "refs h p = 0" and
    h1: "h1 = h(p - 0x10 \<mapsto> \<lparr>RefCount = 1, Contents = replicate (unat n) 0\<rparr>)" by blast
  have dead: "h (p - 0x10) = None" using refs_alive [OF assms(2), of p] al(3) by auto
  let ?h2 = "h(p - 0x10 \<mapsto> \<lparr>RefCount = 1, Contents = buf\<rparr>)"
  have w: "mem_write p buf h1 = Inr ?h2" by (simp add: mem_write_def h1)
  have "heap_ok ?h2" using assms(2) al(2) unfolding heap_ok_def by auto
  from MFMessage_Alloc_made [OF assms(1) this, of buf Type None] assms(3,5) obtain ret m h3 where
    r: "MFMessage_Alloc os Type None None buf ?h2 = Inr (ret, m, h3)" "message_made Type None buf ?h2 (ret, m, h3)"
    by auto
  have "h3 (p - 0x10) = Some \<lparr>RefCount = 1, Contents = buf\<rparr>" using r(2) by (cases m) auto
  then have rel: "MFGen_RefMemRelease p h3 = Inr (h3(p - 0x10 := None))"
    using al(2) by (simp add: MFGen_RefMemRelease_def)
  have "temp_message os Type n fill h = Inr (ret, m, h3(p - 0x10 := None))"
    unfolding temp_message_def al(1) by (simp add: assms(4) w r(1) rel)
  moreover have "message_made Type None buf h (ret, m, h3(p - 0x10 := None))"
    using r(2) dead by (cases m) (auto simp: fun_eq_iff split: if_splits)
  ultimately show ?thesis by blast
qed

section \<open>What a receiver reads\<close>

text \<open>The structures of \<open>include/mfprotocol.h\<close> laid over the data of a message.\<close>

definition parse_key :: "bytes \<Rightarrow> MFCRYPTO_PUBLIC_KEY" where
  "parse_key b = \<lparr>pk_Enc = take 32 b, pk_Sign = take 32 (drop 32 b)\<rparr>"





lemma parse_key_bytes: "key_ok k \<Longrightarrow> parse_key (public_key_bytes k @ x) = k"
  by (simp add: key_ok_def parse_key_def public_key_bytes_def)





lemma write_at_0: "length x = length buf \<Longrightarrow> write_at buf 0 x = x"
  by (simp add: write_at_def)

lemma unat_of_nat_32: "n < 2 ^ 32 \<Longrightarrow> unat (of_nat n :: u32) = n"
  by (simp add: unat_of_nat)

lemma unat_of_nat_64: "n < 2 ^ 32 \<Longrightarrow> unat (of_nat n :: u64) = n"
  by (simp add: unat_of_nat)


text \<open>Allocators with one and with two blocks.\<close>

definition two_blocks :: "bytes allocator" where
  "two_blocks n h =
     (if h 0x1000 = None then Some 0x1000 else if h 0x2000 = None then Some 0x2000 else None)"

lemma two_blocks_ok: "alloc_fresh two_blocks" "heap_ok Map.empty"
  by (auto simp: alloc_fresh_def heap_ok_def two_blocks_def)

definition demo_key :: MFCRYPTO_PUBLIC_KEY where
  "demo_key = \<lparr>pk_Enc = replicate 32 1, pk_Sign = replicate 32 2\<rparr>"

lemma demo_key_ok: "key_ok demo_key"
  by (simp add: demo_key_def key_ok_def)

section \<open>Properties\<close>



text \<open>
  \<open>MFProtocol_ErrorMessage\<close> either runs out of memory and leaves the heap as it was, or makes
  one new message that holds the code, the length of the text with its terminator, and the text;
  the temporary buffer is gone in both cases.
\<close>

theorem MFProtocol_ErrorMessage_message:
  assumes "alloc_fresh os" "heap_ok h" "233 + length s < 2 ^ 32" "0 \<notin> set s"
  shows "\<exists>buf r. MFProtocol_ErrorMessage os code (Some (s @ 0 # t)) h = Inr r \<and>
    message_made (message_type_code mfmtError) None buf h r \<and>
    load32_le buf = code \<and> unat (load32_le (drop 4 buf)) = length s + 1 \<and> drop 8 buf = s @ [0]"
proof -
  let ?n = "Suc (length s)"
  let ?l = "8 + ?n"
  let ?buf = "store32_le code @ store32_le (of_nat ?n) @ s @ [0]"
  have lim: "unat (of_nat ?l :: u64) = ?l" using assms(3) by (intro unat_of_nat_64) simp
  have take: "take ?n (s @ 0 # t) = s @ [0]" by simp
  have len: "map_sum id Suc (strlen (s @ 0 # t)) = Inr ?n" by (simp add: strlen_append_0 [OF assms(4)])
  have fill: "error_fill code (s @ [0]) (replicate ?l 0) = Inr ?buf"
    by (simp add: error_fill_def write_at_0)
  have "8 + of_nat ?n = (of_nat ?l :: u64)" by simp
  then have eq: "MFProtocol_ErrorMessage os code (Some (s @ 0 # t)) h =
      temp_message os (message_type_code mfmtError) (of_nat ?l) (error_fill code (s @ [0])) h"
    unfolding MFProtocol_ErrorMessage_def option.case len rbind_simps take by simp
  have "224 + unat (of_nat ?l :: u64) < 2 ^ 32" unfolding lim using assms(3) by simp
  from temp_message_made [OF assms(1,2) this, of "error_fill code (s @ [0])" ?buf "message_type_code mfmtError"]
    fill obtain r where
    "MFProtocol_ErrorMessage os code (Some (s @ 0 # t)) h = Inr r"
    "message_made (message_type_code mfmtError) None ?buf h r"
    unfolding eq lim by auto
  moreover have "unat (load32_le (drop 4 ?buf)) = length s + 1"
    using unat_of_nat_32 [of ?n] assms(3) by simp
  ultimately show ?thesis by (intro exI [of _ ?buf] exI [of _ r]) simp
qed

lemma MFProtocol_ErrorMessage_message_witness:
  "\<exists>buf r. MFProtocol_ErrorMessage two_blocks 5 (Some [69, 114, 114, 0, 1]) Map.empty = Inr r \<and>
    message_made 9 None buf Map.empty r \<and> load32_le buf = 5 \<and> drop 8 buf = [69, 114, 114, 0]"
  using MFProtocol_ErrorMessage_message [OF two_blocks_ok, of "[69, 114, 114]" 5 "[1]"] by simp metis

text \<open>
  C23: \<open>MFProtocol_NewUserIn\<close> has defined behaviour exactly when the name fits the 64 bytes of its
  field: it never compares the two.  A name of exactly 64 characters goes out without a terminator.
\<close>

theorem MFProtocol_NewUserIn_bounds:
  assumes "alloc_fresh os" "heap_ok h" "0 \<notin> set name" "key_ok PK" "length rnd = 4"
  shows "(MFProtocol_NewUserIn os rnd (name @ 0 # t) PK e f h \<noteq> Inl Undef \<longleftrightarrow> length name \<le> 64) \<and>
    (length name \<le> 64 \<longrightarrow> (\<exists>buf r. MFProtocol_NewUserIn os rnd (name @ 0 # t) PK e f h = Inr r \<and>
      message_made (message_type_code mfmtNewUser) None buf h r \<and> length buf = 144 \<and>
      parse_key buf = PK \<and> load64_le (drop 64 buf) = e \<and> load32_le (drop 72 buf) = f \<and>
      takeWhile (\<lambda>c. c \<noteq> 0) (drop 80 buf) = name \<and> (0 \<in> set (drop 80 buf) \<longleftrightarrow> length name < 64)))"
proof (cases "length name \<le> 64")
  case False
  then show ?thesis by (simp add: MFProtocol_NewUserIn_def strlen_append_0 [OF assms(3)])
next
  case True
  let ?f = "name @ replicate (64 - length name) 0"
  let ?d = "\<lparr>nu_PublicKey = PK, nu_ExpirationDate = e, nu_Flags = f, nu_Padding = rnd, nu_Name = ?f\<rparr>"
  let ?buf = "public_key_bytes PK @ store64_le e @ store32_le f @ rnd @ ?f"
  have w: "write_at (replicate 64 0) 0 (take (length name) (name @ 0 # t)) = ?f"
    by (simp add: write_at_def)
  have eq: "MFProtocol_NewUserIn os rnd (name @ 0 # t) PK e f h =
      MFMessage_Alloc os (message_type_code mfmtNewUser) None None ?buf h"
    using True assms(5)
    by (simp only: MFProtocol_NewUserIn_def strlen_append_0 [OF assms(3)] rbind_simps require_simps simp_thms w)
      (simp add: new_user_bytes_def MFCrypto_RandomBuffer_def)
  have len: "length ?buf = 144" using True assms(4,5) by simp
  then have "224 + length ?buf < 2 ^ 32" by simp
  from MFMessage_Alloc_made [OF assms(1,2) this, of "message_type_code mfmtNewUser" None] obtain r where
    r: "MFProtocol_NewUserIn os rnd (name @ 0 # t) PK e f h = Inr r"
    "message_made (message_type_code mfmtNewUser) None ?buf h r" unfolding eq by blast
  have d: "drop 80 ?buf = ?f" "parse_key ?buf = PK" "load64_le (drop 64 ?buf) = e" "load32_le (drop 72 ?buf) = f"
    using assms(4,5) parse_key_bytes [OF assms(4)] by simp_all
  have "takeWhile (\<lambda>c. c \<noteq> 0) ?f = name" "0 \<in> set ?f \<longleftrightarrow> length name < 64"
    using assms(3) by (auto simp: takeWhile_append)
  then show ?thesis
    using True r d len by (intro conjI impI exI [of _ ?buf] exI [of _ r]) simp_all
qed

lemma MFProtocol_NewUserIn_bounds_witness:
  "MFProtocol_NewUserIn two_blocks [1, 2, 3, 4] (replicate 65 65 @ [0]) demo_key 7 1 Map.empty = Inl Undef \<and>
   MFProtocol_NewUserIn two_blocks [1, 2, 3, 4] (replicate 64 65 @ [0]) demo_key 7 1 Map.empty \<noteq> Inl Undef"
  using MFProtocol_NewUserIn_bounds [OF two_blocks_ok _ demo_key_ok, of "replicate 65 65" "[1, 2, 3, 4]" "[]" 7 1]
    MFProtocol_NewUserIn_bounds [OF two_blocks_ok _ demo_key_ok, of "replicate 64 65" "[1, 2, 3, 4]" "[]" 7 1]
  by simp

end
