(* ===== verification/Thread.thy ===== *)
theory Thread
  imports Memory
begin

text \<open>
  \<open>mfthread/mfthread.c\<close>: thread objects, and their life under interleaving.  The first part has the
  operations of the file on a heap of thread objects.  The second is a machine in which any number
  of threads are being created, run, used and closed at the same time; its steps are the atomic
  steps of \<open>MFThread_Create\<close>, of the wrapper routine that runs in the new thread, and of the owner of
  the handle.  The operating system decides when a thread can be created and when a step is taken.
\<close>

section \<open>Operations\<close>

record MF_THREAD =
  Routine :: u64
  th_Context :: u64
  th_ExitCode :: i32
  th_Terminated :: i32
  th_Finished :: i32
  th_Index :: u32
  ThreadHandle :: u64
  ThreadId :: u32

type_synonym thread_heap = "MF_THREAD heap"

definition zero_thread :: MF_THREAD where
  "zero_thread = \<lparr>Routine = 0, th_Context = 0, th_ExitCode = 0, th_Terminated = 0, th_Finished = 0,
     th_Index = 0, ThreadHandle = 0, ThreadId = 0\<rparr>"

definition sizeof_MF_THREAD :: u64 where
  "sizeof_MF_THREAD = 48"

text \<open>\<open>Thread->field = v\<close>\<close>

definition thread_write :: "u64 \<Rightarrow> (MF_THREAD \<Rightarrow> MF_THREAD) \<Rightarrow> thread_heap \<Rightarrow> thread_heap result" where
  "thread_write p f h = rbind (mem_read p h) (\<lambda>t. mem_write p (f t) h)"

text \<open>
  \<open>CreateThread\<close> is the argument \<open>ct\<close>: the handle and the id of the new thread, or the error code.
  The state is the heap with the counter \<open>_lastThreadIndex\<close>.  The result is the status, the thread
  handed out and the state.
\<close>

definition MFThread_Create ::
    "MF_THREAD allocator \<Rightarrow> (u64 \<times> u32, i32) sum \<Rightarrow> u64 \<Rightarrow> u64 \<Rightarrow> u32 \<Rightarrow> thread_heap \<Rightarrow>
     (i32 \<times> u64 option \<times> u32 \<times> thread_heap) result" where
  "MFThread_Create os ct R Ctx lastIndex h =
     rbind (MFGen_RefMemAlloc os (\<lambda>n. zero_thread) sizeof_MF_THREAD h) (\<lambda>(ret, p, h).
       case p of
         None \<Rightarrow> Inr (ret, None, lastIndex, h)
       | Some tmpThread \<Rightarrow>
           rbind (thread_write tmpThread (\<lambda>t. t\<lparr>Routine := R, th_Context := Ctx\<rparr>) h) (\<lambda>h.
           rbind (MFGen_RefMemAddRef tmpThread h) (\<lambda>h.
           let lastIndex = lastIndex + 1
           in rbind (thread_write tmpThread (\<lambda>t. t\<lparr>th_Index := lastIndex\<rparr>) h) (\<lambda>h.
              rbind (case ct of
                       Inl (hnd, tid) \<Rightarrow>
                         map_sum id (\<lambda>h. (0, h)) (thread_write tmpThread (\<lambda>t. t\<lparr>ThreadHandle := hnd, ThreadId := tid\<rparr>) h)
                     | Inr e \<Rightarrow> map_sum id (\<lambda>h. (e, h)) (MFGen_RefMemRelease tmpThread h)) (\<lambda>(ret, h).
              if ret = 0
              then rbind (MFGen_RefMemAddRef tmpThread h) (\<lambda>h.
                   rbind (MFGen_RefMemRelease tmpThread h) (\<lambda>h. Inr (ret, Some tmpThread, lastIndex, h)))
              else rbind (MFGen_RefMemRelease tmpThread h) (\<lambda>h. Inr (ret, None, lastIndex, h)))))))"

definition MFThread_Terminate :: "u64 \<Rightarrow> thread_heap \<Rightarrow> thread_heap result" where
  "MFThread_Terminate p h = thread_write p (\<lambda>t. t\<lparr>th_Terminated := 1\<rparr>) h"

text \<open>The handle that \<open>WaitForSingleObject\<close> waits for.\<close>

definition MFThread_WaitFor :: "u64 \<Rightarrow> thread_heap \<Rightarrow> u64 result" where
  "MFThread_WaitFor p h = map_sum id ThreadHandle (mem_read p h)"

text \<open>The handle that is closed, with the heap after the release.\<close>

definition MFThread_Close :: "u64 \<Rightarrow> thread_heap \<Rightarrow> (u64 \<times> thread_heap) result" where
  "MFThread_Close p h = rbind (mem_read p h) (\<lambda>t. map_sum id (\<lambda>h. (ThreadHandle t, h)) (MFGen_RefMemRelease p h))"

definition MFThread_Terminated :: "u64 \<Rightarrow> thread_heap \<Rightarrow> i32 result" where
  "MFThread_Terminated p h = map_sum id th_Terminated (mem_read p h)"

text \<open>The status, and the exit code if there is one.\<close>

definition MFThread_ExitCode :: "u64 \<Rightarrow> thread_heap \<Rightarrow> (i32 \<times> i32 option) result" where
  "MFThread_ExitCode p h =
     map_sum id (\<lambda>t. if th_Finished t \<noteq> 0 then (0, Some (th_ExitCode t)) else (- 1, None)) (mem_read p h)"

definition MFThread_Context :: "u64 \<Rightarrow> thread_heap \<Rightarrow> u64 result" where
  "MFThread_Context p h = map_sum id th_Context (mem_read p h)"

definition MFTHread_Index :: "u64 \<Rightarrow> thread_heap \<Rightarrow> u32 result" where
  "MFTHread_Index p h = map_sum id th_Index (mem_read p h)"

text \<open>
  The wrapper that runs in the new thread.  \<open>code\<close> is what the routine returned; it returns the exit
  code of the thread and the heap after it dropped its reference.
\<close>

definition MFThreadWrapperRoutine :: "u64 \<Rightarrow> i32 \<Rightarrow> thread_heap \<Rightarrow> (i32 \<times> thread_heap) result" where
  "MFThreadWrapperRoutine p code h =
     rbind (thread_write p (\<lambda>t. t\<lparr>th_ExitCode := code\<rparr>) h) (\<lambda>h.
     rbind (thread_write p (\<lambda>t. t\<lparr>th_Finished := 1\<rparr>) h) (\<lambda>h.
     rbind (mem_read p h) (\<lambda>t.
     rbind (MFGen_RefMemRelease p h) (\<lambda>h. Inr (th_ExitCode t, h)))))"

section \<open>The machine\<close>

text \<open>
  Where a call of \<open>MFThread_Create\<close> stands: the step it takes next.  The reference the wrapper will
  drop is taken in \<open>C_AddRef\<close>, before the thread exists.
\<close>

datatype create_pc =
  C_Idle | C_AddRef | C_Index | C_CreateThread | C_SetHandle u64 u32 | C_Undo i32 | C_Publish | C_Release i32 |
  C_Returned i32

text \<open>Where the wrapper routine in the new thread stands, and where the owner of the handle.\<close>

datatype wrapper_pc = W_None | W_Run | W_Finish | W_Read | W_Release i32 | W_Done i32

datatype client_pc = K_None | K_Open | K_Release | K_Closed

fun wrapper_done :: "wrapper_pc \<Rightarrow> bool" where
  "wrapper_done (W_Done c) = True"
| "wrapper_done pc = False"

record thread_inst =
  ti_ptr :: u64
  ti_creator :: create_pc
  ti_wrapper :: wrapper_pc
  ti_client :: client_pc

record thread_sys =
  ts_heap :: thread_heap
  ts_lastIndex :: u32
  ts_inst :: "nat \<Rightarrow> thread_inst"

datatype thread_use = U_Terminate | U_Terminated | U_ExitCode | U_Context | U_Index

text \<open>
  The actions.  \<open>Begin\<close> is a call of \<open>MFThread_Create\<close>; \<open>OsCreated\<close> and \<open>OsRefused\<close> are the two
  outcomes of \<open>CreateThread\<close>; \<open>RoutineReturns\<close> ends the routine of a thread with an exit code;
  \<open>WaitFor\<close> can be taken when the thread has ended.
\<close>

datatype thread_action =
  Begin nat u64 u64 | Creator nat | OsCreated nat u64 u32 | OsRefused nat i32 |
  RoutineUses nat thread_use | RoutineReturns nat i32 | Wrapper nat |
  ClientUses nat thread_use | WaitFor nat | ClientCloses nat | ClientReleases nat

fun use_thread :: "thread_use \<Rightarrow> u64 \<Rightarrow> thread_heap \<Rightarrow> thread_heap result" where
  "use_thread U_Terminate p h = MFThread_Terminate p h"
| "use_thread U_Terminated p h = map_sum id (\<lambda>_. h) (MFThread_Terminated p h)"
| "use_thread U_ExitCode p h = map_sum id (\<lambda>_. h) (MFThread_ExitCode p h)"
| "use_thread U_Context p h = map_sum id (\<lambda>_. h) (MFThread_Context p h)"
| "use_thread U_Index p h = map_sum id (\<lambda>_. h) (MFTHread_Index p h)"

text \<open>The system after an operation on the heap, with an instance moved on.\<close>

definition advance :: "thread_sys \<Rightarrow> nat \<Rightarrow> thread_inst \<Rightarrow> thread_heap result \<Rightarrow> thread_sys result option" where
  "advance s i x r = Some (map_sum id (\<lambda>h. s\<lparr>ts_heap := h, ts_inst := (ts_inst s)(i := x)\<rparr>) r)"

text \<open>One atomic step of \<open>MFThread_Create\<close> that does not ask the system.\<close>

fun creator_step :: "nat \<Rightarrow> thread_sys \<Rightarrow> thread_sys result option" where
  "creator_step i s =
     (let x = ts_inst s i; p = ti_ptr x; h = ts_heap s
      in case ti_creator x of
           C_AddRef \<Rightarrow> advance s i (x\<lparr>ti_creator := C_Index\<rparr>) (MFGen_RefMemAddRef p h)
         | C_Index \<Rightarrow>
             (let s = s\<lparr>ts_lastIndex := ts_lastIndex s + 1\<rparr>
              in advance s i (x\<lparr>ti_creator := C_CreateThread\<rparr>)
                   (thread_write p (\<lambda>t. t\<lparr>th_Index := ts_lastIndex s\<rparr>) h))
         | C_SetHandle hnd tid \<Rightarrow>
             advance s i (x\<lparr>ti_creator := C_Publish\<rparr>) (thread_write p (\<lambda>t. t\<lparr>ThreadHandle := hnd, ThreadId := tid\<rparr>) h)
         | C_Undo e \<Rightarrow>
             advance s i (x\<lparr>ti_creator := if e = 0 then C_Publish else C_Release e\<rparr>) (MFGen_RefMemRelease p h)
         | C_Publish \<Rightarrow>
             advance s i (x\<lparr>ti_creator := C_Release 0, ti_client := K_Open\<rparr>) (MFGen_RefMemAddRef p h)
         | C_Release e \<Rightarrow> advance s i (x\<lparr>ti_creator := C_Returned e\<rparr>) (MFGen_RefMemRelease p h)
         | _ \<Rightarrow> None)"

text \<open>One atomic step of the wrapper after the routine has returned.\<close>

fun wrapper_step :: "nat \<Rightarrow> thread_sys \<Rightarrow> thread_sys result option" where
  "wrapper_step i s =
     (let x = ts_inst s i; p = ti_ptr x; h = ts_heap s
      in case ti_wrapper x of
           W_Finish \<Rightarrow> advance s i (x\<lparr>ti_wrapper := W_Read\<rparr>) (thread_write p (\<lambda>t. t\<lparr>th_Finished := 1\<rparr>) h)
         | W_Read \<Rightarrow>
             (case mem_read p h of
                Inl e \<Rightarrow> Some (Inl e)
              | Inr t \<Rightarrow> advance s i (x\<lparr>ti_wrapper := W_Release (th_ExitCode t)\<rparr>) (Inr h))
         | W_Release c \<Rightarrow> advance s i (x\<lparr>ti_wrapper := W_Done c\<rparr>) (MFGen_RefMemRelease p h)
         | _ \<Rightarrow> None)"

text \<open>
  An action that is not possible in a state gives \<open>None\<close>; one that is gives the next state, or
  \<open>Inl Undef\<close> when it touches freed memory.  The owner uses the handle once the call has returned.
\<close>

fun thread_exec :: "MF_THREAD allocator \<Rightarrow> thread_action \<Rightarrow> thread_sys \<Rightarrow> thread_sys result option" where
  "thread_exec os (Begin i R Ctx) s =
     (let x = ts_inst s i
      in if ti_creator x = C_Idle
         then case MFGen_RefMemAlloc os (\<lambda>n. zero_thread) sizeof_MF_THREAD (ts_heap s) of
                Inl e \<Rightarrow> Some (Inl e)
              | Inr (ret, None, h) \<Rightarrow> advance s i (x\<lparr>ti_creator := C_Returned ret\<rparr>) (Inr h)
              | Inr (ret, Some p, h) \<Rightarrow>
                  advance s i (x\<lparr>ti_ptr := p, ti_creator := C_AddRef\<rparr>)
                    (thread_write p (\<lambda>t. t\<lparr>Routine := R, th_Context := Ctx\<rparr>) h)
         else None)"
| "thread_exec os (Creator i) s = creator_step i s"
| "thread_exec os (OsCreated i hnd tid) s =
     (if ti_creator (ts_inst s i) = C_CreateThread
      then advance s i ((ts_inst s i)\<lparr>ti_creator := C_SetHandle hnd tid, ti_wrapper := W_Run\<rparr>) (Inr (ts_heap s))
      else None)"
| "thread_exec os (OsRefused i e) s =
     (if ti_creator (ts_inst s i) = C_CreateThread
      then advance s i ((ts_inst s i)\<lparr>ti_creator := C_Undo e\<rparr>) (Inr (ts_heap s))
      else None)"
| "thread_exec os (RoutineUses i u) s =
     (if ti_wrapper (ts_inst s i) = W_Run
      then advance s i (ts_inst s i) (use_thread u (ti_ptr (ts_inst s i)) (ts_heap s))
      else None)"
| "thread_exec os (RoutineReturns i c) s =
     (if ti_wrapper (ts_inst s i) = W_Run
      then advance s i ((ts_inst s i)\<lparr>ti_wrapper := W_Finish\<rparr>)
             (thread_write (ti_ptr (ts_inst s i)) (\<lambda>t. t\<lparr>th_ExitCode := c\<rparr>) (ts_heap s))
      else None)"
| "thread_exec os (Wrapper i) s = wrapper_step i s"
| "thread_exec os (ClientUses i u) s =
     (if ti_client (ts_inst s i) = K_Open \<and> ti_creator (ts_inst s i) = C_Returned 0
      then advance s i (ts_inst s i) (use_thread u (ti_ptr (ts_inst s i)) (ts_heap s))
      else None)"
| "thread_exec os (WaitFor i) s =
     (if ti_client (ts_inst s i) = K_Open \<and> ti_creator (ts_inst s i) = C_Returned 0 \<and>
         wrapper_done (ti_wrapper (ts_inst s i))
      then advance s i (ts_inst s i) (map_sum id (\<lambda>_. ts_heap s) (MFThread_WaitFor (ti_ptr (ts_inst s i)) (ts_heap s)))
      else None)"
| "thread_exec os (ClientCloses i) s =
     (if ti_client (ts_inst s i) = K_Open \<and> ti_creator (ts_inst s i) = C_Returned 0
      then advance s i ((ts_inst s i)\<lparr>ti_client := K_Release\<rparr>)
             (map_sum id (\<lambda>_. ts_heap s) (mem_read (ti_ptr (ts_inst s i)) (ts_heap s)))
      else None)"
| "thread_exec os (ClientReleases i) s =
     (if ti_client (ts_inst s i) = K_Release
      then advance s i ((ts_inst s i)\<lparr>ti_client := K_Closed\<rparr>)
             (MFGen_RefMemRelease (ti_ptr (ts_inst s i)) (ts_heap s))
      else None)"

text \<open>The states reached from a heap with no call under way.\<close>

definition thread_start :: "thread_heap \<Rightarrow> u32 \<Rightarrow> thread_sys" where
  "thread_start h n =
     \<lparr>ts_heap = h, ts_lastIndex = n,
      ts_inst = (\<lambda>i. \<lparr>ti_ptr = 0, ti_creator = C_Idle, ti_wrapper = W_None, ti_client = K_None\<rparr>)\<rparr>"

inductive thread_reach :: "MF_THREAD allocator \<Rightarrow> thread_sys \<Rightarrow> thread_sys \<Rightarrow> bool" for os s0 where
  start: "thread_reach os s0 s0"
| step: "thread_reach os s0 s \<Longrightarrow> thread_exec os a s = Some (Inr s') \<Longrightarrow> thread_reach os s0 s'"

section \<open>The references each part holds\<close>

fun creator_refs :: "create_pc \<Rightarrow> nat" where
  "creator_refs C_Idle = 0"
| "creator_refs C_AddRef = 1"
| "creator_refs C_Index = 2"
| "creator_refs C_CreateThread = 2"
| "creator_refs (C_SetHandle hnd tid) = 1"
| "creator_refs (C_Undo e) = 2"
| "creator_refs C_Publish = 1"
| "creator_refs (C_Release e) = 1"
| "creator_refs (C_Returned e) = 0"

fun wrapper_refs :: "wrapper_pc \<Rightarrow> nat" where
  "wrapper_refs W_None = 0"
| "wrapper_refs (W_Done c) = 0"
| "wrapper_refs pc = 1"

fun client_refs :: "client_pc \<Rightarrow> nat" where
  "client_refs K_Open = 1"
| "client_refs K_Release = 1"
| "client_refs pc = 0"

definition held :: "thread_inst \<Rightarrow> nat" where
  "held x = creator_refs (ti_creator x) + wrapper_refs (ti_wrapper x) + client_refs (ti_client x)"

text \<open>The thread starts after the reference it will drop is taken, the owner after the publication.\<close>

fun before_thread :: "create_pc \<Rightarrow> bool" where
  "before_thread C_Idle = True"
| "before_thread C_AddRef = True"
| "before_thread C_Index = True"
| "before_thread C_CreateThread = True"
| "before_thread (C_Undo e) = True"
| "before_thread pc = False"

fun before_publish :: "create_pc \<Rightarrow> bool" where
  "before_publish C_Publish = True"
| "before_publish (C_SetHandle hnd tid) = True"
| "before_publish pc = before_thread pc"

definition pcs_ok :: "thread_inst \<Rightarrow> bool" where
  "pcs_ok x \<longleftrightarrow> (before_thread (ti_creator x) \<longrightarrow> ti_wrapper x = W_None) \<and>
     (before_publish (ti_creator x) \<longrightarrow> ti_client x = K_None)"

text \<open>What the wrapper has left in the object.\<close>

fun wrapper_content :: "wrapper_pc \<Rightarrow> MF_THREAD \<Rightarrow> bool" where
  "wrapper_content W_Read t = (th_Finished t = 1)"
| "wrapper_content (W_Release c) t = (th_Finished t = 1 \<and> th_ExitCode t = c)"
| "wrapper_content (W_Done c) t = (th_Finished t = 1 \<and> th_ExitCode t = c)"
| "wrapper_content pc t = True"

text \<open>
  The invariant, relative to the heap at the start: every object in use has as many references as
  its parts hold, objects of different instances are different, and all other blocks are as they
  were.
\<close>

definition inst_ok :: "thread_heap \<Rightarrow> thread_heap \<Rightarrow> thread_inst \<Rightarrow> bool" where
  "inst_ok h0 h x \<longleftrightarrow> pcs_ok x \<and> (0 < held x \<longrightarrow> refs h (ti_ptr x) = held x \<and> h0 (ti_ptr x - 0x10) = None \<and>
     (\<forall>t. mem_read (ti_ptr x) h = Inr t \<longrightarrow> wrapper_content (ti_wrapper x) t))"

definition thread_inv :: "thread_heap \<Rightarrow> thread_sys \<Rightarrow> bool" where
  "thread_inv h0 s \<longleftrightarrow> heap_ok (ts_heap s) \<and> (\<forall>i. inst_ok h0 (ts_heap s) (ts_inst s i)) \<and>
     (\<forall>i j. i \<noteq> j \<and> 0 < held (ts_inst s i) \<and> 0 < held (ts_inst s j) \<longrightarrow>
        ti_ptr (ts_inst s i) \<noteq> ti_ptr (ts_inst s j)) \<and>
     (\<forall>q. (\<forall>i. 0 < held (ts_inst s i) \<longrightarrow> ti_ptr (ts_inst s i) \<noteq> q) \<longrightarrow> ts_heap s (q - 0x10) = h0 (q - 0x10))"

lemma held_le: "pcs_ok x \<Longrightarrow> held x \<le> 3"
  by (cases "ti_creator x"; cases "ti_wrapper x"; cases "ti_client x") (simp_all add: held_def pcs_ok_def)

section \<open>The invariant is kept\<close>

text \<open>What an atomic step does to the object \<open>p\<close>: \<open>k\<close> references are left, the content is changed by \<open>f\<close>.\<close>

definition own_step :: "u64 \<Rightarrow> (MF_THREAD \<Rightarrow> MF_THREAD) \<Rightarrow> nat \<Rightarrow> thread_heap \<Rightarrow> thread_heap result \<Rightarrow> bool" where
  "own_step p f k h r \<longleftrightarrow> (\<exists>h'. r = Inr h' \<and> heap_ok h' \<and> refs h' = (refs h)(p := k) \<and>
     (\<forall>a. a \<noteq> p - 0x10 \<longrightarrow> h' a = h a) \<and>
     (\<forall>t'. mem_read p h' = Inr t' \<longrightarrow> (\<exists>t. mem_read p h = Inr t \<and> t' = f t)))"

lemma mem_read_alive: "0 < refs h p \<Longrightarrow> \<exists>t. mem_read p h = Inr t"
  by (auto simp: mem_read_def dest: refs_pos)

lemma own_step_write:
  assumes "heap_ok h" "0 < refs h p"
  shows "own_step p f (refs h p) h (thread_write p f h)"
proof -
  obtain b where b: "h (p - 0x10) = Some b" "refs h p = unat (RefCount b)" using refs_pos [OF assms(2)] by blast
  let ?h = "h(p - 0x10 \<mapsto> b\<lparr>Contents := f (Contents b)\<rparr>)"
  have "thread_write p f h = Inr ?h" by (simp add: thread_write_def mem_read_def mem_write_def b)
  moreover have "heap_ok ?h" using assms(1) heap_okD [OF assms(1) b(1)] by (auto simp: heap_ok_def)
  moreover have "refs ?h = (refs h)(p := refs h p)" using b(2) by (simp add: refs_upd)
  moreover have "mem_read p h = Inr (Contents b)" "mem_read p ?h = Inr (f (Contents b))"
    by (simp_all add: mem_read_def b(1))
  ultimately show ?thesis unfolding own_step_def by (intro exI [of _ ?h]) simp
qed

lemma own_step_contents:
  "MFGen_RefMemAddRef q h = Inr h' \<Longrightarrow> mem_read p h' = Inr t \<Longrightarrow> mem_read p h = Inr t"
  "MFGen_RefMemRelease q h = Inr h' \<Longrightarrow> mem_read p h' = Inr t \<Longrightarrow> mem_read p h = Inr t"
  by (auto simp: mem_read_def split: option.splits dest!: rc_step_contents [of q h h' "p - 0x10"])

lemma own_step_addref:
  assumes "heap_ok h" "0 < refs h p" "refs h p \<le> 3"
  shows "own_step p id (Suc (refs h p)) h (MFGen_RefMemAddRef p h)"
proof -
  obtain h' where "MFGen_RefMemAddRef p h = Inr h'" "heap_ok h'" "refs h' = (refs h)(p := Suc (refs h p))"
    using refmem.addref [OF assms(1,2)] assms(3) by auto
  then show ?thesis
    unfolding own_step_def using rc_step_frame(1) [of p h h'] own_step_contents(1) [of p h h' p]
    by (intro exI [of _ h']) auto
qed

lemma own_step_release:
  assumes "heap_ok h" "0 < refs h p"
  shows "own_step p id (refs h p - 1) h (MFGen_RefMemRelease p h)"
proof -
  obtain h' where "MFGen_RefMemRelease p h = Inr h'" "heap_ok h'" "refs h' = (refs h)(p := refs h p - 1)"
    using refmem.release [OF assms(1,2)] by auto
  then show ?thesis
    unfolding own_step_def using rc_step_frame(2) [of p h h'] own_step_contents(2) [of p h h' p]
    by (intro exI [of _ h']) auto
qed

lemma own_step_none:
  assumes "heap_ok h" shows "own_step p id (refs h p) h (Inr h)"
  using assms by (simp add: own_step_def)

lemma own_step_use:
  assumes "heap_ok h" "0 < refs h p"
  shows "\<exists>f. own_step p f (refs h p) h (use_thread u p h) \<and>
    (\<forall>t. th_Finished (f t) = th_Finished t \<and> th_ExitCode (f t) = th_ExitCode t)"
proof (cases u)
  case U_Terminate
  then show ?thesis using own_step_write [OF assms, of "\<lambda>t. t\<lparr>th_Terminated := 1\<rparr>"]
    by (intro exI [of _ "\<lambda>t. t\<lparr>th_Terminated := 1\<rparr>"]) (simp add: MFThread_Terminate_def)
qed (use mem_read_alive [OF assms(2)] own_step_none [OF assms(1), of p] in
  \<open>auto simp: MFThread_Terminated_def MFThread_ExitCode_def MFThread_Context_def MFTHread_Index_def
    intro!: exI [of _ id]\<close>)

text \<open>A step of one instance that touches its own object only.\<close>

lemma thread_inv_own:
  assumes "thread_inv h0 s" "0 < held (ts_inst s i)" "ti_ptr x = ti_ptr (ts_inst s i)" "pcs_ok x" "heap_ok h"
    "refs h = (refs (ts_heap s))(ti_ptr x := held x)" "\<And>a. a \<noteq> ti_ptr x - 0x10 \<Longrightarrow> h a = ts_heap s a"
    "\<And>t. mem_read (ti_ptr x) h = Inr t \<Longrightarrow> wrapper_content (ti_wrapper x) t"
  shows "thread_inv h0 (s\<lparr>ts_heap := h, ts_inst := (ts_inst s)(i := x)\<rparr>)"
proof -
  let ?p = "ti_ptr x"
  have old: "h0 (?p - 0x10) = None"
    using assms(1-3) by (auto simp: thread_inv_def inst_ok_def)
  have other: "ti_ptr (ts_inst s j) \<noteq> ?p" if "j \<noteq> i" "0 < held (ts_inst s j)" for j
    using assms(1-3) that by (auto simp: thread_inv_def)
  have "inst_ok h0 h (ts_inst s j)" if "j \<noteq> i" for j
  proof -
    have o: "inst_ok h0 (ts_heap s) (ts_inst s j)" using assms(1) by (simp add: thread_inv_def)
    show ?thesis
    proof (cases "0 < held (ts_inst s j)")
      case True
      then have ne: "ti_ptr (ts_inst s j) \<noteq> ?p" using other that by blast
      then have "mem_read (ti_ptr (ts_inst s j)) h = mem_read (ti_ptr (ts_inst s j)) (ts_heap s)"
        using assms(7) by (simp add: mem_read_def)
      then show ?thesis using o ne assms(6) by (simp add: inst_ok_def)
    qed (use o in \<open>simp add: inst_ok_def\<close>)
  qed
  moreover have "inst_ok h0 h x" using assms(4,6,8) old by (simp add: inst_ok_def)
  moreover have "h (q - 0x10) = h0 (q - 0x10)"
    if q: "\<forall>j. 0 < held (((ts_inst s)(i := x)) j) \<longrightarrow> ti_ptr (((ts_inst s)(i := x)) j) \<noteq> q" for q
  proof (cases "q = ?p")
    case True
    then have "held x = 0" using q [rule_format, of i] by auto
    then have "h (?p - 0x10) = None" using refs_alive [OF assms(5), of ?p] assms(6) by simp
    then show ?thesis using old True by simp
  next
    case False
    have "ti_ptr (ts_inst s j) \<noteq> q" if "0 < held (ts_inst s j)" for j
      using q [rule_format, of j] that assms(3) False by (cases "j = i") auto
    then have "ts_heap s (q - 0x10) = h0 (q - 0x10)" using assms(1) by (simp add: thread_inv_def)
    then show ?thesis using assms(7) False by simp
  qed
  moreover have "ti_ptr (((ts_inst s)(i := x)) j) \<noteq> ti_ptr (((ts_inst s)(i := x)) k)"
    if "j \<noteq> k" "0 < held (((ts_inst s)(i := x)) j)" "0 < held (((ts_inst s)(i := x)) k)" for j k
    using that other [of j] other [of k] assms(1) by (cases "j = i"; cases "k = i") (auto simp: thread_inv_def)
  ultimately show ?thesis using assms(5) by (simp add: thread_inv_def)
qed

lemma thread_inv_lastIndex [simp]: "thread_inv h0 (s\<lparr>ts_lastIndex := n\<rparr>) = thread_inv h0 s"
  by (simp add: thread_inv_def)

lemma advance_own:
  assumes "thread_inv h0 s" "0 < held (ts_inst s i)" "ti_ptr x = ti_ptr (ts_inst s i)" "pcs_ok x"
    "own_step (ti_ptr (ts_inst s i)) f (held x) (ts_heap s) r"
    "\<And>t. mem_read (ti_ptr (ts_inst s i)) (ts_heap s) = Inr t \<Longrightarrow> wrapper_content (ti_wrapper (ts_inst s i)) t \<Longrightarrow>
      wrapper_content (ti_wrapper x) (f t)"
  shows "\<exists>s'. advance s i x r = Some (Inr s') \<and> thread_inv h0 s'"
proof -
  from assms(5) obtain h' where h': "r = Inr h'" "heap_ok h'" "refs h' = (refs (ts_heap s))(ti_ptr x := held x)"
    "\<forall>a. a \<noteq> ti_ptr x - 0x10 \<longrightarrow> h' a = ts_heap s a"
    "\<forall>t'. mem_read (ti_ptr x) h' = Inr t' \<longrightarrow> (\<exists>t. mem_read (ti_ptr x) (ts_heap s) = Inr t \<and> t' = f t)"
    by (auto simp: own_step_def assms(3))
  have old: "inst_ok h0 (ts_heap s) (ts_inst s i)" using assms(1) by (simp add: thread_inv_def)
  have "wrapper_content (ti_wrapper x) t'" if r: "mem_read (ti_ptr x) h' = Inr t'" for t'
  proof -
    from h'(5) r obtain t where t: "mem_read (ti_ptr x) (ts_heap s) = Inr t" "t' = f t" by blast
    then have "wrapper_content (ti_wrapper (ts_inst s i)) t" using old assms(2,3) by (simp add: inst_ok_def)
    then show ?thesis using assms(6) t assms(3) by simp
  qed
  then have "thread_inv h0 (s\<lparr>ts_heap := h', ts_inst := (ts_inst s)(i := x)\<rparr>)"
    using thread_inv_own [OF assms(1-4) h'(2,3)] h'(4) by blast
  then show ?thesis by (simp add: advance_def h'(1))
qed

lemma thread_invD:
  assumes "thread_inv h0 s"
  shows "heap_ok (ts_heap s)" "pcs_ok (ts_inst s i)" "held (ts_inst s i) \<le> 3"
    "0 < held (ts_inst s i) \<Longrightarrow> refs (ts_heap s) (ti_ptr (ts_inst s i)) = held (ts_inst s i)"
  using assms held_le [of "ts_inst s i"] by (auto simp: thread_inv_def inst_ok_def)

lemma creator_step_inv:
  assumes inv: "thread_inv h0 s" and step: "creator_step i s = Some r"
  shows "\<exists>s'. r = Inr s' \<and> thread_inv h0 s'"
proof -
  let ?x = "ts_inst s i" and ?h = "ts_heap s"
  let ?p = "ti_ptr ?x"
  have pos: "0 < held ?x" using step by (cases "ti_creator ?x") (simp_all add: held_def Let_def)
  note D = thread_invD(1) [OF inv] thread_invD(2-4) [OF inv, of i]
  note rf = D(4) [OF pos]
  have alive: "0 < refs ?h ?p" using rf pos by simp
  note own = advance_own [OF inv pos]
  note wr = own_step_write [OF D(1) alive, unfolded rf] and ad = own_step_addref [OF D(1) alive, unfolded rf]
    and re = own_step_release [OF D(1) alive, unfolded rf]
  consider "ti_creator ?x = C_AddRef" | "ti_creator ?x = C_Index" | hnd tid where "ti_creator ?x = C_SetHandle hnd tid"
    | e where "ti_creator ?x = C_Undo e" | "ti_creator ?x = C_Publish" | e where "ti_creator ?x = C_Release e"
    using step by (cases "ti_creator ?x") (auto simp: Let_def)
  then show ?thesis
  proof cases
    case 1
    let ?y = "?x\<lparr>ti_creator := C_Index\<rparr>"
    have "held ?y = Suc (held ?x)" "pcs_ok ?y" using 1 D(2) by (simp_all add: held_def pcs_ok_def)
    then show ?thesis using own [of ?y id "MFGen_RefMemAddRef ?p ?h"] ad D(3) step 1 by (auto simp: Let_def)
  next
    case 2
    let ?y = "?x\<lparr>ti_creator := C_CreateThread\<rparr>"
    let ?s = "s\<lparr>ts_lastIndex := ts_lastIndex s + 1\<rparr>"
    let ?f = "\<lambda>t. t\<lparr>th_Index := ts_lastIndex s + 1\<rparr> :: MF_THREAD"
    have y: "held ?y = held ?x" "pcs_ok ?y" using 2 D(2) by (simp_all add: held_def pcs_ok_def)
    have "wrapper_content w t \<Longrightarrow> wrapper_content w (?f t)" for w t by (cases w) simp_all
    then show ?thesis
      using advance_own [of h0 ?s i ?y ?f "thread_write ?p ?f ?h"] inv pos wr [of ?f] y step 2
      by (auto simp: Let_def)
  next
    case 3
    let ?y = "?x\<lparr>ti_creator := C_Publish\<rparr>"
    let ?f = "\<lambda>t. t\<lparr>ThreadHandle := hnd, ThreadId := tid\<rparr> :: MF_THREAD"
    have y: "held ?y = held ?x" "pcs_ok ?y" using 3 D(2) by (simp_all add: held_def pcs_ok_def)
    have "wrapper_content w t \<Longrightarrow> wrapper_content w (?f t)" for w t by (cases w) simp_all
    then show ?thesis
      using own [of ?y ?f "thread_write ?p ?f ?h"] wr [of ?f] y step 3 by (auto simp: Let_def)
  next
    case 4
    let ?y = "?x\<lparr>ti_creator := if e = 0 then C_Publish else C_Release e\<rparr>"
    have "held ?y = held ?x - 1" "pcs_ok ?y" using 4 D(2) by (simp_all add: held_def pcs_ok_def)
    then show ?thesis using own [of ?y id "MFGen_RefMemRelease ?p ?h"] re step 4 by (auto simp: Let_def)
  next
    case 5
    let ?y = "?x\<lparr>ti_creator := C_Release 0, ti_client := K_Open\<rparr>"
    have "held ?y = Suc (held ?x)" "pcs_ok ?y" using 5 D(2) by (simp_all add: held_def pcs_ok_def)
    then show ?thesis using own [of ?y id "MFGen_RefMemAddRef ?p ?h"] ad D(3) step 5 by (auto simp: Let_def)
  next
    case 6
    let ?y = "?x\<lparr>ti_creator := C_Returned e\<rparr>"
    have "held ?y = held ?x - 1" "pcs_ok ?y" using 6 D(2) by (simp_all add: held_def pcs_ok_def)
    then show ?thesis using own [of ?y id "MFGen_RefMemRelease ?p ?h"] re step 6 by (auto simp: Let_def)
  qed
qed

lemma wrapper_step_inv:
  assumes inv: "thread_inv h0 s" and step: "wrapper_step i s = Some r"
  shows "\<exists>s'. r = Inr s' \<and> thread_inv h0 s'"
proof -
  let ?x = "ts_inst s i" and ?h = "ts_heap s"
  let ?p = "ti_ptr ?x"
  have pos: "0 < held ?x" using step by (cases "ti_wrapper ?x") (simp_all add: held_def Let_def)
  note D = thread_invD(1) [OF inv] thread_invD(2-4) [OF inv, of i]
  note rf = D(4) [OF pos]
  have alive: "0 < refs ?h ?p" using rf pos by simp
  note own = advance_own [OF inv pos]
  consider "ti_wrapper ?x = W_Finish" | "ti_wrapper ?x = W_Read" | c where "ti_wrapper ?x = W_Release c"
    using step by (cases "ti_wrapper ?x") (auto simp: Let_def)
  then show ?thesis
  proof cases
    case 1
    let ?y = "?x\<lparr>ti_wrapper := W_Read\<rparr>"
    have y: "held ?y = held ?x" "pcs_ok ?y" using 1 D(2) by (simp_all add: held_def pcs_ok_def)
    let ?f = "\<lambda>t. t\<lparr>th_Finished := 1\<rparr> :: MF_THREAD"
    show ?thesis
      using own [of ?y ?f "thread_write ?p ?f ?h"] own_step_write [OF D(1) alive, of ?f, unfolded rf] y step 1
      by (auto simp: Let_def)
  next
    case 2
    obtain t where t: "mem_read ?p ?h = Inr t" using mem_read_alive [OF alive] by blast
    let ?y = "?x\<lparr>ti_wrapper := W_Release (th_ExitCode t)\<rparr>"
    have y: "held ?y = held ?x" "pcs_ok ?y" using 2 D(2) by (simp_all add: held_def pcs_ok_def)
    then show ?thesis
      using own [of ?y id "Inr ?h"] own_step_none [OF D(1), of ?p, unfolded rf] step 2 t by (auto simp: Let_def)
  next
    case 3
    let ?y = "?x\<lparr>ti_wrapper := W_Done c\<rparr>"
    have "held ?y = held ?x - 1" "pcs_ok ?y" using 3 D(2) by (simp_all add: held_def pcs_ok_def)
    then show ?thesis
      using own [of ?y id "MFGen_RefMemRelease ?p ?h"] own_step_release [OF D(1) alive, unfolded rf] step 3
      by (auto simp: Let_def)
  qed
qed

lemma Begin_inv:
  assumes inv: "thread_inv h0 s" and os: "alloc_fresh os" and step: "thread_exec os (Begin i R Ctx) s = Some r"
  shows "\<exists>s'. r = Inr s' \<and> thread_inv h0 s'"
proof -
  let ?x = "ts_inst s i" and ?h = "ts_heap s"
  note D = thread_invD(1) [OF inv] thread_invD(2) [OF inv, of i]
  have idle: "ti_creator ?x = C_Idle" using step by (simp add: Let_def split: if_splits)
  then have h0: "held ?x = 0" using D(2) by (simp add: pcs_ok_def held_def)
  show ?thesis
  proof (cases "os (sizeof_MF_THREAD + 0x10) ?h")
    case None
    let ?y = "?x\<lparr>ti_creator := C_Returned E_OUTOFMEMORY\<rparr>"
    have "held ?y = 0" "pcs_ok ?y" using idle D(2) by (simp_all add: pcs_ok_def held_def)
    then have "thread_inv h0 (s\<lparr>ts_inst := (ts_inst s)(i := ?y)\<rparr>)"
      using inv h0 unfolding thread_inv_def inst_ok_def by (auto split: if_splits) (metis less_irrefl)
    then show ?thesis using step idle RefMemAlloc_fail [of os, OF None] by (simp add: advance_def Let_def) auto
  next
    case (Some a)
    have "unat sizeof_MF_THREAD + 16 < 2 ^ 64" by (simp add: sizeof_MF_THREAD_def)
    from RefMemAlloc_ok [OF os D(1) this Some, of "\<lambda>n. zero_thread"] obtain p h1 where
      al: "MFGen_RefMemAlloc os (\<lambda>n. zero_thread) sizeof_MF_THREAD ?h = Inr (0, Some p, h1)" "refs ?h p = 0"
      "heap_ok h1" "refs h1 = (refs ?h)(p := 1)" and
      h1: "h1 = ?h(p - 0x10 \<mapsto> \<lparr>RefCount = 1, Contents = zero_thread\<rparr>)" by blast
    let ?y = "?x\<lparr>ti_ptr := p, ti_creator := C_AddRef\<rparr>"
    have y: "held ?y = 1" "pcs_ok ?y" using idle D(2) by (simp_all add: pcs_ok_def held_def)
    have new: "ti_ptr (ts_inst s j) \<noteq> p" if "0 < held (ts_inst s j)" for j
      using thread_invD(4) [OF inv that] al(2) that by auto
    have "?h (p - 0x10) = h0 (p - 0x10)" using inv new unfolding thread_inv_def by blast
    then have dead: "h0 (p - 0x10) = None" using refs_alive [OF D(1), of p] al(2) by auto
    let ?s = "s\<lparr>ts_heap := h1, ts_inst := (ts_inst s)(i := ?y)\<rparr>"
    have "inst_ok h0 h1 (ts_inst s j)" for j
    proof (cases "0 < held (ts_inst s j)")
      case True
      then have "mem_read (ti_ptr (ts_inst s j)) h1 = mem_read (ti_ptr (ts_inst s j)) ?h"
        using new [OF True] by (simp add: mem_read_def h1)
      moreover have "inst_ok h0 ?h (ts_inst s j)" using inv by (simp add: thread_inv_def)
      ultimately show ?thesis using new [OF True] al(4) by (simp add: inst_ok_def)
    qed (use thread_invD(2) [OF inv] in \<open>simp add: inst_ok_def\<close>)
    moreover have "inst_ok h0 h1 ?y"
      using y al(4) dead idle D(2) by (simp add: inst_ok_def pcs_ok_def)
    moreover have "h1 (q - 0x10) = h0 (q - 0x10)"
      if q: "\<forall>j. 0 < held (((ts_inst s)(i := ?y)) j) \<longrightarrow> ti_ptr (((ts_inst s)(i := ?y)) j) \<noteq> q" for q
    proof -
      have "q \<noteq> p" using q [rule_format, of i] y by auto
      moreover have "ti_ptr (ts_inst s j) \<noteq> q" if "0 < held (ts_inst s j)" for j
        using q [rule_format, of j] that h0 by (cases "j = i") auto
      ultimately show ?thesis using inv h1 by (simp add: thread_inv_def)
    qed
    moreover have "ti_ptr (((ts_inst s)(i := ?y)) j) \<noteq> ti_ptr (((ts_inst s)(i := ?y)) k)"
      if "j \<noteq> k" "0 < held (((ts_inst s)(i := ?y)) j)" "0 < held (((ts_inst s)(i := ?y)) k)" for j k
      using that new [of j] new [of k] inv by (cases "j = i"; cases "k = i") (auto simp: thread_inv_def)
    ultimately have inv1: "thread_inv h0 ?s" using al(3) by (simp add: thread_inv_def)
    have "0 < refs h1 p" using al(4) by simp
    from own_step_write [OF al(3) this] have
      "own_step (ti_ptr (ts_inst ?s i)) (\<lambda>t. t\<lparr>Routine := R, th_Context := Ctx\<rparr>) (held ?y) (ts_heap ?s)
        (thread_write p (\<lambda>t. t\<lparr>Routine := R, th_Context := Ctx\<rparr>) h1)" using y al(4) by simp
    from advance_own [OF inv1 _ _ y(2) this] y(1)
    have "\<exists>s'. advance ?s i ?y (thread_write p (\<lambda>t. t\<lparr>Routine := R, th_Context := Ctx\<rparr>) h1) = Some (Inr s') \<and>
        thread_inv h0 s'" using idle D(2) by (simp add: pcs_ok_def)
    moreover have "advance ?s i ?y e = advance s i ?y e" for e by (simp add: advance_def)
    ultimately show ?thesis using step idle al(1) by (auto simp: Let_def)
  qed
qed

lemma thread_inv_exec:
  assumes inv: "thread_inv h0 s" and os: "alloc_fresh os" and step: "thread_exec os a s = Some r"
  shows "\<exists>s'. r = Inr s' \<and> thread_inv h0 s'"
proof -
  have D: "heap_ok (ts_heap s)" "pcs_ok (ts_inst s i)"
    "0 < held (ts_inst s i) \<Longrightarrow> refs (ts_heap s) (ti_ptr (ts_inst s i)) = held (ts_inst s i)" for i
    using thread_invD [OF inv] by blast+
  have alive: "0 < held (ts_inst s i) \<Longrightarrow> 0 < refs (ts_heap s) (ti_ptr (ts_inst s i))" for i using D(3) by simp
  text \<open>A part that holds a reference uses the object.\<close>
  have uses: "\<exists>s'. advance s i (ts_inst s i) (use_thread u (ti_ptr (ts_inst s i)) (ts_heap s)) = Some (Inr s') \<and>
      thread_inv h0 s'" if pos: "0 < held (ts_inst s i)" for i u
  proof -
    from own_step_use [OF D(1) alive [OF pos], of u] obtain f where
      f: "own_step (ti_ptr (ts_inst s i)) f (held (ts_inst s i)) (ts_heap s)
        (use_thread u (ti_ptr (ts_inst s i)) (ts_heap s))"
      "\<And>t. th_Finished (f t) = th_Finished t \<and> th_ExitCode (f t) = th_ExitCode t"
      unfolding D(3) [OF pos] by blast
    have "wrapper_content w t \<Longrightarrow> wrapper_content w (f t)" for w t using f(2) by (cases w) simp_all
    then show ?thesis using advance_own [OF inv pos refl D(2) f(1)] by blast
  qed
  text \<open>A part moves on and leaves the heap alone.\<close>
  have moves: "\<exists>s'. advance s i x (Inr (ts_heap s)) = Some (Inr s') \<and> thread_inv h0 s'"
    if "0 < held (ts_inst s i)" "ti_ptr x = ti_ptr (ts_inst s i)" "pcs_ok x" "held x = held (ts_inst s i)"
      "\<And>t. wrapper_content (ti_wrapper (ts_inst s i)) t \<Longrightarrow> wrapper_content (ti_wrapper x) t" for i x
    using advance_own [OF inv that(1-3), of id "Inr (ts_heap s)"] 
      own_step_none [OF D(1), of "ti_ptr (ts_inst s i)"] D(3) [OF that(1)] that(4,5)
    by simp
  show ?thesis
  proof (cases a)
    case (Begin i R Ctx)
    then show ?thesis using Begin_inv [OF inv os] step by blast
  next
    case (Creator i)
    then show ?thesis using creator_step_inv [OF inv] step by simp
  next
    case (Wrapper i)
    then show ?thesis using wrapper_step_inv [OF inv] step by simp
  next
    case (OsCreated i hnd tid)
    let ?x = "(ts_inst s i)\<lparr>ti_creator := C_SetHandle hnd tid, ti_wrapper := W_Run\<rparr>"
    have c: "ti_creator (ts_inst s i) = C_CreateThread" "advance s i ?x (Inr (ts_heap s)) = Some r"
      using step OsCreated by (simp_all split: if_splits)
    show ?thesis using moves [of i ?x] c D(2) [of i] by (auto simp: held_def pcs_ok_def)
  next
    case (OsRefused i e)
    let ?x = "(ts_inst s i)\<lparr>ti_creator := C_Undo e\<rparr>"
    have c: "ti_creator (ts_inst s i) = C_CreateThread" "advance s i ?x (Inr (ts_heap s)) = Some r"
      using step OsRefused by (simp_all split: if_splits)
    show ?thesis using moves [of i ?x] c D(2) [of i] by (auto simp: held_def pcs_ok_def)
  next
    case (RoutineUses i u)
    then show ?thesis using uses [of i u] step by (auto simp: held_def split: if_splits)
  next
    case (ClientUses i u)
    then show ?thesis using uses [of i u] step by (auto simp: held_def split: if_splits)
  next
    case (RoutineReturns i c)
    let ?x = "(ts_inst s i)\<lparr>ti_wrapper := W_Finish\<rparr>"
    let ?f = "\<lambda>t. t\<lparr>th_ExitCode := c\<rparr> :: MF_THREAD"
    have w: "ti_wrapper (ts_inst s i) = W_Run"
      "advance s i ?x (thread_write (ti_ptr (ts_inst s i)) ?f (ts_heap s)) = Some r"
      using step RoutineReturns by (simp_all split: if_splits)
    have pos: "0 < held (ts_inst s i)" using w by (simp add: held_def)
    have x: "pcs_ok ?x" "held ?x = held (ts_inst s i)" using w D(2) [of i] by (auto simp: held_def pcs_ok_def)
    show ?thesis
      using advance_own [OF inv pos _ x(1), of ?f "thread_write (ti_ptr (ts_inst s i)) ?f (ts_heap s)"]
        own_step_write [OF D(1) alive [OF pos], of ?f] D(3) [OF pos] x(2) w
      by auto
  next
    case (WaitFor i)
    then have c: "ti_client (ts_inst s i) = K_Open" and
      r: "advance s i (ts_inst s i) (map_sum id (\<lambda>_. ts_heap s)
        (MFThread_WaitFor (ti_ptr (ts_inst s i)) (ts_heap s))) = Some r"
      using step by (simp_all split: if_splits)
    have pos: "0 < held (ts_inst s i)" using c by (simp add: held_def)
    obtain t where "mem_read (ti_ptr (ts_inst s i)) (ts_heap s) = Inr t" using mem_read_alive [OF alive [OF pos]] by blast
    then show ?thesis using moves [OF pos refl D(2) refl] r by (auto simp: MFThread_WaitFor_def)
  next
    case (ClientCloses i)
    let ?x = "(ts_inst s i)\<lparr>ti_client := K_Release\<rparr>"
    from ClientCloses have c: "ti_client (ts_inst s i) = K_Open" "ti_creator (ts_inst s i) = C_Returned 0" and
      r: "advance s i ?x (map_sum id (\<lambda>_. ts_heap s) (mem_read (ti_ptr (ts_inst s i)) (ts_heap s))) = Some r"
      using step by (simp_all split: if_splits)
    have pos: "0 < held (ts_inst s i)" using c by (simp add: held_def)
    have x: "pcs_ok ?x" "held ?x = held (ts_inst s i)" using c D(2) [of i] by (auto simp: held_def pcs_ok_def)
    obtain t where "mem_read (ti_ptr (ts_inst s i)) (ts_heap s) = Inr t" using mem_read_alive [OF alive [OF pos]] by blast
    then show ?thesis using moves [OF pos _ x] r by auto
  next
    case (ClientReleases i)
    let ?x = "(ts_inst s i)\<lparr>ti_client := K_Closed\<rparr>"
    from ClientReleases have c: "ti_client (ts_inst s i) = K_Release" and
      r: "advance s i ?x (MFGen_RefMemRelease (ti_ptr (ts_inst s i)) (ts_heap s)) = Some r"
      using step by (simp_all split: if_splits)
    have pos: "0 < held (ts_inst s i)" using c by (simp add: held_def)
    have x: "pcs_ok ?x" "held ?x = held (ts_inst s i) - 1" using c D(2) [of i] by (auto simp: held_def pcs_ok_def)
    show ?thesis
      using advance_own [OF inv pos _ x(1), of id "MFGen_RefMemRelease (ti_ptr (ts_inst s i)) (ts_heap s)"]
        own_step_release [OF D(1) alive [OF pos]] D(3) [OF pos] x(2) r by auto
  qed
qed

lemma thread_reach_inv:
  assumes "thread_reach os s0 s" "alloc_fresh os" "thread_inv h0 s0"
  shows "thread_inv h0 s"
  using assms by (induction rule: thread_reach.induct) (auto dest: thread_inv_exec)

lemma thread_start_inv: "heap_ok h \<Longrightarrow> thread_inv h (thread_start h n)"
  by (simp add: thread_inv_def thread_start_def inst_ok_def pcs_ok_def held_def)

section \<open>A call of \<open>MFThread_Create\<close> is a schedule of the machine\<close>

fun thread_run :: "MF_THREAD allocator \<Rightarrow> thread_action list \<Rightarrow> thread_sys \<Rightarrow> thread_sys result option" where
  "thread_run os [] s = Some (Inr s)"
| "thread_run os (a # as) s =
     (case thread_exec os a s of
        None \<Rightarrow> None
      | Some (Inl e) \<Rightarrow> Some (Inl e)
      | Some (Inr s') \<Rightarrow> thread_run os as s')"

lemma thread_run_reach:
  "thread_reach os s0 s \<Longrightarrow> thread_run os as s = Some (Inr s') \<Longrightarrow> thread_reach os s0 s'"
  by (induction as arbitrary: s) (auto split: option.splits sum.splits intro: thread_reach.step)

definition create_schedule :: "nat \<Rightarrow> (u64 \<times> u32, i32) sum \<Rightarrow> u64 \<Rightarrow> u64 \<Rightarrow> thread_action list" where
  "create_schedule i ct R Ctx =
     [Begin i R Ctx, Creator i, Creator i] @
     (case ct of
        Inl (hnd, tid) \<Rightarrow> [OsCreated i hnd tid, Creator i, Creator i, Creator i]
      | Inr e \<Rightarrow> [OsRefused i e, Creator i] @ (if e = 0 then [Creator i, Creator i] else [Creator i]))"

lemma advance_Inr: "advance s i x (Inr h) = Some (Inr (s\<lparr>ts_heap := h, ts_inst := (ts_inst s)(i := x)\<rparr>))"
  by (simp add: advance_def)

text \<open>The steps of a call one by one, so that a run is computed without expanding the case analysis.\<close>

lemma creator_steps:
  "ti_creator (ts_inst s i) = C_AddRef \<Longrightarrow>
   creator_step i s = advance s i ((ts_inst s i)\<lparr>ti_creator := C_Index\<rparr>)
     (MFGen_RefMemAddRef (ti_ptr (ts_inst s i)) (ts_heap s))"
  "ti_creator (ts_inst s i) = C_Index \<Longrightarrow>
   creator_step i s = advance (s\<lparr>ts_lastIndex := ts_lastIndex s + 1\<rparr>) i ((ts_inst s i)\<lparr>ti_creator := C_CreateThread\<rparr>)
     (thread_write (ti_ptr (ts_inst s i)) (\<lambda>t. t\<lparr>th_Index := ts_lastIndex s + 1\<rparr>) (ts_heap s))"
  "ti_creator (ts_inst s i) = C_SetHandle hnd tid \<Longrightarrow>
   creator_step i s = advance s i ((ts_inst s i)\<lparr>ti_creator := C_Publish\<rparr>)
     (thread_write (ti_ptr (ts_inst s i)) (\<lambda>t. t\<lparr>ThreadHandle := hnd, ThreadId := tid\<rparr>) (ts_heap s))"
  "ti_creator (ts_inst s i) = C_Undo e \<Longrightarrow>
   creator_step i s = advance s i ((ts_inst s i)\<lparr>ti_creator := if e = 0 then C_Publish else C_Release e\<rparr>)
     (MFGen_RefMemRelease (ti_ptr (ts_inst s i)) (ts_heap s))"
  "ti_creator (ts_inst s i) = C_Publish \<Longrightarrow>
   creator_step i s = advance s i ((ts_inst s i)\<lparr>ti_creator := C_Release 0, ti_client := K_Open\<rparr>)
     (MFGen_RefMemAddRef (ti_ptr (ts_inst s i)) (ts_heap s))"
  "ti_creator (ts_inst s i) = C_Release e \<Longrightarrow>
   creator_step i s = advance s i ((ts_inst s i)\<lparr>ti_creator := C_Returned e\<rparr>)
     (MFGen_RefMemRelease (ti_ptr (ts_inst s i)) (ts_heap s))"
  by (simp_all add: Let_def)

lemma Begin_step:
  "ti_creator (ts_inst s i) = C_Idle \<Longrightarrow>
   MFGen_RefMemAlloc os (\<lambda>n. zero_thread) sizeof_MF_THREAD (ts_heap s) = Inr (r, Some p, h) \<Longrightarrow>
   thread_exec os (Begin i R Ctx) s = advance s i ((ts_inst s i)\<lparr>ti_ptr := p, ti_creator := C_AddRef\<rparr>)
     (thread_write p (\<lambda>t. t\<lparr>Routine := R, th_Context := Ctx\<rparr>) h)"
  by (simp add: Let_def)

lemma thread_run_append:
  "thread_run os as s = Some (Inr s1) \<Longrightarrow> thread_run os (as @ bs) s = thread_run os bs s1"
  by (induction as arbitrary: s) (auto split: option.splits sum.splits)

text \<open>The part of a call up to \<open>CreateThread\<close>.\<close>

lemma create_prefix:
  assumes "ti_creator (ts_inst s i) = C_Idle"
    "MFGen_RefMemAlloc os (\<lambda>n. zero_thread) sizeof_MF_THREAD (ts_heap s) = Inr (r, Some q, h1)"
    "thread_write q (\<lambda>t. t\<lparr>Routine := R, th_Context := Ctx\<rparr>) h1 = Inr h2" "MFGen_RefMemAddRef q h2 = Inr h3"
    "thread_write q (\<lambda>t. t\<lparr>th_Index := ts_lastIndex s + 1\<rparr>) h3 = Inr h4"
  shows "\<exists>s1. thread_run os [Begin i R Ctx, Creator i, Creator i] s = Some (Inr s1) \<and> ts_heap s1 = h4 \<and>
    ts_lastIndex s1 = ts_lastIndex s + 1 \<and>
    ts_inst s1 i = (ts_inst s i)\<lparr>ti_ptr := q, ti_creator := C_CreateThread\<rparr> \<and>
    (\<forall>j. j \<noteq> i \<longrightarrow> ts_inst s1 j = ts_inst s j)"
  by (simp add: advance_Inr creator_steps(1,2) Begin_step assms del: creator_step.simps thread_exec.simps(1))

text \<open>The part after it, when the thread was created and when it was not.\<close>

lemma create_suffix:
  assumes "ts_inst s i = x\<lparr>ti_creator := C_CreateThread\<rparr>"
    "thread_write (ti_ptr x) (\<lambda>t. t\<lparr>ThreadHandle := hnd, ThreadId := tid\<rparr>) (ts_heap s) = Inr h5"
    "MFGen_RefMemAddRef (ti_ptr x) h5 = Inr h6" "MFGen_RefMemRelease (ti_ptr x) h6 = Inr h7"
  shows "\<exists>s'. thread_run os [OsCreated i hnd tid, Creator i, Creator i, Creator i] s = Some (Inr s') \<and>
    ts_heap s' = h7 \<and> ts_lastIndex s' = ts_lastIndex s \<and> ti_creator (ts_inst s' i) = C_Returned 0 \<and>
    ti_ptr (ts_inst s' i) = ti_ptr x \<and> ti_client (ts_inst s' i) = K_Open \<and>
    (\<forall>j. j \<noteq> i \<longrightarrow> ts_inst s' j = ts_inst s j)"
  by (simp add: advance_Inr assms creator_steps(3,5) creator_steps(6) [where e = 0] del: creator_step.simps)

lemma refused_suffix_0:
  assumes "ts_inst s i = x\<lparr>ti_creator := C_CreateThread\<rparr>"
    "MFGen_RefMemRelease (ti_ptr x) (ts_heap s) = Inr h5" "MFGen_RefMemAddRef (ti_ptr x) h5 = Inr h6"
    "MFGen_RefMemRelease (ti_ptr x) h6 = Inr h7"
  shows "\<exists>s'. thread_run os [OsRefused i 0, Creator i, Creator i, Creator i] s = Some (Inr s') \<and>
    ts_heap s' = h7 \<and> ts_lastIndex s' = ts_lastIndex s \<and> ti_creator (ts_inst s' i) = C_Returned 0 \<and>
    ti_ptr (ts_inst s' i) = ti_ptr x \<and> ti_client (ts_inst s' i) = K_Open \<and>
    (\<forall>j. j \<noteq> i \<longrightarrow> ts_inst s' j = ts_inst s j)"
  by (simp add: advance_Inr assms creator_steps(5) creator_steps(4,6) [where e = 0] del: creator_step.simps)

lemma refused_suffix:
  assumes "ts_inst s i = x\<lparr>ti_creator := C_CreateThread\<rparr>" "e \<noteq> 0"
    "MFGen_RefMemRelease (ti_ptr x) (ts_heap s) = Inr h5" "MFGen_RefMemRelease (ti_ptr x) h5 = Inr h6"
  shows "\<exists>s'. thread_run os [OsRefused i e, Creator i, Creator i] s = Some (Inr s') \<and>
    ts_heap s' = h6 \<and> ts_lastIndex s' = ts_lastIndex s \<and> ti_creator (ts_inst s' i) = C_Returned e \<and>
    ti_client (ts_inst s' i) = ti_client x \<and> (\<forall>j. j \<noteq> i \<longrightarrow> ts_inst s' j = ts_inst s j)"
  by (simp add: advance_Inr assms creator_steps(4,6) [where e = e] del: creator_step.simps)

lemma MFThread_Create_schedule:
  assumes "ti_creator (ts_inst s i) = C_Idle"
    "MFThread_Create os ct R Ctx (ts_lastIndex s) (ts_heap s) = Inr (ret, Some p, l, h)"
  shows "\<exists>s'. thread_run os (create_schedule i ct R Ctx) s = Some (Inr s') \<and> ts_heap s' = h \<and>
    ts_lastIndex s' = l \<and> ti_creator (ts_inst s' i) = C_Returned ret \<and> ti_ptr (ts_inst s' i) = p \<and>
    ti_client (ts_inst s' i) = K_Open \<and> (\<forall>j. j \<noteq> i \<longrightarrow> ts_inst s' j = ts_inst s j)"
proof -
  obtain r0 q h1 where al: "MFGen_RefMemAlloc os (\<lambda>n. zero_thread) sizeof_MF_THREAD (ts_heap s) = Inr (r0, Some q, h1)"
    using assms(2) by (auto simp: MFThread_Create_def rbind_Inr split: option.splits)
  obtain h2 h3 h4 where st: "thread_write q (\<lambda>t. t\<lparr>Routine := R, th_Context := Ctx\<rparr>) h1 = Inr h2"
    "MFGen_RefMemAddRef q h2 = Inr h3" "thread_write q (\<lambda>t. t\<lparr>th_Index := ts_lastIndex s + 1\<rparr>) h3 = Inr h4"
    using assms(2) al by (auto simp: MFThread_Create_def rbind_Inr Let_def)
  obtain s1 where s1: "thread_run os [Begin i R Ctx, Creator i, Creator i] s = Some (Inr s1)" "ts_heap s1 = h4"
    "ts_lastIndex s1 = ts_lastIndex s + 1"
    "ts_inst s1 i = (ts_inst s i)\<lparr>ti_ptr := q, ti_creator := C_CreateThread\<rparr>"
    "\<forall>j. j \<noteq> i \<longrightarrow> ts_inst s1 j = ts_inst s j"
    using create_prefix [OF assms(1) al st] by blast
  note run = create_schedule_def thread_run_append [OF s1(1)]
  show ?thesis
  proof (cases ct)
    case (Inl w)
    obtain hnd tid where w: "w = (hnd, tid)" by (cases w)
    obtain h5 h6 where e: "thread_write q (\<lambda>t. t\<lparr>ThreadHandle := hnd, ThreadId := tid\<rparr>) h4 = Inr h5"
      "MFGen_RefMemAddRef q h5 = Inr h6" "MFGen_RefMemRelease q h6 = Inr h" "ret = 0" "p = q"
      "l = ts_lastIndex s + 1"
      using assms(2) al st Inl w by (auto simp: MFThread_Create_def rbind_Inr Let_def map_sum_Inr)
    have "ts_inst s1 i = (ts_inst s i)\<lparr>ti_ptr := q\<rparr>\<lparr>ti_creator := C_CreateThread\<rparr>" using s1(4) by simp
    from create_suffix [OF this, where hnd = hnd and tid = tid and ?h5.0 = h5 and ?h6.0 = h6 and ?h7.0 = h and os = os] obtain s' where
      "thread_run os [OsCreated i hnd tid, Creator i, Creator i, Creator i] s1 = Some (Inr s')" "ts_heap s' = h"
      "ts_lastIndex s' = ts_lastIndex s1" "ti_creator (ts_inst s' i) = C_Returned 0" "ti_ptr (ts_inst s' i) = q"
      "ti_client (ts_inst s' i) = K_Open" "\<forall>j. j \<noteq> i \<longrightarrow> ts_inst s' j = ts_inst s1 j"
      using e s1(2) by auto
    then show ?thesis
      unfolding Inl w run using e s1 by (intro exI [of _ s']) (simp del: thread_run.simps)
  next
    case (Inr e)
    obtain h5 where h5: "MFGen_RefMemRelease q h4 = Inr h5"
      using assms(2) al st Inr by (auto simp: MFThread_Create_def rbind_Inr Let_def map_sum_Inr)
    have e0: "e = 0"
    proof (rule ccontr)
      assume "e \<noteq> 0"
      with assms(2) al st Inr h5 show False by (simp add: MFThread_Create_def rbind_Inr)
    qed
    obtain h6 where x: "MFGen_RefMemRelease q h4 = Inr h5" "e = 0" "MFGen_RefMemAddRef q h5 = Inr h6"
      "MFGen_RefMemRelease q h6 = Inr h" "ret = 0" "p = q" "l = ts_lastIndex s + 1"
      using assms(2) al st Inr h5 e0 by (auto simp: MFThread_Create_def rbind_Inr)
    have "ts_inst s1 i = (ts_inst s i)\<lparr>ti_ptr := q\<rparr>\<lparr>ti_creator := C_CreateThread\<rparr>" using s1(4) by simp
    from refused_suffix_0 [OF this, where ?h5.0 = h5 and ?h6.0 = h6 and ?h7.0 = h and os = os] obtain s' where
      "thread_run os [OsRefused i 0, Creator i, Creator i, Creator i] s1 = Some (Inr s')" "ts_heap s' = h"
      "ts_lastIndex s' = ts_lastIndex s1" "ti_creator (ts_inst s' i) = C_Returned 0" "ti_ptr (ts_inst s' i) = q"
      "ti_client (ts_inst s' i) = K_Open" "\<forall>j. j \<noteq> i \<longrightarrow> ts_inst s' j = ts_inst s1 j"
      using x s1(2) by auto
    then show ?thesis
      unfolding Inr x(2) run using x s1 by (intro exI [of _ s']) (simp del: thread_run.simps)
  qed
qed

lemma MFThread_Create_schedule_fails:
  assumes "ti_creator (ts_inst s i) = C_Idle"
    "MFThread_Create os ct R Ctx (ts_lastIndex s) (ts_heap s) = Inr (ret, None, l, h)"
  shows "\<exists>as s'. thread_run os as s = Some (Inr s') \<and> ts_heap s' = h \<and>
    ts_lastIndex s' = l \<and> ti_creator (ts_inst s' i) = C_Returned ret \<and>
    ti_client (ts_inst s' i) = ti_client (ts_inst s i) \<and> (\<forall>j. j \<noteq> i \<longrightarrow> ts_inst s' j = ts_inst s j)"
proof -
  obtain r0 q h1 where al: "MFGen_RefMemAlloc os (\<lambda>n. zero_thread) sizeof_MF_THREAD (ts_heap s) = Inr (r0, q, h1)"
    using assms(2) by (auto simp: MFThread_Create_def rbind_Inr)
  show ?thesis
  proof (cases q)
    case None
    then have e: "ret = r0" "l = ts_lastIndex s" "h = h1"
      using assms(2) al by (simp_all add: MFThread_Create_def)
    show ?thesis
      by (rule exI [of _ "[Begin i R Ctx]"]) (simp add: Let_def advance_Inr al None e assms(1))
  next
    case (Some q)
    obtain h2 h3 h4 where st: "thread_write q (\<lambda>t. t\<lparr>Routine := R, th_Context := Ctx\<rparr>) h1 = Inr h2"
      "MFGen_RefMemAddRef q h2 = Inr h3" "thread_write q (\<lambda>t. t\<lparr>th_Index := ts_lastIndex s + 1\<rparr>) h3 = Inr h4"
      using assms(2) al Some by (auto simp: MFThread_Create_def rbind_Inr Let_def)
    obtain s1 where s1: "thread_run os [Begin i R Ctx, Creator i, Creator i] s = Some (Inr s1)" "ts_heap s1 = h4"
      "ts_lastIndex s1 = ts_lastIndex s + 1"
      "ts_inst s1 i = (ts_inst s i)\<lparr>ti_ptr := q, ti_creator := C_CreateThread\<rparr>"
    "\<forall>j. j \<noteq> i \<longrightarrow> ts_inst s1 j = ts_inst s j"
      using create_prefix [OF assms(1) al [unfolded Some] st] by blast
    obtain e where ct: "ct = Inr e"
      using assms(2) al st Some by (cases ct) (auto simp: MFThread_Create_def rbind_Inr Let_def map_sum_Inr)
    obtain h5 where h5: "MFGen_RefMemRelease q h4 = Inr h5"
      using assms(2) al st Some ct by (auto simp: MFThread_Create_def rbind_Inr Let_def map_sum_Inr)
    have "e \<noteq> 0"
    proof
      assume "e = 0"
      with assms(2) al st Some ct h5 show False by (simp add: MFThread_Create_def rbind_Inr)
    qed
    then have x: "ct = Inr e" "MFGen_RefMemRelease q h4 = Inr h5" "e \<noteq> 0" "MFGen_RefMemRelease q h5 = Inr h"
      "ret = e" "l = ts_lastIndex s + 1"
      using assms(2) al st Some ct h5 by (auto simp: MFThread_Create_def rbind_Inr)
    have "ts_inst s1 i = (ts_inst s i)\<lparr>ti_ptr := q\<rparr>\<lparr>ti_creator := C_CreateThread\<rparr>" using s1(4) by simp
    from refused_suffix [OF this x(3), where ?h5.0 = h5 and ?h6.0 = h and os = os] obtain s' where
      "thread_run os [OsRefused i e, Creator i, Creator i] s1 = Some (Inr s')" "ts_heap s' = h"
      "ts_lastIndex s' = ts_lastIndex s1" "ti_creator (ts_inst s' i) = C_Returned e"
      "ti_client (ts_inst s' i) = ti_client (ts_inst s i)" "\<forall>j. j \<noteq> i \<longrightarrow> ts_inst s' j = ts_inst s1 j"
      using x s1(2) by auto
    then show ?thesis
      using x s1 thread_run_append [OF s1(1), of "[OsRefused i e, Creator i, Creator i]"]
      by (intro exI [of _ "create_schedule i ct R Ctx"] exI [of _ s'])
        (simp add: create_schedule_def del: thread_run.simps)
  qed
qed

section \<open>Properties\<close>

text \<open>An instance that is over: the call has returned, the thread and the owner are done or never were.\<close>

fun create_over :: "create_pc \<Rightarrow> bool" where
  "create_over C_Idle = True"
| "create_over (C_Returned e) = True"
| "create_over pc = False"

definition inst_over :: "thread_inst \<Rightarrow> bool" where
  "inst_over x \<longleftrightarrow> create_over (ti_creator x) \<and> (ti_wrapper x = W_None \<or> wrapper_done (ti_wrapper x)) \<and>
     (ti_client x = K_None \<or> ti_client x = K_Closed)"

lemma inst_over_held: "inst_over x \<Longrightarrow> held x = 0"
  by (cases "ti_creator x"; cases "ti_wrapper x"; cases "ti_client x") (simp_all add: inst_over_def held_def)

section \<open>Instances\<close>

definition one_thread :: "MF_THREAD allocator" where
  "one_thread n h = (if h 0x1000 = None then Some 0x1000 else None)"

lemma one_thread_ok: "alloc_fresh one_thread" "heap_ok Map.empty"
  by (auto simp: alloc_fresh_def heap_ok_def one_thread_def)

text \<open>
  A run of the machine from no threads to no threads: the thread ends before the call has stored
  its handle, the owner closes the handle.
\<close>

definition demo_run :: "thread_action list" where
  "demo_run = [Begin 0 5 6, Creator 0, Creator 0, OsCreated 0 7 1, RoutineReturns 0 3, Wrapper 0, Wrapper 0,
     Wrapper 0, Creator 0, Creator 0, Creator 0, ClientUses 0 U_ExitCode, ClientCloses 0, ClientReleases 0]"

text \<open>An action moves its own instance only.\<close>

fun action_inst :: "thread_action \<Rightarrow> nat" where
  "action_inst (Begin i R Ctx) = i"
| "action_inst (Creator i) = i"
| "action_inst (OsCreated i hnd tid) = i"
| "action_inst (OsRefused i e) = i"
| "action_inst (RoutineUses i u) = i"
| "action_inst (RoutineReturns i c) = i"
| "action_inst (Wrapper i) = i"
| "action_inst (ClientUses i u) = i"
| "action_inst (WaitFor i) = i"
| "action_inst (ClientCloses i) = i"
| "action_inst (ClientReleases i) = i"

lemma advance_other: "advance s i x r = Some (Inr s') \<Longrightarrow> j \<noteq> i \<Longrightarrow> ts_inst s' j = ts_inst s j"
  by (cases r) (auto simp: advance_def)

lemma thread_exec_other:
  "thread_exec os a s = Some (Inr s') \<Longrightarrow> j \<noteq> action_inst a \<Longrightarrow> ts_inst s' j = ts_inst s j"
  by (cases a) (auto simp: Let_def dest: advance_other
      split: if_splits sum.splits option.splits create_pc.splits wrapper_pc.splits)

lemma thread_run_other:
  "thread_run os as s = Some (Inr s') \<Longrightarrow> \<forall>a \<in> set as. action_inst a \<noteq> j \<Longrightarrow> ts_inst s' j = ts_inst s j"
proof (induction as arbitrary: s)
  case (Cons a as)
  then obtain s1 where "thread_exec os a s = Some (Inr s1)" "thread_run os as s1 = Some (Inr s')"
    by (auto split: option.splits sum.splits)
  then show ?case using Cons.IH [of s1] Cons.prems(2) thread_exec_other [of os a s s1 j] by auto
qed simp

text \<open>What the runs below are checked for: the state of the first thread and its object.\<close>

definition observe :: "thread_sys result option \<Rightarrow> (thread_inst \<times> MF_THREAD block option) option" where
  "observe r = (case r of Some (Inr s) \<Rightarrow> Some (ts_inst s 0, ts_heap s 0x1000) | _ \<Rightarrow> None)"

lemma observe_Some: "observe r = Some (x, b) \<Longrightarrow> \<exists>s. r = Some (Inr s) \<and> ts_inst s 0 = x \<and> ts_heap s 0x1000 = b"
  by (auto simp: observe_def split: option.splits sum.splits)

lemma demo_run_result:
  "observe (thread_run one_thread demo_run (thread_start Map.empty (- 1))) =
    Some (\<lparr>ti_ptr = 0x1010, ti_creator = C_Returned 0, ti_wrapper = W_Done 3, ti_client = K_Closed\<rparr>, None)"
  by code_simp

lemma demo_run_middle:
  "observe (thread_run one_thread (take 7 demo_run) (thread_start Map.empty (- 1))) =
    Some (\<lparr>ti_ptr = 0x1010, ti_creator = C_SetHandle 7 1, ti_wrapper = W_Release 3, ti_client = K_None\<rparr>,
      Some \<lparr>RefCount = 2, Contents = zero_thread\<lparr>Routine := 5, th_Context := 6, th_ExitCode := 3, th_Finished := 1\<rparr>\<rparr>)"
  by code_simp

text \<open>
  C4: No interleaving of threads being created, running, being used and being closed touches a
  freed thread object: every action that is possible in a reachable state succeeds.  In particular
  a thread may end before \<open>MFThread_Create\<close> has stored its handle, and the owner may close the
  handle before the thread has ended.
\<close>

theorem thread_no_use_after_free:
  assumes "alloc_fresh os" "heap_ok h" "thread_reach os (thread_start h n) s" "thread_exec os a s = Some r"
  shows "\<exists>s'. r = Inr s'"
  using thread_inv_exec [OF thread_reach_inv [OF assms(3,1) thread_start_inv [OF assms(2)]] assms(1,4)] by blast

lemma thread_no_use_after_free_witness:
  "\<exists>s r. thread_run one_thread (take 7 demo_run) (thread_start Map.empty (- 1)) = Some (Inr s) \<and>
    ti_wrapper (ts_inst s 0) = W_Release 3 \<and> thread_exec one_thread (Wrapper 0) s = Some (Inr r)"
proof -
  obtain s where s: "thread_run one_thread (take 7 demo_run) (thread_start Map.empty (- 1)) = Some (Inr s)"
    "ti_wrapper (ts_inst s 0) = W_Release 3"
    using observe_Some [OF demo_run_middle] by auto
  have reach: "thread_reach one_thread (thread_start Map.empty (- 1)) s"
    by (rule thread_run_reach [OF thread_reach.start s(1)])
  obtain r where "thread_exec one_thread (Wrapper 0) s = Some r" using s(2) by (simp add: Let_def advance_def)
  with thread_no_use_after_free [OF one_thread_ok reach this] s show ?thesis by auto
qed

text \<open>
  C5: No thread object is leaked and none is freed early.  When every call has returned, every
  thread has ended and every handle is closed, the heap is the one at the start; and as long as the
  owner has not closed the handle of a thread that has ended, \<open>MFThread_ExitCode\<close> gives its exit code.
\<close>

theorem thread_no_leak:
  assumes "alloc_fresh os" "heap_ok h" "thread_reach os (thread_start h n) s"
  shows "((\<forall>i. inst_over (ts_inst s i)) \<longrightarrow> ts_heap s = h) \<and>
    (\<forall>i c. ti_wrapper (ts_inst s i) = W_Done c \<and> ti_client (ts_inst s i) = K_Open \<longrightarrow>
      MFThread_ExitCode (ti_ptr (ts_inst s i)) (ts_heap s) = Inr (0, Some c))"
proof -
  have inv: "thread_inv h s" by (rule thread_reach_inv [OF assms(3,1) thread_start_inv [OF assms(2)]])
  have "ts_heap s = h" if "\<forall>i. inst_over (ts_inst s i)"
  proof
    fix a
    have "ts_heap s (a + 0x10 - 0x10) = h (a + 0x10 - 0x10)"
      using inv that inst_over_held unfolding thread_inv_def by (metis less_irrefl)
    then show "ts_heap s a = h a" by simp
  qed
  moreover have "MFThread_ExitCode (ti_ptr (ts_inst s i)) (ts_heap s) = Inr (0, Some c)"
    if w: "ti_wrapper (ts_inst s i) = W_Done c" "ti_client (ts_inst s i) = K_Open" for i c
  proof -
    have pos: "0 < held (ts_inst s i)" using w by (simp add: held_def)
    then obtain t where t: "mem_read (ti_ptr (ts_inst s i)) (ts_heap s) = Inr t"
      using mem_read_alive [of "ts_heap s" "ti_ptr (ts_inst s i)"] thread_invD(4) [OF inv pos] by auto
    then have "wrapper_content (W_Done c) t" using inv pos w(1) unfolding thread_inv_def inst_ok_def by metis
    then show ?thesis by (simp add: MFThread_ExitCode_def t)
  qed
  ultimately show ?thesis by blast
qed

lemma thread_no_leak_witness:
  "\<exists>s. thread_run one_thread demo_run (thread_start Map.empty (- 1)) = Some (Inr s) \<and> ts_heap s = Map.empty"
proof -
  obtain s where s: "thread_run one_thread demo_run (thread_start Map.empty (- 1)) = Some (Inr s)"
    "ts_inst s 0 = \<lparr>ti_ptr = 0x1010, ti_creator = C_Returned 0, ti_wrapper = W_Done 3, ti_client = K_Closed\<rparr>"
    using observe_Some [OF demo_run_result] by auto
  have reach: "thread_reach one_thread (thread_start Map.empty (- 1)) s"
    by (rule thread_run_reach [OF thread_reach.start s(1)])
  have "\<forall>a \<in> set demo_run. action_inst a = 0" by (simp add: demo_run_def)
  then have "ts_inst s j = ts_inst (thread_start Map.empty (- 1)) j" if "j \<noteq> 0" for j
    using thread_run_other [OF s(1), of j] that by auto
  then have "inst_over (ts_inst s j)" for j
    using s(2) by (cases "j = 0") (simp_all add: inst_over_def thread_start_def)
  with thread_no_leak [OF one_thread_ok reach] s(1) show ?thesis by blast
qed

text \<open>
  C6: A call of \<open>MFThread_Create\<close> that is not interrupted is a run of the machine, to the same heap,
  index counter and status: the machine has the steps of the code.
\<close>

theorem MFThread_Create_refines:
  assumes "ti_creator (ts_inst s i) = C_Idle" "ti_client (ts_inst s i) = K_None"
    "MFThread_Create os ct R Ctx (ts_lastIndex s) (ts_heap s) = Inr (ret, th, l, h)"
  shows "\<exists>as s'. thread_run os as s = Some (Inr s') \<and> ts_heap s' = h \<and> ts_lastIndex s' = l \<and>
    ti_creator (ts_inst s' i) = C_Returned ret \<and> (\<forall>j. j \<noteq> i \<longrightarrow> ts_inst s' j = ts_inst s j) \<and>
    (case th of None \<Rightarrow> ti_client (ts_inst s' i) = K_None
     | Some p \<Rightarrow> ti_ptr (ts_inst s' i) = p \<and> ti_client (ts_inst s' i) = K_Open)"
proof (cases th)
  case None
  with MFThread_Create_schedule_fails [OF assms(1)] assms(2,3) show ?thesis by simp metis
next
  case (Some p)
  with MFThread_Create_schedule [OF assms(1)] assms(3) show ?thesis by simp metis
qed

lemma MFThread_Create_refines_witness:
  "\<exists>as s'. thread_run one_thread as (thread_start Map.empty 4) = Some (Inr s') \<and>
    ts_lastIndex s' = 5 \<and> ti_creator (ts_inst s' 0) = C_Returned 0 \<and> ti_client (ts_inst s' 0) = K_Open"
proof -
  have "map_sum id (\<lambda>(r, p, l, h). (r, p, l, h 0x1000)) (MFThread_Create one_thread (Inl (7, 1)) 5 6 4 Map.empty) =
      Inr (0, Some 0x1010, 5, Some \<lparr>RefCount = 2, Contents = zero_thread\<lparr>Routine := 5, th_Context := 6,
        th_Index := 5, ThreadHandle := 7, ThreadId := 1\<rparr>\<rparr>)" by code_simp
  then obtain h where c: "MFThread_Create one_thread (Inl (7, 1)) 5 6 4 Map.empty = Inr (0, Some 0x1010, 5, h)"
    by (auto simp: map_sum_Inr)
  have "ti_creator (ts_inst (thread_start Map.empty 4) 0) = C_Idle" "ti_client (ts_inst (thread_start Map.empty 4) 0) = K_None"
    "ts_lastIndex (thread_start Map.empty 4) = 4" "ts_heap (thread_start Map.empty 4) = Map.empty"
    by (simp_all add: thread_start_def)
  with MFThread_Create_refines [of "thread_start Map.empty 4" 0 one_thread "Inl (7, 1)" 5 6 0 "Some 0x1010" 5 h] c
  show ?thesis by auto
qed

end
