(* ===== verification/Network.thy ===== *)
theory Network
  imports Messages
begin

text \<open>
  The socket input and output of \<open>mfbroker/mfbroker.c\<close>.  Winsock is a parameter, a record of the two
  calls the code makes, over a state \<open>'n\<close> of the network; \<open>reliable\<close> says what the documentation
  promises of a connected stream socket.  A loop of the code that does not end is the value \<open>None\<close>.
\<close>

section \<open>Winsock\<close>

text \<open>
  \<open>ws_send\<close> gets the bytes from the start of the buffer and the length as an \<open>int\<close>; it gives the
  returned count and the last error.  \<open>ws_recv\<close> gives the bytes received or the last error.
\<close>

record 'n winsock =
  ws_send :: "u64 \<Rightarrow> bytes \<Rightarrow> i32 \<Rightarrow> 'n \<Rightarrow> i32 \<times> i32 \<times> 'n"
  ws_recv :: "u64 \<Rightarrow> i32 \<Rightarrow> 'n \<Rightarrow> (bytes + i32) \<times> 'n"

section \<open>_sendData and _recvData\<close>

text \<open>
  The comparison of the returned \<open>int\<close> with \<open>Length\<close> is made in \<open>size_t\<close>.  A count that differs
  gives the last error, whatever it is.
\<close>

definition sendData :: "'n winsock \<Rightarrow> u64 \<Rightarrow> bytes \<Rightarrow> 'n \<Rightarrow> i32 \<times> 'n" where
  "sendData W Socket Data n =
     (let Length = of_nat (length Data) :: u64;
          (bytesSent, err, n) = ws_send W Socket Data (ucast Length) n
      in (if scast bytesSent \<noteq> Length then err else 0, n))"

text \<open>
  \<open>acc\<close> holds the bytes received so far, \<open>Length\<close> how many are still wanted.  More bytes than that
  would be written behind the buffer.
\<close>

partial_function (option) recvData ::
    "'n winsock \<Rightarrow> u64 \<Rightarrow> bytes \<Rightarrow> u64 \<Rightarrow> 'n \<Rightarrow> ((i32 \<times> bytes) result \<times> 'n) option" where
  "recvData W Socket acc Length n =
     (if Length = 0 then Some (Inr (0, acc), n)
      else
        case ws_recv W Socket (ucast Length) n of
          (Inr e, n') \<Rightarrow> Some (Inr (e, acc), n')
        | (Inl chunk, n') \<Rightarrow>
            if length chunk \<le> unat Length
            then recvData W Socket (acc @ chunk) (Length - of_nat (length chunk)) n'
            else Some (Inl Undef, n'))"

section \<open>Messages on the wire\<close>

record MF_LISTED_MESSAGE =
  lm_Connection :: "nat option"
  lm_OriginalFlags :: u32
  lm_Message :: MF_MESSAGE

text \<open>The list entry, the connection, the flags and the padding before the header.\<close>

definition sizeof_MF_LISTED_MESSAGE :: nat where
  "sizeof_MF_LISTED_MESSAGE = 32 + sizeof_MF_MESSAGE_HEADER"

definition zero_listed :: "nat \<Rightarrow> MF_LISTED_MESSAGE" where
  "zero_listed n = \<lparr>lm_Connection = None, lm_OriginalFlags = 0, lm_Message = parse_message (replicate (n - 32) 0)\<rparr>"

definition ERROR_INVALID_PARAMETER :: i32 where
  "ERROR_INVALID_PARAMETER = 87"

text \<open>
  The end of a reception: the header and what was received behind it are in the message; on
  success the message is handed out with one reference, on failure it is released.
\<close>

definition recv_finish ::
    "u64 \<Rightarrow> MF_MESSAGE \<Rightarrow> MF_LISTED_MESSAGE heap \<Rightarrow> i32 \<times> bytes \<Rightarrow>
     (i32 \<times> u64 option \<times> MF_LISTED_MESSAGE heap) result" where
  "recv_finish tmpMsg hdr h = (\<lambda>(ret, data).
     rbind (mem_read tmpMsg h) (\<lambda>l.
     rbind (mem_write tmpMsg (l\<lparr>lm_Message := hdr\<lparr>Payload := data\<rparr>\<rparr>) h) (\<lambda>h.
       if ret = 0
       then rbind (MFGen_RefMemAddRef tmpMsg h) (\<lambda>h.
            rbind (MFGen_RefMemRelease tmpMsg h) (\<lambda>h. Inr (0, Some tmpMsg, h)))
       else rbind (MFGen_RefMemRelease tmpMsg h) (\<lambda>h. Inr (ret, None, h)))))"

text \<open>
  The header is received into a local variable, then the message is allocated and the rest is
  received behind the header.  The result is the status, the message and the heap.
\<close>

definition MFMessage_Recv ::
    "'n winsock \<Rightarrow> MF_LISTED_MESSAGE allocator \<Rightarrow> u64 \<Rightarrow> 'n \<Rightarrow> MF_LISTED_MESSAGE heap \<Rightarrow>
     ((i32 \<times> u64 option \<times> MF_LISTED_MESSAGE heap) result \<times> 'n) option" where
  "MFMessage_Recv W os Socket n h =
     Option.bind (recvData W Socket [] (of_nat sizeof_MF_MESSAGE_HEADER) n) (\<lambda>(r, n).
       case r of
         Inl e \<Rightarrow> Some (Inl e, n)
       | Inr (ret, hdr_bytes) \<Rightarrow>
           let hdr = parse_message hdr_bytes
           in if ret \<noteq> 0 then Some (Inr (ret, None, h), n)
              else if unat (MessageSize hdr) < sizeof_MF_MESSAGE_HEADER
              then Some (Inr (ERROR_INVALID_PARAMETER, None, h), n)
              else
                case MFGen_RefMemAlloc os zero_listed
                       (ucast (MessageSize hdr) + of_nat sizeof_MF_LISTED_MESSAGE - of_nat sizeof_MF_MESSAGE_HEADER) h of
                  Inl e \<Rightarrow> Some (Inl e, n)
                | Inr (ret, p, h) \<Rightarrow>
                    (case p of
                       None \<Rightarrow> Some (Inr (ret, None, h), n)
                     | Some tmpMsg \<Rightarrow>
                         Option.bind (recvData W Socket [] (ucast (MessageSize hdr) - of_nat sizeof_MF_MESSAGE_HEADER) n)
                           (\<lambda>(r, n). Some (rbind r (recv_finish tmpMsg hdr h), n))))"

text \<open>\<open>MessageSize\<close> bytes from the header on are sent; reading behind the message is out of bounds.\<close>

definition MFMessage_Send ::
    "'n winsock \<Rightarrow> u64 \<Rightarrow> MF_LISTED_MESSAGE \<Rightarrow> 'n \<Rightarrow> (i32 \<times> 'n) result" where
  "MFMessage_Send W Socket l n =
     require (unat (MessageSize (lm_Message l)) \<le> length (message_bytes (lm_Message l))) Undef
       (Inr (sendData W Socket (take (unat (MessageSize (lm_Message l))) (message_bytes (lm_Message l))) n))"

section \<open>What the loop does\<close>

text \<open>
  A connected socket: \<open>pending\<close> is what the peer has sent and was not received yet.  As long as
  there is some, \<open>recv\<close> gives at least one and at most the requested number of bytes, in order.
\<close>

definition reliable :: "'n winsock \<Rightarrow> u64 \<Rightarrow> ('n \<Rightarrow> bytes) \<Rightarrow> bool" where
  "reliable W Socket pending \<longleftrightarrow>
     (\<forall>n len. pending n \<noteq> [] \<and> 0 < len \<and> len < 2 ^ 31 \<longrightarrow>
        (\<exists>chunk n'. ws_recv W Socket len n = (Inl chunk, n') \<and> chunk \<noteq> [] \<and> length chunk \<le> unat len \<and>
           pending n = chunk @ pending n'))"

lemma unat_ucast_64_32: "unat (x :: u64) < 2 ^ 32 \<Longrightarrow> unat (ucast x :: u32) = unat x"
  by (simp add: unsigned_ucast_eq take_bit_nat_eq_self del: unsigned_of_nat)

lemma recvData_complete:
  assumes "reliable W Socket pending" "unat Length \<le> length (pending n)" "unat Length < 2 ^ 31"
  shows "\<exists>n'. recvData W Socket acc Length n = Some (Inr (0, acc @ take (unat Length) (pending n)), n') \<and>
    pending n' = drop (unat Length) (pending n)"
  using assms(2,3)
proof (induction "unat Length" arbitrary: Length n acc rule: less_induct)
  case less
  show ?case
  proof (cases "Length = 0")
    case True
    then show ?thesis by (intro exI [of _ n]) (simp add: recvData.simps [of W Socket acc 0 n])
  next
    case False
    then have pos: "0 < unat Length" by (simp add: unat_gt_0)
    let ?len = "ucast Length :: u32"
    have u: "unat ?len = unat Length" using less.prems(2) by (intro unat_ucast_64_32) simp
    then have "0 < ?len" "?len < 2 ^ 31" using pos less.prems(2) by (simp_all add: word_less_nat_alt)
    moreover have "pending n \<noteq> []" using pos less.prems(1) by auto
    ultimately obtain chunk n1 where c: "ws_recv W Socket ?len n = (Inl chunk, n1)" "chunk \<noteq> []"
      "length chunk \<le> unat Length" "pending n = chunk @ pending n1"
      using assms(1) u unfolding reliable_def by metis
    let ?L = "Length - of_nat (length chunk)"
    have k: "unat (of_nat (length chunk) :: u64) = length chunk"
      using c(3) less.prems(2) by (simp add: unat_of_nat)
    have L: "unat ?L = unat Length - length chunk"
      using c(3) k by (subst unat_sub) (simp_all add: word_le_nat_alt del: unsigned_of_nat)
    have "unat ?L < unat Length" "unat ?L \<le> length (pending n1)" "unat ?L < 2 ^ 31"
      using L c(2-4) less.prems pos by (auto simp: Suc_le_eq)
    from less.hyps [OF this(1) this(2) this(3), of "acc @ chunk"] obtain n' where
      "recvData W Socket (acc @ chunk) ?L n1 = Some (Inr (0, (acc @ chunk) @ take (unat ?L) (pending n1)), n')"
      "pending n' = drop (unat ?L) (pending n1)" by blast
    then show ?thesis
      using False c L by (intro exI [of _ n']) (simp add: recvData.simps [of W Socket acc Length n])
  qed
qed

text \<open>A peer that has closed its side: \<open>recv\<close> gives no bytes and no error.\<close>

definition peer_closed :: "'n winsock \<Rightarrow> u64 \<Rightarrow> 'n \<Rightarrow> bool" where
  "peer_closed W Socket n \<longleftrightarrow> (\<forall>len. ws_recv W Socket len n = (Inl [], n))"

lemma recvData_closed:
  fixes n :: 'n
  assumes "peer_closed W Socket n" "recvData W Socket acc Length n = Some y"
  shows "Length = 0"
proof -
  have "peer_closed W Socket n \<longrightarrow> Length = 0"
  proof (rule recvData.raw_induct [where P = "\<lambda>W Socket acc L n y. peer_closed W Socket n \<longrightarrow> L = 0", OF _ assms(2)])
    fix f and W :: "'n winsock" and Socket acc L n y
    assume hyp: "\<And>W Socket acc L n y. f W Socket acc L n = Some y \<Longrightarrow> peer_closed W Socket n \<longrightarrow> L = 0"
      and body: "(if L = 0 then Some (Inr (0, acc), n)
        else case ws_recv W Socket (ucast L) n of
               (Inl chunk, n') \<Rightarrow>
                 if length chunk \<le> unat L then f W Socket (acc @ chunk) (L - of_nat (length chunk)) n'
                 else Some (Inl Undef, n')
             | (Inr e, n') \<Rightarrow> Some (Inr (e, acc), n')) = Some (y :: (i32 \<times> bytes) result \<times> 'n)"
    show "peer_closed W Socket n \<longrightarrow> L = 0"
    proof (intro impI, rule ccontr)
      assume closed: "peer_closed W Socket n" and "L \<noteq> 0"
      then have "f W Socket acc L n = Some y" using body by (simp add: peer_closed_def)
      then show False using hyp closed \<open>L \<noteq> 0\<close> by blast
    qed
  qed
  with assms(1) show ?thesis by blast
qed

section \<open>What a reception does\<close>

lemma recv_finish_ok:
  assumes "heap_ok h" "p \<noteq> 0" "h (p - 0x10) = Some \<lparr>RefCount = 1, Contents = l\<rparr>"
  shows "recv_finish p hdr h (0, data) = Inr (0, Some p,
      h(p - 0x10 \<mapsto> \<lparr>RefCount = 1, Contents = l\<lparr>lm_Message := hdr\<lparr>Payload := data\<rparr>\<rparr>\<rparr>))"
    "ret \<noteq> 0 \<Longrightarrow> recv_finish p hdr h (ret, data) = Inr (ret, None, h(p - 0x10 := None))"
  using assms
  by (simp_all add: recv_finish_def mem_read_def mem_write_def MFGen_RefMemAddRef_def MFGen_RefMemRelease_def Let_def)

lemma take_header_bytes: "msg_ok m \<Longrightarrow> take 224 (message_bytes m @ x) = header_bytes m"
  by (simp add: message_bytes_def)

lemma parse_header_bytes: "msg_ok m \<Longrightarrow> parse_message (header_bytes m) = m\<lparr>Payload := []\<rparr>"
  using parse_message_bytes [of "m\<lparr>Payload := []\<rparr>"] by (simp add: message_bytes_def)

text \<open>The size of the block: the listed message is 32 bytes longer than the message.\<close>

lemma listed_size:
  assumes "224 \<le> unat (ms :: u32)"
  shows "unat (ucast ms + of_nat sizeof_MF_LISTED_MESSAGE - of_nat sizeof_MF_MESSAGE_HEADER :: u64) = unat ms + 32"
    "unat (ucast ms - of_nat sizeof_MF_MESSAGE_HEADER :: u64) = unat ms - 224"
proof -
  have "unat ms < 2 ^ 32" using unsigned_less [of ms, where ?'a = nat] by simp
  moreover have "unat (ucast ms :: u64) = unat ms" by simp
  moreover have "of_nat sizeof_MF_LISTED_MESSAGE = (256 :: u64)" "of_nat sizeof_MF_MESSAGE_HEADER = (224 :: u64)"
    by (simp_all add: sizeof_MF_LISTED_MESSAGE_def sizeof_MF_MESSAGE_HEADER_def)
  moreover have "ucast ms + 256 - 224 = (ucast ms + 32 :: u64)" by simp
  ultimately show "unat (ucast ms + of_nat sizeof_MF_LISTED_MESSAGE - of_nat sizeof_MF_MESSAGE_HEADER :: u64) = unat ms + 32"
    "unat (ucast ms - of_nat sizeof_MF_MESSAGE_HEADER :: u64) = unat ms - 224"
    using assms by (simp_all add: unat_word_ariths unat_sub word_le_nat_alt)
qed

lemma MFMessage_Recv_message:
  assumes "reliable W Socket pending" "alloc_fresh os" "heap_ok h" "msg_ok m"
    "unat (MessageSize m) = 224 + length (Payload m)" "unat (MessageSize m) < 2 ^ 31"
    "pending n = message_bytes m @ x" "os (ucast (MessageSize m) + 0x30) h \<noteq> None"
  shows "\<exists>p h' n'. MFMessage_Recv W os Socket n h = Some (Inr (0, Some p, h'), n') \<and> pending n' = x \<and> p \<noteq> 0 \<and>
    refs h p = 0 \<and> heap_ok h' \<and> refs h' = (refs h)(p := 1) \<and> (\<forall>a. a \<noteq> p - 0x10 \<longrightarrow> h' a = h a) \<and>
    mem_read p h' = Inr ((zero_listed (unat (MessageSize m) + 32))\<lparr>lm_Message := m\<rparr>)"
proof -
  have h224: "unat (of_nat sizeof_MF_MESSAGE_HEADER :: u64) = 224" by (simp add: sizeof_MF_MESSAGE_HEADER_def)
  have len: "length (message_bytes m) = 224 + length (Payload m)" using assms(4) by simp
  then have "224 \<le> length (pending n)" using assms(7) by simp
  then obtain n1 where n1: "recvData W Socket [] (of_nat sizeof_MF_MESSAGE_HEADER) n =
      Some (Inr (0, header_bytes m), n1)" "pending n1 = Payload m @ x"
    using recvData_complete [OF assms(1), of "of_nat sizeof_MF_MESSAGE_HEADER" n "[]"] h224 assms(4,7)
    by (auto simp: take_header_bytes) (simp add: message_bytes_def)
  note hdr = parse_header_bytes [OF assms(4)]
  let ?b = "ucast (MessageSize m) + of_nat sizeof_MF_LISTED_MESSAGE - of_nat sizeof_MF_MESSAGE_HEADER :: u64"
  have ge: "224 \<le> unat (MessageSize m)" using assms(5) by simp
  have b: "unat ?b = unat (MessageSize m) + 32" by (rule listed_size(1) [OF ge])
  have lim: "unat ?b + 16 < 2 ^ 64" unfolding b using assms(6) by simp
  have "?b + 0x10 = ucast (MessageSize m) + 0x30"
    by (simp add: sizeof_MF_LISTED_MESSAGE_def sizeof_MF_MESSAGE_HEADER_def)
  then obtain a where "os (?b + 0x10) h = Some a" using assms(8) by auto
  from RefMemAlloc_ok [OF assms(2,3) lim this, of zero_listed] obtain p h1 where
    al: "MFGen_RefMemAlloc os zero_listed ?b h = Inr (0, Some p, h1)" "p \<noteq> 0" "refs h p = 0" "heap_ok h1" and
    h1: "h1 = h(p - 0x10 \<mapsto> \<lparr>RefCount = 1, Contents = zero_listed (unat (MessageSize m) + 32)\<rparr>)"
    unfolding b by blast
  have rlen: "unat (ucast (MessageSize m) - of_nat sizeof_MF_MESSAGE_HEADER :: u64) = length (Payload m)"
    using listed_size(2) [OF ge] assms(5) by simp
  then obtain n2 where n2: "recvData W Socket [] (ucast (MessageSize m) - of_nat sizeof_MF_MESSAGE_HEADER) n1 =
      Some (Inr (0, Payload m), n2)" "pending n2 = x"
    using recvData_complete [OF assms(1), of "ucast (MessageSize m) - of_nat sizeof_MF_MESSAGE_HEADER" n1 "[]"]
      n1(2) assms(5,6) by auto
  let ?l = "(zero_listed (unat (MessageSize m) + 32))\<lparr>lm_Message := m\<rparr>"
  let ?h = "h1(p - 0x10 \<mapsto> \<lparr>RefCount = 1, Contents = ?l\<rparr>)"
  have f: "recv_finish p (m\<lparr>Payload := []\<rparr>) h1 (0, Payload m) = Inr (0, Some p, ?h)"
    using recv_finish_ok(1) [OF al(4,2), of "zero_listed (unat (MessageSize m) + 32)"] h1 by simp
  have r: "MFMessage_Recv W os Socket n h = Some (Inr (0, Some p, ?h), n2)"
    unfolding MFMessage_Recv_def n1(1) using ge n2(1) al(1) f
    by (simp add: hdr sizeof_MF_MESSAGE_HEADER_def)
  have "heap_ok ?h" using al(2,4) unfolding heap_ok_def by auto
  moreover have "refs ?h = (refs h)(p := 1)" using h1 by (auto simp: refs_upd)
  moreover have "mem_read p ?h = Inr ?l" "\<forall>a. a \<noteq> p - 0x10 \<longrightarrow> ?h a = h a" by (simp_all add: mem_read_def h1)
  ultimately show ?thesis using r n2(2) al(2,3) by blast
qed

text \<open>A header that announces less than itself is refused before anything is allocated.\<close>

lemma MFMessage_Recv_rejects:
  assumes "reliable W Socket pending" "msg_ok m" "unat (MessageSize m) < 224" "pending n = header_bytes m @ x"
  shows "\<exists>n'. MFMessage_Recv W os Socket n h = Some (Inr (ERROR_INVALID_PARAMETER, None, h), n') \<and> pending n' = x"
proof -
  have h224: "unat (of_nat sizeof_MF_MESSAGE_HEADER :: u64) = 224" by (simp add: sizeof_MF_MESSAGE_HEADER_def)
  then obtain n1 where "recvData W Socket [] (of_nat sizeof_MF_MESSAGE_HEADER) n =
      Some (Inr (0, header_bytes m), n1)" "pending n1 = x"
    using recvData_complete [OF assms(1), of "of_nat sizeof_MF_MESSAGE_HEADER" n "[]"] assms(2,4) by auto
  then show ?thesis
    using assms(3) by (simp add: MFMessage_Recv_def parse_header_bytes [OF assms(2)] sizeof_MF_MESSAGE_HEADER_def)
qed

text \<open>A sending socket whose bytes arrive: the documented behaviour of a blocking \<open>send\<close>.\<close>

definition delivers :: "'n winsock \<Rightarrow> u64 \<Rightarrow> ('n \<Rightarrow> bytes) \<Rightarrow> bool" where
  "delivers W Socket pending \<longleftrightarrow>
     (\<forall>n data. length data < 2 ^ 31 \<longrightarrow> (\<exists>err n'. ws_send W Socket data (of_nat (length data)) n =
        (of_nat (length data), err, n') \<and> pending n' = pending n @ data))"

lemma scast_of_nat_32_64: "k < 2 ^ 31 \<Longrightarrow> (scast (of_nat k :: i32) :: u64) = of_nat k"
proof -
  assume k: "k < 2 ^ 31"
  then have "sint (of_nat k :: i32) = int k"
    by (simp add: signed_of_nat signed_take_bit_int_eq_self)
  then have "(of_int (sint (of_nat k :: i32)) :: u64) = of_nat k" by simp
  then show ?thesis by simp
qed

lemma ucast_of_nat_64_32: "(ucast (of_nat k :: u64) :: i32) = of_nat k"
  by (rule bit_word_eqI) (simp add: bit_simps)

lemma sendData_delivers:
  assumes "delivers W Socket pending" "length Data < 2 ^ 31"
  shows "\<exists>n'. sendData W Socket Data n = (0, n') \<and> pending n' = pending n @ Data"
proof -
  obtain err n' where "ws_send W Socket Data (of_nat (length Data)) n = (of_nat (length Data), err, n')"
    "pending n' = pending n @ Data" using assms unfolding delivers_def by metis
  then show ?thesis
    by (simp add: sendData_def Let_def ucast_of_nat_64_32 scast_of_nat_32_64 [OF assms(2)])
qed

section \<open>A network for the instances\<close>

text \<open>One byte stream; \<open>recv\<close> gives at most five bytes at a time.\<close>

definition pipe :: "bytes winsock" where
  "pipe = \<lparr>ws_send = (\<lambda>s data len n. (len, 0, n @ data)),
           ws_recv = (\<lambda>s len n. (Inl (take (min 5 (unat len)) n), drop (min 5 (unat len)) n))\<rparr>"

lemma pipe_ok: "reliable pipe s (\<lambda>n. n)" "delivers pipe s (\<lambda>n. n)" "peer_closed pipe s []"
proof -
  have "unat len \<noteq> 0" if "0 < len" for len :: i32 using that by (simp add: unat_gt_0 word_neq_0_conv)
  then show "reliable pipe s (\<lambda>n. n)" by (auto simp: reliable_def pipe_def)
  show "delivers pipe s (\<lambda>n. n)" by (auto simp: delivers_def pipe_def)
  show "peer_closed pipe s []" by (simp add: peer_closed_def pipe_def)
qed

definition one_listed :: "MF_LISTED_MESSAGE allocator" where
  "one_listed n h = (if h 0x1000 = None then Some 0x1000 else None)"

lemma one_listed_ok: "alloc_fresh one_listed" "heap_ok Map.empty" "one_listed n Map.empty \<noteq> None"
  by (auto simp: alloc_fresh_def heap_ok_def one_listed_def)

section \<open>Properties\<close>

text \<open>
  C7: A message that is sent on one end of a connection is received on the other: header and data
  arrive whole however \<open>recv\<close> cuts the stream, in a new block with one reference; nothing is left in
  the connection and no other block changes.
\<close>

theorem MFMessage_Send_Recv:
  assumes "delivers W A pending" "reliable W B pending" "pending n = []" "alloc_fresh os" "heap_ok h"
    "msg_ok m" "unat (MessageSize m) = 224 + length (Payload m)" "unat (MessageSize m) < 2 ^ 31"
    "os (ucast (MessageSize m) + 0x30) h \<noteq> None"
  shows "\<exists>n1 p h' n2 l. MFMessage_Send W A \<lparr>lm_Connection = c, lm_OriginalFlags = f, lm_Message = m\<rparr> n = Inr (0, n1) \<and>
    MFMessage_Recv W os B n1 h = Some (Inr (0, Some p, h'), n2) \<and> pending n2 = [] \<and>
    mem_read p h' = Inr l \<and> lm_Message l = m \<and> refs h' = (refs h)(p := 1) \<and> refs h p = 0 \<and>
    (\<forall>a. a \<noteq> p - 0x10 \<longrightarrow> h' a = h a)"
proof -
  have len: "length (message_bytes m) = unat (MessageSize m)" using assms(6,7) by simp
  obtain n1 where n1: "sendData W A (message_bytes m) n = (0, n1)" "pending n1 = message_bytes m @ []"
    using sendData_delivers [OF assms(1), of "message_bytes m" n] len assms(3,8) by auto
  have "MFMessage_Send W A \<lparr>lm_Connection = c, lm_OriginalFlags = f, lm_Message = m\<rparr> n = Inr (0, n1)"
    using n1(1) len unfolding MFMessage_Send_def by simp
  moreover from MFMessage_Recv_message [OF assms(2,4,5,6,7,8) n1(2) assms(9)] obtain p h' n2 where
    "MFMessage_Recv W os B n1 h = Some (Inr (0, Some p, h'), n2)" "pending n2 = []" "refs h p = 0"
    "refs h' = (refs h)(p := 1)" "\<forall>a. a \<noteq> p - 0x10 \<longrightarrow> h' a = h a"
    "mem_read p h' = Inr ((zero_listed (unat (MessageSize m) + 32))\<lparr>lm_Message := m\<rparr>)" by blast
  ultimately show ?thesis by fastforce
qed

lemma MFMessage_Send_Recv_witness:
  "\<exists>n1 p h' n2 l. MFMessage_Send pipe 1 \<lparr>lm_Connection = None, lm_OriginalFlags = 0, lm_Message = demo_message\<rparr> [] =
      Inr (0, n1) \<and> MFMessage_Recv pipe one_listed 2 n1 Map.empty = Some (Inr (0, Some p, h'), n2) \<and> n2 = [] \<and>
    mem_read p h' = Inr l \<and> lm_Message l = demo_message"
  using MFMessage_Send_Recv [OF pipe_ok(2,1) refl one_listed_ok(1,2) demo_message_ok(1) _ _ one_listed_ok(3), of 1 None 0 2]
    demo_message_ok by auto

text \<open>
  C8: When the peer has closed its side, receiving never returns: \<open>recv\<close> gives 0, which the loop
  takes for progress, and no bytes are ever missing less.
\<close>

theorem recvData_hangs:
  assumes "peer_closed W Socket n"
  shows "(Length \<noteq> 0 \<longrightarrow> recvData W Socket acc Length n = None) \<and> MFMessage_Recv W os Socket n h = None"
proof -
  have 1: "recvData W Socket acc L n = None" if "L \<noteq> 0" for acc L
    using recvData_closed [OF assms, of acc L] that by (cases "recvData W Socket acc L n") blast+
  have "(of_nat sizeof_MF_MESSAGE_HEADER :: u64) \<noteq> 0" by (simp add: sizeof_MF_MESSAGE_HEADER_def)
  then show ?thesis using 1 by (simp add: MFMessage_Recv_def)
qed

lemma recvData_hangs_witness:
  "recvData pipe 2 [7] 4 [] = None \<and> MFMessage_Recv pipe one_listed 2 [] Map.empty = None"
  using recvData_hangs [OF pipe_ok(3), of 4 2 "[7]" one_listed Map.empty] by simp



end
