(* ===== verification/Connections.thy ===== *)
theory Connections
  imports Network Protocol
begin

text \<open>
  The connections of \<open>mfbroker/mfbroker.c\<close>: the slots of the broker's array, how they are searched, and
  the reference counting, the queue of messages to send and the end of a connection.  The store has
  the array, the heap of listed messages and a record of what was told to Winsock.  A queue is the
  list of the messages linked from \<open>MessagesToSend\<close>, in order (theory \<open>MFList\<close> shows that the links
  represent it); what the code does while it holds \<open>SendLock\<close> is one step here.
\<close>

section \<open>State\<close>

datatype EMFConnectionState = mcsFree | mcsHandshake | mcfEstablished

record MF_CONNECTION =
  cn_Key :: MFCRYPTO_PUBLIC_KEY
  ReferenceCount :: i32
  cn_Socket :: u64
  cn_State :: EMFConnectionState
  cn_Context :: u64
  MessagesToSend :: "u64 list"
  SendLock :: bool
  Disconnected :: bool

text \<open>\<open>closesocket\<close> calls are recorded, the latest last.  \<open>SendLock\<close> says whether the lock is initialised.\<close>

record broker_store =
  bs_conns :: "MF_CONNECTION list"
  bs_heap :: "MF_LISTED_MESSAGE heap"
  bs_closed :: "u64 list"

definition INVALID_SOCKET :: u64 where
  "INVALID_SOCKET = - 1"

definition zero_connection :: MF_CONNECTION where
  "zero_connection = \<lparr>cn_Key = \<lparr>pk_Enc = replicate 32 0, pk_Sign = replicate 32 0\<rparr>, ReferenceCount = 0, cn_Socket = 0,
     cn_State = mcsFree, cn_Context = 0, MessagesToSend = [], SendLock = False, Disconnected = False\<rparr>"

section \<open>Slots\<close>

text \<open>
  \<open>MFLock_Init\<close> gives \<open>lock_ret\<close>; when it fails the status is that of a second \<open>GetLastError\<close>.  The
  slot is cleared in both cases.
\<close>

definition MFConn_Init :: "i32 \<Rightarrow> i32 \<Rightarrow> u64 \<Rightarrow> u64 \<Rightarrow> i32 \<times> MF_CONNECTION" where
  "MFConn_Init lock_ret last_error Socket Ctx =
     (if lock_ret = 0
      then (0, zero_connection\<lparr>SendLock := True, MessagesToSend := [], cn_Socket := Socket, cn_Context := Ctx,
                 ReferenceCount := 1, cn_State := mcsHandshake\<rparr>)
      else (last_error, zero_connection))"

text \<open>
  Pointers to connections are slot numbers.  Reading behind the array is out of bounds.  A step of
  0 would stay on a free slot forever.
\<close>

function MFConn_Next :: "MF_CONNECTION list \<Rightarrow> nat \<Rightarrow> nat \<Rightarrow> nat \<Rightarrow> nat \<Rightarrow> nat option result option" where
  "MFConn_Next conns Start ret limit Step =
     (if Start + limit \<le> ret then Some (Inr None)
      else if length conns \<le> ret then Some (Inl Undef)
      else if cn_State (conns ! ret) \<noteq> mcsFree then Some (Inr (Some ret))
      else if Step = 0 then None
      else MFConn_Next conns Start (ret + Step) limit Step)"
  by pat_completeness auto

termination
  by (relation "measure (\<lambda>(conns, Start, ret, limit, Step). Start + limit - ret)") auto

declare MFConn_Next.simps [simp del]

definition MFConn_First :: "MF_CONNECTION list \<Rightarrow> nat \<Rightarrow> nat \<Rightarrow> nat \<Rightarrow> nat option result option" where
  "MFConn_First conns Start limit Step = MFConn_Next conns Start Start limit Step"

function MFConn_FindFree :: "MF_CONNECTION list \<Rightarrow> nat \<Rightarrow> nat \<Rightarrow> nat \<Rightarrow> nat option result" where
  "MFConn_FindFree conns Start limit ret =
     (if Start + limit \<le> ret then Inr None
      else if length conns \<le> ret then Inl Undef
      else if cn_State (conns ! ret) = mcsFree then Inr (Some ret)
      else MFConn_FindFree conns Start limit (ret + 1))"
  by pat_completeness auto

termination
  by (relation "measure (\<lambda>(conns, Start, limit, ret). Start + limit - ret)") auto

declare MFConn_FindFree.simps [simp del]

section \<open>References, disconnection, release\<close>

text \<open>\<open>Conn->field = v\<close>\<close>

definition conn_write :: "nat \<Rightarrow> (MF_CONNECTION \<Rightarrow> MF_CONNECTION) \<Rightarrow> broker_store \<Rightarrow> broker_store result" where
  "conn_write c f st =
     require (c < length (bs_conns st)) Undef (Inr (st\<lparr>bs_conns := (bs_conns st)[c := f (bs_conns st ! c)]\<rparr>))"

definition MFConnection_AddRef :: "nat \<Rightarrow> broker_store \<Rightarrow> broker_store result" where
  "MFConnection_AddRef c st = conn_write c (\<lambda>x. x\<lparr>ReferenceCount := ReferenceCount x + 1\<rparr>) st"

definition MFConnection_Disconnect :: "nat \<Rightarrow> broker_store \<Rightarrow> broker_store result" where
  "MFConnection_Disconnect c st =
     require (c < length (bs_conns st)) Undef
       (let s = cn_Socket (bs_conns st ! c);
            st = (if s \<noteq> INVALID_SOCKET then st\<lparr>bs_closed := bs_closed st @ [s]\<rparr> else st)
        in conn_write c (\<lambda>x. x\<lparr>cn_Socket := INVALID_SOCKET, Disconnected := True\<rparr>) st)"

text \<open>
  \<open>MFConnection_Clear\<close> releases the connection each message refers to, and \<open>MFConnection_Release\<close>
  clears the connection when its count reaches 0: \<open>rel\<close> is the former's call of the latter.  The
  loop walks over the links while the messages are released; the queue is emptied after it.
\<close>

fun clear_loop :: "(nat \<Rightarrow> broker_store \<Rightarrow> broker_store result) \<Rightarrow> u64 list \<Rightarrow> broker_store \<Rightarrow> broker_store result" where
  "clear_loop rel [] st = Inr st"
| "clear_loop rel (old # ms) st =
     rbind (mem_read old (bs_heap st)) (\<lambda>l.
     rbind (case lm_Connection l of None \<Rightarrow> Inl Undef | Some c \<Rightarrow> rel c st) (\<lambda>st.
     rbind (MFGen_RefMemRelease old (bs_heap st)) (\<lambda>h.
       clear_loop rel ms (st\<lparr>bs_heap := h\<rparr>))))"

definition conn_clear :: "(nat \<Rightarrow> broker_store \<Rightarrow> broker_store result) \<Rightarrow> nat \<Rightarrow> broker_store \<Rightarrow> broker_store result" where
  "conn_clear rel c st =
     require (c < length (bs_conns st)) Undef
       (rbind (clear_loop rel (MessagesToSend (bs_conns st ! c)) st) (\<lambda>st.
          conn_write c (\<lambda>x. x\<lparr>MessagesToSend := []\<rparr>) st))"

text \<open>
  \<open>k\<close> bounds how deep the two functions call each other; a connection whose count has reached 0
  cannot reach it again, so one level more than there are slots is never used up.
\<close>

fun conn_release :: "nat \<Rightarrow> nat \<Rightarrow> broker_store \<Rightarrow> broker_store result" where
  "conn_release 0 c st = Inl Undef"
| "conn_release (Suc k) c st =
     rbind (conn_write c (\<lambda>x. x\<lparr>ReferenceCount := ReferenceCount x - 1\<rparr>) st) (\<lambda>st.
       if ReferenceCount (bs_conns st ! c) = 0
       then rbind (MFConnection_Disconnect c st) (\<lambda>st.
            rbind (conn_clear (conn_release k) c st) (\<lambda>st.
              conn_write c (\<lambda>x. x\<lparr>SendLock := False, cn_State := mcsFree\<rparr>) st))
       else Inr st)"

definition MFConnection_Release :: "nat \<Rightarrow> broker_store \<Rightarrow> broker_store result" where
  "MFConnection_Release c st = conn_release (Suc (Suc (length (bs_conns st)))) c st"

definition MFConnection_Clear :: "nat \<Rightarrow> broker_store \<Rightarrow> broker_store result" where
  "MFConnection_Clear c st = conn_clear MFConnection_Release c st"

definition MFConnection_SetKey :: "nat \<Rightarrow> MFCRYPTO_PUBLIC_KEY \<Rightarrow> broker_store \<Rightarrow> broker_store result" where
  "MFConnection_SetKey c Key st = conn_write c (\<lambda>x. x\<lparr>cn_Key := Key, cn_State := mcfEstablished\<rparr>) st"

section \<open>Sending\<close>

text \<open>
  The caller's message \<open>m\<close> is copied, \<open>MessageSize\<close> bytes from its header on, behind the 32 bytes of
  the list entry, and the copy is put at the end of the queue.  A message shorter than its header is
  taken for out of bounds here already.
\<close>

definition MFConnection_SendAsync ::
    "MF_LISTED_MESSAGE allocator \<Rightarrow> nat \<Rightarrow> MF_MESSAGE \<Rightarrow> broker_store \<Rightarrow> (i32 \<times> broker_store) result" where
  "MFConnection_SendAsync os c m st =
     rbind (MFGen_RefMemAlloc os zero_listed
              (of_nat sizeof_MF_LISTED_MESSAGE - of_nat sizeof_MF_MESSAGE_HEADER + ucast (MessageSize m)) (bs_heap st))
       (\<lambda>(ret, p, h).
          case p of
            None \<Rightarrow> Inr (ret, st\<lparr>bs_heap := h\<rparr>)
          | Some l \<Rightarrow>
              rbind (MFConnection_AddRef c (st\<lparr>bs_heap := h\<rparr>)) (\<lambda>st.
              require (sizeof_MF_MESSAGE_HEADER \<le> unat (MessageSize m) \<and>
                       unat (MessageSize m) \<le> length (message_bytes m)) Undef
              (let copy = parse_message (take (unat (MessageSize m)) (message_bytes m));
                   item = \<lparr>lm_Connection = Some c, lm_OriginalFlags = ucast (Flags copy), lm_Message = copy\<rparr>
               in rbind (mem_write l item (bs_heap st)) (\<lambda>h.
                  rbind (conn_write c (\<lambda>x. x\<lparr>MessagesToSend := MessagesToSend x @ [l]\<rparr>) (st\<lparr>bs_heap := h\<rparr>)) (\<lambda>st.
                    Inr (ret, st))))))"

section \<open>The invariant\<close>

text \<open>
  References of others than the messages in the queue: the count less the length of the queue.  A
  connection in use has a count that covers its queue, and its messages are alive with one
  reference, refer to it, and are in no other queue.  A free slot has no queue.
\<close>

definition conn_ok :: "MF_LISTED_MESSAGE heap \<Rightarrow> nat \<Rightarrow> MF_CONNECTION \<Rightarrow> bool" where
  "conn_ok h c x \<longleftrightarrow> distinct (MessagesToSend x) \<and> length (MessagesToSend x) < 2 ^ 31 \<and>
     (cn_State x = mcsFree \<longrightarrow> MessagesToSend x = []) \<and>
     (cn_State x \<noteq> mcsFree \<longrightarrow> length (MessagesToSend x) \<le> unat (ReferenceCount x) \<and> 0 < ReferenceCount x) \<and>
     (\<forall>p \<in> set (MessagesToSend x). refs h p = 1 \<and> (\<exists>l. mem_read p h = Inr l \<and> lm_Connection l = Some c))"

definition store_ok :: "broker_store \<Rightarrow> bool" where
  "store_ok st \<longleftrightarrow> heap_ok (bs_heap st) \<and> (\<forall>c < length (bs_conns st). conn_ok (bs_heap st) c (bs_conns st ! c))"

definition ext_refs :: "broker_store \<Rightarrow> nat \<Rightarrow> nat" where
  "ext_refs st c =
     (if c < length (bs_conns st) \<and> cn_State (bs_conns st ! c) \<noteq> mcsFree
      then unat (ReferenceCount (bs_conns st ! c)) - length (MessagesToSend (bs_conns st ! c)) else 0)"

lemma store_okD: "store_ok st \<Longrightarrow> c < length (bs_conns st) \<Longrightarrow> conn_ok (bs_heap st) c (bs_conns st ! c)"
  by (simp add: store_ok_def)

lemma ext_refs_pos:
  assumes "0 < ext_refs st c"
  shows "c < length (bs_conns st)" "cn_State (bs_conns st ! c) \<noteq> mcsFree"
    "unat (ReferenceCount (bs_conns st ! c)) = ext_refs st c + length (MessagesToSend (bs_conns st ! c))"
  using assms by (auto simp: ext_refs_def split: if_splits)

text \<open>Changing one connection.\<close>

lemma store_ok_update:
  assumes "store_ok st" "conn_ok (bs_heap st) c x"
  shows "store_ok (st\<lparr>bs_conns := (bs_conns st)[c := x], bs_closed := cl\<rparr>)"
    "store_ok (st\<lparr>bs_conns := (bs_conns st)[c := x]\<rparr>)"
  using assms by (cases "c < length (bs_conns st)"; auto simp: store_ok_def nth_list_update)+

lemma conn_write_ok:
  assumes "store_ok st" "c < length (bs_conns st)" "conn_ok (bs_heap st) c (f (bs_conns st ! c))"
  shows "\<exists>st'. conn_write c f st = Inr st' \<and> store_ok st' \<and> bs_conns st' = (bs_conns st)[c := f (bs_conns st ! c)] \<and>
    bs_heap st' = bs_heap st \<and> bs_closed st' = bs_closed st"
  using assms by (auto simp: conn_write_def store_ok_def nth_list_update)

lemma ext_refs_update:
  assumes "bs_conns st' = (bs_conns st)[c := x]" "c < length (bs_conns st)"
    "(if cn_State x \<noteq> mcsFree then unat (ReferenceCount x) - length (MessagesToSend x) else 0) = k"
  shows "ext_refs st' = (ext_refs st)(c := k)"
  using assms by (auto simp: ext_refs_def fun_eq_iff nth_list_update)

lemma AddRef_ok:
  assumes "store_ok st" "0 < ext_refs st c" "Suc (ext_refs st c) < 2 ^ 31"
  shows "\<exists>st'. MFConnection_AddRef c st = Inr st' \<and> store_ok st' \<and> ext_refs st' = (ext_refs st)(c := Suc (ext_refs st c)) \<and>
    bs_conns st' = (bs_conns st)[c := (bs_conns st ! c)\<lparr>ReferenceCount := ReferenceCount (bs_conns st ! c) + 1\<rparr>] \<and>
    bs_heap st' = bs_heap st \<and> bs_closed st' = bs_closed st"
proof -
  let ?x = "bs_conns st ! c"
  note e = ext_refs_pos [OF assms(2)]
  have ok: "conn_ok (bs_heap st) c ?x" by (rule store_okD [OF assms(1) e(1)])
  have u: "unat (ReferenceCount ?x + 1) = unat (ReferenceCount ?x) + 1"
    using e(3) assms(3) ok by (intro unat_plus_1) (simp add: conn_ok_def)
  then have "0 < ReferenceCount ?x + 1" by (simp add: word_less_nat_alt)
  then have "conn_ok (bs_heap st) c (?x\<lparr>ReferenceCount := ReferenceCount ?x + 1\<rparr>)"
    using ok u by (auto simp: conn_ok_def)
  from conn_write_ok [OF assms(1) e(1), of "\<lambda>x. x\<lparr>ReferenceCount := ReferenceCount x + 1\<rparr>", OF this] obtain st' where
    st: "MFConnection_AddRef c st = Inr st'" "store_ok st'"
    "bs_conns st' = (bs_conns st)[c := ?x\<lparr>ReferenceCount := ReferenceCount ?x + 1\<rparr>]"
    "bs_heap st' = bs_heap st" "bs_closed st' = bs_closed st"
    unfolding MFConnection_AddRef_def by blast
  have "ext_refs st' = (ext_refs st)(c := Suc (ext_refs st c))"
    by (rule ext_refs_update [OF st(3) e(1)]) (use e u in \<open>simp add: Suc_diff_le\<close>)
  then show ?thesis using st by blast
qed

text \<open>A release that leaves references.\<close>

lemma conn_release_step:
  assumes "c < length (bs_conns st)" "ReferenceCount (bs_conns st ! c) \<noteq> 1"
  shows "conn_release (Suc k) c st = Inr (st\<lparr>bs_conns := (bs_conns st)[c := (bs_conns st ! c)
    \<lparr>ReferenceCount := ReferenceCount (bs_conns st ! c) - 1\<rparr>]\<rparr>)"
proof -
  have "ReferenceCount (bs_conns st ! c) - 1 \<noteq> 0" using assms(2) by simp
  then show ?thesis using assms(1) by (simp add: conn_write_def)
qed

text \<open>The last release of a connection with an empty queue.\<close>

definition freed :: "MF_CONNECTION \<Rightarrow> MF_CONNECTION" where
  "freed x = x\<lparr>ReferenceCount := 0, cn_Socket := INVALID_SOCKET, Disconnected := True, MessagesToSend := [],
     SendLock := False, cn_State := mcsFree\<rparr>"

definition close_of :: "MF_CONNECTION \<Rightarrow> u64 list" where
  "close_of x = (if cn_Socket x \<noteq> INVALID_SOCKET then [cn_Socket x] else [])"

lemma conn_release_last:
  assumes "c < length (bs_conns st)" "ReferenceCount (bs_conns st ! c) = 1" "MessagesToSend (bs_conns st ! c) = []"
  shows "conn_release (Suc k) c st = Inr (st\<lparr>bs_conns := (bs_conns st)[c := freed (bs_conns st ! c)],
    bs_closed := bs_closed st @ close_of (bs_conns st ! c)\<rparr>)"
  using assms
  by (simp add: conn_write_def MFConnection_Disconnect_def conn_clear_def freed_def close_of_def Let_def)

lemma Release_ok:
  assumes "store_ok st" "0 < ext_refs st c"
  shows "\<exists>st'. MFConnection_Release c st = Inr st' \<and> store_ok st' \<and> ext_refs st' = (ext_refs st)(c := ext_refs st c - 1) \<and>
    bs_heap st' = bs_heap st \<and> map MessagesToSend (bs_conns st') = map MessagesToSend (bs_conns st)"
proof -
  let ?x = "bs_conns st ! c"
  have qs: "map MessagesToSend ((bs_conns st)[c := y]) = map MessagesToSend (bs_conns st)"
    if "MessagesToSend y = MessagesToSend ?x" for y
    using that by (simp add: map_update) (metis list_update_beyond list_update_id linorder_not_le nth_map length_map)
  note e = ext_refs_pos [OF assms(2)]
  have ok: "conn_ok (bs_heap st) c ?x" by (rule store_okD [OF assms(1) e(1)])
  show ?thesis
  proof (cases "ReferenceCount ?x = 1")
    case True
    then have "ext_refs st c + length (MessagesToSend ?x) = 1" using e(3) by simp
    then have q: "MessagesToSend ?x = []" "ext_refs st c = 1" using assms(2)
      by (cases "MessagesToSend ?x"; simp)+
    let ?st = "st\<lparr>bs_conns := (bs_conns st)[c := freed ?x], bs_closed := bs_closed st @ close_of ?x\<rparr>"
    have "MFConnection_Release c st = Inr ?st"
      unfolding MFConnection_Release_def by (rule conn_release_last [OF e(1) True q(1)])
    moreover have "store_ok ?st"
      by (rule store_ok_update(1) [OF assms(1)]) (simp add: conn_ok_def freed_def)
    moreover have "ext_refs ?st = (ext_refs st)(c := 0)"
      by (rule ext_refs_update [of _ _ _ "freed ?x"]) (use e(1) in \<open>simp_all add: freed_def\<close>)
    ultimately show ?thesis using q qs [of "freed ?x"] by (simp add: freed_def)
  next
    case False
    let ?y = "?x\<lparr>ReferenceCount := ReferenceCount ?x - 1\<rparr>"
    let ?st = "st\<lparr>bs_conns := (bs_conns st)[c := ?y]\<rparr>"
    have pos: "0 < unat (ReferenceCount ?x)" using e(3) assms(2) by simp
    then have u: "unat (ReferenceCount ?x - 1) = unat (ReferenceCount ?x) - 1" by (rule unat_minus_1)
    have "unat (ReferenceCount ?x) \<noteq> 1" using False by (simp add: word_eq_iff_unsigned [where ?'a = nat])
    then have "0 < unat (ReferenceCount ?x - 1)" using u pos by simp
    then have "0 < ReferenceCount ?x - 1" by (simp add: word_less_nat_alt)
    then have "conn_ok (bs_heap st) c ?y" using ok u e(3) assms(2) by (auto simp: conn_ok_def)
    then have "store_ok ?st" by (rule store_ok_update(2) [OF assms(1)])
    moreover have "MFConnection_Release c st = Inr ?st"
      unfolding MFConnection_Release_def by (rule conn_release_step [OF e(1) False])
    moreover have "ext_refs ?st = (ext_refs st)(c := ext_refs st c - 1)"
      by (rule ext_refs_update [of _ _ _ ?y]) (use e u in simp_all)
    ultimately show ?thesis using qs [of ?y] by (intro exI [of _ ?st]) simp
  qed
qed

interpretation conn: refcounted "2 ^ 31" store_ok ext_refs MFConnection_AddRef MFConnection_Release
proof unfold_locales
  show "\<exists>st'. MFConnection_AddRef c st = Inr st' \<and> store_ok st' \<and> ext_refs st' = (ext_refs st)(c := Suc (ext_refs st c))"
    if "store_ok st" "0 < ext_refs st c" "Suc (ext_refs st c) < 2 ^ 31" for st c
    using AddRef_ok [OF that] by blast
  show "\<exists>st'. MFConnection_Release c st = Inr st' \<and> store_ok st' \<and> ext_refs st' = (ext_refs st)(c := ext_refs st c - 1)"
    if "store_ok st" "0 < ext_refs st c" for st c
    using Release_ok [OF that] by blast
qed

section \<open>Clearing and sending\<close>

lemma RefMemRelease_last:
  assumes "heap_ok h" "refs h p = 1"
  shows "MFGen_RefMemRelease p h = Inr (h(p - 0x10 := None))" "heap_ok (h(p - 0x10 := None))"
proof -
  have "p \<noteq> 0" using refs_null [OF assms(1)] assms(2) by auto
  moreover obtain b where "h (p - 0x10) = Some b" "unat (RefCount b) = 1"
    using refs_pos [of h p] assms(2) by auto
  moreover from this(2) have "RefCount b = 1" by (simp add: word_eq_iff_unsigned [where ?'a = nat])
  ultimately show "MFGen_RefMemRelease p h = Inr (h(p - 0x10 := None))" by (simp add: MFGen_RefMemRelease_def)
  show "heap_ok (h(p - 0x10 := None))" using assms(1) by (auto simp: heap_ok_def)
qed

lemma clear_loop_ok:
  assumes "c < length (bs_conns st)" "heap_ok (bs_heap st)" "distinct ms"
    "\<forall>p \<in> set ms. refs (bs_heap st) p = 1 \<and> (\<exists>l. mem_read p (bs_heap st) = Inr l \<and> lm_Connection l = Some c)"
    "unat (ReferenceCount (bs_conns st ! c)) = Suc e + length ms"
  shows "\<exists>h. clear_loop MFConnection_Release ms st = Inr (st\<lparr>bs_conns := (bs_conns st)[c := (bs_conns st ! c)
      \<lparr>ReferenceCount := of_nat (Suc e)\<rparr>], bs_heap := h\<rparr>) \<and> heap_ok h \<and>
    (\<forall>a. h a = (if a + 0x10 \<in> set ms then None else bs_heap st a))"
  using assms
proof (induction ms arbitrary: st)
  case Nil
  have "w = of_nat (unat w)" for w :: i32 by simp
  then have "ReferenceCount (bs_conns st ! c) = of_nat (Suc e)" using Nil.prems(5) by (metis add_0_right list.size(3))
  then have "(bs_conns st ! c)\<lparr>ReferenceCount := of_nat (Suc e)\<rparr> = bs_conns st ! c" by simp
  then show ?case using Nil by (intro exI [of _ "bs_heap st"]) simp
next
  case (Cons p ms)
  let ?x = "bs_conns st ! c"
  let ?y = "?x\<lparr>ReferenceCount := ReferenceCount ?x - 1\<rparr>"
  let ?h = "(bs_heap st)(p - 0x10 := None)"
  let ?st = "st\<lparr>bs_conns := (bs_conns st)[c := ?y], bs_heap := ?h\<rparr>"
  have big: "1 < unat (ReferenceCount ?x)" using Cons.prems(5) by simp
  then have rel: "MFConnection_Release c st = Inr (st\<lparr>bs_conns := (bs_conns st)[c := ?y]\<rparr>)"
    unfolding MFConnection_Release_def by (intro conn_release_step Cons.prems(1)) auto
  have p: "refs (bs_heap st) p = 1" using Cons.prems(4) by simp
  note free = RefMemRelease_last [OF Cons.prems(2) p]
  have u: "unat (ReferenceCount ?y) = Suc e + length ms"
    using unat_minus_1 [of "ReferenceCount ?x"] big Cons.prems(5) by simp
  have step: "c < length (bs_conns ?st)" "heap_ok (bs_heap ?st)" "distinct ms"
    "unat (ReferenceCount (bs_conns ?st ! c)) = Suc e + length ms"
    using Cons.prems(1,3) free(2) u by simp_all
  have "\<forall>q \<in> set ms. refs (bs_heap ?st) q = 1 \<and> (\<exists>l. mem_read q (bs_heap ?st) = Inr l \<and> lm_Connection l = Some c)"
    using Cons.prems(3,4) by (auto simp: refs_del mem_read_def)
  from Cons.IH [OF step(1-3) this step(4)] obtain h where h: "clear_loop MFConnection_Release ms ?st = Inr (?st\<lparr>bs_conns := (bs_conns ?st)[c :=
      (bs_conns ?st ! c)\<lparr>ReferenceCount := of_nat (Suc e)\<rparr>], bs_heap := h\<rparr>)" "heap_ok h"
    "\<forall>a. h a = (if a + 0x10 \<in> set ms then None else bs_heap ?st a)" by blast
  have "clear_loop MFConnection_Release (p # ms) st = clear_loop MFConnection_Release ms ?st"
    using Cons.prems(4) rel free(1) by (auto simp: rbind_def)
  then have r: "clear_loop MFConnection_Release (p # ms) st = Inr (st\<lparr>bs_conns := (bs_conns st)[c := ?x
      \<lparr>ReferenceCount := of_nat (Suc e)\<rparr>], bs_heap := h\<rparr>)"
    using h(1) Cons.prems(1) by simp
  have "a + 0x10 \<in> set (p # ms) \<longleftrightarrow> a = p - 0x10 \<or> a + 0x10 \<in> set ms" for a by (auto simp: algebra_simps)
  moreover have "h a = (if a + 0x10 \<in> set ms then None else ?h a)" for a using spec [OF h(3), of a] by simp
  ultimately have "h a = (if a + 0x10 \<in> set (p # ms) then None else bs_heap st a)" for a
    by (cases "a = p - 0x10") simp_all
  with r h(2) show ?case by blast
qed

lemma conn_ok_frame:
  assumes "conn_ok h c x" "\<And>p. p \<in> set (MessagesToSend x) \<Longrightarrow> h' (p - 0x10) = h (p - 0x10)"
  shows "conn_ok h' c x"
  using assms by (simp add: conn_ok_def refs_def mem_read_def)

lemma Clear_ok:
  assumes "store_ok st" "0 < ext_refs st c"
  shows "\<exists>st'. MFConnection_Clear c st = Inr st' \<and> store_ok st' \<and> ext_refs st' = ext_refs st \<and>
    bs_closed st' = bs_closed st \<and>
    bs_conns st' = (bs_conns st)[c := (bs_conns st ! c)\<lparr>ReferenceCount := of_nat (ext_refs st c), MessagesToSend := []\<rparr>] \<and>
    (\<forall>a. bs_heap st' a = (if a + 0x10 \<in> set (MessagesToSend (bs_conns st ! c)) then None else bs_heap st a))"
proof -
  let ?x = "bs_conns st ! c"
  let ?e = "ext_refs st c"
  note e = ext_refs_pos [OF assms(2)]
  have ok: "conn_ok (bs_heap st) c ?x" by (rule store_okD [OF assms(1) e(1)])
  obtain k where k: "?e = Suc k" using assms(2) by (cases ?e) auto
  obtain h where h: "clear_loop MFConnection_Release (MessagesToSend ?x) st = Inr (st\<lparr>bs_conns := (bs_conns st)[c :=
      ?x\<lparr>ReferenceCount := of_nat ?e\<rparr>], bs_heap := h\<rparr>)" "heap_ok h"
    "\<forall>a. h a = (if a + 0x10 \<in> set (MessagesToSend ?x) then None else bs_heap st a)"
    using clear_loop_ok [OF e(1), of "MessagesToSend ?x" k] assms(1) ok e(3)
    unfolding k by (auto simp: store_ok_def conn_ok_def)
  let ?y = "?x\<lparr>ReferenceCount := of_nat ?e, MessagesToSend := []\<rparr>"
  let ?st = "st\<lparr>bs_conns := (bs_conns st)[c := ?y], bs_heap := h\<rparr>"
  have r: "MFConnection_Clear c st = Inr ?st"
    using e(1) h(1) by (simp add: MFConnection_Clear_def conn_clear_def conn_write_def)
  have "unat (ReferenceCount ?x) < 2 ^ 32" using unsigned_less [of "ReferenceCount ?x", where ?'a = nat] by simp
  then have u: "unat (of_nat ?e :: i32) = ?e" using e(3) by (simp add: unat_of_nat)
  have "conn_ok h d (bs_conns ?st ! d)" if d: "d < length (bs_conns st)" for d
  proof (cases "d = c")
    case True
    have "(0 :: i32) < of_nat ?e" using u assms(2) by (simp add: word_less_nat_alt)
    then show ?thesis using True d by (simp add: conn_ok_def)
  next
    case False
    have o: "conn_ok (bs_heap st) d (bs_conns st ! d)" by (rule store_okD [OF assms(1) d])
    have "p \<notin> set (MessagesToSend ?x)" if "p \<in> set (MessagesToSend (bs_conns st ! d))" for p
      using that o ok False unfolding conn_ok_def by fastforce
    then show ?thesis using conn_ok_frame [OF o, of h] h(3) False by simp
  qed
  then have "store_ok ?st" using h(2) by (simp add: store_ok_def)
  moreover have "ext_refs ?st = (ext_refs st)(c := ?e)"
    by (rule ext_refs_update [of _ _ _ ?y]) (use e(1,2) u in simp_all)
  ultimately show ?thesis using r h(3) by (intro exI [of _ ?st]) simp
qed

lemma queued_alive:
  assumes "store_ok st" "d < length (bs_conns st)" "q \<in> set (MessagesToSend (bs_conns st ! d))"
  shows "bs_heap st (q - 0x10) \<noteq> None" "refs (bs_heap st) q = 1"
proof -
  show "refs (bs_heap st) q = 1" using store_okD [OF assms(1,2)] assms(3) by (simp add: conn_ok_def)
  then show "bs_heap st (q - 0x10) \<noteq> None" by (auto simp: refs_def split: option.splits)
qed

lemma SendAsync_ok:
  assumes "store_ok st" "0 < ext_refs st c" "Suc (ext_refs st c) < 2 ^ 31"
    "Suc (length (MessagesToSend (bs_conns st ! c))) < 2 ^ 31" "alloc_fresh os" "msg_ok m"
    "unat (MessageSize m) = 224 + length (Payload m)" "os (ucast (MessageSize m) + 0x30) (bs_heap st) = Some a"
  shows "\<exists>st' p. MFConnection_SendAsync os c m st = Inr (0, st') \<and> store_ok st' \<and> ext_refs st' = ext_refs st \<and>
    refs (bs_heap st) p = 0 \<and>
    bs_conns st' = (bs_conns st)[c := (bs_conns st ! c)\<lparr>ReferenceCount := ReferenceCount (bs_conns st ! c) + 1,
      MessagesToSend := MessagesToSend (bs_conns st ! c) @ [p]\<rparr>] \<and> bs_closed st' = bs_closed st \<and>
    bs_heap st' = (bs_heap st)(p - 0x10 \<mapsto> \<lparr>RefCount = 1, Contents =
      \<lparr>lm_Connection = Some c, lm_OriginalFlags = ucast (Flags m), lm_Message = m\<rparr>\<rparr>)"
proof -
  let ?x = "bs_conns st ! c" and ?h = "bs_heap st"
  note e = ext_refs_pos [OF assms(2)]
  let ?b = "of_nat sizeof_MF_LISTED_MESSAGE - of_nat sizeof_MF_MESSAGE_HEADER + ucast (MessageSize m) :: u64"
  have bl: "?b = ucast (MessageSize m) + of_nat sizeof_MF_LISTED_MESSAGE - of_nat sizeof_MF_MESSAGE_HEADER" by simp
  have ge: "224 \<le> unat (MessageSize m)" using assms(7) by simp
  have b: "unat ?b = unat (MessageSize m) + 32" unfolding bl by (rule listed_size(1) [OF ge])
  have "unat (MessageSize m) < 2 ^ 32" using unsigned_less [of "MessageSize m", where ?'a = nat] by simp
  then have lim: "unat ?b + 16 < 2 ^ 64" unfolding b by simp
  have "?b + 0x10 = ucast (MessageSize m) + 0x30"
    by (simp add: sizeof_MF_LISTED_MESSAGE_def sizeof_MF_MESSAGE_HEADER_def)
  then have osb: "os (?b + 0x10) ?h = Some a" using assms(8) by (simp only:)
  have hok: "heap_ok ?h" using assms(1) by (simp add: store_ok_def)
  from RefMemAlloc_ok [OF assms(5) hok lim osb, of zero_listed] obtain p h1 where
    al: "MFGen_RefMemAlloc os zero_listed ?b ?h = Inr (0, Some p, h1)" "p \<noteq> 0" "refs ?h p = 0" "heap_ok h1" and
    h1: "h1 = ?h(p - 0x10 \<mapsto> \<lparr>RefCount = 1, Contents = zero_listed (unat ?b)\<rparr>)" by blast
  have fresh: "q \<noteq> p" if "d < length (bs_conns st)" "q \<in> set (MessagesToSend (bs_conns st ! d))" for d q
    using queued_alive(2) [OF assms(1) that] al(3) by auto
  have "conn_ok h1 d (bs_conns st ! d)" if d: "d < length (bs_conns st)" for d
    by (rule conn_ok_frame [OF store_okD [OF assms(1) d]]) (use fresh [OF d] h1 in simp)
  then have ok1: "store_ok (st\<lparr>bs_heap := h1\<rparr>)" using al(4) by (simp add: store_ok_def)
  have ext1: "ext_refs (st\<lparr>bs_heap := h1\<rparr>) = ext_refs st" by (simp add: ext_refs_def fun_eq_iff)
  obtain st2 where st2: "MFConnection_AddRef c (st\<lparr>bs_heap := h1\<rparr>) = Inr st2" "store_ok st2"
    "bs_conns st2 = (bs_conns st)[c := ?x\<lparr>ReferenceCount := ReferenceCount ?x + 1\<rparr>]" "bs_heap st2 = h1"
    "bs_closed st2 = bs_closed st" "ext_refs st2 = (ext_refs st)(c := Suc (ext_refs st c))"
    using AddRef_ok [OF ok1, of c] assms(2,3) unfolding ext1 by auto
  let ?y = "?x\<lparr>ReferenceCount := ReferenceCount ?x + 1, MessagesToSend := MessagesToSend ?x @ [p]\<rparr>"
  let ?item = "\<lparr>lm_Connection = Some c, lm_OriginalFlags = ucast (Flags m), lm_Message = m\<rparr>"
  let ?h2 = "?h(p - 0x10 \<mapsto> \<lparr>RefCount = 1, Contents = ?item\<rparr>)"
  have w: "mem_write p ?item h1 = Inr ?h2" by (simp add: mem_write_def h1)
  have len: "length (message_bytes m) = unat (MessageSize m)" using assms(6,7) by simp
  let ?st = "st2\<lparr>bs_conns := (bs_conns st)[c := ?y], bs_heap := ?h2\<rparr>"
  have r: "MFConnection_SendAsync os c m st = Inr (0, ?st)"
    using ge len assms(6) al(1) st2(1,3,4) w e(1)
    by (simp add: MFConnection_SendAsync_def sizeof_MF_MESSAGE_HEADER_def conn_write_def Let_def)
  have x2: "conn_ok h1 c (?x\<lparr>ReferenceCount := ReferenceCount ?x + 1\<rparr>)"
    using store_okD [OF st2(2), of c] st2(3,4) e(1) by simp
  have p: "refs ?h2 p = 1" "mem_read p ?h2 = Inr ?item" by (simp_all add: refs_def mem_read_def)
  have u: "unat (ReferenceCount ?x + 1) = Suc (unat (ReferenceCount ?x))"
    using unat_plus_1 [of "ReferenceCount ?x"] e(3) assms(3,4) by simp
  have yok: "conn_ok ?h2 c ?y"
  proof -
    have "conn_ok ?h2 c (?x\<lparr>ReferenceCount := ReferenceCount ?x + 1\<rparr>)"
      by (rule conn_ok_frame [OF x2]) (use fresh [OF e(1)] h1 in simp)
    then show ?thesis using p fresh [OF e(1), of p] assms(4) e(2,3) u assms(2) by (auto simp: conn_ok_def)
  qed
  have "conn_ok ?h2 d (bs_conns ?st ! d)" if d: "d < length (bs_conns st)" for d
  proof (cases "d = c")
    case False
    have "conn_ok ?h2 d (bs_conns st ! d)"
      by (rule conn_ok_frame [OF store_okD [OF assms(1) d]]) (use fresh [OF d] in simp)
    then show ?thesis using False by simp
  qed (use yok d in simp)
  moreover have "heap_ok ?h2" using hok al(2) unfolding heap_ok_def by auto
  ultimately have "store_ok ?st" by (simp add: store_ok_def)
  moreover have "ext_refs ?st = (ext_refs st)(c := ext_refs st c)"
    by (rule ext_refs_update [of _ _ _ ?y]) (use e u in simp_all)
  ultimately show ?thesis using r al(3) st2(5) by (intro exI [of _ ?st] exI [of _ p]) simp
qed

section \<open>Slots\<close>

lemma MFConn_Next_spec:
  assumes "0 < k" "s + n \<le> length conns"
  shows "\<exists>r. MFConn_Next conns s i n k = Some (Inr r) \<and>
    (case r of
       None \<Rightarrow> \<forall>j. i \<le> j \<and> j < s + n \<and> k dvd (j - i) \<longrightarrow> cn_State (conns ! j) = mcsFree
     | Some j \<Rightarrow> i \<le> j \<and> j < s + n \<and> k dvd (j - i) \<and> cn_State (conns ! j) \<noteq> mcsFree \<and>
         (\<forall>l. i \<le> l \<and> l < j \<and> k dvd (l - i) \<longrightarrow> cn_State (conns ! l) = mcsFree))"
  using assms
proof (induction conns s i n k rule: MFConn_Next.induct)
  case (1 conns s i n k)
  have skip: "k dvd (j - (i + k))" "i + k \<le> j" if "k dvd (j - i)" "i < j" for j
  proof -
    have le: "k \<le> j - i" using that by (intro dvd_imp_le) simp_all
    then show "i + k \<le> j" using that(2) by simp
    show "k dvd (j - (i + k))" using dvd_diff_nat [OF that(1) dvd_refl [of k]] by simp
  qed
  show ?case
  proof (cases "s + n \<le> i \<or> cn_State (conns ! i) \<noteq> mcsFree")
    case True
    then show ?thesis using "1.prems"(2)
      by (cases "s + n \<le> i") (auto simp: MFConn_Next.simps [of conns s i n k])
  next
    case False
    then have e: "MFConn_Next conns s i n k = MFConn_Next conns s (i + k) n k"
      using "1.prems" by (simp add: MFConn_Next.simps [of conns s i n k])
    obtain r where r: "MFConn_Next conns s (i + k) n k = Some (Inr r)"
      "case r of
       None \<Rightarrow> \<forall>j. i + k \<le> j \<and> j < s + n \<and> k dvd (j - (i + k)) \<longrightarrow> cn_State (conns ! j) = mcsFree
     | Some j \<Rightarrow> i + k \<le> j \<and> j < s + n \<and> k dvd (j - (i + k)) \<and> cn_State (conns ! j) \<noteq> mcsFree \<and>
         (\<forall>l. i + k \<le> l \<and> l < j \<and> k dvd (l - (i + k)) \<longrightarrow> cn_State (conns ! l) = mcsFree)"
      using "1.IH" "1.prems" False by auto
    have free_i: "cn_State (conns ! i) = mcsFree" using False by simp
    have up: "k dvd (j - i)" if "k dvd (j - (i + k))" "i + k \<le> j" for j
    proof -
      have "j - i = (j - (i + k)) + k" using that(2) by simp
      then show ?thesis using that(1) by simp
    qed
    show ?thesis
    proof (cases r)
      case None
      then show ?thesis
        using r free_i skip unfolding e by (auto simp: le_eq_less_or_eq)
    next
      case (Some j)
      then have "i \<le> j" "k dvd (j - i)" using r(2) up by auto
      moreover have "cn_State (conns ! l) = mcsFree" if "i \<le> l" "l < j" "k dvd (l - i)" for l
        using that r(2) Some free_i skip [of l] by (cases "l = i") auto
      ultimately show ?thesis using r Some unfolding e by auto
    qed
  qed
qed

lemma MFConn_FindFree_spec:
  assumes "s + n \<le> length conns"
  shows "\<exists>r. MFConn_FindFree conns s n i = Inr r \<and>
    (case r of
       None \<Rightarrow> \<forall>j. i \<le> j \<and> j < s + n \<longrightarrow> cn_State (conns ! j) \<noteq> mcsFree
     | Some j \<Rightarrow> i \<le> j \<and> j < s + n \<and> cn_State (conns ! j) = mcsFree \<and>
         (\<forall>l. i \<le> l \<and> l < j \<longrightarrow> cn_State (conns ! l) \<noteq> mcsFree))"
  using assms
proof (induction conns s n i rule: MFConn_FindFree.induct)
  case (1 conns s n i)
  show ?case
  proof (cases "s + n \<le> i \<or> cn_State (conns ! i) = mcsFree")
    case True
    then show ?thesis using "1.prems"
      by (cases "s + n \<le> i") (auto simp: MFConn_FindFree.simps [of conns s n i])
  next
    case False
    then obtain r where "MFConn_FindFree conns s n (i + 1) = Inr r"
      "case r of
       None \<Rightarrow> \<forall>j. i + 1 \<le> j \<and> j < s + n \<longrightarrow> cn_State (conns ! j) \<noteq> mcsFree
     | Some j \<Rightarrow> i + 1 \<le> j \<and> j < s + n \<and> cn_State (conns ! j) = mcsFree \<and>
         (\<forall>l. i + 1 \<le> l \<and> l < j \<longrightarrow> cn_State (conns ! l) \<noteq> mcsFree)"
      using "1.IH" "1.prems" by auto
    moreover have "i \<le> j \<longleftrightarrow> j = i \<or> i + 1 \<le> j" for j by auto
    ultimately show ?thesis using False "1.prems"
      by (cases r) (auto simp: MFConn_FindFree.simps [of conns s n i])
  qed
qed

section \<open>References over time\<close>

lemma AddRef_queues:
  assumes "MFConnection_AddRef c st = Inr st'"
  shows "map MessagesToSend (bs_conns st') = map MessagesToSend (bs_conns st)" "bs_heap st' = bs_heap st"
  using assms
  by (auto simp: MFConnection_AddRef_def conn_write_def require_def map_update list_update_same_conv nth_map split: if_splits)

lemma rc_run_queues:
  "store_ok st \<Longrightarrow> rc_ledger (2 ^ 31) (ext_refs st) ops = Some f \<Longrightarrow>
   rc_run MFConnection_AddRef MFConnection_Release ops st = Inr st' \<Longrightarrow>
   map MessagesToSend (bs_conns st') = map MessagesToSend (bs_conns st) \<and> bs_heap st' = bs_heap st"
proof (induction ops arbitrary: st)
  case (Cons op ops)
  show ?case
  proof (cases op)
    case (AddRef c)
    then have c: "0 < ext_refs st c" "Suc (ext_refs st c) < 2 ^ 31" using Cons.prems(2) by (auto split: if_splits)
    from AddRef_ok [OF Cons.prems(1) c] obtain st1 where
      st1: "MFConnection_AddRef c st = Inr st1" "store_ok st1" "ext_refs st1 = (ext_refs st)(c := Suc (ext_refs st c))"
      by blast
    have "rc_ledger (2 ^ 31) (ext_refs st1) ops = Some f" using Cons.prems(2) AddRef c st1(3) by (simp del: fun_upd_apply)
    moreover have "rc_run MFConnection_AddRef MFConnection_Release ops st1 = Inr st'"
      using Cons.prems(3) AddRef st1(1) by simp
    ultimately show ?thesis using Cons.IH [OF st1(2)] AddRef_queues [OF st1(1)] by simp
  next
    case (Release c)
    then have c: "0 < ext_refs st c" using Cons.prems(2) by (auto split: if_splits)
    from Release_ok [OF Cons.prems(1) c] obtain st1 where
      st1: "MFConnection_Release c st = Inr st1" "store_ok st1" "ext_refs st1 = (ext_refs st)(c := ext_refs st c - 1)"
      "bs_heap st1 = bs_heap st" "map MessagesToSend (bs_conns st1) = map MessagesToSend (bs_conns st)"
      by blast
    have "rc_ledger (2 ^ 31) (ext_refs st1) ops = Some f" using Cons.prems(2) Release c st1(3) by (simp del: fun_upd_apply)
    moreover have "rc_run MFConnection_AddRef MFConnection_Release ops st1 = Inr st'"
      using Cons.prems(3) Release st1(1) by simp
    ultimately show ?thesis using Cons.IH [OF st1(2)] st1(4,5) by simp
  qed
qed simp

lemma free_iff:
  assumes "store_ok st" "c < length (bs_conns st)"
  shows "cn_State (bs_conns st ! c) = mcsFree \<longleftrightarrow> ext_refs st c = 0 \<and> MessagesToSend (bs_conns st ! c) = []"
proof -
  have ok: "conn_ok (bs_heap st) c (bs_conns st ! c)" by (rule store_okD [OF assms])
  have "0 < unat (ReferenceCount (bs_conns st ! c))" if "cn_State (bs_conns st ! c) \<noteq> mcsFree"
    using ok that by (simp add: conn_ok_def word_less_nat_alt)
  then show ?thesis using ok assms(2) by (auto simp: conn_ok_def ext_refs_def)
qed

text \<open>A broker with one connection in slot 1, held by its creator, for the instances.\<close>

definition demo_store :: broker_store where
  "demo_store = \<lparr>bs_conns = [zero_connection, snd (MFConn_Init 0 0 77 0), zero_connection], bs_heap = Map.empty, bs_closed = []\<rparr>"

lemma demo_store_ok: "store_ok demo_store" "ext_refs demo_store 1 = 1" "c \<noteq> 1 \<Longrightarrow> ext_refs demo_store c = 0"
proof -
  have "conn_ok Map.empty c zero_connection" "conn_ok Map.empty c (snd (MFConn_Init 0 0 77 0))" for c
    by (simp_all add: conn_ok_def zero_connection_def MFConn_Init_def)
  then have "conn_ok Map.empty c (bs_conns demo_store ! c)" if "c < 3" for c
    using that by (auto simp: demo_store_def less_Suc_eq numeral_3_eq_3 numeral_2_eq_2)
  then show "store_ok demo_store" by (simp add: store_ok_def demo_store_def heap_ok_def)
  show "ext_refs demo_store 1 = 1" "c \<noteq> 1 \<Longrightarrow> ext_refs demo_store c = 0"
    by (auto simp: ext_refs_def demo_store_def zero_connection_def MFConn_Init_def less_Suc_eq numeral_2_eq_2 nth_Cons')
qed

lemma demo_send_hyps:
  "Suc (ext_refs demo_store 1) < 2 ^ 31" "Suc (length (MessagesToSend (bs_conns demo_store ! 1))) < 2 ^ 31"
  "0 < ext_refs demo_store 1" "unat (MessageSize demo_message) = 224 + length (Payload demo_message)"
  "one_listed (ucast (MessageSize demo_message) + 0x30) (bs_heap demo_store) \<noteq> None"
  using demo_store_ok(2) demo_message_ok one_listed_ok(3)
  by (simp_all add: demo_store_def MFConn_Init_def zero_connection_def)

section \<open>Properties\<close>

text \<open>
  C10: Taking and dropping references of connections, never dropping one that is not held, never
  goes wrong, leaves the counts the ledger says and touches no message.  A connection ends exactly
  when nobody outside its queue holds it and its queue is empty: with messages waiting, dropping
  the last reference leaves it in its slot for ever.
\<close>

theorem MFConnection_lifetime:
  assumes "store_ok st" "rc_ledger (2 ^ 31) (ext_refs st) ops = Some f"
  shows "\<exists>st'. rc_run MFConnection_AddRef MFConnection_Release ops st = Inr st' \<and> store_ok st' \<and> ext_refs st' = f \<and>
    bs_heap st' = bs_heap st \<and>
    (\<forall>c < length (bs_conns st). cn_State (bs_conns st' ! c) = mcsFree \<longleftrightarrow>
      f c = 0 \<and> MessagesToSend (bs_conns st ! c) = [])"
proof -
  obtain st' where st': "rc_run MFConnection_AddRef MFConnection_Release ops st = Inr st'" "store_ok st'"
    "ext_refs st' = f" using conn.run_ledger [OF assms] by blast
  note q = rc_run_queues [OF assms st'(1)]
  have len: "length (bs_conns st') = length (bs_conns st)" using q by (metis length_map)
  have "MessagesToSend (bs_conns st' ! c) = MessagesToSend (bs_conns st ! c)" if "c < length (bs_conns st)" for c
    using q that len by (metis nth_map)
  then show ?thesis using st' q len free_iff [OF st'(2)] by auto
qed

lemma MFConnection_lifetime_witness:
  "\<exists>st'. rc_run MFConnection_AddRef MFConnection_Release [AddRef 1, Release 1, Release 1] demo_store = Inr st' \<and>
    cn_State (bs_conns st' ! 1) = mcsFree"
proof -
  have "rc_ledger (2 ^ 31) (ext_refs demo_store) [AddRef 1, Release 1, Release 1] = Some ((ext_refs demo_store)(1 := 0))"
    using demo_store_ok(2) by simp
  from MFConnection_lifetime [OF demo_store_ok(1) this] show ?thesis
    by (auto simp: demo_store_def zero_connection_def MFConn_Init_def)
qed



text \<open>
  \<open>MFConnection_Clear\<close>, called by somebody who holds the connection, frees exactly the messages in its
  queue and gives back the references they held; the connection stays in use with an empty queue,
  and no other message, connection or socket is touched.
\<close>

theorem MFConnection_Clear_frees:
  assumes "store_ok st" "0 < ext_refs st c"
  shows "\<exists>st'. MFConnection_Clear c st = Inr st' \<and> store_ok st' \<and> ext_refs st' = ext_refs st \<and>
    MessagesToSend (bs_conns st' ! c) = [] \<and> unat (ReferenceCount (bs_conns st' ! c)) = ext_refs st c \<and>
    (\<forall>p. refs (bs_heap st') p = (if p \<in> set (MessagesToSend (bs_conns st ! c)) then 0 else refs (bs_heap st) p)) \<and>
    (\<forall>d. d \<noteq> c \<longrightarrow> bs_conns st' ! d = bs_conns st ! d) \<and> bs_closed st' = bs_closed st"
proof -
  from Clear_ok [OF assms] obtain st' where
    st': "MFConnection_Clear c st = Inr st'" "store_ok st'" "ext_refs st' = ext_refs st" "bs_closed st' = bs_closed st"
    "bs_conns st' = (bs_conns st)[c := (bs_conns st ! c)\<lparr>ReferenceCount := of_nat (ext_refs st c), MessagesToSend := []\<rparr>]"
    "\<forall>a. bs_heap st' a = (if a + 0x10 \<in> set (MessagesToSend (bs_conns st ! c)) then None else bs_heap st a)" by blast
  note e = ext_refs_pos [OF assms(2)]
  have "unat (ReferenceCount (bs_conns st ! c)) < 2 ^ 32"
    using unsigned_less [of "ReferenceCount (bs_conns st ! c)", where ?'a = nat] by simp
  then have "unat (of_nat (ext_refs st c) :: i32) = ext_refs st c" using e(3) by (simp add: unat_of_nat)
  moreover have "refs (bs_heap st') p = (if p \<in> set (MessagesToSend (bs_conns st ! c)) then 0 else refs (bs_heap st) p)" for p
    using st'(6) by (simp add: refs_def)
  ultimately show ?thesis using st' e(1) by (intro exI [of _ st']) simp
qed

lemma MFConnection_Clear_frees_witness:
  "\<exists>st1 st2 p. MFConnection_SendAsync one_listed 1 demo_message demo_store = Inr (0, st1) \<and>
    MessagesToSend (bs_conns st1 ! 1) = [p] \<and> MFConnection_Clear 1 st1 = Inr st2 \<and>
    MessagesToSend (bs_conns st2 ! 1) = [] \<and> refs (bs_heap st2) p = 0"
proof -
  obtain a where a: "one_listed (ucast (MessageSize demo_message) + 0x30) (bs_heap demo_store) = Some a"
    using demo_send_hyps(5) by auto
  from SendAsync_ok [OF demo_store_ok(1) demo_send_hyps(3,1,2) one_listed_ok(1) demo_message_ok(1) demo_send_hyps(4) a]
  obtain st1 p where s: "MFConnection_SendAsync one_listed 1 demo_message demo_store = Inr (0, st1)" "store_ok st1"
    "ext_refs st1 = ext_refs demo_store"
    "bs_conns st1 = (bs_conns demo_store)[1 := (bs_conns demo_store ! 1)\<lparr>ReferenceCount :=
      ReferenceCount (bs_conns demo_store ! 1) + 1, MessagesToSend := MessagesToSend (bs_conns demo_store ! 1) @ [p]\<rparr>]"
    by blast
  have q: "MessagesToSend (bs_conns st1 ! 1) = [p]"
    using s(4) by (simp add: demo_store_def MFConn_Init_def zero_connection_def)
  have "0 < ext_refs st1 1" using s(3) demo_store_ok(2) by simp
  from MFConnection_Clear_frees [OF s(2) this] q s(1) show ?thesis by auto
qed

end
