(* ===== verification/Worker.thy ===== *)
theory Worker
  imports Connections Thread
begin

text \<open>
  The worker of \<open>mfbroker/mfbroker.c\<close>, \<open>_MFBrokerThreadRoutine\<close>, in the parts its loop is made of:
  the array for \<open>WSAPoll\<close>, the reception of a message, the sending of the queued messages, the events
  of a connection and the delivery of the received messages.  Callbacks, Winsock, the allocator and
  the random bytes are parameters; a callback may change the whole world.
\<close>

section \<open>The world of a worker\<close>

datatype EBrokerErrorType =
  betMessageFailedReceive | betMessageFailedSend | betMessageInvalidSignature | betMessageFailedDecryption |
  betFailedPoll | betSocketError | betMemoryAllocation | betAcceptFailed | betTooManyConnections

datatype EBrokerMessageEventType =
  bmetReady | bmetAboutToEncrypt | bmetAboutToSign | bmetSent | bmetCannotVerify | bmetCannotEncrypt

record ('u, 'n) world =
  wd_user :: 'u
  wd_net :: 'n
  wd_store :: broker_store
  wd_ConnectionCount :: i32
  wd_draws :: nat

text \<open>
  The broker: its keys, its callbacks (with their contexts) and what it runs on.  \<open>br_rnd\<close> gives the
  random bytes of each draw.
\<close>

record ('u, 'n) broker =
  br_PublicKey :: MFCRYPTO_PUBLIC_KEY
  br_SecretKey :: MFCRYPTO_SECRET_KEY
  br_MessageCallback :: "EBrokerMessageEventType \<Rightarrow> nat option \<Rightarrow> MF_MESSAGE \<Rightarrow> u64 \<Rightarrow> u32 \<Rightarrow> ('u, 'n) world \<Rightarrow>
    i32 \<times> ('u, 'n) world"
  br_ErrorCallback :: "EBrokerErrorType \<Rightarrow> i32 \<Rightarrow> ('u, 'n) world \<Rightarrow> i32 \<times> ('u, 'n) world"
  br_curve :: curve
  br_signer :: signer
  br_ws :: "'n winsock"
  br_os :: "MF_LISTED_MESSAGE allocator"
  br_rnd :: "nat \<Rightarrow> bytes"

text \<open>An operation on the store, in the world.\<close>

definition on_store :: "(broker_store \<Rightarrow> broker_store result) \<Rightarrow> ('u, 'n) world \<Rightarrow> ('u, 'n) world result" where
  "on_store f w = map_sum id (\<lambda>st. w\<lparr>wd_store := st\<rparr>) (f (wd_store w))"

definition on_heap ::
    "(MF_LISTED_MESSAGE heap \<Rightarrow> MF_LISTED_MESSAGE heap result) \<Rightarrow> ('u, 'n) world \<Rightarrow> ('u, 'n) world result" where
  "on_heap f w = on_store (\<lambda>st. map_sum id (\<lambda>h. st\<lparr>bs_heap := h\<rparr>) (f (bs_heap st))) w"

abbreviation wd_heap :: "('u, 'n) world \<Rightarrow> MF_LISTED_MESSAGE heap" where
  "wd_heap w \<equiv> bs_heap (wd_store w)"

definition conn_at :: "nat \<Rightarrow> ('u, 'n) world \<Rightarrow> MF_CONNECTION result" where
  "conn_at c w = require (c < length (bs_conns (wd_store w))) Undef (Inr (bs_conns (wd_store w) ! c))"

text \<open>\<open>Message->Header.MessageSize - sizeof(Message->Header)\<close>, in \<open>size_t\<close>.\<close>

definition data_room :: "MF_MESSAGE \<Rightarrow> u64" where
  "data_room m = ucast (MessageSize m) - of_nat sizeof_MF_MESSAGE_HEADER"

definition ENOENT :: i32 where "ENOENT = 2"

section \<open>The array for WSAPoll\<close>

text \<open>
  \<open>entry\<close> is the size of one \<open>struct pollfd\<close>, \<open>room\<close> the size of the allocated block.  The loop writes
  \<open>fdCount\<close> entries, one per connection it finds; it does not stop when there is none left.
\<close>

fun poll_fill :: "nat \<Rightarrow> nat \<Rightarrow> nat \<Rightarrow> MF_CONNECTION list \<Rightarrow> nat \<Rightarrow> nat option \<Rightarrow> nat \<Rightarrow> nat \<Rightarrow>
    (u64 \<times> bool) list result option" where
  "poll_fill entry room ThreadCount conns limit conn i 0 = Some (Inr [])"
| "poll_fill entry room ThreadCount conns limit conn i (Suc n) =
     (case conn of
        None \<Rightarrow> Some (Inl Undef)
      | Some c \<Rightarrow>
          if room < entry * (i + 1) then Some (Inl Undef)
          else if length conns \<le> c then Some (Inl Undef)
          else
            let fd = (cn_Socket (conns ! c), MessagesToSend (conns ! c) \<noteq> [])
            in case MFConn_Next conns 0 (c + 1) limit ThreadCount of
                 None \<Rightarrow> None
               | Some (Inl e) \<Rightarrow> Some (Inl e)
               | Some (Inr conn') \<Rightarrow>
                   map_option (map_sum id (\<lambda>fds. fd # fds))
                     (poll_fill entry room ThreadCount conns limit conn' (i + 1) n))"

text \<open>
  The array has room for \<open>ConnectionCount\<close> pointers (\<open>sizeof(fds)\<close>), 8 bytes each; an entry of
  \<open>struct pollfd\<close> has 16 bytes.
\<close>

definition worker_poll :: "nat \<Rightarrow> nat \<Rightarrow> nat \<Rightarrow> MF_CONNECTION list \<Rightarrow> nat \<Rightarrow> (u64 \<times> bool) list result option" where
  "worker_poll pointer ThreadCount threadIndex conns ConnectionCount =
     (case MFConn_First conns threadIndex (length conns - threadIndex) ThreadCount of
        None \<Rightarrow> None
      | Some (Inl e) \<Rightarrow> Some (Inl e)
      | Some (Inr conn) \<Rightarrow>
          poll_fill 16 (ConnectionCount * pointer) ThreadCount conns (length conns) conn 0 ConnectionCount)"

section \<open>Receiving a message (POLLIN)\<close>

text \<open>The checks of a message that was received: signature, then header encryption.\<close>

definition recv_verify ::
    "('u, 'n) broker \<Rightarrow> nat \<Rightarrow> MF_LISTED_MESSAGE \<Rightarrow> ('u, 'n) world \<Rightarrow>
     (i32 \<times> MF_LISTED_MESSAGE \<times> ('u, 'n) world) result" where
  "recv_verify B c l w =
     (let m = lm_Message l
      in if Flags m AND MF_MESSAGE_SIGNED \<noteq> 0
         then rbind (conn_at c w) (\<lambda>x.
                if cn_State x = mcfEstablished
                then rbind (MFMessage_Verify (br_signer B) m (cn_Key x)) (\<lambda>(ret, m).
                       let w = (if ret \<noteq> 0 then snd (br_ErrorCallback B betMessageInvalidSignature ret w) else w)
                       in Inr (ret, l\<lparr>lm_Message := m\<rparr>, w))
                else
                  let (ret, w) = br_MessageCallback B bmetCannotVerify (Some c) m (data_room m) (lm_OriginalFlags l) w
                  in Inr (ret, l, w))
         else Inr (0, l, w))"

definition recv_decrypt ::
    "('u, 'n) broker \<Rightarrow> MF_LISTED_MESSAGE \<Rightarrow> ('u, 'n) world \<Rightarrow> (i32 \<times> MF_LISTED_MESSAGE \<times> ('u, 'n) world) result" where
  "recv_decrypt B l w =
     (if Flags (lm_Message l) AND MF_MESSAGE_HEADER_ENCRYPTED \<noteq> 0
      then rbind (MFMessage_HeaderDecrypt (br_curve B) (lm_Message l) (br_PublicKey B) (br_SecretKey B)) (\<lambda>(ret, m).
             let w = (if ret \<noteq> 0 then snd (br_ErrorCallback B betMessageFailedDecryption ret w) else w)
             in Inr (ret, l\<lparr>lm_Message := m\<rparr>, w))
      else Inr (0, l, w))"

text \<open>
  The message is put at the end of \<open>recvList\<close>, with a reference of its own and one of its connection,
  when both checks succeeded; the reference of the reception is dropped in any case.
\<close>

definition recv_message ::
    "('u, 'n) broker \<Rightarrow> nat \<Rightarrow> u64 \<Rightarrow> u64 list \<Rightarrow> ('u, 'n) world \<Rightarrow> (i32 \<times> u64 list \<times> ('u, 'n) world) result" where
  "recv_message B c msg recvList w =
     rbind (mem_read msg (wd_heap w)) (\<lambda>l.
     rbind (recv_verify B c (l\<lparr>lm_OriginalFlags := ucast (Flags (lm_Message l))\<rparr>) w) (\<lambda>(ret, l, w).
     rbind (if ret = 0 then recv_decrypt B l w else Inr (ret, l, w)) (\<lambda>(ret, l, w).
     rbind (on_heap (mem_write msg l) w) (\<lambda>w.
     rbind (if ret = 0
            then rbind (on_heap (MFGen_RefMemAddRef msg) w) (\<lambda>w.
                 rbind (on_store (MFConnection_AddRef c) w) (\<lambda>w.
                 rbind (on_heap (mem_write msg (l\<lparr>lm_Connection := Some c\<rparr>)) w) (\<lambda>w.
                   Inr (recvList @ [msg], w))))
            else Inr (recvList, w)) (\<lambda>(recvList, w).
     rbind (on_heap (MFGen_RefMemRelease msg) w) (\<lambda>w. Inr (ret, recvList, w)))))))"

definition recv_event ::
    "('u, 'n) broker \<Rightarrow> nat \<Rightarrow> u64 list \<Rightarrow> ('u, 'n) world \<Rightarrow> (i32 \<times> u64 list \<times> ('u, 'n) world) result option" where
  "recv_event B c recvList w =
     (case conn_at c w of
        Inl e \<Rightarrow> Some (Inl e)
      | Inr x \<Rightarrow>
          map_option (\<lambda>(r, n).
              rbind r (\<lambda>(ret, msg, h).
                let w = w\<lparr>wd_net := n, wd_store := (wd_store w)\<lparr>bs_heap := h\<rparr>\<rparr>
                in case msg of
                     None \<Rightarrow> Inr (ret, recvList, snd (br_ErrorCallback B betMessageFailedReceive ret w))
                   | Some p \<Rightarrow> recv_message B c p recvList w))
            (MFMessage_Recv (br_ws B) (br_os B) (cn_Socket x) (wd_net w) (wd_heap w)))"

section \<open>Sending the queue (POLLOUT)\<close>

text \<open>
  Encryption of the header: if it is not encrypted and the callback asks for it, under the key of
  the connection; without a key the callback decides whether the message goes out as it is.
\<close>

definition send_encrypt ::
    "('u, 'n) broker \<Rightarrow> nat \<Rightarrow> MF_LISTED_MESSAGE \<Rightarrow> ('u, 'n) world \<Rightarrow>
     (i32 \<times> MF_LISTED_MESSAGE \<times> ('u, 'n) world) result" where
  "send_encrypt B c l w =
     (let m = lm_Message l
      in if Flags m AND MF_MESSAGE_HEADER_ENCRYPTED = 0
         then let (ask, w) = br_MessageCallback B bmetAboutToEncrypt (Some c) m (ucast (DataSize m)) (lm_OriginalFlags l) w
              in if ask = 0 then Inr (0, l, w)
                 else rbind (conn_at c w) (\<lambda>x.
                   if cn_State x = mcfEstablished
                   then rbind (MFMessage_HeaderEncrypt (br_curve B) (br_rnd B (wd_draws w)) m (cn_Key x)) (\<lambda>m.
                          Inr (0, l\<lparr>lm_Message := m\<rparr>, w\<lparr>wd_draws := wd_draws w + 1\<rparr>))
                   else
                     let (ret, w) = br_MessageCallback B bmetCannotEncrypt (Some c) m (ucast (DataSize m))
                           (lm_OriginalFlags l) w
                     in Inr (ret, l, w))
         else Inr (0, l, w))"

definition send_sign ::
    "('u, 'n) broker \<Rightarrow> nat \<Rightarrow> MF_LISTED_MESSAGE \<Rightarrow> ('u, 'n) world \<Rightarrow> (MF_LISTED_MESSAGE \<times> ('u, 'n) world) result" where
  "send_sign B c l w =
     (let m = lm_Message l
      in if Flags m AND MF_MESSAGE_SIGNED = 0
         then let (ask, w) = br_MessageCallback B bmetAboutToSign (Some c) m (data_room m) (lm_OriginalFlags l) w
              in if ask = 0 then Inr (l, w)
                 else rbind (MFMessage_Sign (br_signer B) m (br_SecretKey B)) (\<lambda>m. Inr (l\<lparr>lm_Message := m\<rparr>, w))
         else Inr (l, w))"

definition send_out ::
    "('u, 'n) broker \<Rightarrow> nat \<Rightarrow> MF_LISTED_MESSAGE \<Rightarrow> ('u, 'n) world \<Rightarrow> (i32 \<times> ('u, 'n) world) result" where
  "send_out B c l w =
     rbind (conn_at c w) (\<lambda>x.
     rbind (if Disconnected x then Inr (ENOENT, w)
            else rbind (MFMessage_Send (br_ws B) (cn_Socket x) l (wd_net w)) (\<lambda>(ret, n).
                   let w = w\<lparr>wd_net := n\<rparr>
                   in if ret = 0
                      then Inr (0, snd (br_MessageCallback B bmetSent (Some c) (lm_Message l) (data_room (lm_Message l))
                             (lm_OriginalFlags l) w))
                      else Inr (ret, w))) (\<lambda>(ret, w).
       if ret \<noteq> 0 then Inr (ret, snd (br_ErrorCallback B betMessageFailedSend ret w)) else Inr (ret, w)))"

text \<open>
  One message: it leaves the queue, is encrypted, signed and sent, and is released with its
  reference of the connection, sent or not.
\<close>

definition send_one ::
    "('u, 'n) broker \<Rightarrow> nat \<Rightarrow> u64 \<Rightarrow> ('u, 'n) world \<Rightarrow> (i32 \<times> ('u, 'n) world) result" where
  "send_one B c msg w =
     rbind (on_store (conn_write c (\<lambda>x. x\<lparr>MessagesToSend := tl (MessagesToSend x)\<rparr>)) w) (\<lambda>w.
     rbind (mem_read msg (wd_heap w)) (\<lambda>l.
     rbind (send_encrypt B c l w) (\<lambda>(ret, l, w).
     rbind (if ret = 0 then send_sign B c l w else Inr (l, w)) (\<lambda>(l, w).
     rbind (on_heap (mem_write msg l) w) (\<lambda>w.
     rbind (if ret = 0 then send_out B c l w else Inr (ret, w)) (\<lambda>(ret, w).
     rbind (case lm_Connection l of None \<Rightarrow> Inl Undef | Some d \<Rightarrow> on_store (MFConnection_Release d) w) (\<lambda>w.
     rbind (on_heap (MFGen_RefMemRelease msg) w) (\<lambda>w. Inr (ret, w)))))))))"

text \<open>The loop goes on while the status is 0 and the queue is not empty; callbacks may add to the queue.\<close>

partial_function (option) send_loop ::
    "('u, 'n) broker \<Rightarrow> nat \<Rightarrow> i32 \<Rightarrow> ('u, 'n) world \<Rightarrow> (i32 \<times> ('u, 'n) world) result option" where
  "send_loop B c ret w =
     (case conn_at c w of
        Inl e \<Rightarrow> Some (Inl e)
      | Inr x \<Rightarrow>
          if ret = 0 \<and> MessagesToSend x \<noteq> []
          then case send_one B c (hd (MessagesToSend x)) w of
                 Inl e \<Rightarrow> Some (Inl e)
               | Inr (ret, w) \<Rightarrow> send_loop B c ret w
          else Some (Inr (ret, w)))"

section \<open>Delivering what was received\<close>

text \<open>
  The walk over \<open>recvList\<close> after the events.  The messages are released while they are walked over;
  nothing takes them off the list.
\<close>

fun deliver :: "('u, 'n) broker \<Rightarrow> u64 list \<Rightarrow> ('u, 'n) world \<Rightarrow> ('u, 'n) world result" where
  "deliver B [] w = Inr w"
| "deliver B (old # msgs) w =
     rbind (mem_read old (wd_heap w)) (\<lambda>l.
       let m = lm_Message l;
           w = snd (br_MessageCallback B bmetReady (lm_Connection l) m (ucast (DataSize m)) (lm_OriginalFlags l) w)
       in rbind (case lm_Connection l of None \<Rightarrow> Inl Undef | Some c \<Rightarrow> on_store (MFConnection_Release c) w) (\<lambda>w.
          rbind (on_heap (MFGen_RefMemRelease old) w) (deliver B msgs)))"

section \<open>The events of a round\<close>

record poll_events =
  ev_POLLERR :: bool
  ev_POLLIN :: bool
  ev_POLLHUP :: bool
  ev_POLLOUT :: bool

text \<open>The broker gives up a connection: its own reference and its place in the count.\<close>

definition drop_connection :: "nat \<Rightarrow> ('u, 'n) world \<Rightarrow> ('u, 'n) world result" where
  "drop_connection c w =
     rbind (on_store (MFConnection_Disconnect c) w) (\<lambda>w.
     rbind (on_store (MFConnection_Release c) w) (\<lambda>w.
       Inr (w\<lparr>wd_ConnectionCount := wd_ConnectionCount w - 1\<rparr>)))"

text \<open>The status \<open>ret\<close> comes in from the connection before and goes out to the one after.\<close>

definition conn_events ::
    "('u, 'n) broker \<Rightarrow> nat \<Rightarrow> poll_events \<Rightarrow> i32 \<Rightarrow> u64 list \<Rightarrow> ('u, 'n) world \<Rightarrow>
     (i32 \<times> u64 list \<times> ('u, 'n) world) result option" where
  "conn_events B c ev ret recvList w =
     (if ev_POLLERR ev
      then Some (rbind (drop_connection c (snd (br_ErrorCallback B betSocketError ret w))) (\<lambda>w. Inr (ret, recvList, w)))
      else
        case (if ev_POLLIN ev then recv_event B c recvList w else Some (Inr (ret, recvList, w))) of
          None \<Rightarrow> None
        | Some (Inl e) \<Rightarrow> Some (Inl e)
        | Some (Inr (ret, recvList, w)) \<Rightarrow>
            if ev_POLLHUP ev
            then Some (rbind (drop_connection c w) (\<lambda>w. Inr (ret, recvList, w)))
            else if ev_POLLOUT ev
            then map_option (map_sum id (\<lambda>(ret, w). (ret, recvList, w))) (send_loop B c ret w)
            else Some (Inr (ret, recvList, w)))"

fun events_loop ::
    "('u, 'n) broker \<Rightarrow> nat \<Rightarrow> poll_events list \<Rightarrow> nat option \<Rightarrow> i32 \<Rightarrow> u64 list \<Rightarrow> ('u, 'n) world \<Rightarrow>
     (i32 \<times> u64 list \<times> ('u, 'n) world) result option" where
  "events_loop B ThreadCount [] conn ret recvList w = Some (Inr (ret, recvList, w))"
| "events_loop B ThreadCount (ev # evs) None ret recvList w = Some (Inl Undef)"
| "events_loop B ThreadCount (ev # evs) (Some c) ret recvList w =
     (case conn_events B c ev ret recvList w of
        None \<Rightarrow> None
      | Some (Inl e) \<Rightarrow> Some (Inl e)
      | Some (Inr (ret, recvList, w)) \<Rightarrow>
          (case MFConn_Next (bs_conns (wd_store w)) 0 (c + 1) (length (bs_conns (wd_store w))) ThreadCount of
             None \<Rightarrow> None
           | Some (Inl e) \<Rightarrow> Some (Inl e)
           | Some (Inr conn) \<Rightarrow> events_loop B ThreadCount evs conn ret recvList w))"

text \<open>What a round does once \<open>WSAPoll\<close> has given the events of the array.\<close>

definition worker_events ::
    "('u, 'n) broker \<Rightarrow> nat \<Rightarrow> nat \<Rightarrow> poll_events list \<Rightarrow> i32 \<Rightarrow> u64 list \<Rightarrow> ('u, 'n) world \<Rightarrow>
     (i32 \<times> u64 list \<times> ('u, 'n) world) result option" where
  "worker_events B ThreadCount threadIndex evs ret recvList w =
     (case MFConn_First (bs_conns (wd_store w)) threadIndex (length (bs_conns (wd_store w)) - threadIndex) ThreadCount of
        None \<Rightarrow> None
      | Some (Inl e) \<Rightarrow> Some (Inl e)
      | Some (Inr conn) \<Rightarrow>
          (case events_loop B ThreadCount evs conn ret recvList w of
             None \<Rightarrow> None
           | Some (Inl e) \<Rightarrow> Some (Inl e)
           | Some (Inr (ret, recvList, w)) \<Rightarrow>
               Some (rbind (deliver B recvList w) (\<lambda>w. Inr (ret, recvList, w)))))"

section \<open>The array is too small\<close>



text \<open>
  With entries that fit, the walk of a worker over an array in which all slots are in use: it takes
  every slot from its own on, because it goes on at the next slot and not a step further.
\<close>

lemma MFConn_Next_here:
  "i < s + n \<Longrightarrow> i < length conns \<Longrightarrow> cn_State (conns ! i) \<noteq> mcsFree \<Longrightarrow> MFConn_Next conns s i n k = Some (Inr (Some i))"
  by (simp add: MFConn_Next.simps [of conns s i n k])

lemma MFConn_Next_end: "s + n \<le> i \<Longrightarrow> MFConn_Next conns s i n k = Some (Inr None)"
  by (simp add: MFConn_Next.simps [of conns s i n k])

lemma poll_fill_all_used:
  assumes "\<forall>c < length conns. cn_State (conns ! c) \<noteq> mcsFree" "t + i + n \<le> length conns" "entry * (i + n) \<le> room"
  shows "poll_fill entry room k conns (length conns) (if t + i < length conns then Some (t + i) else None) i n =
    Some (Inr (map (\<lambda>c. (cn_Socket (conns ! c), MessagesToSend (conns ! c) \<noteq> [])) [t + i..<t + i + n]))"
  using assms(2,3)
proof (induction n arbitrary: i)
  case (Suc n)
  have lt: "t + i < length conns" using Suc.prems(1) by simp
  have nxt: "MFConn_Next conns 0 (t + i + 1) (length conns) k =
      Some (Inr (if t + (i + 1) < length conns then Some (t + (i + 1)) else None))"
    using MFConn_Next_here [of "t + i + 1" 0 "length conns" conns k] MFConn_Next_end [of 0 "length conns" "t + i + 1" conns k]
      assms(1) by auto
  have "entry * (i + 1) \<le> entry * (i + Suc n)" by (intro mult_le_mono2) simp
  then have room: "\<not> room < entry * (i + 1)" using Suc.prems(2) by (meson le_trans not_less)
  have IH: "poll_fill entry room k conns (length conns) (if t + (i + 1) < length conns then Some (t + (i + 1)) else None)
      (i + 1) n = Some (Inr (map (\<lambda>c. (cn_Socket (conns ! c), MessagesToSend (conns ! c) \<noteq> [])) [t + (i + 1)..<t + (i + 1) + n]))"
    using Suc.prems by (intro Suc.IH) simp_all
  have upt: "[t + i..<t + i + Suc n] = (t + i) # [t + (i + 1)..<t + (i + 1) + n]" by (simp add: upt_rec [of "t + i"])
  show ?case
    using lt room unfolding upt poll_fill.simps if_P [OF lt] option.case nxt sum.case IH Let_def by simp
qed simp

section \<open>Sending the queue\<close>

text \<open>Callbacks that ask for nothing and change only what is the user's.\<close>

definition quiet :: "('u, 'n) broker \<Rightarrow> bool" where
  "quiet B \<longleftrightarrow>
     (\<forall>e c m n f w. \<exists>r u. br_MessageCallback B e c m n f w = (r, w\<lparr>wd_user := u\<rparr>)) \<and>
     (\<forall>e r w. \<exists>s u. br_ErrorCallback B e r w = (s, w\<lparr>wd_user := u\<rparr>)) \<and>
     (\<forall>c m n f w. fst (br_MessageCallback B bmetAboutToEncrypt c m n f w) = 0 \<and>
        fst (br_MessageCallback B bmetAboutToSign c m n f w) = 0)"













section \<open>Delivering\<close>

text \<open>Callbacks that only record what they are told.\<close>

definition records :: "((EBrokerMessageEventType \<times> nat option \<times> MF_MESSAGE) list, 'n) broker \<Rightarrow> bool" where
  "records B \<longleftrightarrow> (\<forall>e c m n f w. snd (br_MessageCallback B e c m n f w) = w\<lparr>wd_user := wd_user w @ [(e, c, m)]\<rparr>)"



section \<open>Accepting connections\<close>




section \<open>A demonstration broker\<close>

definition demo_broker :: "((EBrokerMessageEventType \<times> nat option \<times> MF_MESSAGE) list, bytes) broker" where
  "demo_broker = \<lparr>br_PublicKey = demo_PK, br_SecretKey = demo_SK,
     br_MessageCallback = (\<lambda>e c m n f w. (0, w\<lparr>wd_user := wd_user w @ [(e, c, m)]\<rparr>)),
     br_ErrorCallback = (\<lambda>e r w. (0, w)), br_curve = sum_curve, br_signer = demo_signer, br_ws = pipe,
     br_os = one_listed, br_rnd = (\<lambda>n. replicate 32 1)\<rparr>"

lemma demo_broker_ok: "quiet demo_broker" "records demo_broker" "br_ws demo_broker = pipe" "br_signer demo_broker = demo_signer"
proof -
  have "\<exists>s u. br_ErrorCallback demo_broker e r w = (s, w\<lparr>wd_user := u\<rparr>)" for e r w
    by (intro exI [of _ 0] exI [of _ "wd_user w"]) (simp add: demo_broker_def)
  then show "quiet demo_broker" by (auto simp: quiet_def demo_broker_def)
qed (simp_all add: records_def demo_broker_def)

definition demo_world :: "broker_store \<Rightarrow> ((EBrokerMessageEventType \<times> nat option \<times> MF_MESSAGE) list, bytes) world" where
  "demo_world st = \<lparr>wd_user = [], wd_net = [], wd_store = st, wd_ConnectionCount = 1, wd_draws = 0\<rparr>"

lemma demo_world_simps [simp]:
  "wd_user (demo_world st) = []" "wd_net (demo_world st) = []" "wd_store (demo_world st) = st"
  by (simp_all add: demo_world_def)

text \<open>A connection with a key, and a received message at \<open>0x1010\<close>.\<close>

definition demo_received :: "MF_LISTED_MESSAGE \<Rightarrow> broker_store" where
  "demo_received l = \<lparr>bs_conns = [(snd (MFConn_Init 0 0 77 0))\<lparr>cn_Key := demo_PK, cn_State := mcfEstablished\<rparr>],
     bs_heap = [0x1000 \<mapsto> \<lparr>RefCount = 1, Contents = l\<rparr>], bs_closed = []\<rparr>"

lemma demo_received_read: "mem_read 0x1010 (bs_heap (demo_received l)) = Inr l"
  by (simp add: demo_received_def mem_read_def)

section \<open>Properties\<close>



text \<open>
  Even with room enough the workers do not keep to their own slots.  When all slots are in use,
  worker \<open>t\<close> polls \<open>n\<close> connections from slot \<open>t\<close> on, one after the other, although its slots are those
  \<open>ThreadCount\<close> apart; and a worker that finds no connection in its slots, while there is one
  elsewhere, uses a null pointer.
\<close>

theorem worker_poll_slots:
  assumes "0 < ThreadCount" "t \<le> length conns"
  shows "((\<forall>c < length conns. cn_State (conns ! c) \<noteq> mcsFree) \<and> t + n \<le> length conns \<longrightarrow>
      worker_poll 16 ThreadCount t conns n =
        Some (Inr (map (\<lambda>c. (cn_Socket (conns ! c), MessagesToSend (conns ! c) \<noteq> [])) [t..<t + n]))) \<and>
    ((\<forall>c < length conns. t \<le> c \<and> ThreadCount dvd c - t \<longrightarrow> cn_State (conns ! c) = mcsFree) \<and> 0 < n \<longrightarrow>
      worker_poll 16 ThreadCount t conns n = Some (Inl Undef))"
proof (intro conjI impI; elim conjE)
  assume used: "\<forall>c < length conns. cn_State (conns ! c) \<noteq> mcsFree" and n: "t + n \<le> length conns"
  have "MFConn_First conns t (length conns - t) ThreadCount =
      Some (Inr (if t + 0 < length conns then Some (t + 0) else None))"
    using MFConn_Next_here [of t t "length conns - t" conns ThreadCount]
      MFConn_Next_end [of t "length conns - t" t conns ThreadCount] used assms(2)
    by (auto simp: MFConn_First_def)
  then show "worker_poll 16 ThreadCount t conns n =
        Some (Inr (map (\<lambda>c. (cn_Socket (conns ! c), MessagesToSend (conns ! c) \<noteq> [])) [t..<t + n]))"
    using poll_fill_all_used [OF used, of t 0 n 16 "n * 16" ThreadCount] n by (simp add: worker_poll_def)
next
  assume free: "\<forall>c < length conns. t \<le> c \<and> ThreadCount dvd c - t \<longrightarrow> cn_State (conns ! c) = mcsFree" and n: "0 < n"
  obtain r where r: "MFConn_First conns t (length conns - t) ThreadCount = Some (Inr r)"
    "case r of None \<Rightarrow> True | Some j \<Rightarrow> t \<le> j \<and> j < length conns \<and> ThreadCount dvd (j - t) \<and> cn_State (conns ! j) \<noteq> mcsFree"
    using MFConn_Next_spec [OF assms(1), of t "length conns - t" conns t] assms(2)
    by (auto simp: MFConn_First_def split: option.splits)
  have "r = None" using r(2) free by (cases r) auto
  then show "worker_poll 16 ThreadCount t conns n = Some (Inl Undef)"
    using r(1) n by (cases n) (simp_all add: worker_poll_def)
qed

lemma worker_poll_slots_witness:
  "worker_poll 16 2 0 (bs_conns demo_store) 1 = Some (Inl Undef) \<and>
   worker_poll 16 2 0 [snd (MFConn_Init 0 0 77 0), snd (MFConn_Init 0 0 78 0)] 2 =
     Some (Inr [(77, False), (78, False)])"
proof -
  have "\<forall>c < length (bs_conns demo_store). 0 \<le> c \<and> 2 dvd c - 0 \<longrightarrow> cn_State (bs_conns demo_store ! c) = mcsFree"
    by (auto simp: demo_store_def zero_connection_def less_Suc_eq numeral_3_eq_3 numeral_2_eq_2 MFConn_Init_def)
  moreover have "\<forall>c < 2. cn_State ([snd (MFConn_Init 0 0 77 0), snd (MFConn_Init 0 0 78 0)] ! c) \<noteq> mcsFree"
    by (auto simp: MFConn_Init_def less_Suc_eq numeral_2_eq_2)
  ultimately show ?thesis
    using worker_poll_slots [of 2 0 "bs_conns demo_store" 1]
      worker_poll_slots [of 2 0 "[snd (MFConn_Init 0 0 77 0), snd (MFConn_Init 0 0 78 0)]" 2]
    by (simp add: upt_conv_Cons MFConn_Init_def zero_connection_def)
qed

text \<open>
  C15: A message of a connection with a key that says it is signed is put on the list of received
  messages only if the signature verifies under that key; otherwise its one reference is dropped
  and the list stays as it was.
\<close>

theorem recv_message_verified:
  assumes "mem_read msg (wd_heap w) = Inr l" "recv_message B c msg recvList w = Inr (ret, recvList', w')"
  shows "recvList' = (if ret = 0 then recvList @ [msg] else recvList) \<and>
    (ret = 0 \<and> Flags (lm_Message l) AND MF_MESSAGE_SIGNED \<noteq> 0 \<and> cn_State (bs_conns (wd_store w) ! c) = mcfEstablished \<longrightarrow>
      (\<exists>m. MFMessage_Verify (br_signer B) (lm_Message l) (cn_Key (bs_conns (wd_store w) ! c)) = Inr (0, m)))"
proof -
  let ?l = "l\<lparr>lm_OriginalFlags := ucast (Flags (lm_Message l))\<rparr>"
  obtain r1 l1 w1 where v: "recv_verify B c ?l w = Inr (r1, l1, w1)"
    using assms by (auto simp: recv_message_def rbind_Inr)
  obtain r2 l2 w2 where d: "(if r1 = 0 then recv_decrypt B l1 w1 else Inr (r1, l1, w1)) = Inr (r2, l2, w2)"
    and l: "recvList' = (if r2 = 0 then recvList @ [msg] else recvList)" "ret = r2"
    using assms v by (auto simp: recv_message_def rbind_Inr split: if_splits)
  have "\<exists>m. MFMessage_Verify (br_signer B) (lm_Message l) (cn_Key (bs_conns (wd_store w) ! c)) = Inr (0, m)"
    if "ret = 0" "Flags (lm_Message l) AND MF_MESSAGE_SIGNED \<noteq> 0" "cn_State (bs_conns (wd_store w) ! c) = mcfEstablished"
  proof -
    have "r1 = 0" using d l(2) that(1) by (auto split: if_splits)
    then show ?thesis
      using v that(2,3) by (auto simp: recv_verify_def rbind_Inr Let_def conn_at_def require_Inr split: if_splits)
  qed
  then show ?thesis using l by blast
qed

lemma recv_message_verified_witness:
  "\<exists>l w' m. Flags (lm_Message l) AND MF_MESSAGE_SIGNED \<noteq> 0 \<and>
    recv_message demo_broker 0 0x1010 [] (demo_world (demo_received l)) = Inr (0, [0x1010], w') \<and>
    MFMessage_Verify demo_signer (lm_Message l) demo_PK = Inr (0, m)"
proof -
  have "unat (MessageSize demo_message) \<le> 224 + length (Payload demo_message)" using demo_message_ok(5,6) by simp
  from Sign_Verify [OF demo_message_ok(1) this demo_keys(2) [where PK = demo_PK and SK = demo_SK]] obtain m where
    m: "m = demo_message\<lparr>Flags := Flags demo_message OR MF_MESSAGE_SIGNED, MessageSignature := MessageSignature m\<rparr>"
    "MFMessage_Verify demo_signer m demo_PK = Inr (0, m)" by blast
  have f: "Flags m AND MF_MESSAGE_SIGNED \<noteq> 0" "Flags m AND MF_MESSAGE_HEADER_ENCRYPTED = 0"
    by (subst m(1), simp add: demo_message_def fresh_message_def flag_defs)+
  let ?l = "\<lparr>lm_Connection = None, lm_OriginalFlags = 0, lm_Message = m\<rparr>"
  have "\<exists>w'. recv_message demo_broker 0 0x1010 [] (demo_world (demo_received ?l)) = Inr (0, [0x1010], w')"
    using m(2) f by (simp add: recv_message_def recv_verify_def recv_decrypt_def conn_at_def demo_received_def
        demo_broker_ok(4) on_heap_def on_store_def mem_read_def mem_write_def MFGen_RefMemAddRef_def MFGen_RefMemRelease_def
        MFConnection_AddRef_def conn_write_def MFConn_Init_def zero_connection_def Let_def)
  then obtain w' where w': "recv_message demo_broker 0 0x1010 [] (demo_world (demo_received ?l)) = Inr (0, [0x1010], w')" ..
  have st: "cn_State (bs_conns (demo_received ?l) ! 0) = mcfEstablished" "cn_Key (bs_conns (demo_received ?l) ! 0) = demo_PK"
    by (simp_all add: demo_received_def)
  from recv_message_verified [OF _ w', of ?l] f(1) st demo_broker_ok(4) w' show ?thesis
    by (intro exI [of _ ?l]) (auto simp: demo_received_read)
qed







end
