(* ===== verification/Fe25519.thy ===== *)
theory Fe25519
  imports Prelude
begin

text \<open>
  The field of integers modulo \<open>2^255 - 19\<close> in libsodium's portable code: ten limbs of alternately 26
  and 25 bits in signed 32-bit words (\<open>ed25519_ref10_fe_25_5.h\<close>, \<open>fe_25_5/fe.h\<close>, \<open>ed25519_ref10.c\<close>).
  Signed arithmetic is written as that of words, which wrap where C leaves the result undefined;
  \<open>Fe25519_Arith\<close> gives the bounds within which nothing wraps.
\<close>

type_synonym i64 = "64 word"

text \<open>\<open>int32_t[10]\<close>, and the \<open>int64_t\<close> variables \<open>h0\<close> to \<open>h9\<close> of the code as a list.\<close>

type_synonym fe25519 = "i32 list"

section \<open>Limbs and carries\<close>

text \<open>\<open>>>\<close> on signed words\<close>

definition sshift :: "'a::len word \<Rightarrow> nat \<Rightarrow> 'a word" where
  "sshift x n = signed_drop_bit n x"

definition limb_width :: "nat \<Rightarrow> nat" where
  "limb_width i = (if even i then 26 else 25)"

text \<open>
  One carry: the limb is rounded to a multiple of \<open>2^w\<close>, which goes to the next limb, or 19 times to
  the first one.
\<close>

definition carry_at :: "nat \<Rightarrow> i64 list \<Rightarrow> i64 list" where
  "carry_at i h =
     (let w = limb_width i;
          carry = sshift (h ! i + 2 ^ (w - 1)) w;
          j = (i + 1) mod 10;
          h = h[j := h ! j + (if i = 9 then carry * 19 else carry)]
      in h[i := h ! i - carry * 2 ^ w])"

text \<open>The end of a multiplication: twelve carries, then the limbs as 32-bit words.\<close>

definition mul_carries :: "i64 list \<Rightarrow> fe25519" where
  "mul_carries h = map ucast (fold carry_at [0, 4, 1, 5, 2, 6, 3, 7, 4, 8, 9, 0] h)"

text \<open>The end of \<open>fe25519_frombytes\<close> and \<open>fe25519_mul32\<close>: ten carries.\<close>

definition round_carries :: "i64 list \<Rightarrow> fe25519" where
  "round_carries h = map ucast (fold carry_at [9, 1, 3, 5, 7, 0, 2, 4, 6, 8] h)"

section \<open>Loads and stores\<close>

definition load_3 :: "bytes \<Rightarrow> i64" where
  "load_3 s = ucast (s ! 0) OR push_bit 8 (ucast (s ! 1)) OR push_bit 16 (ucast (s ! 2))"

definition load_4 :: "bytes \<Rightarrow> i64" where
  "load_4 s = ucast (s ! 0) OR push_bit 8 (ucast (s ! 1)) OR push_bit 16 (ucast (s ! 2)) OR push_bit 24 (ucast (s ! 3))"

text \<open>The top bit is ignored.\<close>

definition frombytes_limbs :: "bytes \<Rightarrow> i64 list" where
  "frombytes_limbs s =
     [load_4 s,
      push_bit 6 (load_3 (drop 4 s)),
      push_bit 5 (load_3 (drop 7 s)),
      push_bit 3 (load_3 (drop 10 s)),
      push_bit 2 (load_3 (drop 13 s)),
      load_4 (drop 16 s),
      push_bit 7 (load_3 (drop 20 s)),
      push_bit 5 (load_3 (drop 23 s)),
      push_bit 4 (load_3 (drop 26 s)),
      push_bit 2 (load_3 (drop 29 s) AND 8388607)]"

definition fe25519_frombytes :: "bytes \<Rightarrow> fe25519" where
  "fe25519_frombytes s = round_carries (frombytes_limbs s)"

text \<open>
  \<open>fe25519_reduce\<close> subtracts the multiple \<open>q\<close> of the prime.  The first shift is one of an unsigned
  word: \<open>(uint32_t) 1L << 24\<close> makes the sum unsigned.
\<close>

definition reduce_q :: "fe25519 \<Rightarrow> i32" where
  "reduce_q h = fold (\<lambda>i q. sshift (h ! i + q) (limb_width i)) [0..<10] (drop_bit 25 (19 * h ! 9 + 2 ^ 24))"

definition fe_reduce_carry :: "nat \<Rightarrow> i32 list \<Rightarrow> i32 list" where
  "fe_reduce_carry i h =
     (let carry = sshift (h ! i) (limb_width i);
          h = (if i < 9 then h[i + 1 := h ! (i + 1) + carry] else h)
      in h[i := h ! i - carry * 2 ^ limb_width i])"

definition fe25519_reduce :: "fe25519 \<Rightarrow> fe25519" where
  "fe25519_reduce f = fold fe_reduce_carry [0..<10] (f[0 := f ! 0 + 19 * reduce_q f])"

definition pack_limbs :: "i32 list \<Rightarrow> bytes" where
  "pack_limbs t = map ucast
        [sshift (t ! 0) 0,
         sshift (t ! 0) 8,
         sshift (t ! 0) 16,
         sshift (t ! 0) 24 OR (t ! 1) * 2 ^ 2,
         sshift (t ! 1) 6,
         sshift (t ! 1) 14,
         sshift (t ! 1) 22 OR (t ! 2) * 2 ^ 3,
         sshift (t ! 2) 5,
         sshift (t ! 2) 13,
         sshift (t ! 2) 21 OR (t ! 3) * 2 ^ 5,
         sshift (t ! 3) 3,
         sshift (t ! 3) 11,
         sshift (t ! 3) 19 OR (t ! 4) * 2 ^ 6,
         sshift (t ! 4) 2,
         sshift (t ! 4) 10,
         sshift (t ! 4) 18,
         sshift (t ! 5) 0,
         sshift (t ! 5) 8,
         sshift (t ! 5) 16,
         sshift (t ! 5) 24 OR (t ! 6) * 2 ^ 1,
         sshift (t ! 6) 7,
         sshift (t ! 6) 15,
         sshift (t ! 6) 23 OR (t ! 7) * 2 ^ 3,
         sshift (t ! 7) 5,
         sshift (t ! 7) 13,
         sshift (t ! 7) 21 OR (t ! 8) * 2 ^ 4,
         sshift (t ! 8) 4,
         sshift (t ! 8) 12,
         sshift (t ! 8) 20 OR (t ! 9) * 2 ^ 6,
         sshift (t ! 9) 2,
         sshift (t ! 9) 10,
         sshift (t ! 9) 18]"

definition fe25519_tobytes :: "fe25519 \<Rightarrow> bytes" where
  "fe25519_tobytes h = pack_limbs (fe25519_reduce h)"

section \<open>Operations on limbs\<close>

definition fe25519_0 :: fe25519 where
  "fe25519_0 = replicate 10 0"

definition fe25519_1 :: fe25519 where
  "fe25519_1 = [1, 0] @ replicate 8 0"

definition fe25519_add :: "fe25519 \<Rightarrow> fe25519 \<Rightarrow> fe25519" where
  "fe25519_add f g = map2 (+) f g"

definition fe25519_sub :: "fe25519 \<Rightarrow> fe25519 \<Rightarrow> fe25519" where
  "fe25519_sub f g = map2 (-) f g"

definition fe25519_neg :: "fe25519 \<Rightarrow> fe25519" where
  "fe25519_neg f = map uminus f"

definition fe25519_cmov :: "fe25519 \<Rightarrow> fe25519 \<Rightarrow> u32 \<Rightarrow> fe25519" where
  "fe25519_cmov f g b =
     (let mask = - b;
          x = map (\<lambda>x. x AND mask) (map2 (XOR) f g)
      in map2 (XOR) f x)"

definition fe25519_cswap :: "fe25519 \<Rightarrow> fe25519 \<Rightarrow> u32 \<Rightarrow> fe25519 \<times> fe25519" where
  "fe25519_cswap f g b =
     (let mask = - b;
          x = map (\<lambda>x. x AND mask) (map2 (XOR) f g)
      in (map2 (XOR) f x, map2 (XOR) g x))"

definition fe25519_isnegative :: "fe25519 \<Rightarrow> i32" where
  "fe25519_isnegative f = ucast (fe25519_tobytes f ! 0) AND 1"

section \<open>Products\<close>

text \<open>\<open>a * (int64_t) b\<close>\<close>

definition smul :: "i32 \<Rightarrow> i32 \<Rightarrow> i64" where
  "smul a b = scast a * scast b"

definition mul_sums :: "fe25519 \<Rightarrow> fe25519 \<Rightarrow> i64 list" where
  "mul_sums f g =
    (let f0 = f ! 0; f1 = f ! 1; f2 = f ! 2; f3 = f ! 3; f4 = f ! 4; f5 = f ! 5; f6 = f ! 6; f7 = f ! 7;
         f8 = f ! 8; f9 = f ! 9; g0 = g ! 0; g1 = g ! 1; g2 = g ! 2; g3 = g ! 3; g4 = g ! 4; g5 = g ! 5;
         g6 = g ! 6; g7 = g ! 7; g8 = g ! 8; g9 = g ! 9; g1_19 = 19 * g1; g2_19 = 19 * g2; g3_19 = 19 * g3;
         g4_19 = 19 * g4; g5_19 = 19 * g5; g6_19 = 19 * g6; g7_19 = 19 * g7; g8_19 = 19 * g8; g9_19 = 19 * g9;
         f1_2 = 2 * f1; f3_2 = 2 * f3; f5_2 = 2 * f5; f7_2 = 2 * f7; f9_2 = 2 * f9; f0g0 = smul f0 g0;
         f0g1 = smul f0 g1; f0g2 = smul f0 g2; f0g3 = smul f0 g3; f0g4 = smul f0 g4; f0g5 = smul f0 g5;
         f0g6 = smul f0 g6; f0g7 = smul f0 g7; f0g8 = smul f0 g8; f0g9 = smul f0 g9; f1g0 = smul f1 g0;
         f1g1_2 = smul f1_2 g1; f1g2 = smul f1 g2; f1g3_2 = smul f1_2 g3; f1g4 = smul f1 g4; f1g5_2 = smul f1_2 g5;
         f1g6 = smul f1 g6; f1g7_2 = smul f1_2 g7; f1g8 = smul f1 g8; f1g9_38 = smul f1_2 g9_19; f2g0 = smul f2 g0;
         f2g1 = smul f2 g1; f2g2 = smul f2 g2; f2g3 = smul f2 g3; f2g4 = smul f2 g4; f2g5 = smul f2 g5;
         f2g6 = smul f2 g6; f2g7 = smul f2 g7; f2g8_19 = smul f2 g8_19; f2g9_19 = smul f2 g9_19; f3g0 = smul f3 g0;
         f3g1_2 = smul f3_2 g1; f3g2 = smul f3 g2; f3g3_2 = smul f3_2 g3; f3g4 = smul f3 g4; f3g5_2 = smul f3_2 g5;
         f3g6 = smul f3 g6; f3g7_38 = smul f3_2 g7_19; f3g8_19 = smul f3 g8_19; f3g9_38 = smul f3_2 g9_19;
         f4g0 = smul f4 g0; f4g1 = smul f4 g1; f4g2 = smul f4 g2; f4g3 = smul f4 g3; f4g4 = smul f4 g4;
         f4g5 = smul f4 g5; f4g6_19 = smul f4 g6_19; f4g7_19 = smul f4 g7_19; f4g8_19 = smul f4 g8_19;
         f4g9_19 = smul f4 g9_19; f5g0 = smul f5 g0; f5g1_2 = smul f5_2 g1; f5g2 = smul f5 g2;
         f5g3_2 = smul f5_2 g3; f5g4 = smul f5 g4; f5g5_38 = smul f5_2 g5_19; f5g6_19 = smul f5 g6_19;
         f5g7_38 = smul f5_2 g7_19; f5g8_19 = smul f5 g8_19; f5g9_38 = smul f5_2 g9_19; f6g0 = smul f6 g0;
         f6g1 = smul f6 g1; f6g2 = smul f6 g2; f6g3 = smul f6 g3; f6g4_19 = smul f6 g4_19; f6g5_19 = smul f6 g5_19;
         f6g6_19 = smul f6 g6_19; f6g7_19 = smul f6 g7_19; f6g8_19 = smul f6 g8_19; f6g9_19 = smul f6 g9_19;
         f7g0 = smul f7 g0; f7g1_2 = smul f7_2 g1; f7g2 = smul f7 g2; f7g3_38 = smul f7_2 g3_19;
         f7g4_19 = smul f7 g4_19; f7g5_38 = smul f7_2 g5_19; f7g6_19 = smul f7 g6_19; f7g7_38 = smul f7_2 g7_19;
         f7g8_19 = smul f7 g8_19; f7g9_38 = smul f7_2 g9_19; f8g0 = smul f8 g0; f8g1 = smul f8 g1;
         f8g2_19 = smul f8 g2_19; f8g3_19 = smul f8 g3_19; f8g4_19 = smul f8 g4_19; f8g5_19 = smul f8 g5_19;
         f8g6_19 = smul f8 g6_19; f8g7_19 = smul f8 g7_19; f8g8_19 = smul f8 g8_19; f8g9_19 = smul f8 g9_19;
         f9g0 = smul f9 g0; f9g1_38 = smul f9_2 g1_19; f9g2_19 = smul f9 g2_19; f9g3_38 = smul f9_2 g3_19;
         f9g4_19 = smul f9 g4_19; f9g5_38 = smul f9_2 g5_19; f9g6_19 = smul f9 g6_19; f9g7_38 = smul f9_2 g7_19;
         f9g8_19 = smul f9 g8_19; f9g9_38 = smul f9_2 g9_19
     in [f0g0 + f1g9_38 + f2g8_19 + f3g7_38 + f4g6_19 + f5g5_38 + f6g4_19 + f7g3_38 + f8g2_19 + f9g1_38,
         f0g1 + f1g0 + f2g9_19 + f3g8_19 + f4g7_19 + f5g6_19 + f6g5_19 + f7g4_19 + f8g3_19 + f9g2_19,
         f0g2 + f1g1_2 + f2g0 + f3g9_38 + f4g8_19 + f5g7_38 + f6g6_19 + f7g5_38 + f8g4_19 + f9g3_38,
         f0g3 + f1g2 + f2g1 + f3g0 + f4g9_19 + f5g8_19 + f6g7_19 + f7g6_19 + f8g5_19 + f9g4_19,
         f0g4 + f1g3_2 + f2g2 + f3g1_2 + f4g0 + f5g9_38 + f6g8_19 + f7g7_38 + f8g6_19 + f9g5_38,
         f0g5 + f1g4 + f2g3 + f3g2 + f4g1 + f5g0 + f6g9_19 + f7g8_19 + f8g7_19 + f9g6_19,
         f0g6 + f1g5_2 + f2g4 + f3g3_2 + f4g2 + f5g1_2 + f6g0 + f7g9_38 + f8g8_19 + f9g7_38,
         f0g7 + f1g6 + f2g5 + f3g4 + f4g3 + f5g2 + f6g1 + f7g0 + f8g9_19 + f9g8_19,
         f0g8 + f1g7_2 + f2g6 + f3g5_2 + f4g4 + f5g3_2 + f6g2 + f7g1_2 + f8g0 + f9g9_38,
         f0g9 + f1g8 + f2g7 + f3g6 + f4g5 + f5g4 + f6g3 + f7g2 + f8g1 + f9g0])"

definition fe25519_mul :: "fe25519 \<Rightarrow> fe25519 \<Rightarrow> fe25519" where
  "fe25519_mul f g = mul_carries (mul_sums f g)"

definition sq_sums :: "fe25519 \<Rightarrow> i64 list" where
  "sq_sums f =
    (let f0 = f ! 0; f1 = f ! 1; f2 = f ! 2; f3 = f ! 3; f4 = f ! 4; f5 = f ! 5; f6 = f ! 6; f7 = f ! 7;
         f8 = f ! 8; f9 = f ! 9; f0_2 = 2 * f0; f1_2 = 2 * f1; f2_2 = 2 * f2; f3_2 = 2 * f3; f4_2 = 2 * f4;
         f5_2 = 2 * f5; f6_2 = 2 * f6; f7_2 = 2 * f7; f5_38 = 38 * f5; f6_19 = 19 * f6; f7_38 = 38 * f7;
         f8_19 = 19 * f8; f9_38 = 38 * f9; f0f0 = smul f0 f0; f0f1_2 = smul f0_2 f1; f0f2_2 = smul f0_2 f2;
         f0f3_2 = smul f0_2 f3; f0f4_2 = smul f0_2 f4; f0f5_2 = smul f0_2 f5; f0f6_2 = smul f0_2 f6;
         f0f7_2 = smul f0_2 f7; f0f8_2 = smul f0_2 f8; f0f9_2 = smul f0_2 f9; f1f1_2 = smul f1_2 f1;
         f1f2_2 = smul f1_2 f2; f1f3_4 = smul f1_2 f3_2; f1f4_2 = smul f1_2 f4; f1f5_4 = smul f1_2 f5_2;
         f1f6_2 = smul f1_2 f6; f1f7_4 = smul f1_2 f7_2; f1f8_2 = smul f1_2 f8; f1f9_76 = smul f1_2 f9_38;
         f2f2 = smul f2 f2; f2f3_2 = smul f2_2 f3; f2f4_2 = smul f2_2 f4; f2f5_2 = smul f2_2 f5;
         f2f6_2 = smul f2_2 f6; f2f7_2 = smul f2_2 f7; f2f8_38 = smul f2_2 f8_19; f2f9_38 = smul f2 f9_38;
         f3f3_2 = smul f3_2 f3; f3f4_2 = smul f3_2 f4; f3f5_4 = smul f3_2 f5_2; f3f6_2 = smul f3_2 f6;
         f3f7_76 = smul f3_2 f7_38; f3f8_38 = smul f3_2 f8_19; f3f9_76 = smul f3_2 f9_38; f4f4 = smul f4 f4;
         f4f5_2 = smul f4_2 f5; f4f6_38 = smul f4_2 f6_19; f4f7_38 = smul f4 f7_38; f4f8_38 = smul f4_2 f8_19;
         f4f9_38 = smul f4 f9_38; f5f5_38 = smul f5 f5_38; f5f6_38 = smul f5_2 f6_19; f5f7_76 = smul f5_2 f7_38;
         f5f8_38 = smul f5_2 f8_19; f5f9_76 = smul f5_2 f9_38; f6f6_19 = smul f6 f6_19; f6f7_38 = smul f6 f7_38;
         f6f8_38 = smul f6_2 f8_19; f6f9_38 = smul f6 f9_38; f7f7_38 = smul f7 f7_38; f7f8_38 = smul f7_2 f8_19;
         f7f9_76 = smul f7_2 f9_38; f8f8_19 = smul f8 f8_19; f8f9_38 = smul f8 f9_38; f9f9_38 = smul f9 f9_38
     in [f0f0 + f1f9_76 + f2f8_38 + f3f7_76 + f4f6_38 + f5f5_38,
         f0f1_2 + f2f9_38 + f3f8_38 + f4f7_38 + f5f6_38,
         f0f2_2 + f1f1_2 + f3f9_76 + f4f8_38 + f5f7_76 + f6f6_19,
         f0f3_2 + f1f2_2 + f4f9_38 + f5f8_38 + f6f7_38,
         f0f4_2 + f1f3_4 + f2f2 + f5f9_76 + f6f8_38 + f7f7_38,
         f0f5_2 + f1f4_2 + f2f3_2 + f6f9_38 + f7f8_38,
         f0f6_2 + f1f5_4 + f2f4_2 + f3f3_2 + f7f9_76 + f8f8_19,
         f0f7_2 + f1f6_2 + f2f5_2 + f3f4_2 + f8f9_38,
         f0f8_2 + f1f7_4 + f2f6_2 + f3f5_4 + f4f4 + f9f9_38,
         f0f9_2 + f1f8_2 + f2f7_2 + f3f6_2 + f4f5_2])"

definition fe25519_sq :: "fe25519 \<Rightarrow> fe25519" where
  "fe25519_sq f = mul_carries (sq_sums f)"

text \<open>The sums of \<open>fe25519_sq2\<close> are those of \<open>fe25519_sq\<close>, doubled.\<close>

definition fe25519_sq2 :: "fe25519 \<Rightarrow> fe25519" where
  "fe25519_sq2 f = mul_carries (map (\<lambda>h. h + h) (sq_sums f))"

definition fe25519_mul32 :: "fe25519 \<Rightarrow> u32 \<Rightarrow> fe25519" where
  "fe25519_mul32 f n = round_carries (map (\<lambda>x. scast x * ucast n) f)"

section \<open>Powers\<close>

definition fe25519_sqmul :: "fe25519 \<Rightarrow> nat \<Rightarrow> fe25519 \<Rightarrow> fe25519" where
  "fe25519_sqmul s n a = fe25519_mul ((fe25519_sq ^^ n) s) a"

definition fe25519_invert :: "fe25519 \<Rightarrow> fe25519" where
  "fe25519_invert z =
    (let t0 = fe25519_sq z;
         t1 = fe25519_sq t0;
         t1 = fe25519_sq t1;
         t1 = fe25519_mul z t1;
         t0 = fe25519_mul t0 t1;
         t2 = fe25519_sq t0;
         t1 = fe25519_mul t1 t2;
         t2 = fe25519_sq t1;
         t2 = (fe25519_sq ^^ 4) t2;
         t1 = fe25519_mul t2 t1;
         t2 = fe25519_sq t1;
         t2 = (fe25519_sq ^^ 9) t2;
         t2 = fe25519_mul t2 t1;
         t3 = fe25519_sq t2;
         t3 = (fe25519_sq ^^ 19) t3;
         t2 = fe25519_mul t3 t2;
         t2 = fe25519_sq t2;
         t2 = (fe25519_sq ^^ 9) t2;
         t1 = fe25519_mul t2 t1;
         t2 = fe25519_sq t1;
         t2 = (fe25519_sq ^^ 49) t2;
         t2 = fe25519_mul t2 t1;
         t3 = fe25519_sq t2;
         t3 = (fe25519_sq ^^ 99) t3;
         t2 = fe25519_mul t3 t2;
         t2 = fe25519_sq t2;
         t2 = (fe25519_sq ^^ 49) t2;
         t1 = fe25519_mul t2 t1;
         t1 = fe25519_sq t1;
         t1 = (fe25519_sq ^^ 4) t1
     in fe25519_mul t1 t0)"

definition fe25519_pow22523 :: "fe25519 \<Rightarrow> fe25519" where
  "fe25519_pow22523 z =
    (let t0 = fe25519_sq z;
         t1 = fe25519_sq t0;
         t1 = fe25519_sq t1;
         t1 = fe25519_mul z t1;
         t0 = fe25519_mul t0 t1;
         t0 = fe25519_sq t0;
         t0 = fe25519_mul t1 t0;
         t1 = fe25519_sq t0;
         t1 = (fe25519_sq ^^ 4) t1;
         t0 = fe25519_mul t1 t0;
         t1 = fe25519_sq t0;
         t1 = (fe25519_sq ^^ 9) t1;
         t1 = fe25519_mul t1 t0;
         t2 = fe25519_sq t1;
         t2 = (fe25519_sq ^^ 19) t2;
         t1 = fe25519_mul t2 t1;
         t1 = fe25519_sq t1;
         t1 = (fe25519_sq ^^ 9) t1;
         t0 = fe25519_mul t1 t0;
         t1 = fe25519_sq t0;
         t1 = (fe25519_sq ^^ 49) t1;
         t1 = fe25519_mul t1 t0;
         t2 = fe25519_sq t1;
         t2 = (fe25519_sq ^^ 99) t2;
         t1 = fe25519_mul t2 t1;
         t1 = fe25519_sq t1;
         t1 = (fe25519_sq ^^ 49) t1;
         t0 = fe25519_mul t1 t0;
         t0 = fe25519_sq t0;
         t0 = fe25519_sq t0
     in fe25519_mul t0 z)"

section \<open>Scalar multiplication\<close>

definition blocklist :: "bytes list" where
  "blocklist =
    [[0x00, 0x00, 0x00, 0x00, 0x00, 0x00, 0x00, 0x00, 0x00, 0x00, 0x00, 0x00, 0x00, 0x00, 0x00, 0x00,
      0x00, 0x00, 0x00, 0x00, 0x00, 0x00, 0x00, 0x00, 0x00, 0x00, 0x00, 0x00, 0x00, 0x00, 0x00, 0x00],
     [0x01, 0x00, 0x00, 0x00, 0x00, 0x00, 0x00, 0x00, 0x00, 0x00, 0x00, 0x00, 0x00, 0x00, 0x00, 0x00,
      0x00, 0x00, 0x00, 0x00, 0x00, 0x00, 0x00, 0x00, 0x00, 0x00, 0x00, 0x00, 0x00, 0x00, 0x00, 0x00],
     [0xe0, 0xeb, 0x7a, 0x7c, 0x3b, 0x41, 0xb8, 0xae, 0x16, 0x56, 0xe3, 0xfa, 0xf1, 0x9f, 0xc4, 0x6a,
      0xda, 0x09, 0x8d, 0xeb, 0x9c, 0x32, 0xb1, 0xfd, 0x86, 0x62, 0x05, 0x16, 0x5f, 0x49, 0xb8, 0x00],
     [0x5f, 0x9c, 0x95, 0xbc, 0xa3, 0x50, 0x8c, 0x24, 0xb1, 0xd0, 0xb1, 0x55, 0x9c, 0x83, 0xef, 0x5b,
      0x04, 0x44, 0x5c, 0xc4, 0x58, 0x1c, 0x8e, 0x86, 0xd8, 0x22, 0x4e, 0xdd, 0xd0, 0x9f, 0x11, 0x57],
     [0xec, 0xff, 0xff, 0xff, 0xff, 0xff, 0xff, 0xff, 0xff, 0xff, 0xff, 0xff, 0xff, 0xff, 0xff, 0xff,
      0xff, 0xff, 0xff, 0xff, 0xff, 0xff, 0xff, 0xff, 0xff, 0xff, 0xff, 0xff, 0xff, 0xff, 0xff, 0x7f],
     [0xed, 0xff, 0xff, 0xff, 0xff, 0xff, 0xff, 0xff, 0xff, 0xff, 0xff, 0xff, 0xff, 0xff, 0xff, 0xff,
      0xff, 0xff, 0xff, 0xff, 0xff, 0xff, 0xff, 0xff, 0xff, 0xff, 0xff, 0xff, 0xff, 0xff, 0xff, 0x7f],
     [0xee, 0xff, 0xff, 0xff, 0xff, 0xff, 0xff, 0xff, 0xff, 0xff, 0xff, 0xff, 0xff, 0xff, 0xff, 0xff,
      0xff, 0xff, 0xff, 0xff, 0xff, 0xff, 0xff, 0xff, 0xff, 0xff, 0xff, 0xff, 0xff, 0xff, 0xff, 0x7f]]"

text \<open>Comparison with a list of encodings; the last byte is compared without its top bit.\<close>

definition blocklisted :: "bytes list \<Rightarrow> bytes \<Rightarrow> bool" where
  "blocklisted bl s =
     (let c = map (\<lambda>b. fold (\<lambda>j c. c OR (s ! j XOR b ! j)) [0..<31] 0 OR ((s ! 31 AND 0x7f) XOR b ! 31)) bl;
          k = fold (\<lambda>c k. k OR (ucast c - 1)) c (0 :: u32)
      in drop_bit 8 k AND 1 \<noteq> 0)"

definition has_small_order :: "bytes \<Rightarrow> bool" where
  "has_small_order s = blocklisted blocklist s"

definition clamp :: "bytes \<Rightarrow> bytes" where
  "clamp n =
     (let t = n[0 := n ! 0 AND 248];
          t = t[31 := t ! 31 AND 127]
      in t[31 := t ! 31 OR 64])"

record ladder =
  ld_x2 :: fe25519
  ld_z2 :: fe25519
  ld_x3 :: fe25519
  ld_z3 :: fe25519
  ld_swap :: u32

text \<open>The swap at the head of a round of the ladder, and the arithmetic of the round.\<close>

definition ladder_swap :: "u32 \<Rightarrow> ladder \<Rightarrow> ladder" where
  "ladder_swap b l =
     (let swap = ld_swap l XOR b;
          (x2, x3) = fe25519_cswap (ld_x2 l) (ld_x3 l) swap;
          (z2, z3) = fe25519_cswap (ld_z2 l) (ld_z3 l) swap
      in \<lparr>ld_x2 = x2, ld_z2 = z2, ld_x3 = x3, ld_z3 = z3, ld_swap = b\<rparr>)"

definition ladder_arith :: "fe25519 \<Rightarrow> ladder \<Rightarrow> ladder" where
  "ladder_arith x1 l =
     (let x2 = ld_x2 l; z2 = ld_z2 l; x3 = ld_x3 l; z3 = ld_z3 l;
          tmp0 = fe25519_sub x3 z3;
          tmp1 = fe25519_sub x2 z2;
          x2 = fe25519_add x2 z2;
          z2 = fe25519_add x3 z3;
          z3 = fe25519_mul tmp0 x2;
          z2 = fe25519_mul z2 tmp1;
          tmp0 = fe25519_sq tmp1;
          tmp1 = fe25519_sq x2;
          x3 = fe25519_add z3 z2;
          z2 = fe25519_sub z3 z2;
          x2 = fe25519_mul tmp1 tmp0;
          tmp1 = fe25519_sub tmp1 tmp0;
          z2 = fe25519_sq z2;
          z3 = fe25519_mul32 tmp1 121666;
          x3 = fe25519_sq x3;
          tmp0 = fe25519_add tmp0 z3;
          z3 = fe25519_mul x1 z2;
          z2 = fe25519_mul tmp1 tmp0
      in \<lparr>ld_x2 = x2, ld_z2 = z2, ld_x3 = x3, ld_z3 = z3, ld_swap = ld_swap l\<rparr>)"

definition ladder_bit :: "bytes \<Rightarrow> nat \<Rightarrow> u32" where
  "ladder_bit t pos = drop_bit (pos mod 8) (ucast (t ! (pos div 8))) AND 1"

definition ladder_step :: "bytes \<Rightarrow> fe25519 \<Rightarrow> nat \<Rightarrow> ladder \<Rightarrow> ladder" where
  "ladder_step t x1 pos l = ladder_arith x1 (ladder_swap (ladder_bit t pos) l)"

text \<open>The result buffer is taken not to overlap the point.\<close>

definition crypto_scalarmult_curve25519_ref10 :: "bytes \<Rightarrow> bytes \<Rightarrow> bytes result" where
  "crypto_scalarmult_curve25519_ref10 n p =
     (if has_small_order p then Inl (Ret (- 1))
      else
        let t = clamp n;
            x1 = fe25519_frombytes p;
            l = \<lparr>ld_x2 = fe25519_1, ld_z2 = fe25519_0, ld_x3 = x1, ld_z3 = fe25519_1, ld_swap = 0\<rparr>;
            l = fold (ladder_step t x1) (rev [0..<255]) l;
            l = ladder_swap 0 l;
            z2 = fe25519_invert (ld_z2 l);
            x2 = fe25519_mul (ld_x2 l) z2
        in Inr (fe25519_tobytes x2))"

end
