(* ===== verification/Fe25519_Arith.thy ===== *)
theory Fe25519_Arith
  imports Fe25519
begin

text \<open>
  Arithmetic of limbs.  \<open>fe_val\<close> is the number the limbs stand for; carries and products of words are
  followed on lists of integers, with a bound for every limb, so that each product is shown at once
  not to wrap and to be the product modulo \<open>2^255 - 19\<close>.  \<open>loose\<close> bounds what a product may be given,
  \<open>tight\<close> what it returns; a sum or difference of tight elements is loose.
\<close>

section \<open>Signed words as integers\<close>

lemma sint_of_int: "- (2 ^ (LENGTH('a) - 1)) \<le> k \<Longrightarrow> k < 2 ^ (LENGTH('a) - 1) \<Longrightarrow> sint (of_int k :: 'a::len word) = k"
  by (simp add: signed_of_int signed_take_bit_int_eq_self)

lemma sint_of_int_64: "\<bar>k\<bar> < 2 ^ 63 \<Longrightarrow> sint (of_int k :: i64) = k"
  by (rule sint_of_int) auto

lemma sint_of_int_32: "\<bar>k\<bar> < 2 ^ 31 \<Longrightarrow> sint (of_int k :: i32) = k"
  by (rule sint_of_int) auto

lemma of_int_sint: "of_int (sint (x :: 'a::len word)) = x"
  by simp

lemma sint_sshift: "sint (sshift x n) = sint x div 2 ^ n"
  by (simp add: sshift_def sint_signed_drop_bit_eq drop_bit_eq_div)

lemma sshift_of_int: "sshift x n = of_int (sint x div 2 ^ n)"
  by (metis of_int_sint sint_sshift)

lemma scast_of_int: "(scast (x :: i32) :: i64) = of_int (sint x)"
  by simp

lemma sint_scast_64: "sint (scast (x :: i32) :: i64) = sint x"
  by (rule sint_up_scast) (simp add: is_up)

lemma ucast_of_int: "(ucast (x :: i64) :: i32) = of_int (sint x)"
  by (rule bit_word_eqI) (auto simp: bit_simps min_def)

section \<open>Limbs as integers\<close>

definition limb_exp :: "nat \<Rightarrow> nat" where
  "limb_exp i = (51 * i + 1) div 2"

definition ival :: "int list \<Rightarrow> int" where
  "ival H = (\<Sum>i<10. H ! i * 2 ^ limb_exp i)"

definition p25519 :: int where
  "p25519 = 2 ^ 255 - 19"

definition fe_val :: "fe25519 \<Rightarrow> int" where
  "fe_val f = ival (map sint f)"

definition icarry_at :: "nat \<Rightarrow> int list \<Rightarrow> int list" where
  "icarry_at i H =
     (let w = limb_width i;
          c = (H ! i + 2 ^ (w - 1)) div 2 ^ w;
          j = (i + 1) mod 10;
          H = H[j := H ! j + (if i = 9 then c * 19 else c)]
      in H[i := H ! i - c * 2 ^ w])"

text \<open>Bounds of the limbs, and what a carry makes of them.\<close>

definition bounded :: "int list \<Rightarrow> int list \<Rightarrow> bool" where
  "bounded B H \<longleftrightarrow> length B = 10 \<and> length H = 10 \<and> (\<forall>i<10. \<bar>H ! i\<bar> \<le> B ! i)"

definition bcarry :: "nat \<Rightarrow> int list \<Rightarrow> int list" where
  "bcarry i B =
     (let w = limb_width i;
          c = (B ! i + 2 ^ (w - 1)) div 2 ^ w;
          j = (i + 1) mod 10;
          B = B[j := B ! j + (if i = 9 then c * 19 else c)]
      in B[i := 2 ^ (w - 1)])"

definition bcarry_ok :: "nat \<Rightarrow> int list \<Rightarrow> bool" where
  "bcarry_ok i B \<longleftrightarrow> i < 10 \<and> B ! i + 2 ^ (limb_width i - 1) < 2 ^ 63 \<and> bcarry i B ! ((i + 1) mod 10) < 2 ^ 63"

fun carries_ok :: "nat list \<Rightarrow> int list \<Rightarrow> bool" where
  "carries_ok [] B = True"
| "carries_ok (i # is) B = (bcarry_ok i B \<and> carries_ok is (bcarry i B))"

lemma less_10_cases:
  "(i::nat) < 10 \<Longrightarrow> i = 0 \<or> i = 1 \<or> i = 2 \<or> i = 3 \<or> i = 4 \<or> i = 5 \<or> i = 6 \<or> i = 7 \<or> i = 8 \<or> i = 9"
  by auto

lemma limb_exp_simps [simp]:
  "limb_exp 0 = 0" "limb_exp 1 = 26" "limb_exp (Suc 0) = 26" "limb_exp 2 = 51" "limb_exp 3 = 77" "limb_exp 4 = 102"
  "limb_exp 5 = 128" "limb_exp 6 = 153" "limb_exp 7 = 179" "limb_exp 8 = 204" "limb_exp 9 = 230"
  by (simp_all add: limb_exp_def)

lemma ival_sum: "ival H = H ! 0 + H ! 1 * 2 ^ 26 + H ! 2 * 2 ^ 51 + H ! 3 * 2 ^ 77 + H ! 4 * 2 ^ 102 + H ! 5 * 2 ^ 128 +
    H ! 6 * 2 ^ 153 + H ! 7 * 2 ^ 179 + H ! 8 * 2 ^ 204 + H ! 9 * 2 ^ 230"
proof -
  have "{..<10::nat} = {0, 1, 2, 3, 4, 5, 6, 7, 8, 9}" by auto
  then show ?thesis by (simp add: ival_def)
qed

lemma limb_width_pos: "0 < limb_width i" "limb_width i \<le> 26"
  by (simp_all add: limb_width_def)

lemma mod_eq_multiple: "a = b + m * k \<Longrightarrow> a mod m = b mod (m :: int)"
  by simp

lemma icarry_val: "length H = 10 \<Longrightarrow> i < 10 \<Longrightarrow> ival (icarry_at i H) mod p25519 = ival H mod p25519"
proof (cases "i = 9")
  case True
  assume l: "length H = 10"
  let ?c = "(H ! 9 + 2 ^ 24) div 2 ^ 25"
  have "ival (icarry_at i H) = ival H + p25519 * (- ?c)"
    using l True by (simp add: icarry_at_def Let_def ival_sum limb_width_def p25519_def algebra_simps)
  then show ?thesis by (rule mod_eq_multiple)
next
  case False
  assume l: "length H = 10" and i: "i < 10"
  have "ival (icarry_at i H) = ival H"
    using less_10_cases [OF i] False l
    by (elim disjE) (simp_all add: icarry_at_def Let_def ival_sum limb_width_def algebra_simps
        flip: numeral_2_eq_2 numeral_3_eq_3)
  then show ?thesis by simp
qed

lemma abs_div_pow:
  fixes x b :: int
  assumes "\<bar>x\<bar> \<le> b" "0 < w"
  shows "\<bar>(x + 2 ^ (w - 1)) div 2 ^ w\<bar> \<le> (b + 2 ^ (w - 1)) div 2 ^ w"
proof -
  let ?h = "2 ^ (w - 1) :: int"
  have w: "2 ^ w = 2 * ?h" using assms(2) by (cases w) simp_all
  have h: "0 < ?h" by simp
  have up: "(x + ?h) div 2 ^ w \<le> (b + ?h) div 2 ^ w" using assms(1) by (intro zdiv_mono1) auto
  have "- ((b + ?h) div 2 ^ w) \<le> (x + ?h) div 2 ^ w"
  proof -
    have "0 < (2 ^ w :: int)" by simp
    from pos_mod_bound [OF this, of "b + ?h"] have "b + ?h < 2 ^ w * ((b + ?h) div 2 ^ w) + 2 ^ w"
      using div_mult_mod_eq [of "b + ?h" "2 ^ w"] by (simp only: mult.commute)
    then have "- (2 ^ w * ((b + ?h) div 2 ^ w)) \<le> x + ?h" using assms(1) w by linarith
    then have "(- ((b + ?h) div 2 ^ w)) * 2 ^ w \<le> x + ?h" by (simp only: mult_minus_left mult.commute)
    then have "((- ((b + ?h) div 2 ^ w)) * 2 ^ w) div 2 ^ w \<le> (x + ?h) div 2 ^ w" by (rule zdiv_mono1) simp
    then show ?thesis unfolding nonzero_mult_div_cancel_right [OF less_imp_neq [OF \<open>0 < 2 ^ w\<close>, symmetric]] .
  qed
  then show ?thesis using up by linarith
qed

lemma round_rest:
  fixes x :: int
  assumes "0 < w"
  shows "\<bar>x - (x + 2 ^ (w - 1)) div 2 ^ w * 2 ^ w\<bar> \<le> 2 ^ (w - 1)"
proof -
  let ?h = "2 ^ (w - 1) :: int"
  have w: "2 ^ w = 2 * ?h" using assms by (cases w) simp_all
  have "0 \<le> (x + ?h) mod 2 ^ w" "(x + ?h) mod 2 ^ w < 2 ^ w" by simp_all
  then show ?thesis using w div_mult_mod_eq [of "x + ?h" "2 ^ w"] by linarith
qed

lemma icarry_bounded: "bounded B H \<Longrightarrow> i < 10 \<Longrightarrow> bounded (bcarry i B) (icarry_at i H)"
proof -
  assume b: "bounded B H" and i: "i < 10"
  define w where "w = limb_width i"
  have w: "0 < w" using limb_width_pos by (simp add: w_def)
  let ?j = "(i + 1) mod 10" and ?c = "(H ! i + 2 ^ (w - 1)) div 2 ^ w" and ?d = "(B ! i + 2 ^ (w - 1)) div 2 ^ w"
  have l: "length B = 10" "length H = 10" "\<forall>k<10. \<bar>H ! k\<bar> \<le> B ! k" using b by (auto simp: bounded_def)
  have c: "\<bar>?c\<bar> \<le> ?d" using abs_div_pow [OF _ w] l(3) i by blast
  have j: "?j < 10" "?j \<noteq> i" using i by (auto simp: mod_Suc)
  have "\<bar>icarry_at i H ! k\<bar> \<le> bcarry i B ! k" if "k < 10" for k
  proof -
    consider "k = i" | "k = ?j" | "k \<noteq> i" "k \<noteq> ?j" by blast
    then show ?thesis
    proof cases
      case 1
      then show ?thesis using round_rest [OF w, of "H ! i"] l j i by (simp add: icarry_at_def bcarry_def Let_def flip: w_def)
    next
      case 2
      have "\<bar>H ! ?j\<bar> \<le> B ! ?j" using l(3) j(1) by blast
      moreover have "icarry_at i H ! ?j = H ! ?j + (if i = 9 then ?c * 19 else ?c)"
        "bcarry i B ! ?j = B ! ?j + (if i = 9 then ?d * 19 else ?d)"
        using j l by (simp_all add: icarry_at_def bcarry_def Let_def flip: w_def)
      moreover have "\<bar>a + (if i = 9 then e * 19 else e)\<bar> \<le> u + (if i = 9 then v * 19 else v)"
        if "\<bar>a\<bar> \<le> u" "\<bar>e\<bar> \<le> v" for a e u v :: int using that by auto
      ultimately show ?thesis using c unfolding 2 by (simp only:)
    next
      case 3
      then show ?thesis using l that by (simp add: icarry_at_def bcarry_def Let_def)
    qed
  qed
  then show ?thesis using l by (simp add: bounded_def icarry_at_def bcarry_def Let_def)
qed

lemma carry_at_int:
  assumes "bounded B (map sint h)" "bcarry_ok i B"
  shows "map sint (carry_at i h) = icarry_at i (map sint h)"
proof -
  have i: "i < 10" and ok: "B ! i + 2 ^ (limb_width i - 1) < 2 ^ 63" "bcarry i B ! ((i + 1) mod 10) < 2 ^ 63"
    using assms(2) by (simp_all add: bcarry_ok_def)
  define w where "w = limb_width i"
  let ?j = "(i + 1) mod 10" and ?H = "map sint h"
  have l: "length B = 10" "length h = 10" "\<forall>k<10. \<bar>sint (h ! k)\<bar> \<le> B ! k" using assms(1) by (auto simp: bounded_def)
  have j: "?j < 10" "?j \<noteq> i" using i by (auto simp: mod_Suc)
  have w: "0 < w" "w \<le> 26" using limb_width_pos by (simp_all add: w_def)
  note bc = icarry_bounded [OF assms(1) i]
  have hw: "sint (2 ^ (w - 1) :: i64) = 2 ^ (w - 1)"
  proof -
    have "(2::int) ^ (w - 1) < 2 ^ 63" using w by (intro power_strict_increasing) auto
    then show ?thesis using sint_of_int_64 [of "2 ^ (w - 1)"] by simp
  qed
  have "\<bar>sint (h ! i)\<bar> \<le> B ! i" using l i by blast
  then have sum: "sint (h ! i + 2 ^ (w - 1)) = sint (h ! i) + 2 ^ (w - 1)"
  proof -
    have "0 < (2 :: int) ^ (w - 1)" by simp
    then have "\<bar>sint (h ! i) + 2 ^ (w - 1)\<bar> < 2 ^ 63" using ok(1) \<open>\<bar>sint (h ! i)\<bar> \<le> B ! i\<close> unfolding w_def by linarith
    from sint_of_int_64 [OF this] show ?thesis by simp
  qed
  let ?c = "(sint (h ! i) + 2 ^ (w - 1)) div 2 ^ w"
  have c: "sshift (h ! i + 2 ^ (w - 1)) w = of_int ?c" by (simp only: sshift_of_int sum)
  have len: "length (carry_at i h) = 10" "length (icarry_at i ?H) = 10"
    using l by (simp_all add: carry_at_def icarry_at_def Let_def)
  have "sint (carry_at i h ! k) = icarry_at i ?H ! k" if "k < 10" for k
  proof -
    have b: "\<bar>icarry_at i ?H ! k\<bar> \<le> bcarry i B ! k" using bc that by (simp add: bounded_def)
    consider "k = i" | "k = ?j" | "k \<noteq> i" "k \<noteq> ?j" by blast
    then show ?thesis
    proof cases
      case 1
      have "(2::int) ^ (w - 1) < 2 ^ 63" using w by (intro power_strict_increasing) auto
      then have "\<bar>icarry_at i ?H ! k\<bar> < 2 ^ 63" using b 1 l i j by (simp add: bcarry_def Let_def flip: w_def)
      moreover have "carry_at i h ! k = of_int (icarry_at i ?H ! k)"
        using 1 l i j c by (simp add: carry_at_def icarry_at_def Let_def flip: w_def)
      ultimately show ?thesis by (simp only: sint_of_int_64)
    next
      case 2
      have "\<bar>icarry_at i ?H ! k\<bar> < 2 ^ 63" using b ok(2) unfolding 2 by linarith
      moreover have "carry_at i h ! ?j = h ! ?j + (if i = 9 then of_int ?c * 19 else of_int ?c)"
        using l j unfolding c [symmetric] by (simp add: carry_at_def Let_def flip: w_def)
      then have "carry_at i h ! k = of_int (icarry_at i ?H ! k)"
        using l i j unfolding 2 by (simp add: icarry_at_def Let_def flip: w_def)
      ultimately show ?thesis by (simp only: sint_of_int_64)
    next
      case 3
      then show ?thesis using l that by (simp add: carry_at_def icarry_at_def Let_def)
    qed
  qed
  then show ?thesis using len by (intro nth_equalityI) simp_all
qed

lemma carries:
  assumes "bounded B (map sint h)" "carries_ok is B"
  shows "bounded (fold bcarry is B) (map sint (fold carry_at is h)) \<and>
    ival (map sint (fold carry_at is h)) mod p25519 = ival (map sint h) mod p25519"
  using assms
proof (induction "is" arbitrary: B h)
  case (Cons i "is")
  then have ok: "bcarry_ok i B" "carries_ok is (bcarry i B)" "i < 10" by (simp_all add: bcarry_ok_def)
  note eq = carry_at_int [OF Cons.prems(1) ok(1)]
  have "bounded (bcarry i B) (map sint (carry_at i h))" unfolding eq by (rule icarry_bounded [OF Cons.prems(1) ok(3)])
  from Cons.IH [OF this ok(2)] show ?case
    using icarry_val [OF _ ok(3), of "map sint h"] Cons.prems(1) eq by (auto simp: bounded_def)
qed simp

section \<open>Products\<close>

text \<open>
  The product of two limb lists, reduced: the weights of an even and an odd limb are half a bit
  short of that of their sum, and \<open>2^255\<close> counts for 19.
\<close>

definition coef :: "nat \<Rightarrow> nat \<Rightarrow> int" where
  "coef i j = (if odd i \<and> odd j then 2 else 1) * (if 10 \<le> i + j then 19 else 1)"

definition imul :: "int list \<Rightarrow> int list \<Rightarrow> nat \<Rightarrow> int" where
  "imul F G k = (\<Sum>i<10. coef i ((k + 10 - i) mod 10) * (F ! i * G ! ((k + 10 - i) mod 10)))"

lemma limb_exp_even: "limb_exp (2 * b) = 51 * b"
  by (simp add: limb_exp_def)

lemma limb_exp_odd: "limb_exp (2 * b + 1) = 51 * b + 26"
proof -
  have "51 * (2 * b + 1) + 1 = 2 * (51 * b + 26)" by simp
  then show ?thesis unfolding limb_exp_def by (metis nonzero_mult_div_cancel_left zero_neq_numeral)
qed

lemma limb_exp_add: "limb_exp i + limb_exp j = limb_exp (i + j) + (if odd i \<and> odd j then 1 else 0)"
proof (cases "even i"; cases "even j")
  assume "even i" "even j"
  then obtain a b where "i = 2 * a" "j = 2 * b" by (auto elim!: evenE)
  then show ?thesis using limb_exp_even [of a] limb_exp_even [of b] limb_exp_even [of "a + b"] by simp
next
  assume "even i" "odd j"
  then obtain a b where "i = 2 * a" "j = 2 * b + 1" by (auto elim!: evenE oddE)
  then show ?thesis using limb_exp_even [of a] limb_exp_odd [of b] limb_exp_odd [of "a + b"] by simp
next
  assume "odd i" "even j"
  then obtain a b where "i = 2 * a + 1" "j = 2 * b" by (auto elim!: evenE oddE)
  then show ?thesis using limb_exp_odd [of a] limb_exp_even [of b] limb_exp_odd [of "a + b"] by simp
next
  assume "odd i" "odd j"
  then obtain a b where "i = 2 * a + 1" "j = 2 * b + 1" by (auto elim!: oddE)
  then show ?thesis using limb_exp_odd [of a] limb_exp_odd [of b] limb_exp_even [of "a + b + 1"] by simp
qed

lemma limb_exp_add_10: "10 \<le> i \<Longrightarrow> limb_exp i = 255 + limb_exp (i - 10)"
proof -
  assume "10 \<le> i"
  then obtain j where "i = j + 10" by (metis le_add_diff_inverse2)
  moreover have "51 * (j + 10) + 1 = 51 * j + 1 + 255 * 2" by simp
  then have "limb_exp (j + 10) = limb_exp j + 255" unfolding limb_exp_def by (simp only: div_mult_self1 zero_neq_numeral not_False_eq_True)
  ultimately show ?thesis by simp
qed

lemma pow_coef:
  assumes "i < 10" "j < 10"
  shows "(2::int) ^ limb_exp i * 2 ^ limb_exp j = coef i j * 2 ^ limb_exp ((i + j) mod 10) +
    p25519 * (if 10 \<le> i + j then (if odd i \<and> odd j then 2 else 1) * 2 ^ limb_exp (i + j - 10) else 0)"
proof -
  have e: "(2::int) ^ limb_exp i * 2 ^ limb_exp j = (if odd i \<and> odd j then 2 else 1) * 2 ^ limb_exp (i + j)"
    by (simp add: limb_exp_add flip: power_add)
  show ?thesis
  proof (cases "10 \<le> i + j")
    case True
    then have "(i + j) mod 10 = i + j - 10" using assms by (simp add: mod_if)
    moreover have "(2::int) ^ limb_exp (i + j) = 2 ^ 255 * 2 ^ limb_exp (i + j - 10)"
      using limb_exp_add_10 [OF True] by (simp only: power_add)
    ultimately show ?thesis using True unfolding e p25519_def coef_def by (simp add: algebra_simps)
  next
    case False
    then show ?thesis unfolding e coef_def by simp
  qed
qed

lemma sum_rotate:
  fixes X :: "nat \<Rightarrow> nat \<Rightarrow> int"
  assumes "i < 10"
  shows "(\<Sum>j<10. X j ((i + j) mod 10)) = (\<Sum>k<10. X ((k + 10 - i) mod 10) k)"
proof (rule sum.reindex_bij_witness [of _ "\<lambda>k. (k + 10 - i) mod 10" "\<lambda>j. (i + j) mod 10"])
  fix j :: nat
  assume j: "j \<in> {..<10}"
  show "((i + j) mod 10 + 10 - i) mod 10 = j" using assms j by (cases "i + j < 10") (auto simp: mod_if)
  then show "X (((i + j) mod 10 + 10 - i) mod 10) ((i + j) mod 10) = X j ((i + j) mod 10)" by simp
next
  fix k :: nat
  assume k: "k \<in> {..<10}"
  show "(i + (k + 10 - i) mod 10) mod 10 = k" using assms k by (cases "k < i") (auto simp: mod_if)
qed auto

lemma imul_value: "ival (map (imul F G) [0..<10]) mod p25519 = (ival F * ival G) mod p25519"
proof -
  let ?q = "\<lambda>i j. if 10 \<le> i + j then (if odd i \<and> odd j then 2 else 1) * 2 ^ limb_exp (i + j - 10) else (0::int)"
  let ?X = "\<lambda>i j k. coef i j * (F ! i * G ! j) * 2 ^ limb_exp k"
  have "ival F * ival G = (\<Sum>i<10. \<Sum>j<10. F ! i * 2 ^ limb_exp i * (G ! j * 2 ^ limb_exp j))"
    by (simp add: ival_def sum_product)
  also have "\<dots> = (\<Sum>i<10. \<Sum>j<10. ?X i j ((i + j) mod 10) + p25519 * (F ! i * G ! j * ?q i j))"
  proof (intro sum.cong refl)
    fix i j :: nat
    assume "i \<in> {..<10}" "j \<in> {..<10}"
    then have ij: "i < 10" "j < 10" by simp_all
    have "F ! i * 2 ^ limb_exp i * (G ! j * 2 ^ limb_exp j) = F ! i * G ! j * (2 ^ limb_exp i * 2 ^ limb_exp j)"
      by (simp only: ac_simps)
    also have "\<dots> = ?X i j ((i + j) mod 10) + p25519 * (F ! i * G ! j * ?q i j)"
      unfolding pow_coef [OF ij] distrib_left by (simp only: ac_simps)
    finally show "F ! i * 2 ^ limb_exp i * (G ! j * 2 ^ limb_exp j) =
      ?X i j ((i + j) mod 10) + p25519 * (F ! i * G ! j * ?q i j)" .
  qed
  also have "\<dots> = (\<Sum>i<10. \<Sum>j<10. ?X i j ((i + j) mod 10)) + p25519 * (\<Sum>i<10. \<Sum>j<10. F ! i * G ! j * ?q i j)"
    by (simp only: sum.distrib sum_distrib_left)
  also have "(\<Sum>i<10. \<Sum>j<10. ?X i j ((i + j) mod 10)) = (\<Sum>i<10. \<Sum>k<10. ?X i ((k + 10 - i) mod 10) k)"
    by (intro sum.cong refl sum_rotate) simp
  also have "\<dots> = (\<Sum>k<10. \<Sum>i<10. ?X i ((k + 10 - i) mod 10) k)" by (rule sum.swap)
  also have "\<dots> = ival (map (imul F G) [0..<10])"
    by (simp add: ival_def imul_def sum_distrib_right)
  finally show ?thesis by simp
qed

text \<open>Bounds of a product, from bounds of the factors.\<close>

lemma imul_bound:
  assumes "bounded A F" "bounded B G" "k < 10"
  shows "\<bar>imul F G k\<bar> \<le> imul A B k"
  unfolding imul_def
proof (rule order_trans [OF sum_abs], rule sum_mono)
  fix i :: nat
  let ?j = "(k + 10 - i) mod 10"
  assume "i \<in> {..<10}"
  then have "\<bar>F ! i\<bar> \<le> A ! i" "\<bar>G ! ?j\<bar> \<le> B ! ?j" using assms by (simp_all add: bounded_def)
  then have "\<bar>F ! i * G ! ?j\<bar> \<le> A ! i * B ! ?j" unfolding abs_mult by (intro mult_mono) auto
  moreover have "0 \<le> coef i ?j" by (simp add: coef_def)
  ultimately show "\<bar>coef i ?j * (F ! i * G ! ?j)\<bar> \<le> coef i ?j * (A ! i * B ! ?j)"
    by (simp only: abs_mult [of "coef i ?j"] abs_of_nonneg mult_left_mono)
qed

lemma imul_bounded: "bounded A F \<Longrightarrow> bounded B G \<Longrightarrow> bounded (map (imul A B) [0..<10]) (map (imul F G) [0..<10])"
  using imul_bound by (simp add: bounded_def)

lemma sint_small_mult: "\<bar>c * sint x\<bar> < 2 ^ 31 \<Longrightarrow> sint (of_int c * x :: i32) = c * sint x"
  using sint_of_int_32 [of "c * sint x"] by simp

lemma smul_of_int: "smul a b = of_int (sint a * sint b)"
  by (simp add: smul_def)

lemma sum_10: "(\<Sum>i<10. f i) = f 0 + f 1 + f 2 + f 3 + f 4 + f 5 + f 6 + f 7 + f 8 + (f (9::nat) :: int)"
proof -
  have "{..<10::nat} = {0, 1, 2, 3, 4, 5, 6, 7, 8, 9}" by auto
  then show ?thesis by (simp add: add.assoc)
qed

lemma upt_10: "[0..<10] = [0, 1, 2, 3, 4, 5, 6, 7, 8, 9::nat]"
  by (simp add: upt_rec)

lemma imul_explicit:
  "imul F G 0 = (F ! 0 * G ! 0) + 38 * (F ! 1 * G ! 9) + 19 * (F ! 2 * G ! 8) + 38 * (F ! 3 * G ! 7) + 19 * (F ! 4 * G ! 6) +
    38 * (F ! 5 * G ! 5) + 19 * (F ! 6 * G ! 4) + 38 * (F ! 7 * G ! 3) + 19 * (F ! 8 * G ! 2) + 38 * (F ! 9 * G ! 1)"
  "imul F G 1 = (F ! 0 * G ! 1) + (F ! 1 * G ! 0) + 19 * (F ! 2 * G ! 9) + 19 * (F ! 3 * G ! 8) + 19 * (F ! 4 * G ! 7) +
    19 * (F ! 5 * G ! 6) + 19 * (F ! 6 * G ! 5) + 19 * (F ! 7 * G ! 4) + 19 * (F ! 8 * G ! 3) + 19 * (F ! 9 * G ! 2)"
  "imul F G 2 = (F ! 0 * G ! 2) + 2 * (F ! 1 * G ! 1) + (F ! 2 * G ! 0) + 38 * (F ! 3 * G ! 9) + 19 * (F ! 4 * G ! 8) +
    38 * (F ! 5 * G ! 7) + 19 * (F ! 6 * G ! 6) + 38 * (F ! 7 * G ! 5) + 19 * (F ! 8 * G ! 4) + 38 * (F ! 9 * G ! 3)"
  "imul F G 3 = (F ! 0 * G ! 3) + (F ! 1 * G ! 2) + (F ! 2 * G ! 1) + (F ! 3 * G ! 0) + 19 * (F ! 4 * G ! 9) +
    19 * (F ! 5 * G ! 8) + 19 * (F ! 6 * G ! 7) + 19 * (F ! 7 * G ! 6) + 19 * (F ! 8 * G ! 5) + 19 * (F ! 9 * G ! 4)"
  "imul F G 4 = (F ! 0 * G ! 4) + 2 * (F ! 1 * G ! 3) + (F ! 2 * G ! 2) + 2 * (F ! 3 * G ! 1) + (F ! 4 * G ! 0) +
    38 * (F ! 5 * G ! 9) + 19 * (F ! 6 * G ! 8) + 38 * (F ! 7 * G ! 7) + 19 * (F ! 8 * G ! 6) + 38 * (F ! 9 * G ! 5)"
  "imul F G 5 = (F ! 0 * G ! 5) + (F ! 1 * G ! 4) + (F ! 2 * G ! 3) + (F ! 3 * G ! 2) + (F ! 4 * G ! 1) +
    (F ! 5 * G ! 0) + 19 * (F ! 6 * G ! 9) + 19 * (F ! 7 * G ! 8) + 19 * (F ! 8 * G ! 7) + 19 * (F ! 9 * G ! 6)"
  "imul F G 6 = (F ! 0 * G ! 6) + 2 * (F ! 1 * G ! 5) + (F ! 2 * G ! 4) + 2 * (F ! 3 * G ! 3) + (F ! 4 * G ! 2) +
    2 * (F ! 5 * G ! 1) + (F ! 6 * G ! 0) + 38 * (F ! 7 * G ! 9) + 19 * (F ! 8 * G ! 8) + 38 * (F ! 9 * G ! 7)"
  "imul F G 7 = (F ! 0 * G ! 7) + (F ! 1 * G ! 6) + (F ! 2 * G ! 5) + (F ! 3 * G ! 4) + (F ! 4 * G ! 3) +
    (F ! 5 * G ! 2) + (F ! 6 * G ! 1) + (F ! 7 * G ! 0) + 19 * (F ! 8 * G ! 9) + 19 * (F ! 9 * G ! 8)"
  "imul F G 8 = (F ! 0 * G ! 8) + 2 * (F ! 1 * G ! 7) + (F ! 2 * G ! 6) + 2 * (F ! 3 * G ! 5) + (F ! 4 * G ! 4) +
    2 * (F ! 5 * G ! 3) + (F ! 6 * G ! 2) + 2 * (F ! 7 * G ! 1) + (F ! 8 * G ! 0) + 38 * (F ! 9 * G ! 9)"
  "imul F G 9 = (F ! 0 * G ! 9) + (F ! 1 * G ! 8) + (F ! 2 * G ! 7) + (F ! 3 * G ! 6) + (F ! 4 * G ! 5) +
    (F ! 5 * G ! 4) + (F ! 6 * G ! 3) + (F ! 7 * G ! 2) + (F ! 8 * G ! 1) + (F ! 9 * G ! 0)"
  by (simp_all add: imul_def sum_10 coef_def)

lemma mul_sums_int:
  assumes "\<forall>i<10. \<bar>sint (f ! i)\<bar> \<le> 2 ^ 29" "\<forall>i<10. \<bar>sint (g ! i)\<bar> * 19 < 2 ^ 31" "length f = 10" "length g = 10"
  shows "mul_sums f g = map of_int (map (imul (map sint f) (map sint g)) [0..<10])"
proof -
  have f: "sint (2 * f ! i) = 2 * sint (f ! i)" if "i < 10" for i
    using sint_small_mult [of 2 "f ! i"] assms(1) that by (force simp: abs_mult)
  have g: "sint (19 * g ! i) = 19 * sint (g ! i)" if "i < 10" for i
    using sint_small_mult [of 19 "g ! i"] assms(2) that by (force simp: abs_mult)
  define F G where "F = map sint f" and "G = map sint g"
  have fF: "sint (f ! i) = F ! i" "sint (2 * f ! i) = 2 * F ! i" "sint (g ! i) = G ! i" "sint (19 * g ! i) = 19 * G ! i"
    if "i < 10" for i using that f g assms(3,4) by (simp_all add: F_def G_def)
  have s: "smul (f ! i) (g ! j) = of_int (F ! i * G ! j)" "smul (2 * f ! i) (g ! j) = of_int (2 * (F ! i * G ! j))"
    "smul (f ! i) (19 * g ! j) = of_int (19 * (F ! i * G ! j))"
    "smul (2 * f ! i) (19 * g ! j) = of_int (38 * (F ! i * G ! j))"
    if "i < 10" "j < 10" for i j
    unfolding smul_of_int using fF [OF that(1)] fF [OF that(2)] by simp_all
  show ?thesis
    unfolding mul_sums_def Let_def upt_10 list.map F_def [symmetric] G_def [symmetric] imul_explicit of_int_add
    by (simp only: s rel_simps zero_less_numeral one_less_numeral_iff)
qed

lemma sq_sums_int:
  assumes "\<forall>i<10. \<bar>sint (f ! i)\<bar> * (if odd i then 38 else 19) < 2 ^ 31" "length f = 10"
  shows "sq_sums f = map of_int (map (imul (map sint f) (map sint f)) [0..<10])"
proof -
  define F where "F = map sint f"
  have b: "\<bar>F ! i\<bar> * (if odd i then 38 else 19) < 2 ^ 31" "F ! i = sint (f ! i)" if "i < 10" for i
    using assms that by (simp_all add: F_def)
  have fF: "sint (f ! i) = F ! i" "sint (2 * f ! i) = 2 * F ! i" "sint (19 * f ! i) = 19 * F ! i" if "i < 10" for i
    using b [OF that] sint_small_mult [of 2 "f ! i"] sint_small_mult [of 19 "f ! i"]
    by (auto simp: abs_mult split: if_splits)
  have f38: "sint (38 * f ! i) = 38 * F ! i" if "i < 10" "odd i" for i
    using b [OF that(1)] that(2) sint_small_mult [of 38 "f ! i"] by (auto simp: abs_mult split: if_splits)
  have s: "smul (f ! i) (f ! j) = of_int (F ! i * F ! j)" "smul (2 * f ! i) (f ! j) = of_int (2 * (F ! i * F ! j))"
    "smul (2 * f ! i) (2 * f ! j) = of_int (4 * (F ! i * F ! j))"
    "smul (f ! i) (19 * f ! j) = of_int (19 * (F ! i * F ! j))"
    "smul (2 * f ! i) (19 * f ! j) = of_int (38 * (F ! i * F ! j))"
    if "i < 10" "j < 10" for i j
    unfolding smul_of_int using fF [OF that(1)] fF [OF that(2)] by simp_all
  have s38: "smul (f ! i) (38 * f ! j) = of_int (38 * (F ! i * F ! j))"
    "smul (2 * f ! i) (38 * f ! j) = of_int (76 * (F ! i * F ! j))"
    if "i < 10" "j < 10" "odd j" for i j
    unfolding smul_of_int using fF [OF that(1)] f38 [OF that(2,3)] by simp_all
  have odds: "odd (1 :: nat)" "odd (3 :: nat)" "odd (5 :: nat)" "odd (7 :: nat)" "odd (9 :: nat)" by simp_all
  show ?thesis
    unfolding sq_sums_def Let_def upt_10 list.map F_def [symmetric] imul_explicit
    by (simp only: s s38 odds not_False_eq_True rel_simps zero_less_numeral one_less_numeral_iff flip: of_int_add)
      (intro arg_cong2 [of _ _ _ _ Cons] arg_cong [of _ _ of_int] refl; simp only: mult.commute; simp)
qed

section \<open>The field operations within their bounds\<close>

text \<open>
  \<open>tight\<close>: what multiplications return, 1.01 times \<open>2^25\<close> and \<open>2^24\<close>; \<open>loose\<close>: what they accept, 1.65
  times \<open>2^26\<close> and \<open>2^25\<close>.
\<close>

definition tight :: "int list" where
  "tight = [33889976, 16944988, 33889976, 16944988, 33889976, 16944988, 33889976, 16944988, 33889976, 16944988]"

definition loose :: "int list" where
  "loose = [110729625, 55364812, 110729625, 55364812, 110729625, 55364812, 110729625, 55364812, 110729625, 55364812]"

abbreviation tight_fe :: "fe25519 \<Rightarrow> bool" where
  "tight_fe f \<equiv> bounded tight (map sint f)"

abbreviation loose_fe :: "fe25519 \<Rightarrow> bool" where
  "loose_fe f \<equiv> bounded loose (map sint f)"

lemma all_10: "(\<forall>i<10. P i) \<longleftrightarrow> P 0 \<and> P 1 \<and> P 2 \<and> P 3 \<and> P 4 \<and> P 5 \<and> P 6 \<and> P 7 \<and> P 8 \<and> P (9 :: nat)"
  using less_10_cases by auto

lemma bounded_mono: "bounded A H \<Longrightarrow> length B = 10 \<Longrightarrow> \<forall>i<10. A ! i \<le> B ! i \<Longrightarrow> bounded B H"
  by (force simp: bounded_def)

lemma tight_loose: "bounded tight H \<Longrightarrow> bounded loose H"
  by (erule bounded_mono) (simp_all add: all_10 tight_def loose_def)

lemma carries_store:
  assumes "bounded B C" "\<forall>i<10. B ! i < 2 ^ 63" "carries_ok is B" "bounded D (fold bcarry is B)" "\<forall>i<10. D ! i < 2 ^ 31"
  shows "bounded D (map sint (map ucast (fold carry_at is (map of_int C)) :: fe25519)) \<and>
    fe_val (map ucast (fold carry_at is (map of_int C))) mod p25519 = ival C mod p25519"
proof -
  let ?h = "map of_int C :: i64 list"
  have "map sint ?h = C"
  proof (rule nth_equalityI)
    fix i assume "i < length (map sint ?h)"
    then have "i < 10" using assms(1) by (simp add: bounded_def)
    then have "\<bar>C ! i\<bar> < 2 ^ 63" using assms(1,2) by (force simp: bounded_def)
    then show "map sint ?h ! i = C ! i" using \<open>i < 10\<close> assms(1) sint_of_int_64 by (simp add: bounded_def)
  qed simp
  then have c: "bounded (fold bcarry is B) (map sint (fold carry_at is ?h))"
    "ival (map sint (fold carry_at is ?h)) mod p25519 = ival C mod p25519"
    using carries [of B ?h "is"] assms(1,3) by simp_all
  let ?r = "fold carry_at is ?h"
  have b: "bounded D (map sint ?r)"
    using c(1) assms(4) by (rule_tac bounded_mono) (force simp: bounded_def)+
  have "map sint (map ucast ?r :: fe25519) = map sint ?r"
  proof (rule nth_equalityI)
    fix i assume "i < length (map sint (map ucast ?r :: fe25519))"
    then have "i < 10" "length ?r = 10" using b by (simp_all add: bounded_def)
    then have "\<bar>sint (?r ! i)\<bar> < 2 ^ 31" using b assms(5) by (force simp: bounded_def)
    then show "map sint (map ucast ?r :: fe25519) ! i = map sint ?r ! i"
      using \<open>i < 10\<close> \<open>length ?r = 10\<close> sint_of_int_32 [of "sint (?r ! i)"] ucast_of_int [of "?r ! i"]
      by (simp del: of_int_sint)
  qed simp
  then show ?thesis using b c(2) by (simp only: fe_val_def)
qed

lemmas bcarry_eval = bcarry_ok_def bcarry_def limb_width_def Let_def

lemma product_bounds: "map (imul loose loose) [0..<10] =
  [1526500696134443485, 944100830127147000, 1195452352106279851, 723401934772749000, 864404008078116217,
   502703039418351000, 533355664049952583, 282004144063953000, 202307320021788949, 61305248709555000]"
  unfolding upt_10 list.map imul_explicit by (simp add: loose_def)

lemma mul_carries_tight:
  "carries_ok [0, 4, 1, 5, 2, 6, 3, 7, 4, 8, 9, 0] (map (imul loose loose) [0..<10])"
  "bounded tight (fold bcarry [0, 4, 1, 5, 2, 6, 3, 7, 4, 8, 9, 0] (map (imul loose loose) [0..<10]))"
  unfolding product_bounds bounded_def all_10 by (simp_all add: bcarry_eval tight_def)

lemma round_carries_tight:
  "carries_ok [9, 1, 3, 5, 7, 0, 2, 4, 6, 8] [2 ^ 43, 2 ^ 42, 2 ^ 43, 2 ^ 42, 2 ^ 43, 2 ^ 42, 2 ^ 43, 2 ^ 42, 2 ^ 43, 2 ^ 42]"
  by (simp_all add: bcarry_eval)

lemma tight_less: "\<forall>i<10. tight ! i < 2 ^ 31"
  unfolding all_10 by (simp add: tight_def)

lemma looseD:
  assumes "loose_fe f"
  shows "length f = 10" "\<forall>i<10. \<bar>sint (f ! i)\<bar> \<le> 2 ^ 29" "\<forall>i<10. \<bar>sint (f ! i)\<bar> * 19 < 2 ^ 31"
    "\<forall>i<10. \<bar>sint (f ! i)\<bar> * (if odd i then 38 else 19) < 2 ^ 31"
proof -
  show l: "length f = 10" using assms by (simp add: bounded_def)
  have "\<forall>i<10. \<bar>sint (f ! i)\<bar> \<le> loose ! i" using assms l by (simp add: bounded_def)
  then show "\<forall>i<10. \<bar>sint (f ! i)\<bar> \<le> 2 ^ 29" "\<forall>i<10. \<bar>sint (f ! i)\<bar> * 19 < 2 ^ 31"
    "\<forall>i<10. \<bar>sint (f ! i)\<bar> * (if odd i then 38 else 19) < 2 ^ 31"
    unfolding all_10 by (simp_all add: loose_def)
qed

lemma mul_of_sums:
  assumes "loose_fe f" "loose_fe g" "h = map of_int (map (imul (map sint f) (map sint g)) [0..<10])"
  shows "tight_fe (mul_carries h)" "fe_val (mul_carries h) mod p25519 = (fe_val f * fe_val g) mod p25519"
proof -
  let ?B = "map (imul loose loose) [0..<10]"
  have "\<forall>i<10. ?B ! i < 2 ^ 63" unfolding product_bounds all_10 by simp
  from carries_store [OF imul_bounded [OF assms(1,2)] this mul_carries_tight tight_less]
  show "tight_fe (mul_carries h)" "fe_val (mul_carries h) mod p25519 = (fe_val f * fe_val g) mod p25519"
    unfolding assms(3) mul_carries_def imul_value fe_val_def by blast+
qed

lemma fe25519_mul_ok:
  assumes "loose_fe f" "loose_fe g"
  shows "tight_fe (fe25519_mul f g)" "fe_val (fe25519_mul f g) mod p25519 = (fe_val f * fe_val g) mod p25519"
  unfolding fe25519_mul_def using mul_of_sums [OF assms mul_sums_int] looseD [OF assms(1)] looseD [OF assms(2)] by blast+

lemma fe25519_sq_ok:
  assumes "loose_fe f"
  shows "tight_fe (fe25519_sq f)" "fe_val (fe25519_sq f) mod p25519 = (fe_val f)\<^sup>2 mod p25519"
  unfolding fe25519_sq_def power2_eq_square
  using mul_of_sums [OF assms assms sq_sums_int] looseD [OF assms] by blast+

lemma ival_map2:
  "length F = 10 \<Longrightarrow> length G = 10 \<Longrightarrow> ival (map2 (+) F G) = ival F + ival G"
  "length F = 10 \<Longrightarrow> length G = 10 \<Longrightarrow> ival (map2 (-) F G) = ival F - ival G"
  by (simp_all add: ival_def algebra_simps sum.distrib flip: sum_subtractf)

lemma sint_add_sub_32:
  assumes "\<bar>sint a\<bar> < 2 ^ 30" "\<bar>sint b\<bar> < 2 ^ 30"
  shows "sint (a + b :: i32) = sint a + sint b" "sint (a - b :: i32) = sint a - sint b"
proof -
  have "(2::int) ^ 31 = 2 ^ 30 + 2 ^ 30" by simp
  then have "\<bar>sint a + sint b\<bar> < 2 ^ 31" "\<bar>sint a - sint b\<bar> < 2 ^ 31" using assms by linarith+
  from this [THEN sint_of_int_32] show "sint (a + b) = sint a + sint b" "sint (a - b) = sint a - sint b" by simp_all
qed

lemma tight_max: "i < 10 \<Longrightarrow> tight ! i < 2 ^ 30"
proof -
  have "\<forall>i<10. tight ! i < 2 ^ 30" unfolding all_10 by (simp add: tight_def)
  then show "i < 10 \<Longrightarrow> tight ! i < 2 ^ 30" by blast
qed

lemma add_sub_int:
  assumes "tight_fe f" "tight_fe g"
  shows "map sint (fe25519_add f g) = map2 (+) (map sint f) (map sint g)"
    "map sint (fe25519_sub f g) = map2 (-) (map sint f) (map sint g)"
proof -
  have l: "length f = 10" "length g = 10" using assms by (simp_all add: bounded_def)
  have "\<bar>sint (f ! i)\<bar> \<le> tight ! i" "\<bar>sint (g ! i)\<bar> \<le> tight ! i" if "i < 10" for i
    using assms l that by (simp_all add: bounded_def)
  then have s: "sint (f ! i + g ! i) = sint (f ! i) + sint (g ! i)" "sint (f ! i - g ! i) = sint (f ! i) - sint (g ! i)"
    if "i < 10" for i using tight_max [OF that] that by (intro sint_add_sub_32; fastforce)+
  show "map sint (fe25519_add f g) = map2 (+) (map sint f) (map sint g)"
    by (rule nth_equalityI) (use l s in \<open>simp_all add: fe25519_add_def\<close>)
  show "map sint (fe25519_sub f g) = map2 (-) (map sint f) (map sint g)"
    by (rule nth_equalityI) (use l s in \<open>simp_all add: fe25519_sub_def\<close>)
qed

lemma add_sub_bound:
  assumes "bounded tight F" "bounded tight G"
  shows "bounded (map ((*) 2) tight) (map2 (+) F G)" "bounded (map ((*) 2) tight) (map2 (-) F G)"
proof -
  have "\<bar>F ! i\<bar> \<le> tight ! i \<and> \<bar>G ! i\<bar> \<le> tight ! i" if "i < 10" for i using assms that by (simp add: bounded_def)
  then have "\<bar>F ! i + G ! i\<bar> \<le> 2 * tight ! i \<and> \<bar>F ! i - G ! i\<bar> \<le> 2 * tight ! i" if "i < 10" for i
    using that by (smt (verit))
  then show "bounded (map ((*) 2) tight) (map2 (+) F G)" "bounded (map ((*) 2) tight) (map2 (-) F G)"
    using assms by (simp_all add: bounded_def)
qed

lemma twice_tight_loose: "bounded (map ((*) 2) tight) H \<Longrightarrow> bounded loose H"
  by (erule bounded_mono) (simp_all add: all_10 tight_def loose_def)

lemma fe25519_add_ok:
  assumes "tight_fe f" "tight_fe g"
  shows "bounded (map ((*) 2) tight) (map sint (fe25519_add f g))" "fe_val (fe25519_add f g) = fe_val f + fe_val g"
    "bounded (map ((*) 2) tight) (map sint (fe25519_sub f g))" "fe_val (fe25519_sub f g) = fe_val f - fe_val g"
proof -
  have l: "length (map sint f) = 10" "length (map sint g) = 10" using assms by (simp_all add: bounded_def)
  show "bounded (map ((*) 2) tight) (map sint (fe25519_add f g))" "fe_val (fe25519_add f g) = fe_val f + fe_val g"
    "bounded (map ((*) 2) tight) (map sint (fe25519_sub f g))" "fe_val (fe25519_sub f g) = fe_val f - fe_val g"
    unfolding fe_val_def add_sub_int [OF assms] by (fact add_sub_bound [OF assms] ival_map2 [OF l])+
qed

lemma fe25519_mul32_ok:
  assumes "bounded (map ((*) 2) tight) (map sint f)"
  shows "tight_fe (fe25519_mul32 f 121666)" "fe_val (fe25519_mul32 f 121666) mod p25519 = (121666 * fe_val f) mod p25519"
proof -
  let ?B = "map (\<lambda>b. 121666 * b) (map ((*) 2) tight)" and ?C = "map (\<lambda>x. 121666 * sint x) f"
  have "bounded ?B ?C" using assms by (auto simp: bounded_def abs_mult)
  moreover have "\<forall>i<10. ?B ! i < 2 ^ 63" unfolding all_10 by (simp add: tight_def)
  moreover have "carries_ok [9, 1, 3, 5, 7, 0, 2, 4, 6, 8] ?B" by (simp add: tight_def bcarry_eval)
  moreover have "bounded tight (fold bcarry [9, 1, 3, 5, 7, 0, 2, 4, 6, 8] ?B)"
    unfolding bounded_def all_10 by (simp add: tight_def bcarry_eval)
  ultimately have "tight_fe (round_carries (map of_int ?C))"
    "fe_val (round_carries (map of_int ?C)) mod p25519 = ival ?C mod p25519"
    using carries_store [of ?B ?C _ tight] tight_less unfolding round_carries_def by blast+
  moreover have eq: "fe25519_mul32 f 121666 = round_carries (map of_int ?C)"
    unfolding fe25519_mul32_def by (rule arg_cong [of _ _ round_carries]) (simp add: mult.commute)
  moreover have "ival ?C = 121666 * fe_val f"
    using assms by (simp add: ival_def fe_val_def bounded_def sum_distrib_left mult.assoc)
  ultimately show "tight_fe (fe25519_mul32 f 121666)"
    "fe_val (fe25519_mul32 f 121666) mod p25519 = (121666 * fe_val f) mod p25519"
    by (simp_all only:)
qed

section \<open>The operations of the field\<close>

text \<open>
  C35: the limb representation of the field is closed under the operations of the code: what a product,
  a square, a product with a small number or the reading of 32 bytes returns has tight limbs, sums and
  differences of such elements are loose, and loose elements may be multiplied again; each result
  stands for the sum, difference or product modulo \<open>2^255 - 19\<close>, and no addition or subtraction wraps.
\<close>

theorem fe25519_closed:
  assumes "loose_fe f" "loose_fe g" "tight_fe u" "tight_fe v"
  shows "(tight_fe (fe25519_mul f g) \<and> fe_val (fe25519_mul f g) mod p25519 = fe_val f * fe_val g mod p25519) \<and>
    (tight_fe (fe25519_sq f) \<and> fe_val (fe25519_sq f) mod p25519 = (fe_val f)\<^sup>2 mod p25519) \<and>
    (loose_fe (fe25519_add u v) \<and> fe_val (fe25519_add u v) = fe_val u + fe_val v) \<and>
    (loose_fe (fe25519_sub u v) \<and> fe_val (fe25519_sub u v) = fe_val u - fe_val v) \<and>
    (tight_fe (fe25519_mul32 (fe25519_sub u v) 121666) \<and>
      fe_val (fe25519_mul32 (fe25519_sub u v) 121666) mod p25519 = 121666 * (fe_val u - fe_val v) mod p25519) \<and>
    loose_fe u"
proof (intro conjI)
  note a = fe25519_add_ok [OF assms(3,4)]
  show "tight_fe (fe25519_mul f g)" "fe_val (fe25519_mul f g) mod p25519 = fe_val f * fe_val g mod p25519"
    by (rule fe25519_mul_ok [OF assms(1,2)])+
  show "tight_fe (fe25519_sq f)" "fe_val (fe25519_sq f) mod p25519 = (fe_val f)\<^sup>2 mod p25519"
    by (rule fe25519_sq_ok [OF assms(1)])+
  show "loose_fe (fe25519_add u v)" "loose_fe (fe25519_sub u v)" by (rule twice_tight_loose [OF a(1)] twice_tight_loose [OF a(3)])+
  show "fe_val (fe25519_add u v) = fe_val u + fe_val v" "fe_val (fe25519_sub u v) = fe_val u - fe_val v" by (rule a)+
  show "tight_fe (fe25519_mul32 (fe25519_sub u v) 121666)"
    "fe_val (fe25519_mul32 (fe25519_sub u v) 121666) mod p25519 = 121666 * (fe_val u - fe_val v) mod p25519"
    using fe25519_mul32_ok [OF a(3)] a(4) by simp_all
  show "loose_fe u" by (rule tight_loose [OF assms(3)])
qed

lemma fe25519_closed_witness:
  "tight_fe (fe25519_mul (2 # replicate 9 0) (3 # replicate 9 0)) \<and>
   fe_val (fe25519_mul (2 # replicate 9 0) (3 # replicate 9 0)) mod p25519 = 6"
proof -
  have "loose_fe (2 # replicate 9 0)" "loose_fe (3 # replicate 9 0)" "tight_fe fe25519_1"
    unfolding bounded_def all_10 by (simp_all add: loose_def tight_def fe25519_1_def)
  moreover have "fe_val (2 # replicate 9 0) = 2" "fe_val (3 # replicate 9 0) = 3" by (simp_all add: fe_val_def ival_sum)
  ultimately show ?thesis
    using fe25519_closed [of "2 # replicate 9 0" "3 # replicate 9 0" fe25519_1 fe25519_1] by (simp add: p25519_def)
qed

end
