(* ===== verification/Fe25519_Bytes.thy ===== *)
theory Fe25519_Bytes
  imports Fe25519_Arith
begin

text \<open>
  Field elements and bytes: reduction to the canonical form, packing of the limbs, and reading 32 bytes.
\<close>

section \<open>Reduction to the canonical form\<close>

definition partial :: "int list \<Rightarrow> nat \<Rightarrow> int" where
  "partial H k = (\<Sum>i<k. H ! i * 2 ^ limb_exp i)"

lemma limb_exp_Suc: "limb_exp (Suc i) = limb_exp i + limb_width i"
proof (cases "even i")
  case True
  then obtain b where "i = 2 * b" by (auto elim!: evenE)
  then show ?thesis using limb_exp_even [of b] limb_exp_odd [of b] by (simp add: limb_width_def)
next
  case False
  then obtain b where "i = 2 * b + 1" by (auto elim!: oddE)
  then show ?thesis using limb_exp_even [of "b + 1"] limb_exp_odd [of b] by (simp add: limb_width_def)
qed

lemma ival_partial: "ival H = partial H 10"
  by (simp add: ival_def partial_def)

lemma partial_Suc: "partial H (Suc k) = partial H k + H ! k * 2 ^ limb_exp k"
  by (simp add: partial_def)

lemma limb_div_step: "((a div 2 ^ m) + h) div 2 ^ n = (a + h * 2 ^ m) div (2 ^ (m + n) :: int)"
proof -
  have "(a + h * 2 ^ m) div 2 ^ m = a div 2 ^ m + h" by simp
  then show ?thesis by (simp add: power_add zdiv_zmult2_eq flip: add.commute)
qed

lemma shift_small:
  fixes k :: int
  assumes "\<bar>k\<bar> < 2 ^ 29"
  shows "\<bar>k div 2 ^ limb_width i\<bar> \<le> 16"
proof -
  have l: "(-16) * 2 ^ 25 div 2 ^ 25 \<le> k div (2 ^ 25 :: int)" "k div (2 ^ 25 :: int) \<le> 16 * 2 ^ 25 div 2 ^ 25"
    "(-16) * 2 ^ 26 div 2 ^ 26 \<le> k div (2 ^ 26 :: int)" "k div (2 ^ 26 :: int) \<le> 16 * 2 ^ 26 div 2 ^ 26"
    by (rule zdiv_mono1; use assms in simp)+
  then show ?thesis by (auto simp: limb_width_def)
qed

lemma sshift_add_int:
  assumes "\<bar>sint h\<bar> < 2 ^ 28" "\<bar>sint q\<bar> < 2 ^ 28"
  shows "sint (sshift (h + q :: i32) (limb_width i)) = (sint h + sint q) div 2 ^ limb_width i"
    "\<bar>(sint h + sint q) div 2 ^ limb_width i\<bar> \<le> 16"
proof -
  have "\<bar>sint h\<bar> < 2 ^ 30" "\<bar>sint q\<bar> < 2 ^ 30" using assms by simp_all
  then show "sint (sshift (h + q :: i32) (limb_width i)) = (sint h + sint q) div 2 ^ limb_width i"
    by (simp only: sint_sshift sint_add_sub_32)
  have "\<bar>sint h + sint q\<bar> < 2 ^ 29" using assms by simp
  from shift_small [OF this] show "\<bar>(sint h + sint q) div 2 ^ limb_width i\<bar> \<le> 16" .
qed

lemma reduce_q_chain:
  fixes f :: fe25519
  assumes "length f = 10" "\<forall>i<10. \<bar>sint (f ! i)\<bar> < 2 ^ 28" "\<bar>sint q\<bar> < 2 ^ 8" "k \<le> 10"
  shows "sint (fold (\<lambda>i q. sshift (f ! i + q) (limb_width i)) [0..<k] q) = (sint q + partial (map sint f) k) div 2 ^ limb_exp k \<and>
    \<bar>sint (fold (\<lambda>i q. sshift (f ! i + q) (limb_width i)) [0..<k] q)\<bar> < 2 ^ 8"
  using assms(4)
proof (induction k)
  case (Suc k)
  let ?q = "fold (\<lambda>i q. sshift (f ! i + q) (limb_width i)) [0..<k] q"
  have IH: "sint ?q = (sint q + partial (map sint f) k) div 2 ^ limb_exp k" "\<bar>sint ?q\<bar> < 2 ^ 8"
    using Suc.IH [OF Suc_leD [OF Suc.prems]] by blast+
  have h: "\<bar>sint (f ! k)\<bar> < 2 ^ 28" "\<bar>sint ?q\<bar> < 2 ^ 28" using assms(2) Suc.prems IH(2) by simp_all
  note s = sshift_add_int [OF h, of k]
  have "(sint (f ! k) + sint ?q) div 2 ^ limb_width k =
      (sint q + partial (map sint f) k + sint (f ! k) * 2 ^ limb_exp k) div 2 ^ limb_exp (Suc k)"
    unfolding IH(1) limb_exp_Suc by (subst add.commute) (rule limb_div_step)
  moreover have "partial (map sint f) (Suc k) = partial (map sint f) k + sint (f ! k) * 2 ^ limb_exp k"
    using Suc.prems assms(1) by (simp add: partial_def)
  ultimately show ?case using s by (simp add: add.assoc)
qed (use assms(3) in \<open>simp add: partial_def limb_exp_def\<close>)

lemma tight_parts:
  assumes "tight_fe f"
  shows "\<bar>partial (map sint f) 9\<bar> < 2 ^ 230" "\<bar>sint (f ! 9)\<bar> \<le> 17000000" "length f = 10"
    "\<forall>i<10. \<bar>sint (f ! i)\<bar> < 2 ^ 27"
proof -
  show l: "length f = 10" using assms by (simp add: bounded_def)
  let ?F = "map sint f"
  have b: "\<bar>?F ! i\<bar> \<le> tight ! i" if "i < 10" for i using assms l that by (simp add: bounded_def)
  have "\<bar>partial ?F 9\<bar> \<le> (\<Sum>i<9. \<bar>?F ! i * 2 ^ limb_exp i\<bar>)" unfolding partial_def by (rule sum_abs)
  also have "\<dots> \<le> partial tight 9" unfolding partial_def by (rule sum_mono) (simp add: abs_mult b)
  also have "\<dots> < 2 ^ 230"
  proof -
    have "{..<9::nat} = {0, 1, 2, 3, 4, 5, 6, 7, 8}" by auto
    then show ?thesis by (simp add: partial_def tight_def)
  qed
  finally show "\<bar>partial ?F 9\<bar> < 2 ^ 230" .
  show "\<bar>sint (f ! 9)\<bar> \<le> 17000000" using b [of 9] l by (simp add: tight_def)
  have "\<forall>i<10. tight ! i < 2 ^ 27" unfolding all_10 by (simp add: tight_def)
  then show "\<forall>i<10. \<bar>sint (f ! i)\<bar> < 2 ^ 27" using b l by fastforce
qed

lemma parts3:
  assumes "bounded (map ((*) 3) tight) (map sint f)"
  shows "\<bar>partial (map sint f) 9\<bar> < 2 ^ 231" "\<bar>sint (f ! 9)\<bar> \<le> 51000000" "length f = 10"
    "\<forall>i<10. \<bar>sint (f ! i)\<bar> < 2 ^ 27"
proof -
  show l: "length f = 10" using assms by (simp add: bounded_def)
  let ?F = "map sint f"
  have b: "\<bar>?F ! i\<bar> \<le> 3 * tight ! i" if "i < 10" for i using assms l that by (auto simp: bounded_def)
  have "\<bar>partial ?F 9\<bar> \<le> (\<Sum>i<9. \<bar>?F ! i * 2 ^ limb_exp i\<bar>)" unfolding partial_def by (rule sum_abs)
  also have "\<dots> \<le> (\<Sum>i<9. 3 * tight ! i * 2 ^ limb_exp i)" by (rule sum_mono) (simp add: abs_mult b)
  also have "\<dots> < 2 ^ 231"
  proof -
    have "{..<9::nat} = {0, 1, 2, 3, 4, 5, 6, 7, 8}" by auto
    then show ?thesis by (simp add: tight_def)
  qed
  finally show "\<bar>partial ?F 9\<bar> < 2 ^ 231" .
  show "\<bar>sint (f ! 9)\<bar> \<le> 51000000" using b [of 9] l by (simp add: tight_def)
  have "\<forall>i<10. 3 * tight ! i < 2 ^ 27" unfolding all_10 by (simp add: tight_def)
  then show "\<forall>i<10. \<bar>sint (f ! i)\<bar> < 2 ^ 27" using b l by fastforce
qed

text \<open>The first quotient, unsigned: off by 128 when its argument is negative.\<close>

lemma first_quotient:
  fixes h :: i32
  assumes "\<bar>sint h\<bar> \<le> 2 ^ 26"
  defines "x \<equiv> 19 * sint h + 2 ^ 24"
  shows "sint (drop_bit 25 (19 * h + 2 ^ 24)) = (if 0 \<le> x then x div 2 ^ 25 else x div 2 ^ 25 + 128)"
proof -
  let ?w = "19 * h + 2 ^ 24 :: i32"
  have "(of_int x :: i32) = ?w" by (simp add: x_def)
  moreover have "\<bar>x\<bar> < 2 ^ 31" using assms(1) by (simp add: x_def)
  ultimately have s: "sint ?w = x" using sint_of_int_32 by metis
  have "uint ?w = x mod 2 ^ 32" using uint_sint [of ?w] unfolding s by (simp add: take_bit_eq_mod)
  then have u: "uint ?w = (if 0 \<le> x then x else x + 2 ^ 32)"
    using \<open>\<bar>x\<bar> < 2 ^ 31\<close> mod_pos_pos_trivial [of x "2 ^ 32"] mod_pos_pos_trivial [of "x + 2 ^ 32" "2 ^ 32"] by auto
  have d: "uint (drop_bit 25 ?w) = uint ?w div 2 ^ 25" unfolding drop_bit_eq_div [of 25 "uint ?w", symmetric]
    by (rule bit_eqI) (auto simp: bit_simps simp del: drop_bit_eq_div dest: bit_imp_le_length)
  have "0 \<le> uint ?w div 2 ^ 25" "uint ?w div 2 ^ 25 < 2 ^ 31"
    using \<open>\<bar>x\<bar> < 2 ^ 31\<close> u by (auto split: if_splits)
  then have "sint (drop_bit 25 ?w) = uint ?w div 2 ^ 25"
    using d sint_of_int_32 [of "uint ?w div 2 ^ 25"] by (metis abs_of_nonneg word_of_int_uint)
  moreover have "(x + 2 ^ 32) div 2 ^ 25 = x div 2 ^ 25 + 128" using div_mult_self1 [of "2 ^ 25" x 128] by simp
  ultimately show ?thesis using u by simp
qed

text \<open>The quotient the code subtracts, for limbs within three times the tight bounds\<close>

definition first_q :: "int \<Rightarrow> int" where
  "first_q h = (let x = 19 * h + 2 ^ 24 in if 0 \<le> x then x div 2 ^ 25 else x div 2 ^ 25 + 128)"

lemma first_q_bound: "\<bar>h\<bar> \<le> 51000000 \<Longrightarrow> \<bar>first_q h\<bar> < 2 ^ 8"
  using zdiv_mono1 [of "- 30 * 2 ^ 25" "19 * h + 2 ^ 24" "2 ^ 25"] zdiv_mono1 [of "19 * h + 2 ^ 24" "30 * 2 ^ 25" "2 ^ 25"]
  by (auto simp: first_q_def Let_def)

lemma tight_3: "tight_fe f \<Longrightarrow> bounded (map ((*) 3) tight) (map sint f)"
  by (erule bounded_mono) (simp_all add: all_10 tight_def)

lemma reduce_q_sum:
  assumes "bounded (map ((*) 3) tight) (map sint f)"
  shows "sint (reduce_q f) = (first_q (sint (f ! 9)) + ival (map sint f)) div 2 ^ 255"
proof -
  note t = parts3 [OF assms]
  have q: "sint (drop_bit 25 (19 * f ! 9 + 2 ^ 24 :: i32)) = first_q (sint (f ! 9))"
    unfolding first_q_def Let_def by (rule first_quotient) (use t(2) in simp)
  have "\<forall>i<10. \<bar>sint (f ! i)\<bar> < 2 ^ 28" using t(4) by fastforce
  from reduce_q_chain [OF t(3) this, of "drop_bit 25 (19 * f ! 9 + 2 ^ 24)" 10] show ?thesis
    unfolding q reduce_q_def ival_partial using first_q_bound [OF t(2)] by (simp add: limb_exp_def)
qed

lemma reduce_q_value:
  assumes "tight_fe f"
  shows "sint (reduce_q f) = ival (map sint f) div p25519"
proof -
  note t = tight_parts [OF assms]
  let ?V = "ival (map sint f)" and ?h = "sint (f ! 9)" and ?P = "partial (map sint f) 9"
  define q where "q = first_q ?h"
  have q: "q = (if 0 \<le> 19 * ?h + 2 ^ 24 then (19 * ?h + 2 ^ 24) div 2 ^ 25 else (19 * ?h + 2 ^ 24) div 2 ^ 25 + 128)"
    by (simp only: q_def first_q_def Let_def)
  have V: "?V = ?P + ?h * 2 ^ 230" using t(3) partial_Suc [of "map sint f" 9] by (simp add: ival_partial)
  have "- 20 \<le> (19 * ?h + 2 ^ 24) div 2 ^ 25" "(19 * ?h + 2 ^ 24) div 2 ^ 25 \<le> 20"
    using t(2) zdiv_mono1 [of "- 20 * 2 ^ 25" "19 * ?h + 2 ^ 24" "2 ^ 25"] zdiv_mono1 [of "19 * ?h + 2 ^ 24" "20 * 2 ^ 25" "2 ^ 25"]
    by simp_all
  then have q8: "\<bar>q\<bar> < 2 ^ 8" "19 * ?h + 2 ^ 24 < 0 \<Longrightarrow> 0 \<le> q" unfolding q by (auto split: if_splits)
  have chain: "sint (reduce_q f) = (q + ?V) div 2 ^ 255" unfolding q_def by (rule reduce_q_sum [OF tight_3 [OF assms]])
  have bV: "\<bar>?V\<bar> < 2 ^ 255 - 1000" "\<bar>?V\<bar> < p25519"
    using t(1,2) unfolding V p25519_def by auto
  show ?thesis
  proof (cases "0 \<le> ?V")
    case True
    have "0 \<le> q + ?V"
    proof (cases "19 * ?h + 2 ^ 24 < 0")
      case False
      then have "0 \<le> q" unfolding q by (simp add: pos_imp_zdiv_nonneg_iff)
      then show ?thesis using True by simp
    qed (use q8 True in simp)
    moreover have "q + ?V < 2 ^ 255" using q8(1) bV by auto
    ultimately have "(q + ?V) div 2 ^ 255 = 0" by (rule div_pos_pos_trivial)
    moreover have "?V div p25519 = 0" using True bV(2) by (intro div_pos_pos_trivial) auto
    ultimately show ?thesis using chain by simp
  next
    case False
    have "q + ?V < 0"
    proof (cases "- 2 < ?h \<and> ?h < 2")
      case True
      then have "?h = -1 \<or> ?h = 0 \<or> ?h = 1" by auto
      then have "q = 0" unfolding q by auto
      then show ?thesis using \<open>\<not> 0 \<le> ?V\<close> by simp
    next
      case far: False
      have "?h \<le> - 2"
      proof (rule ccontr)
        assume "\<not> ?h \<le> - 2"
        then have "2 \<le> ?h" using far by auto
        then have "2 * 2 ^ 230 \<le> ?h * 2 ^ 230" by (intro mult_right_mono) auto
        then show False using t(1) False unfolding V by linarith
      qed
      then have "?h * 2 ^ 230 \<le> - 2 * 2 ^ 230" by (intro mult_right_mono) auto
      then have "?V \<le> - (2 ^ 230)" using t(1) unfolding V by linarith
      then show ?thesis using q8(1) by simp
    qed
    moreover have "- (2 ^ 255) \<le> q + ?V" using q8(1) bV by auto
    ultimately have "(q + ?V) div 2 ^ 255 = - 1" using int_div_pos_eq [of "q + ?V" "2 ^ 255" "- 1" "q + ?V + 2 ^ 255"] by simp
    moreover have "?V div p25519 = - 1"
      using False bV(2) int_div_pos_eq [of ?V p25519 "- 1" "?V + p25519"] by simp
    ultimately show ?thesis using chain by simp
  qed
qed

lemma floor_carry_int:
  fixes x y :: i32
  assumes "\<bar>sint x\<bar> < 2 ^ 29" "\<bar>sint y\<bar> < 2 ^ 28"
  shows "sint (y + sshift x (limb_width i)) = sint y + sint x div 2 ^ limb_width i"
    "\<bar>sint y + sint x div 2 ^ limb_width i\<bar> < 2 ^ 29"
    "sint (x - sshift x (limb_width i) * 2 ^ limb_width i) = sint x mod 2 ^ limb_width i"
proof -
  note s = shift_small [OF assms(1), of i]
  have "\<bar>sint y\<bar> < 2 ^ 30" "\<bar>sint (sshift x (limb_width i))\<bar> < 2 ^ 30" using assms s by (simp_all add: sint_sshift)
  then show "sint (y + sshift x (limb_width i)) = sint y + sint x div 2 ^ limb_width i"
    by (simp only: sint_add_sub_32 sint_sshift)
  show "\<bar>sint y + sint x div 2 ^ limb_width i\<bar> < 2 ^ 29" using assms(2) s by simp
  let ?k = "sint x - sint x div 2 ^ limb_width i * 2 ^ limb_width i"
  have k: "?k = sint x mod 2 ^ limb_width i" by (simp only: minus_div_mult_eq_mod)
  have "(2::int) ^ limb_width i \<le> 2 ^ 26" using limb_width_pos by (intro power_increasing) auto
  moreover have "0 \<le> ?k" "?k < 2 ^ limb_width i" unfolding k by simp_all
  moreover have "(2::int) ^ 26 < 2 ^ 31" by simp
  ultimately have "\<bar>?k\<bar> < 2 ^ 31" by linarith
  moreover have "x - sshift x (limb_width i) * 2 ^ limb_width i = of_int ?k" by (simp add: sshift_of_int)
  ultimately show "sint (x - sshift x (limb_width i) * 2 ^ limb_width i) = sint x mod 2 ^ limb_width i"
    unfolding k [symmetric] by (simp only: sint_of_int_32)
qed

lemma sum_update2:
  fixes F :: "int list"
  assumes "Suc i < 10" "length F = 10"
  shows "partial (F[Suc i := a, i := b]) 10 = partial F 10 + (a - F ! Suc i) * 2 ^ limb_exp (Suc i) + (b - F ! i) * 2 ^ limb_exp i"
proof -
  have "i = 0 \<or> i = 1 \<or> i = 2 \<or> i = 3 \<or> i = 4 \<or> i = 5 \<or> i = 6 \<or> i = 7 \<or> i = 8" using assms(1) by auto
  then show ?thesis
    using assms(2) unfolding ival_partial [symmetric] ival_sum by (elim disjE) (simp_all add: algebra_simps flip: numeral_2_eq_2 numeral_3_eq_3)
qed

lemma fe_reduce_carry_chain:
  fixes g :: fe25519
  assumes "length g = 10" "\<forall>i<10. \<bar>sint (g ! i)\<bar> < 2 ^ 28" "k < 10"
  defines "G \<equiv> \<lambda>k. map sint (fold fe_reduce_carry [0..<k] g)"
  shows "length (G k) = 10 \<and> partial (G k) 10 = partial (map sint g) 10 \<and>
    (\<forall>i<k. 0 \<le> G k ! i \<and> G k ! i < 2 ^ limb_width i) \<and> \<bar>G k ! k\<bar> < 2 ^ 29 \<and>
    (\<forall>i<10. k < i \<longrightarrow> G k ! i = sint (g ! i))"
  using assms(3)
proof (induction k)
  case 0
  have "\<bar>sint (g ! 0)\<bar> < 2 ^ 28" using assms(2) by simp
  then show ?case using assms(1) by (simp add: G_def)
next
  case (Suc k)
  let ?h = "fold fe_reduce_carry [0..<k] g" and ?w = "limb_width k"
  have IH: "length ?h = 10" "partial (G k) 10 = partial (map sint g) 10" "\<forall>i<k. 0 \<le> G k ! i \<and> G k ! i < 2 ^ limb_width i"
    "\<bar>sint (?h ! k)\<bar> < 2 ^ 29" "\<forall>i<10. k < i \<longrightarrow> sint (?h ! i) = sint (g ! i)"
    using Suc.IH Suc.prems by (auto simp: G_def)
  have y: "\<bar>sint (?h ! Suc k)\<bar> < 2 ^ 28" using IH(5) Suc.prems assms(2) by simp
  note c = floor_carry_int [OF IH(4) y, of k]
  have next_fold: "fold fe_reduce_carry [0..<Suc k] g = ?h[Suc k := ?h ! Suc k + sshift (?h ! k) ?w, k := ?h ! k - sshift (?h ! k) ?w * 2 ^ ?w]"
    using Suc.prems IH(1) by (simp add: fe_reduce_carry_def Let_def)
  have G: "G (Suc k) = (G k)[Suc k := sint (?h ! Suc k) + sint (?h ! k) div 2 ^ ?w, k := sint (?h ! k) mod 2 ^ ?w]"
    unfolding G_def next_fold map_update c(1,3) ..
  have Gk: "length (G k) = 10" "G k ! k = sint (?h ! k)" "G k ! Suc k = sint (?h ! Suc k)" "k < 10" "Suc k < 10"
    using IH(1) Suc.prems by (simp_all add: G_def)
  have "sint (?h ! k) div 2 ^ ?w * 2 ^ limb_exp (Suc k) + (sint (?h ! k) mod 2 ^ ?w - sint (?h ! k)) * 2 ^ limb_exp k = 0"
  proof -
    have "(sint (?h ! k) mod 2 ^ ?w - sint (?h ! k)) = - (sint (?h ! k) div 2 ^ ?w * 2 ^ ?w)"
      using div_mult_mod_eq [of "sint (?h ! k)" "2 ^ ?w"] by linarith
    then show ?thesis by (simp add: limb_exp_Suc power_add)
  qed
  then have "partial (G (Suc k)) 10 = partial (map sint g) 10"
    unfolding G sum_update2 [OF Gk(5,1)] Gk(2,3) IH(2) by (simp add: algebra_simps)
  moreover have "0 \<le> G (Suc k) ! i \<and> G (Suc k) ! i < 2 ^ limb_width i" if "i < Suc k" for i
    using that IH(3) Gk unfolding G by (cases "i = k") simp_all
  moreover have "\<bar>G (Suc k) ! Suc k\<bar> < 2 ^ 29" using c(2) Gk unfolding G by simp
  moreover have "G (Suc k) ! i = sint (g ! i)" if "i < 10" "Suc k < i" for i
    using that IH(5) IH(1) Gk unfolding G by (simp add: G_def)
  moreover have "length (G (Suc k)) = 10" using Gk unfolding G by simp
  ultimately show ?case by blast
qed

lemma reduced_less:
  assumes "length T = 10" "\<forall>i<10. 0 \<le> T ! i \<and> T ! i < 2 ^ limb_width i"
  shows "0 \<le> ival T" "ival T < 2 ^ 255"
proof -
  have t: "0 \<le> T ! i" "T ! i \<le> 2 ^ limb_width i - 1" if "i < 10" for i using assms(2) that by auto
  show "0 \<le> ival T" unfolding ival_def by (intro sum_nonneg) (use t in auto)
  have "\<forall>i<10. T ! i \<le> 2 ^ limb_width i - 1" using t by blast
  then show "ival T < 2 ^ 255" unfolding all_10 ival_sum by (simp add: limb_width_def)
qed

lemma fe25519_reduce_sum:
  assumes "bounded (map ((*) 3) tight) (map sint f)"
  shows "length (fe25519_reduce f) = 10"
    "\<forall>i<10. 0 \<le> sint (fe25519_reduce f ! i) \<and> sint (fe25519_reduce f ! i) < 2 ^ limb_width i"
    "ival (map sint (fe25519_reduce f)) = (fe_val f + 19 * sint (reduce_q f)) mod 2 ^ 255"
proof -
  note t = parts3 [OF assms]
  let ?V = "ival (map sint f)" and ?q = "sint (reduce_q f)"
  have "\<bar>?V\<bar> < 2 ^ 257"
    using t(1-3) partial_Suc [of "map sint f" 9] by (auto simp: ival_partial)
  then have "\<bar>first_q (sint (f ! 9)) + ?V\<bar> < 2 ^ 258" using first_q_bound [OF t(2)] by auto
  then have "\<bar>?q\<bar> \<le> 8"
    unfolding reduce_q_sum [OF assms] using zdiv_mono1 [of "- 8 * 2 ^ 255" "first_q (sint (f ! 9)) + ?V" "2 ^ 255"]
      zdiv_mono1 [of "first_q (sint (f ! 9)) + ?V" "8 * 2 ^ 255" "2 ^ 255"] by simp
  then have q19: "sint (19 * reduce_q f) = 19 * ?q" "\<bar>19 * ?q\<bar> \<le> 152"
    using sint_small_mult [of 19 "reduce_q f"] by auto
  let ?g = "f[0 := f ! 0 + 19 * reduce_q f]"
  have f0: "\<bar>sint (f ! 0)\<bar> < 2 ^ 27" using t(4) by simp
  have "\<bar>sint (f ! 0)\<bar> < 2 ^ 30" "\<bar>sint (19 * reduce_q f)\<bar> < 2 ^ 30" using f0 q19 by simp_all
  then have g0: "sint (f ! 0 + 19 * reduce_q f) = sint (f ! 0) + 19 * ?q" by (simp only: sint_add_sub_32 q19)
  have len_g: "length ?g = 10" using t(3) by simp
  have g: "\<forall>i<10. \<bar>sint (?g ! i)\<bar> < 2 ^ 28"
  proof (intro allI impI)
    fix i :: nat
    assume i: "i < 10"
    then have "\<bar>sint (f ! i)\<bar> < 2 ^ 27" using t(4) by blast
    then show "\<bar>sint (?g ! i)\<bar> < 2 ^ 28" using g0 f0 q19(2) t(3) i by (cases "i = 0") auto
  qed
  let ?h = "fold fe_reduce_carry [0..<9] ?g"
  have c: "length ?h = 10" "partial (map sint ?h) 10 = partial (map sint ?g) 10"
    "\<forall>i<9. 0 \<le> sint (?h ! i) \<and> sint (?h ! i) < 2 ^ limb_width i" "\<bar>sint (?h ! 9)\<bar> < 2 ^ 29"
    using fe_reduce_carry_chain [OF len_g g, of 9] by (auto simp del: upt_rec_numeral)
  have red: "fe25519_reduce f = ?h[9 := ?h ! 9 - sshift (?h ! 9) (limb_width 9) * 2 ^ limb_width 9]"
  proof -
    have "[0..<10] = [0..<9] @ [9::nat]" by (simp add: upt_rec)
    then show ?thesis unfolding fe25519_reduce_def by (simp add: fe_reduce_carry_def Let_def del: upt_rec_numeral)
  qed
  show len: "length (fe25519_reduce f) = 10" unfolding red using c(1) by simp
  have m: "sint (?h ! 9 - sshift (?h ! 9) (limb_width 9) * 2 ^ limb_width 9) = sint (?h ! 9) mod 2 ^ limb_width 9"
    using floor_carry_int(3) [OF c(4), of 0 9] by simp
  show range: "\<forall>i<10. 0 \<le> sint (fe25519_reduce f ! i) \<and> sint (fe25519_reduce f ! i) < 2 ^ limb_width i"
  proof (intro allI impI)
    fix i :: nat
    assume "i < 10"
    then show "0 \<le> sint (fe25519_reduce f ! i) \<and> sint (fe25519_reduce f ! i) < 2 ^ limb_width i"
      unfolding red using c(1,3) m by (cases "i = 9") simp_all
  qed
  let ?T = "map sint (fe25519_reduce f)" and ?c = "sint (?h ! 9) div 2 ^ 25"
  have "ival ?T = partial (map sint ?h) 10 - ?c * 2 ^ 255"
  proof -
    have eq: "partial ?T 9 = partial (map sint ?h) 9" unfolding partial_def red using c(1) by simp
    have "?T ! 9 = sint (?h ! 9) - ?c * 2 ^ 25"
      unfolding red using c(1) m by (simp add: limb_width_def minus_div_mult_eq_mod)
    moreover have "map sint ?h ! 9 = sint (?h ! 9)" using c(1) by simp
    ultimately show ?thesis
      using partial_Suc [of ?T 9] partial_Suc [of "map sint ?h" 9] eq unfolding ival_partial by (simp add: algebra_simps)
  qed
  also have "partial (map sint ?h) 10 = ?V + 19 * ?q"
  proof -
    have "ival (map sint ?g) = ?V + 19 * ?q"
      unfolding ival_sum using t(3) g0 by simp
    then show ?thesis unfolding c(2) ival_partial .
  qed
  finally have T: "ival ?T = (?V + 19 * ?q) + (- ?c) * 2 ^ 255" by (simp add: algebra_simps)
  have "0 \<le> ival ?T" "ival ?T < 2 ^ 255" using reduced_less [of ?T] len range by simp_all
  then have "ival ?T = ival ?T mod 2 ^ 255" by simp
  also have "\<dots> = (?V + 19 * ?q) mod 2 ^ 255" unfolding T by (rule mod_mult_self1)
  finally show "ival ?T = (fe_val f + 19 * ?q) mod 2 ^ 255" by (simp only: fe_val_def)
qed

lemma fe25519_reduce_ok:
  assumes "tight_fe f"
  shows "length (fe25519_reduce f) = 10"
    "\<forall>i<10. 0 \<le> sint (fe25519_reduce f ! i) \<and> sint (fe25519_reduce f ! i) < 2 ^ limb_width i"
    "ival (map sint (fe25519_reduce f)) = fe_val f mod p25519"
proof -
  note r = fe25519_reduce_sum [OF tight_3 [OF assms]]
  show "length (fe25519_reduce f) = 10"
    "\<forall>i<10. 0 \<le> sint (fe25519_reduce f ! i) \<and> sint (fe25519_reduce f ! i) < 2 ^ limb_width i" by (rule r)+
  let ?q = "sint (reduce_q f)"
  have q: "?q = fe_val f div p25519" using reduce_q_value [OF assms] by (simp add: fe_val_def)
  have "fe_val f + 19 * ?q = fe_val f mod p25519 + ?q * 2 ^ 255"
    using div_mult_mod_eq [of "fe_val f" p25519] unfolding q p25519_def by (simp add: algebra_simps)
  then have "(fe_val f + 19 * ?q) mod 2 ^ 255 = (fe_val f mod p25519) mod 2 ^ 255" by (simp only: mod_mult_self1)
  also have "\<dots> = fe_val f mod p25519"
    using pos_mod_bound [of p25519 "fe_val f"] pos_mod_sign [of p25519 "fe_val f"]
    by (intro mod_pos_pos_trivial) (simp_all add: p25519_def)
  finally show "ival (map sint (fe25519_reduce f)) = fe_val f mod p25519" unfolding r(3) .
qed

text \<open>
  Beyond the tight bounds, up to three times as much, the result need not be canonical, but it is zero
  exactly for the multiples of the prime: near \<open>m * 2^255\<close> the first quotient is at least \<open>19 * m\<close>.
\<close>

lemma first_q_near:
  assumes "bounded (map ((*) 3) tight) (map sint f)" "\<bar>ival (map sint f) - m * 2 ^ 255\<bar> < 2 ^ 10"
  shows "19 * m \<le> first_q (sint (f ! 9))"
proof -
  note t = parts3 [OF assms(1)]
  let ?h = "sint (f ! 9)" and ?P = "partial (map sint f) 9"
  have V: "ival (map sint f) = ?P + ?h * 2 ^ 230" using t(3) partial_Suc [of "map sint f" 9] by (simp add: ival_partial)
  have "\<bar>(?h - m * 2 ^ 25) * 2 ^ 230\<bar> < 3 * 2 ^ 230"
    using assms(2) t(1) unfolding V by (simp add: algebra_simps)
  then have "\<bar>?h - m * 2 ^ 25\<bar> < 3" by (simp add: abs_mult)
  then have "19 * m * 2 ^ 25 \<le> 19 * ?h + 2 ^ 24" by auto
  then have "19 * m \<le> (19 * ?h + 2 ^ 24) div 2 ^ 25" using zdiv_mono1 [of "19 * m * 2 ^ 25" "19 * ?h + 2 ^ 24" "2 ^ 25"] by simp
  then show ?thesis by (auto simp: first_q_def Let_def)
qed

lemma div_bounds:
  fixes a m :: int
  assumes "0 < m"
  shows "m * (a div m) \<le> a" "a < m * (a div m) + m"
  using mult_div_mod_eq [of m a] pos_mod_bound [OF assms, of a] pos_mod_sign [OF assms, of a] by linarith+

lemma fe25519_reduce_zero:
  assumes "bounded (map ((*) 3) tight) (map sint f)"
  shows "ival (map sint (fe25519_reduce f)) = 0 \<longleftrightarrow> fe_val f mod p25519 = 0"
proof -
  note t = parts3 [OF assms] and r = fe25519_reduce_sum(3) [OF assms]
  let ?V = "fe_val f" and ?c = "first_q (sint (f ! 9))" and ?q = "sint (reduce_q f)"
  have q: "?q = (?c + ?V) div 2 ^ 255" using reduce_q_sum [OF assms] by (simp add: fe_val_def)
  have c: "\<bar>?c\<bar> < 2 ^ 8" by (rule first_q_bound [OF t(2)])
  have "\<bar>?V\<bar> < 2 ^ 257" using t(1-3) partial_Suc [of "map sint f" 9] by (auto simp: fe_val_def ival_partial)
  have near: "19 * m \<le> ?c" if "\<bar>?V - m * 2 ^ 255\<bar> < 2 ^ 10" for m
    using first_q_near [OF assms] that by (simp add: fe_val_def)
  show ?thesis
  proof
    assume "?V mod p25519 = 0"
    then obtain m where m: "?V = p25519 * m" by (auto simp: mod_eq_0_iff_dvd dvd_def)
    have "\<bar>m\<bar> < 8"
    proof (rule ccontr)
      assume "\<not> \<bar>m\<bar> < 8"
      then have "p25519 * 8 \<le> \<bar>?V\<bar>" unfolding m abs_mult by (simp add: p25519_def)
      then show False using \<open>\<bar>?V\<bar> < 2 ^ 257\<close> by (simp add: p25519_def)
    qed
    then have n: "19 * m \<le> ?c" by (intro near) (simp add: m p25519_def)
    have "?q = m + (?c - 19 * m) div 2 ^ 255" unfolding q m p25519_def by (simp add: algebra_simps)
    moreover have "(?c - 19 * m) div 2 ^ 255 = 0" using n c \<open>\<bar>m\<bar> < 8\<close> by (intro div_pos_pos_trivial) auto
    ultimately have "?V + 19 * ?q = m * 2 ^ 255" unfolding m p25519_def by simp
    then show "ival (map sint (fe25519_reduce f)) = 0" unfolding r by simp
  next
    assume "ival (map sint (fe25519_reduce f)) = 0"
    then obtain k where k: "?V + 19 * ?q = 2 ^ 255 * k" unfolding r by (auto simp: mod_eq_0_iff_dvd dvd_def)
    have "2 ^ 255 * ?q \<le> ?c + ?V" "?c + ?V < 2 ^ 255 * ?q + 2 ^ 255" unfolding q by (rule div_bounds; simp)+
    then have b: "2 ^ 255 * ?q \<le> ?c - 19 * ?q + 2 ^ 255 * k" "?c - 19 * ?q + 2 ^ 255 * k < 2 ^ 255 * ?q + 2 ^ 255"
      using k by linarith+
    have "\<bar>?c + ?V\<bar> < 8 * 2 ^ 255" using c \<open>\<bar>?V\<bar> < 2 ^ 257\<close> by auto
    then have q8: "\<bar>?q\<bar> \<le> 8" unfolding q using zdiv_mono1 [of "- 8 * 2 ^ 255" "?c + ?V" "2 ^ 255"]
      zdiv_mono1 [of "?c + ?V" "8 * 2 ^ 255" "2 ^ 255"] by simp
    then have "?V = 2 ^ 255 * k - 19 * ?q" "\<bar>?V - k * 2 ^ 255\<bar> < 2 ^ 10" using k by auto
    from near [OF this(2)] have n: "19 * k \<le> ?c" .
    have "k = ?q" using b n c q8 by auto
    then have "?V = p25519 * k" using k by (simp add: p25519_def)
    then show "?V mod p25519 = 0" by simp
  qed
qed

section \<open>Bytes of limbs\<close>

lemma uint_byte_of_int:
  assumes "8 \<le> LENGTH('a::len)"
  shows "uint (ucast (of_int k :: 'a word) :: u8) = k mod 256"
proof -
  have "uint (ucast (of_int k :: 'a word) :: u8) = take_bit 8 (take_bit LENGTH('a) k)"
    by (simp add: unsigned_ucast_eq unsigned_of_int)
  also have "\<dots> = take_bit 8 k" using assms by simp
  finally show ?thesis by (simp add: take_bit_eq_mod)
qed

lemma uint_byte_shift: "8 \<le> LENGTH('a::len) \<Longrightarrow> uint (ucast (sshift (t :: 'a word) n) :: u8) = sint t div 2 ^ n mod 256"
  by (simp only: sshift_of_int uint_byte_of_int)

lemma uint_byte_join:
  fixes t u :: "'a::len word"
  assumes "0 \<le> sint t div 2 ^ n" "sint t div 2 ^ n < 2 ^ k" "k \<le> 8" "8 \<le> LENGTH('a)"
  shows "uint (ucast (sshift t n OR u * 2 ^ k) :: u8) = sint t div 2 ^ n + 2 ^ k * (sint u mod 2 ^ (8 - k))"
proof -
  let ?a = "sint t div 2 ^ n"
  have lo: "bit (sshift t n) i \<longrightarrow> i < k" for i
  proof
    assume "bit (sshift t n) i"
    then have "bit ?a i" by (simp add: sshift_of_int bit_simps)
    moreover have "take_bit k ?a = ?a" using assms(1,2) by (simp add: take_bit_int_eq_self_iff)
    ultimately show "i < k" by (metis bit_take_bit_iff)
  qed
  have hi: "bit (u * 2 ^ k) i \<longrightarrow> k \<le> i" for i
    by (simp add: bit_simps flip: push_bit_eq_mult)
  have "sshift t n AND u * 2 ^ k = 0"
    by (rule bit_eqI) (metis bit_and_iff bit_0_eq bot_apply bot_bool_def hi lo leD)
  then have "sshift t n OR u * 2 ^ k = sshift t n + u * 2 ^ k" by (simp only: disjunctive_add_eq_or)
  also have "\<dots> = of_int (?a + 2 ^ k * sint u)" by (simp add: sshift_of_int mult.commute)
  finally have "uint (ucast (sshift t n OR u * 2 ^ k) :: u8) = (?a + 2 ^ k * sint u) mod 256"
    by (simp only: uint_byte_of_int [OF assms(4)])
  also have "(256::int) = 2 ^ k * 2 ^ (8 - k)" using assms(3) by (simp flip: power_add)
  also have "(?a + 2 ^ k * sint u) mod (2 ^ k * 2 ^ (8 - k)) = 2 ^ k * ((?a + 2 ^ k * sint u) div 2 ^ k mod 2 ^ (8 - k)) +
      (?a + 2 ^ k * sint u) mod 2 ^ k" by (rule zmod_zmult2_eq) simp
  also have "\<dots> = 2 ^ k * (sint u mod 2 ^ (8 - k)) + ?a"
    using assms(1,2) by (simp add: div_pos_pos_trivial mod_pos_pos_trivial)
  finally show ?thesis by simp
qed

lemma split_limb:
  fixes x :: int
  shows "x = x mod 2 ^ a + 2 ^ a * (x div 2 ^ a mod 256) + 2 ^ (a + 8) * (x div 2 ^ (a + 8) mod 256) + 2 ^ (a + 16) * (x div 2 ^ (a + 16))"
proof -
  have s: "x div 2 ^ b = x div 2 ^ b mod 256 + 256 * (x div 2 ^ (b + 8))" for b
    using mult_div_mod_eq [of 256 "x div 2 ^ b"] by (simp add: power_add zdiv_zmult2_eq)
  have "x = x mod 2 ^ a + 2 ^ a * (x div 2 ^ a)" by simp
  also have "x div 2 ^ a = x div 2 ^ a mod 256 + 256 * (x div 2 ^ (a + 8) mod 256 + 256 * (x div 2 ^ (a + 8 + 8)))"
    using s [of a] s [of "a + 8"] by simp
  finally show ?thesis by (simp add: algebra_simps power_add)
qed

lemma split_limb_2: "x = x mod 4 + 4 * (x div 4 mod 256) + 1024 * (x div 1024 mod 256) + 262144 * (x div 262144 :: int)"
  by (rule trans [OF split_limb [of x 2]]) simp

lemma split_limb_3: "x = x mod 8 + 8 * (x div 8 mod 256) + 2048 * (x div 2048 mod 256) + 524288 * (x div 524288 :: int)"
  by (rule trans [OF split_limb [of x 3]]) simp

lemma split_limb_4: "x = x mod 16 + 16 * (x div 16 mod 256) + 4096 * (x div 4096 mod 256) + 1048576 * (x div 1048576 :: int)"
  by (rule trans [OF split_limb [of x 4]]) simp

lemma split_limb_5: "x = x mod 32 + 32 * (x div 32 mod 256) + 8192 * (x div 8192 mod 256) + 2097152 * (x div 2097152 :: int)"
  by (rule trans [OF split_limb [of x 5]]) simp

lemma split_limb_6: "x = x mod 64 + 64 * (x div 64 mod 256) + 16384 * (x div 16384 mod 256) + 4194304 * (x div 4194304 :: int)"
  by (rule trans [OF split_limb [of x 6]]) simp

lemma split_limb_7: "x = x mod 128 + 128 * (x div 128 mod 256) + 32768 * (x div 32768 mod 256) + 8388608 * (x div 8388608 :: int)"
  by (rule trans [OF split_limb [of x 7]]) simp

lemma split_limb_8: "x = x mod 256 + 256 * (x div 256 mod 256) + 65536 * (x div 65536 mod 256) + 16777216 * (x div 16777216 :: int)"
  by (rule trans [OF split_limb [of x 8]]) simp

lemma int_le_val: "int (le_val (b # bs)) = uint b + 256 * int (le_val bs)" "int (le_val []) = 0"
  by simp_all

lemma limb_shift_less:
  fixes x :: int
  assumes "0 \<le> x" "x < 2 ^ (n + k)"
  shows "0 \<le> x div 2 ^ n" "x div 2 ^ n < 2 ^ k"
proof -
  show "0 \<le> x div 2 ^ n" using assms(1) by (simp add: pos_imp_zdiv_nonneg_iff)
  have "x div 2 ^ n * 2 ^ n \<le> x" using div_mult_mod_eq [of x "2 ^ n"] by (smt (verit) pos_mod_sign zero_less_power)
  moreover have "x < 2 ^ k * 2 ^ n" using assms(2) by (simp add: power_add mult.commute)
  ultimately have "x div 2 ^ n * 2 ^ n < 2 ^ k * 2 ^ n" by (rule order.strict_trans1)
  then show "x div 2 ^ n < 2 ^ k" by (rule mult_right_less_imp_less) simp
qed

lemma ival_cong:
  assumes "T ! 0 = t0" "T ! 1 = t1" "T ! 2 = t2" "T ! 3 = t3" "T ! 4 = t4" "T ! 5 = t5" "T ! 6 = t6" "T ! 7 = t7" "T ! 8 = t8" "T ! 9 = t9"
  shows "ival T = t0 + t1 * 2 ^ 26 + t2 * 2 ^ 51 + t3 * 2 ^ 77 + t4 * 2 ^ 102 + t5 * 2 ^ 128 + t6 * 2 ^ 153 + t7 * 2 ^ 179 + t8 * 2 ^ 204 + t9 * 2 ^ 230"
  unfolding ival_sum assms ..

lemma length_pack_limbs [simp]: "length (pack_limbs t) = 32"
  by (simp add: pack_limbs_def)

lemma pack_limbs_value:
  assumes "length t = 10" "\<forall>i<10. 0 \<le> sint (t ! i) \<and> sint (t ! i) < 2 ^ limb_width i"
  shows "int (le_val (pack_limbs t)) = ival (map sint t)"
proof -
  define T where "T = map sint t"
  have T: "sint (t ! i) = T ! i" if "i < 10" for i using that assms(1) by (simp add: T_def)
  have r: "0 \<le> T ! i" "T ! i < 2 ^ limb_width i" if "i < 10" for i using assms(2) T that by auto
  have b: "uint (ucast (sshift (t ! i) n) :: u8) = T ! i div 2 ^ n mod 256" if "i < 10" for i n
    using uint_byte_shift [of "t ! i"] T [OF that] by simp
  have l: "0 \<le> T ! i div 2 ^ n" "T ! i div 2 ^ n < 2 ^ m" if "i < 10" "limb_width i = n + m" for i n m
    using limb_shift_less [of "T ! i" n m] r [OF that(1)] that(2) by simp_all
  have j: "uint (ucast (sshift (t ! i) n OR t ! k * 2 ^ m) :: u8) = T ! i div 2 ^ n + 2 ^ m * (T ! k mod 2 ^ (8 - m))"
    if "i < 10" "k < 10" "limb_width i = n + m" "m \<le> 8" for i k n m
    using uint_byte_join [of "t ! i" n m "t ! k"] l [OF that(1,3)] T [OF that(1)] T [OF that(2)] that(4) by simp
  have last: "T ! 4 div 2 ^ 18 mod 256 = T ! 4 div 2 ^ 18" "T ! 9 div 2 ^ 18 mod 256 = T ! 9 div 2 ^ 18"
    using l [of 4 18 8] l [of 9 18 7] by (simp_all add: limb_width_def mod_pos_pos_trivial)
  have w: "limb_width 0 = 24 + 2" "limb_width 1 = 22 + 3" "limb_width 2 = 21 + 5" "limb_width 3 = 19 + 6" "limb_width 5 = 24 + 1" "limb_width 6 = 23 + 3" "limb_width 7 = 21 + 4" "limb_width 8 = 20 + 6"
    by (simp_all add: limb_width_def)
  note joins = j [OF _ _ w(1), of 1] j [OF _ _ w(2), of 2] j [OF _ _ w(3), of 3] j [OF _ _ w(4), of 4] j [OF _ _ w(5), of 6] j [OF _ _ w(6), of 7] j [OF _ _ w(7), of 8] j [OF _ _ w(8), of 9]
  note split = split_limb_8 [of "T ! 0"] split_limb_6 [of "T ! 1"] split_limb_5 [of "T ! 2"] split_limb_3 [of "T ! 3"] split_limb_2 [of "T ! 4"]
     split_limb_8 [of "T ! 5"] split_limb_7 [of "T ! 6"] split_limb_5 [of "T ! 7"] split_limb_4 [of "T ! 8"] split_limb_2 [of "T ! 9"]
  have "int (le_val (pack_limbs t)) = ival T"
    unfolding pack_limbs_def list.map int_le_val ival_cong [OF split]
    by (simp only: b joins rel_simps zero_less_numeral one_less_numeral_iff simp_thms)
      (simp add: last [simplified] algebra_simps)
  then show ?thesis by (simp only: T_def)
qed

section \<open>Reading a field element\<close>

lemma word_add_shifted:
  fixes x y :: i64
  assumes "\<And>i. bit x i \<Longrightarrow> i < k"
  shows "x OR push_bit k y = x + push_bit k y"
proof -
  have "x AND push_bit k y = 0"
    by (rule bit_eqI) (use assms in \<open>auto simp: bit_and_iff bit_push_bit_iff dest: leD\<close>)
  then show ?thesis by (simp only: disjunctive_add_eq_or)
qed

lemma bit_byte_less: "bit (ucast (b :: u8) :: i64) i \<Longrightarrow> i < 8"
  by (auto simp: bit_simps dest: bit_imp_le_length)

lemma bit_pair_less:
  assumes "bit (ucast (a :: u8) OR push_bit 8 (ucast (b :: u8)) :: i64) i"
  shows "i < 16"
  using assms bit_byte_less [of a i] bit_byte_less [of b "i - 8"] by (auto simp: bit_or_iff bit_push_bit_iff simp del: bit_unsigned_iff)

lemma bit_triple_less:
  assumes "bit (ucast (a :: u8) OR push_bit 8 (ucast (b :: u8)) OR push_bit 16 (ucast (c :: u8)) :: i64) i"
  shows "i < 24"
  using assms bit_byte_less [of a i] bit_byte_less [of b "i - 8"] bit_byte_less [of c "i - 16"]
  by (auto simp: bit_or_iff bit_push_bit_iff simp del: bit_unsigned_iff)

lemma ucast_byte: "(ucast (b :: u8) :: i64) = of_int (uint b)"
  by simp

lemma load_3_int: "load_3 s = of_int (uint (s ! 0) + 256 * uint (s ! 1) + 65536 * uint (s ! 2))"
proof -
  have "load_3 s = (ucast (s ! 0) OR push_bit 8 (ucast (s ! 1))) + push_bit 16 (ucast (s ! 2))"
    unfolding load_3_def by (subst or.assoc [symmetric], rule word_add_shifted, erule bit_pair_less)
  also have "\<dots> = ucast (s ! 0) + push_bit 8 (ucast (s ! 1)) + push_bit 16 (ucast (s ! 2))"
    by (subst word_add_shifted) (auto dest: bit_byte_less)
  finally show ?thesis by (simp add: push_bit_eq_mult mult.commute)
qed

lemma load_4_int:
  "load_4 s = of_int (uint (s ! 0) + 256 * uint (s ! 1) + 65536 * uint (s ! 2) + 16777216 * uint (s ! 3))"
proof -
  have "load_4 s = (ucast (s ! 0) OR push_bit 8 (ucast (s ! 1)) OR push_bit 16 (ucast (s ! 2))) + push_bit 24 (ucast (s ! 3))"
    using word_add_shifted [of "ucast (s ! 0) OR push_bit 8 (ucast (s ! 1)) OR push_bit 16 (ucast (s ! 2))" 24 "ucast (s ! 3)",
        OF bit_triple_less]
    unfolding load_4_def by (simp only: or.assoc)
  then have "load_4 s = load_3 s + push_bit 24 (ucast (s ! 3))" by (simp only: load_3_def)
  then show ?thesis unfolding load_3_int by (simp add: push_bit_eq_mult mult.commute)
qed

lemma push_bit_int: "push_bit n (of_int k :: i64) = of_int (2 ^ n * k)"
  by (simp add: push_bit_eq_mult mult.commute)

lemma mask_int: "of_int k AND (8388607 :: i64) = of_int (k mod 8388608)"
proof -
  have "(8388607 :: i64) = mask 23" by (simp add: mask_eq_exp_minus_1)
  then have "of_int k AND (8388607 :: i64) = take_bit 23 (of_int k)" by (simp add: take_bit_eq_mask)
  also have "\<dots> = of_int (take_bit 23 k)" by (simp add: take_bit_of_int)
  finally show ?thesis by (simp add: take_bit_eq_mod)
qed

definition bytes_limbs :: "bytes \<Rightarrow> int list" where
  "bytes_limbs s = (let b = (\<lambda>i. uint (s ! i)) in
     [b 0 + 256 * b 1 + 65536 * b 2 + 16777216 * b 3,
      64 * (b 4 + 256 * b 5 + 65536 * b 6),
      32 * (b 7 + 256 * b 8 + 65536 * b 9),
      8 * (b 10 + 256 * b 11 + 65536 * b 12),
      4 * (b 13 + 256 * b 14 + 65536 * b 15),
      b 16 + 256 * b 17 + 65536 * b 18 + 16777216 * b 19,
      128 * (b 20 + 256 * b 21 + 65536 * b 22),
      32 * (b 23 + 256 * b 24 + 65536 * b 25),
      16 * (b 26 + 256 * b 27 + 65536 * b 28),
      4 * (b 29 + 256 * b 30 + 65536 * (b 31 mod 128))])"

lemma uint_byte_range: "0 \<le> uint (b :: u8)" "uint (b :: u8) \<le> 255"
  using uint_lt2p [of b] by simp_all

lemma masked_bytes: "(uint (a :: u8) + 256 * uint (b :: u8) + 65536 * uint (c :: u8)) mod 8388608 =
  uint a + 256 * uint b + 65536 * (uint c mod 128)"
proof -
  have c: "uint c = uint c mod 128 + 128 * (uint c div 128)" by simp
  have "(uint a + 256 * uint b + 65536 * uint c) mod 8388608 =
      (uint a + 256 * uint b + 65536 * (uint c mod 128) + 8388608 * (uint c div 128)) mod 8388608"
    by (rule arg_cong [of _ _ "\<lambda>x. x mod 8388608"]) (use c in linarith)
  also have "\<dots> = (uint a + 256 * uint b + 65536 * (uint c mod 128)) mod 8388608" by simp
  also have "\<dots> = uint a + 256 * uint b + 65536 * (uint c mod 128)"
  proof (rule mod_pos_pos_trivial)
    have "0 \<le> uint c mod 128" "uint c mod 128 < 128" by simp_all
    then show "0 \<le> uint a + 256 * uint b + 65536 * (uint c mod 128)"
      "uint a + 256 * uint b + 65536 * (uint c mod 128) < 8388608"
      using uint_byte_range [of a] uint_byte_range [of b] by linarith+
  qed
  finally show ?thesis .
qed

lemma frombytes_limbs_int: "length s = 32 \<Longrightarrow> frombytes_limbs s = map of_int (bytes_limbs s)"
  unfolding frombytes_limbs_def bytes_limbs_def Let_def load_3_int load_4_int push_bit_int mask_int masked_bytes list.map
  by (simp add: masked_bytes del: of_int_add of_int_mult of_int_numeral)

lemma bytes_limbs_range: "0 \<le> ival (bytes_limbs s)" "ival (bytes_limbs s) < 2 ^ 255"
proof -
  have "0 \<le> uint (s ! 31) mod 128" "uint (s ! 31) mod 128 < 128" by simp_all
  then obtain m where m: "uint (s ! 31) mod 128 = m" "0 \<le> m" "m \<le> 127" by simp
  show "0 \<le> ival (bytes_limbs s)"
    unfolding ival_sum bytes_limbs_def Let_def m(1) using m(2) by (simp add: uint_byte_range)
  note r = uint_byte_range [of "s ! 0"] uint_byte_range [of "s ! 1"] uint_byte_range [of "s ! 2"] uint_byte_range [of "s ! 3"]
      uint_byte_range [of "s ! 4"] uint_byte_range [of "s ! 5"] uint_byte_range [of "s ! 6"] uint_byte_range [of "s ! 7"]
      uint_byte_range [of "s ! 8"] uint_byte_range [of "s ! 9"] uint_byte_range [of "s ! 10"] uint_byte_range [of "s ! 11"]
      uint_byte_range [of "s ! 12"] uint_byte_range [of "s ! 13"] uint_byte_range [of "s ! 14"] uint_byte_range [of "s ! 15"]
      uint_byte_range [of "s ! 16"] uint_byte_range [of "s ! 17"] uint_byte_range [of "s ! 18"] uint_byte_range [of "s ! 19"]
      uint_byte_range [of "s ! 20"] uint_byte_range [of "s ! 21"] uint_byte_range [of "s ! 22"] uint_byte_range [of "s ! 23"]
      uint_byte_range [of "s ! 24"] uint_byte_range [of "s ! 25"] uint_byte_range [of "s ! 26"] uint_byte_range [of "s ! 27"]
      uint_byte_range [of "s ! 28"] uint_byte_range [of "s ! 29"] uint_byte_range [of "s ! 30"]
  show "ival (bytes_limbs s) < 2 ^ 255"
    unfolding ival_sum bytes_limbs_def Let_def m(1) using m(3) r(2,4,6,8,10,12,14,16,18,20,22,24,26,28,30,32,34,36,38,40,42,44,46,48,50,52,54,56,58,60,62)
    by (simp del: One_nat_def)
qed

lemma upt_32: "[0..<32] = [0, 1, 2, 3, 4, 5, 6, 7, 8, 9, 10, 11, 12, 13, 14, 15, 16, 17, 18, 19, 20, 21, 22, 23, 24, 25, 26, 27, 28, 29, 30, 31::nat]"
  by (simp add: upt_rec)

lemma bytes_limbs_value:
  assumes "length s = 32"
  shows "ival (bytes_limbs s) = int (le_val s) mod 2 ^ 255"
proof -
  let ?low = "ival (bytes_limbs s)"
  have "uint (s ! 31) = uint (s ! 31) mod 128 + 128 * (uint (s ! 31) div 128)" by simp
  then obtain m d where md: "uint (s ! 31) mod 128 = m" "uint (s ! 31) div 128 = d" "uint (s ! 31) = m + 128 * d" by blast
  have "s = map ((!) s) [0..<32]" using map_nth [of s] assms by simp
  then have "int (le_val s) = int (le_val (map ((!) s) [0..<32]))" by simp
  also have "\<dots> = ?low + 2 ^ 255 * d"
    unfolding bytes_limbs_def Let_def ival_sum md(1) upt_32 list.map int_le_val by (simp add: md(3) distrib_left del: One_nat_def)
  finally have low: "int (le_val s) = ?low + 2 ^ 255 * d" .
  have "?low = ?low mod 2 ^ 255" using bytes_limbs_range by simp
  then show ?thesis unfolding low by simp
qed

definition bytes_bound :: "int list" where
  "bytes_bound = [2 ^ 32, 2 ^ 30, 2 ^ 29, 2 ^ 27, 2 ^ 26, 2 ^ 32, 2 ^ 31, 2 ^ 29, 2 ^ 28, 2 ^ 25]"

lemma bytes_limbs_bounded: "bounded bytes_bound (bytes_limbs s)"
proof -
  have "0 \<le> uint (s ! 31) mod 128" "uint (s ! 31) mod 128 < 128" by simp_all
  then obtain m where m: "uint (s ! 31) mod 128 = m" "0 \<le> m" "m \<le> 127" by simp
  note r = uint_byte_range(2) [of "s ! 0"] uint_byte_range(2) [of "s ! 1"] uint_byte_range(2) [of "s ! 2"] uint_byte_range(2) [of "s ! 3"]
      uint_byte_range(2) [of "s ! 4"] uint_byte_range(2) [of "s ! 5"] uint_byte_range(2) [of "s ! 6"] uint_byte_range(2) [of "s ! 7"]
      uint_byte_range(2) [of "s ! 8"] uint_byte_range(2) [of "s ! 9"] uint_byte_range(2) [of "s ! 10"] uint_byte_range(2) [of "s ! 11"]
      uint_byte_range(2) [of "s ! 12"] uint_byte_range(2) [of "s ! 13"] uint_byte_range(2) [of "s ! 14"] uint_byte_range(2) [of "s ! 15"]
      uint_byte_range(2) [of "s ! 16"] uint_byte_range(2) [of "s ! 17"] uint_byte_range(2) [of "s ! 18"] uint_byte_range(2) [of "s ! 19"]
      uint_byte_range(2) [of "s ! 20"] uint_byte_range(2) [of "s ! 21"] uint_byte_range(2) [of "s ! 22"] uint_byte_range(2) [of "s ! 23"]
      uint_byte_range(2) [of "s ! 24"] uint_byte_range(2) [of "s ! 25"] uint_byte_range(2) [of "s ! 26"] uint_byte_range(2) [of "s ! 27"]
      uint_byte_range(2) [of "s ! 28"] uint_byte_range(2) [of "s ! 29"] uint_byte_range(2) [of "s ! 30"]
  have "\<forall>i<10. 0 \<le> bytes_limbs s ! i"
    unfolding all_10 bytes_limbs_def Let_def m(1) using m(2) by (simp add: uint_byte_range)
  moreover have "\<forall>i<10. bytes_limbs s ! i \<le> bytes_bound ! i"
    unfolding all_10 bytes_limbs_def Let_def m(1) bytes_bound_def using m(3) r by (simp del: One_nat_def)
  moreover have "length (bytes_limbs s) = 10" "length bytes_bound = 10" by (simp_all add: bytes_limbs_def bytes_bound_def)
  ultimately show ?thesis by (simp add: bounded_def)
qed

lemma fe25519_frombytes_ok:
  assumes "length s = 32"
  shows "tight_fe (fe25519_frombytes s)" "fe_val (fe25519_frombytes s) mod p25519 = int (le_val s) mod 2 ^ 255 mod p25519"
proof -
  have "\<forall>i<10. bytes_bound ! i < 2 ^ 63" unfolding all_10 by (simp add: bytes_bound_def)
  moreover have "carries_ok [9, 1, 3, 5, 7, 0, 2, 4, 6, 8] bytes_bound" by (simp add: bytes_bound_def bcarry_eval)
  moreover have "bounded tight (fold bcarry [9, 1, 3, 5, 7, 0, 2, 4, 6, 8] bytes_bound)"
    unfolding bounded_def all_10 by (simp add: bytes_bound_def tight_def bcarry_eval)
  ultimately have "tight_fe (fe25519_frombytes s) \<and> fe_val (fe25519_frombytes s) mod p25519 = ival (bytes_limbs s) mod p25519"
    unfolding fe25519_frombytes_def frombytes_limbs_int [OF assms] round_carries_def
    by (intro carries_store [OF bytes_limbs_bounded _ _ _ tight_less])
  then show "tight_fe (fe25519_frombytes s)"
    "fe_val (fe25519_frombytes s) mod p25519 = int (le_val s) mod 2 ^ 255 mod p25519"
    unfolding bytes_limbs_value [OF assms] by blast+
qed

lemma fe25519_tobytes_ok:
  assumes "tight_fe f"
  shows "length (fe25519_tobytes f) = 32" "int (le_val (fe25519_tobytes f)) = fe_val f mod p25519"
  using pack_limbs_value [OF fe25519_reduce_ok(1,2) [OF assms]] fe25519_reduce_ok(3) [OF assms]
  by (simp_all add: fe25519_tobytes_def)

section \<open>Reading and packing\<close>

text \<open>
  Packing a field element gives the 32 bytes of its value between 0 and \<open>2^255 - 20\<close>, whatever
  limbs represent it, and reading 32 bytes gives their value without the top bit; so reading what was
  packed gives the same value back, and packing what was read reduces it.
\<close>

theorem fe25519_bytes_roundtrip:
  assumes "tight_fe f" "length s = 32"
  shows "length (fe25519_tobytes f) = 32 \<and>
    int (le_val (fe25519_tobytes f)) = fe_val f mod p25519 \<and>
    fe_val (fe25519_frombytes (fe25519_tobytes f)) mod p25519 = fe_val f mod p25519 \<and>
    int (le_val (fe25519_tobytes (fe25519_frombytes s))) = int (le_val s) mod 2 ^ 255 mod p25519"
proof (intro conjI)
  note t = fe25519_tobytes_ok [OF assms(1)]
  show "length (fe25519_tobytes f) = 32" "int (le_val (fe25519_tobytes f)) = fe_val f mod p25519" by (rule t)+
  have "fe_val f mod p25519 < 2 ^ 255" "0 \<le> fe_val f mod p25519"
    using pos_mod_bound [of p25519 "fe_val f"] pos_mod_sign [of p25519 "fe_val f"] by (simp_all add: p25519_def)
  then show "fe_val (fe25519_frombytes (fe25519_tobytes f)) mod p25519 = fe_val f mod p25519"
    using fe25519_frombytes_ok(2) [OF t(1)] t(2) by simp
  show "int (le_val (fe25519_tobytes (fe25519_frombytes s))) = int (le_val s) mod 2 ^ 255 mod p25519"
    using fe25519_tobytes_ok(2) [OF fe25519_frombytes_ok(1) [OF assms(2)]] fe25519_frombytes_ok(2) [OF assms(2)] by simp
qed

lemma fe25519_bytes_roundtrip_witness:
  "int (le_val (fe25519_tobytes fe25519_1)) = 1 \<and>
   int (le_val (fe25519_tobytes (fe25519_frombytes (5 # replicate 30 0 @ [128])))) = 5"
proof -
  have t: "tight_fe fe25519_1" unfolding bounded_def all_10 by (simp add: tight_def fe25519_1_def)
  have "fe_val fe25519_1 = 1" by (simp add: fe_val_def ival_sum fe25519_1_def)
  moreover have "int (le_val (5 # replicate 30 0 @ [128])) = 5 + 2 ^ 255" by (simp add: le_val_append)
  ultimately show ?thesis
    using fe25519_bytes_roundtrip [OF t, of "5 # replicate 30 0 @ [128]"] by (simp add: p25519_def)
qed

text \<open>Limbs within the bound that the comment on \<open>fe25519_reduce\<close> gives\<close>

definition reduce_example :: fe25519 where
  "reduce_example = [16, 0, 0, 0, 0, 0, 0, 0, 0, - (2 ^ 25)]"

text \<open>
  C36: the bound documented for \<open>fe25519_reduce\<close>, \<open>1.1*2^26\<close> and \<open>1.1*2^25\<close> in turn, is not enough: the limbs
  of \<open>16 - 2^255\<close> below are within it, but the result is \<open>2^255 - 3\<close>, which is not below the prime and not
  even congruent, because the first step of the code shifts an unsigned word.
\<close>

theorem fe25519_reduce_bound:
  "list_all (\<lambda>i. 10 * \<bar>sint (reduce_example ! i)\<bar> \<le> 11 * 2 ^ limb_width i) [0..<10] \<and>
   fe_val reduce_example = 16 - 2 ^ 255 \<and>
   fe_val (fe25519_reduce reduce_example) = 2 ^ 255 - 3 \<and>
   (16 - 2 ^ 255) mod p25519 \<noteq> (2 ^ 255 - 3) mod p25519"
proof (intro conjI)
  show "list_all (\<lambda>i. 10 * \<bar>sint (reduce_example ! i)\<bar> \<le> 11 * 2 ^ limb_width i) [0..<10]"
    unfolding reduce_example_def by code_simp
  show "fe_val reduce_example = 16 - 2 ^ 255" by (simp add: reduce_example_def fe_val_def ival_sum)
  have "map sint (fe25519_reduce reduce_example) =
      [67108861, 33554431, 67108863, 33554431, 67108863, 33554431, 67108863, 33554431, 67108863, 33554431]"
    unfolding reduce_example_def by code_simp
  then show "fe_val (fe25519_reduce reduce_example) = 2 ^ 255 - 3" by (simp add: fe_val_def ival_sum)
qed (simp add: p25519_def)

end
