(* ===== verification/X25519.thy ===== *)
theory X25519
  imports Fe25519_Bytes
begin

text \<open>
  X25519.  The limbs represent integers modulo \<open>2^255 - 19\<close>, each step of the code's ladder is the step of
  the function in RFC 7748, section 5, and the code computes that function.
\<close>

section \<open>Representation of field elements\<close>

text \<open>\<open>repr f a\<close>: the limbs of \<open>f\<close> are tight and stand for \<open>a\<close>; \<open>wide\<close> after an addition; \<open>arg\<close> as an operand.\<close>

definition repr :: "fe25519 \<Rightarrow> int \<Rightarrow> bool" where
  "repr f a \<longleftrightarrow> tight_fe f \<and> fe_val f mod p25519 = a"

definition wide :: "fe25519 \<Rightarrow> int \<Rightarrow> bool" where
  "wide f a \<longleftrightarrow> bounded (map ((*) 2) tight) (map sint f) \<and> fe_val f mod p25519 = a"

definition operand :: "fe25519 \<Rightarrow> int \<Rightarrow> bool" where
  "operand f a \<longleftrightarrow> loose_fe f \<and> fe_val f mod p25519 = a"

definition fadd :: "int \<Rightarrow> int \<Rightarrow> int" where "fadd a b = (a + b) mod p25519"
definition fsub :: "int \<Rightarrow> int \<Rightarrow> int" where "fsub a b = (a - b) mod p25519"
definition fmul :: "int \<Rightarrow> int \<Rightarrow> int" where "fmul a b = (a * b) mod p25519"
definition fpow :: "int \<Rightarrow> nat \<Rightarrow> int" where "fpow a n = a ^ n mod p25519"

lemma operand_repr: "repr f a \<Longrightarrow> operand f a" and operand_wide: "wide f a \<Longrightarrow> operand f a"
  by (simp_all add: repr_def wide_def operand_def tight_loose twice_tight_loose)

lemma repr_add: "repr f a \<Longrightarrow> repr g b \<Longrightarrow> wide (fe25519_add f g) (fadd a b)"
  and repr_sub: "repr f a \<Longrightarrow> repr g b \<Longrightarrow> wide (fe25519_sub f g) (fsub a b)"
  using fe25519_add_ok [of f g] by (auto simp: repr_def wide_def fadd_def fsub_def mod_simps)

lemma repr_mul: "operand f a \<Longrightarrow> operand g b \<Longrightarrow> repr (fe25519_mul f g) (fmul a b)"
  using fe25519_mul_ok [of f g] by (auto simp: repr_def operand_def fmul_def mod_simps)

lemma repr_sq: "operand f a \<Longrightarrow> repr (fe25519_sq f) (fmul a a)"
  using fe25519_sq_ok [of f] by (auto simp: repr_def operand_def fmul_def mod_simps power2_eq_square)

lemma repr_mul32: "wide f a \<Longrightarrow> repr (fe25519_mul32 f 121666) (fmul 121666 a)"
  using fe25519_mul32_ok [of f] by (auto simp: repr_def wide_def fmul_def mod_simps)

lemma repr_const: "repr fe25519_0 0" "repr fe25519_1 1"
proof -
  have "map sint fe25519_0 = [0, 0, 0, 0, 0, 0, 0, 0, 0, 0]" "map sint fe25519_1 = [1, 0, 0, 0, 0, 0, 0, 0, 0, 0]"
    by (simp_all add: fe25519_0_def fe25519_1_def numeral_eq_Suc)
  then show "repr fe25519_0 0" "repr fe25519_1 1"
    by (simp_all add: repr_def bounded_def all_10 fe_val_def ival_sum p25519_def tight_def)
qed

section \<open>Conditional swap\<close>

lemma xor_list_cancel:
  fixes f g :: fe25519
  assumes "length f = length g"
  shows "map2 (XOR) f (map2 (XOR) f g) = g" "map2 (XOR) g (map2 (XOR) f g) = f"
  using assms by (auto simp: list_eq_iff_nth_eq xor.assoc xor.left_commute)

lemma cswap_cases:
  assumes "length f = length g"
  shows "fe25519_cswap f g (of_bool b) = (if b then (g, f) else (f, g))"
proof (cases b)
  case True
  then show ?thesis using xor_list_cancel [OF assms] by (simp add: fe25519_cswap_def Let_def o_def case_prod_beta' flip: map_map)
next
  case False
  have "map2 (XOR) f (map (\<lambda>x. 0) (map2 (XOR) f g)) = f" "map2 (XOR) g (map (\<lambda>x. 0) (map2 (XOR) f g)) = g"
    using assms by (auto simp: list_eq_iff_nth_eq)
  then show ?thesis using False by (simp add: fe25519_cswap_def Let_def del: map_map)
qed

section \<open>Inversion\<close>

definition power_of :: "int \<Rightarrow> nat \<Rightarrow> fe25519 \<Rightarrow> bool" where
  "power_of a n f \<longleftrightarrow> repr f (fpow a n)"

lemma power_of_mul: "power_of a m f \<Longrightarrow> power_of a n g \<Longrightarrow> power_of a (m + n) (fe25519_mul f g)"
  unfolding power_of_def using repr_mul [OF operand_repr operand_repr, of f "fpow a m" g "fpow a n"]
  by (simp add: fpow_def fmul_def power_add mod_simps)

lemma power_of_sq: "power_of a m f \<Longrightarrow> power_of a (2 * m) (fe25519_sq f)"
  unfolding power_of_def using repr_sq [OF operand_repr, of f "fpow a m"]
  by (simp add: fpow_def fmul_def mult_2 power_add mod_simps)

lemma power_of_sqn: "power_of a m f \<Longrightarrow> power_of a (2 ^ k * m) ((fe25519_sq ^^ k) f)"
  by (induction k) (use power_of_sq in \<open>simp_all add: mult.assoc\<close>)

lemma power_of_1: "repr f a \<Longrightarrow> power_of a 1 f"
  by (auto simp: power_of_def fpow_def repr_def)

text \<open>The addition chain computes the power \<open>p - 2\<close>, and that of \<open>fe25519_pow22523\<close> the power \<open>(p - 5) / 8\<close>.\<close>

lemma power_of_let: "power_of a m f \<Longrightarrow> (\<And>y. power_of a m y \<Longrightarrow> power_of a e (F y)) \<Longrightarrow> power_of a e (let y = f in F y)"
  by simp

lemma power_of_exponent: "power_of a m f \<Longrightarrow> m = e \<Longrightarrow> power_of a e f"
  by simp

lemma power_of_invert:
  assumes "repr z a"
  shows "power_of a (nat (p25519 - 2)) (fe25519_invert z)"
  using power_of_1 [OF assms] unfolding fe25519_invert_def
  apply -
  apply (rule power_of_let, (rule power_of_mul power_of_sq power_of_sqn; assumption))+
  apply (rule power_of_exponent, rule power_of_mul, assumption, assumption)
  by (simp add: p25519_def)

lemma power_of_pow22523:
  assumes "repr z a"
  shows "power_of a (2 ^ 252 - 3) (fe25519_pow22523 z)"
  using power_of_1 [OF assms] unfolding fe25519_pow22523_def
  apply -
  apply (rule power_of_let, (rule power_of_mul power_of_sq power_of_sqn; assumption))+
  apply (rule power_of_exponent, rule power_of_mul, assumption, assumption)
  by simp

section \<open>X25519 of RFC 7748\<close>

text \<open>
  The function as the RFC gives it, over the integers modulo \<open>p\<close>: the decoding of the scalar and of
  the coordinate, the step of the ladder and the final division.
\<close>

definition decode_scalar :: "bytes \<Rightarrow> nat" where
  "decode_scalar n = le_val n mod 2 ^ 254 div 8 * 8 + 2 ^ 254"

definition decode_coordinate :: "bytes \<Rightarrow> int" where
  "decode_coordinate u = int (le_val u) mod 2 ^ 255 mod p25519"

definition swap_if :: "bool \<Rightarrow> int \<times> int \<Rightarrow> int \<times> int" where
  "swap_if b = (\<lambda>(x, y). if b then (y, x) else (x, y))"

definition x25519_step :: "nat \<Rightarrow> int \<Rightarrow> nat \<Rightarrow> int \<times> int \<times> int \<times> int \<times> bool \<Rightarrow> int \<times> int \<times> int \<times> int \<times> bool" where
  "x25519_step k x1 t = (\<lambda>(x2, z2, x3, z3, swap).
     let kt = bit k t;
         (x2, x3) = swap_if (swap \<noteq> kt) (x2, x3);
         (z2, z3) = swap_if (swap \<noteq> kt) (z2, z3);
         A = fadd x2 z2; AA = fmul A A;
         B = fsub x2 z2; BB = fmul B B;
         E = fsub AA BB;
         C = fadd x3 z3; D = fsub x3 z3;
         DA = fmul D A; CB = fmul C B;
         x3 = fmul (fadd DA CB) (fadd DA CB);
         z3 = fmul x1 (fmul (fsub DA CB) (fsub DA CB));
         x2 = fmul AA BB;
         z2 = fmul E (fadd AA (fmul 121665 E))
     in (x2, z2, x3, z3, kt))"

definition x25519 :: "nat \<Rightarrow> int \<Rightarrow> int" where
  "x25519 k u =
     (let (x2, z2, x3, z3, swap) = fold (x25519_step k u) (rev [0..<255]) (1, 0, u, 1, False);
          (x2, x3) = swap_if swap (x2, x3);
          (z2, z3) = swap_if swap (z2, z3)
      in fmul x2 (fpow z2 (nat (p25519 - 2))))"

section \<open>The ladder\<close>

definition ladder_repr :: "ladder \<Rightarrow> int \<times> int \<times> int \<times> int \<times> bool \<Rightarrow> bool" where
  "ladder_repr l = (\<lambda>(x2, z2, x3, z3, swap). repr (ld_x2 l) x2 \<and> repr (ld_z2 l) z2 \<and> repr (ld_x3 l) x3 \<and>
     repr (ld_z3 l) z3 \<and> ld_swap l = of_bool swap)"

lemma repr_length: "repr f a \<Longrightarrow> length f = 10"
  by (simp add: repr_def bounded_def)

lemma of_bool_xor: "(of_bool a :: u32) XOR of_bool b = of_bool (a \<noteq> b)"
  by simp

lemma ladder_swap_repr:
  assumes "ladder_repr l (x2, z2, x3, z3, s)"
  shows "ladder_repr (ladder_swap (of_bool b) l)
    (fst (swap_if (s \<noteq> b) (x2, x3)), fst (swap_if (s \<noteq> b) (z2, z3)),
     snd (swap_if (s \<noteq> b) (x2, x3)), snd (swap_if (s \<noteq> b) (z2, z3)), b)"
proof -
  have r: "repr (ld_x2 l) x2" "repr (ld_z2 l) z2" "repr (ld_x3 l) x3" "repr (ld_z3 l) z3" "ld_swap l = of_bool s"
    using assms by (simp_all add: ladder_repr_def)
  have c: "fe25519_cswap (ld_x2 l) (ld_x3 l) (of_bool s XOR of_bool b) = (if s \<noteq> b then (ld_x3 l, ld_x2 l) else (ld_x2 l, ld_x3 l))"
    "fe25519_cswap (ld_z2 l) (ld_z3 l) (of_bool s XOR of_bool b) = (if s \<noteq> b then (ld_z3 l, ld_z2 l) else (ld_z2 l, ld_z3 l))"
    unfolding of_bool_xor using r by (intro cswap_cases; simp add: repr_length)+
  show ?thesis
    unfolding ladder_swap_def r(5) Let_def c using r by (simp add: ladder_repr_def swap_if_def)
qed

lemma montgomery_z: "fadd bb (fmul 121666 (fsub aa bb)) = fadd aa (fmul 121665 (fsub aa bb))"
proof -
  have "fadd bb (fmul 121666 (fsub aa bb)) = (bb + 121666 * (aa - bb)) mod p25519"
    "fadd aa (fmul 121665 (fsub aa bb)) = (aa + 121665 * (aa - bb)) mod p25519"
    by (simp_all only: fadd_def fmul_def fsub_def mod_simps)
  then show ?thesis by (simp add: algebra_simps)
qed

lemma ladder_arith_repr:
  assumes "ladder_repr l (x2, z2, x3, z3, s)" "repr u x1"
  defines "A \<equiv> fadd x2 z2" and "B \<equiv> fsub x2 z2" and "C \<equiv> fadd x3 z3" and "D \<equiv> fsub x3 z3"
  shows "ladder_repr (ladder_arith u l)
    (fmul (fmul A A) (fmul B B),
     fmul (fsub (fmul A A) (fmul B B)) (fadd (fmul A A) (fmul 121665 (fsub (fmul A A) (fmul B B)))),
     fmul (fadd (fmul D A) (fmul C B)) (fadd (fmul D A) (fmul C B)),
     fmul x1 (fmul (fsub (fmul D A) (fmul C B)) (fsub (fmul D A) (fmul C B))), s)"
proof -
  have r: "repr (ld_x2 l) x2" "repr (ld_z2 l) z2" "repr (ld_x3 l) x3" "repr (ld_z3 l) z3" "ld_swap l = of_bool s"
    using assms by (simp_all add: ladder_repr_def)
  define d b a c where "d = fe25519_sub (ld_x3 l) (ld_z3 l)" and "b = fe25519_sub (ld_x2 l) (ld_z2 l)"
    and "a = fe25519_add (ld_x2 l) (ld_z2 l)" and "c = fe25519_add (ld_x3 l) (ld_z3 l)"
  have w: "operand d D" "operand b B" "operand a A" "operand c C"
    unfolding d_def b_def a_def c_def D_def B_def A_def C_def
    by (intro operand_wide repr_add repr_sub r)+
  define da cb bb aa where "da = fe25519_mul d a" and "cb = fe25519_mul c b" and "bb = fe25519_sq b" and "aa = fe25519_sq a"
  have m: "repr da (fmul D A)" "repr cb (fmul C B)" "repr bb (fmul B B)" "repr aa (fmul A A)"
    unfolding da_def cb_def bb_def aa_def using repr_mul repr_sq w by blast+
  define e where "e = fe25519_sub aa bb"
  have e: "wide e (fsub (fmul A A) (fmul B B))" unfolding e_def by (rule repr_sub [OF m(4,3)])
  have x3: "repr (fe25519_sq (fe25519_add da cb)) (fmul (fadd (fmul D A) (fmul C B)) (fadd (fmul D A) (fmul C B)))"
    by (intro repr_sq operand_wide repr_add m)
  have z3: "repr (fe25519_mul u (fe25519_sq (fe25519_sub da cb)))
      (fmul x1 (fmul (fsub (fmul D A) (fmul C B)) (fsub (fmul D A) (fmul C B))))"
    by (intro repr_mul repr_sq operand_repr [OF repr_sq] operand_repr [OF assms(2)] operand_wide repr_sub m)
  have x2: "repr (fe25519_mul aa bb) (fmul (fmul A A) (fmul B B))" by (intro repr_mul operand_repr m)
  have "wide (fe25519_add bb (fe25519_mul32 e 121666)) (fadd (fmul B B) (fmul 121666 (fsub (fmul A A) (fmul B B))))"
    by (intro repr_add m repr_mul32 e)
  then have z2: "repr (fe25519_mul e (fe25519_add bb (fe25519_mul32 e 121666)))
      (fmul (fsub (fmul A A) (fmul B B)) (fadd (fmul A A) (fmul 121665 (fsub (fmul A A) (fmul B B)))))"
    unfolding montgomery_z by (intro repr_mul operand_wide e)
  have "ladder_arith u l = \<lparr>ld_x2 = fe25519_mul aa bb, ld_z2 = fe25519_mul e (fe25519_add bb (fe25519_mul32 e 121666)),
      ld_x3 = fe25519_sq (fe25519_add da cb), ld_z3 = fe25519_mul u (fe25519_sq (fe25519_sub da cb)), ld_swap = ld_swap l\<rparr>"
    unfolding ladder_arith_def Let_def e_def aa_def bb_def da_def cb_def a_def b_def c_def d_def ..
  then show ?thesis using x2 z2 x3 z3 r(5) by (simp add: ladder_repr_def)
qed

lemma ladder_step_repr:
  assumes "ladder_repr l p" "repr u x1" "ladder_bit t pos = of_bool (bit k pos)"
  shows "ladder_repr (ladder_step t u pos l) (x25519_step k x1 pos p)"
proof -
  obtain x2 z2 x3 z3 s where p: "p = (x2, z2, x3, z3, s)" by (cases p)
  note sw = ladder_swap_repr [OF assms(1) [unfolded p], of "bit k pos"]
  show ?thesis
    using ladder_arith_repr [OF sw assms(2)]
    unfolding ladder_step_def assms(3) p x25519_step_def by (simp add: Let_def case_prod_beta)
qed

section \<open>The scalar\<close>

lemma bit_le_val: "pos < 8 * length t \<Longrightarrow> bit (le_val t) pos = bit (t ! (pos div 8)) (pos mod 8)"
proof (induction t arbitrary: pos)
  case (Cons b t)
  have v: "le_val (b # t) = unat b OR push_bit 8 (le_val t)"
  proof -
    have "unat b AND push_bit 8 (le_val t) = 0"
      by (rule bit_eqI) (auto simp: bit_and_iff bit_push_bit_iff bit_simps)
    then have "unat b OR push_bit 8 (le_val t) = unat b + push_bit 8 (le_val t)" by (simp only: disjunctive_add_eq_or)
    then show ?thesis by (simp add: push_bit_eq_mult)
  qed
  show ?case
  proof (cases "pos < 8")
    case True
    then show ?thesis unfolding v by (simp add: bit_or_iff bit_push_bit_iff bit_simps)
  next
    case False
    then have "pos div 8 = Suc ((pos - 8) div 8)" "pos mod 8 = (pos - 8) mod 8" by (simp_all add: div_if mod_if)
    moreover have "bit (le_val t) (pos - 8) = bit (t ! ((pos - 8) div 8)) ((pos - 8) mod 8)"
      using Cons.IH [of "pos - 8"] Cons.prems False by simp
    ultimately show ?thesis using False unfolding v by (simp add: bit_or_iff bit_push_bit_iff bit_simps)
  qed
qed simp

lemma drop_bit_and_1: "drop_bit m w AND 1 = (of_bool (bit w m) :: 'a::len word)"
  by (rule bit_word_eqI) (auto simp: bit_simps)

lemma ladder_bit_eq: "pos < 8 * length t \<Longrightarrow> ladder_bit t pos = of_bool (bit (le_val t) pos)"
proof -
  have "bit (ucast b :: u32) m = bit b m" if "m < 8" for b :: u8 and m using that by (simp add: bit_simps)
  from this [of "pos mod 8" "t ! (pos div 8)"]
  show "pos < 8 * length t \<Longrightarrow> ladder_bit t pos = of_bool (bit (le_val t) pos)"
    by (simp add: ladder_bit_def bit_le_val drop_bit_and_1)
qed

lemma clamp_bytes: "list_all (\<lambda>k. unat ((word_of_nat k :: u8) AND 248) = k div 8 * 8 \<and>
    unat (((word_of_nat k :: u8) AND 127) OR 64) = k mod 64 + 64) [0..<256]"
  by code_simp

lemma unat_clamp: "unat ((b :: u8) AND 248) = unat b div 8 * 8" "unat (((b :: u8) AND 127) OR 64) = unat b mod 64 + 64"
proof -
  have "unat b < 256" by simp
  then have "unat ((word_of_nat (unat b) :: u8) AND 248) = unat b div 8 * 8 \<and>
    unat (((word_of_nat (unat b) :: u8) AND 127) OR 64) = unat b mod 64 + 64"
    using clamp_bytes unfolding list_all_iff set_upt by (metis atLeastLessThan_iff zero_le)
  then show "unat (b AND 248) = unat b div 8 * 8" "unat ((b AND 127) OR 64) = unat b mod 64 + 64" by simp_all
qed

lemma length_clamp [simp]: "length (clamp n) = length n"
  by (simp add: clamp_def Let_def)

lemma le_val_clamp:
  assumes "length n = 32"
  shows "le_val (clamp n) = decode_scalar n"
proof -
  obtain a ms b where n: "n = a # ms @ [b]" "length ms = 30"
  proof -
    obtain a r where "n = a # r" "length r = 31" using assms by (cases n) auto
    moreover obtain ms b where "r = ms @ [b]" "length ms = 30" using \<open>length r = 31\<close> by (cases r rule: rev_cases) auto
    ultimately show ?thesis using that by blast
  qed
  have c: "clamp n = (a AND 248) # ms @ [(b AND 127) OR 64]"
    using n(2) by (simp add: n(1) clamp_def nth_append list_update_append)
  let ?m = "le_val ms"
  have v: "le_val n = unat a + 256 * ?m + 2 ^ 248 * unat b"
    "le_val (clamp n) = unat a div 8 * 8 + 256 * ?m + 2 ^ 248 * (unat b mod 64 + 64)"
    unfolding c by (simp_all add: n le_val_append unat_clamp)
  have m: "?m < 2 ^ 240" using le_val_less [of ms] n(2) by simp
  let ?l = "unat a + 256 * ?m + 2 ^ 248 * (unat b mod 64)"
  have "unat b = unat b mod 64 + 64 * (unat b div 64)" by simp
  then obtain q where q: "unat b = unat b mod 64 + 64 * q" by blast
  have "le_val n = ?l + 2 ^ 254 * q" unfolding v(1) by (subst q) (simp add: algebra_simps)
  moreover have "?l < 2 ^ 254"
  proof -
    have "unat a \<le> 255" "unat b mod 64 \<le> 63" using unat_byte_le [of a] by simp_all
    moreover have "Suc ?m \<le> 2 ^ 240" using m by (rule Suc_leI)
    ultimately show ?thesis by simp
  qed
  ultimately have "le_val n mod 2 ^ 254 = ?l" by simp
  moreover have "?l div 8 = unat a div 8 + 32 * ?m + 2 ^ 245 * (unat b mod 64)"
  proof -
    have "?l = unat a + (32 * ?m + 2 ^ 245 * (unat b mod 64)) * 8" by simp
    then show ?thesis by simp
  qed
  ultimately show ?thesis unfolding decode_scalar_def v(2) by (simp add: algebra_simps)
qed

section \<open>Points of small order\<close>

lemma fold_or_0: "fold (\<lambda>j c. c OR f j) xs a = 0 \<longleftrightarrow> a = 0 \<and> (\<forall>j \<in> set xs. f j = (0 :: 'a::len word))"
  by (induction xs arbitrary: a) (auto simp: or_eq_0_iff)

lemma bit_8_of_pred: "bit (ucast (c :: u8) - 1 :: u32) 8 \<longleftrightarrow> c = 0"
proof (cases "c = 0")
  case False
  then have c: "0 < unat c" "unat c < 256" by (simp_all add: unat_gt_0)
  have "unat c mod 2 ^ 32 = unat c" by (intro mod_less less_trans [OF c(2)]) simp
  then have u: "unat (ucast c :: u32) = unat c" by (simp add: unsigned_ucast_eq take_bit_eq_mod)
  have "1 \<le> (ucast c :: u32)" unfolding word_le_nat_alt u using c(1) by simp
  then have "unat (ucast c - 1 :: u32) = unat c - 1" using u by (simp only: unat_sub unsigned_1)
  then have "unat (ucast c - 1 :: u32) < 2 ^ 8" using less_imp_diff_less [OF c(2)] by (simp only:) simp
  then have "take_bit 8 (ucast c - 1 :: u32) = ucast c - 1" by (simp add: word_unat_eq_iff unsigned_take_bit_eq take_bit_nat_eq_self)
  then have "\<not> bit (ucast c - 1 :: u32) 8" by (metis bit_take_bit_iff less_irrefl)
  then show ?thesis using False by simp
qed (simp add: bit_minus_1_iff)

lemma bit_fold_or: "bit (fold (\<lambda>c k. k OR g c) cs k) i \<longleftrightarrow> bit k i \<or> (\<exists>c \<in> set cs. bit (g c :: 'a::len word) i)"
  by (induction cs arbitrary: k) (auto simp: bit_or_iff)

lemma masked_value:
  assumes "length s = 32"
  shows "le_val (s[31 := s ! 31 AND 0x7f]) = le_val s mod 2 ^ 255"
proof -
  obtain r b where s: "s = r @ [b]" "length r = 31" using assms by (cases s rule: rev_cases) auto
  have "unat (b AND 0x7f) = unat b mod 128"
  proof -
    have "(0x7f :: u8) = mask 7" by (simp add: mask_eq_exp_minus_1)
    then have "b AND 0x7f = take_bit 7 b" by (simp only: take_bit_eq_mask)
    then show ?thesis by (simp only: unsigned_take_bit_eq) (simp add: take_bit_eq_mod)
  qed
  then have v: "le_val (s[31 := s ! 31 AND 0x7f]) = le_val r + 2 ^ 248 * (unat b mod 128)" "le_val s = le_val r + 2 ^ 248 * unat b"
    using s by (simp_all add: list_update_append le_val_append nth_append)
  let ?m = "unat b mod 128"
  have "unat b = ?m + 128 * (unat b div 128)" by simp
  then obtain q where q: "unat b = ?m + 128 * q" by blast
  have "le_val s = (le_val r + 2 ^ 248 * ?m) + 2 ^ 255 * q" unfolding v(2) by (subst q) (simp add: algebra_simps)
  moreover have "le_val r + 2 ^ 248 * ?m < 2 ^ 255"
  proof -
    have "Suc (le_val r) \<le> 2 ^ 248" using le_val_less [of r] s(2) by (simp add: Suc_leI)
    moreover have "?m \<le> 127" by simp
    ultimately show ?thesis by simp
  qed
  ultimately have "le_val s mod 2 ^ 255 = le_val r + 2 ^ 248 * ?m" by simp
  then show ?thesis unfolding v(1) by simp
qed

lemma xor_eq_0: "a XOR b = 0 \<longleftrightarrow> a = (b :: 'a::len word)"
  by (metis xor.right_neutral xor_self_eq xor.left_commute xor.assoc)

lemma blocklist_length: "b \<in> set blocklist \<Longrightarrow> length b = 32"
  by (auto simp: blocklist_def)

lemma blocklisted_value:
  assumes "length s = 32" "\<And>b. b \<in> set bl \<Longrightarrow> length b = 32"
  shows "blocklisted bl s \<longleftrightarrow> le_val s mod 2 ^ 255 \<in> set (map le_val bl)"
proof -
  let ?s = "s[31 := s ! 31 AND 0x7f]"
  let ?c = "\<lambda>b. fold (\<lambda>j c. c OR (s ! j XOR b ! j)) [0..<31] 0 OR ((s ! 31 AND 0x7f) XOR b ! 31)"
  have c: "?c b = 0 \<longleftrightarrow> ?s = b" if "b \<in> set bl" for b
  proof -
    have "?c b = 0 \<longleftrightarrow> (\<forall>j<31. s ! j = b ! j) \<and> s ! 31 AND 0x7f = b ! 31"
      by (simp add: or_eq_0_iff fold_or_0 xor_eq_0 atLeast0LessThan lessThan_iff Ball_def del: upt_rec_numeral)
    also have "\<dots> \<longleftrightarrow> (\<forall>j<32. ?s ! j = b ! j)"
    proof -
      have "j < 32 \<longleftrightarrow> j < 31 \<or> j = 31" for j :: nat by auto
      moreover have "?s ! 31 = s ! 31 AND 0x7f" using assms by simp
      moreover have "?s ! j = s ! j" if "j < 31" for j using that by simp
      ultimately show ?thesis by metis
    qed
    also have "\<dots> \<longleftrightarrow> ?s = b" using assms assms(2) [OF that] by (simp add: list_eq_iff_nth_eq)
    finally show ?thesis .
  qed
  have "blocklisted bl s \<longleftrightarrow> (\<exists>b \<in> set bl. ?c b = 0)"
    unfolding blocklisted_def Let_def drop_bit_and_1 by (simp add: bit_fold_or bit_8_of_pred) (auto simp: image_iff)
  also have "\<dots> \<longleftrightarrow> (\<exists>b \<in> set bl. ?s = b)" using c by blast
  also have "\<dots> \<longleftrightarrow> (\<exists>b \<in> set bl. le_val ?s = le_val b)"
    using le_val_inj [of ?s] assms by (metis length_list_update)
  also have "\<dots> \<longleftrightarrow> le_val s mod 2 ^ 255 \<in> set (map le_val bl)" unfolding masked_value [OF assms(1)] by auto
  finally show ?thesis .
qed

lemma has_small_order_value:
  "length s = 32 \<Longrightarrow> has_small_order s \<longleftrightarrow> le_val s mod 2 ^ 255 \<in> set (map le_val blocklist)"
  unfolding has_small_order_def by (rule blocklisted_value [OF _ blocklist_length])

section \<open>The code computes X25519\<close>

lemma ladder_fold_repr:
  assumes "repr u x1" "length t = 32" "\<forall>pos \<in> set ps. pos < 256" "ladder_repr l p"
  shows "ladder_repr (fold (ladder_step t u) ps l) (fold (x25519_step (le_val t) x1) ps p)"
  using assms(3,4)
proof (induction ps arbitrary: l p)
  case (Cons pos ps)
  then have "ladder_bit t pos = of_bool (bit (le_val t) pos)" using ladder_bit_eq [of pos t] assms(2) by simp
  from ladder_step_repr [OF Cons.prems(2) assms(1) this] show ?case using Cons by simp
qed simp

lemma x25519_code:
  assumes "length n = 32" "length p = 32" "\<not> has_small_order p"
  shows "\<exists>q. crypto_scalarmult_curve25519_ref10 n p = Inr q \<and> length q = 32 \<and>
    int (le_val q) = x25519 (decode_scalar n) (decode_coordinate p)"
proof -
  let ?t = "clamp n" and ?u = "fe25519_frombytes p" and ?x1 = "decode_coordinate p"
  have u: "repr ?u ?x1" using fe25519_frombytes_ok [OF assms(2)] by (simp add: repr_def decode_coordinate_def)
  let ?l0 = "\<lparr>ld_x2 = fe25519_1, ld_z2 = fe25519_0, ld_x3 = ?u, ld_z3 = fe25519_1, ld_swap = 0\<rparr>"
  have "ladder_repr ?l0 (1, 0, ?x1, 1, False)" using u repr_const by (simp add: ladder_repr_def)
  from ladder_fold_repr [OF u _ _ this, of ?t "rev [0..<255]"]
  have l: "ladder_repr (fold (ladder_step ?t ?u) (rev [0..<255]) ?l0)
      (fold (x25519_step (decode_scalar n) ?x1) (rev [0..<255]) (1, 0, ?x1, 1, False))"
    using assms(1) by (simp add: le_val_clamp del: upt_rec_numeral)
  let ?l = "fold (ladder_step ?t ?u) (rev [0..<255]) ?l0"
  obtain x2 z2 x3 z3 s where f: "fold (x25519_step (decode_scalar n) ?x1) (rev [0..<255]) (1, 0, ?x1, 1, False) = (x2, z2, x3, z3, s)"
    by (cases "fold (x25519_step (decode_scalar n) ?x1) (rev [0..<255]) (1, 0, ?x1, 1, False)")
  let ?X = "fst (swap_if s (x2, x3))" and ?Z = "fst (swap_if s (z2, z3))"
  have sw: "ladder_repr (ladder_swap 0 ?l) (?X, ?Z, snd (swap_if s (x2, x3)), snd (swap_if s (z2, z3)), False)"
    using ladder_swap_repr [OF l [unfolded f], of False] by simp
  then have r: "repr (ld_x2 (ladder_swap 0 ?l)) ?X" "repr (ld_z2 (ladder_swap 0 ?l)) ?Z" by (simp_all add: ladder_repr_def)
  let ?q = "fe25519_mul (ld_x2 (ladder_swap 0 ?l)) (fe25519_invert (ld_z2 (ladder_swap 0 ?l)))"
  have "repr ?q (fmul ?X (fpow ?Z (nat (p25519 - 2))))"
    using repr_mul operand_repr r(1) power_of_invert [OF r(2)] unfolding power_of_def by blast
  then have "length (fe25519_tobytes ?q) = 32" "int (le_val (fe25519_tobytes ?q)) = fmul ?X (fpow ?Z (nat (p25519 - 2)))"
    using fe25519_tobytes_ok [of ?q] by (auto simp: repr_def)
  moreover have "x25519 (decode_scalar n) ?x1 = fmul ?X (fpow ?Z (nat (p25519 - 2)))"
    unfolding x25519_def f by (simp add: case_prod_beta)
  moreover have "crypto_scalarmult_curve25519_ref10 n p = Inr (fe25519_tobytes ?q)"
    using assms(3) unfolding crypto_scalarmult_curve25519_ref10_def Let_def by (simp only: if_False)
  ultimately show ?thesis by simp
qed

section \<open>Encoding and points of small order\<close>

fun encode_le :: "nat \<Rightarrow> nat \<Rightarrow> bytes" where
  "encode_le 0 v = []"
| "encode_le (Suc n) v = word_of_nat (v mod 256) # encode_le n (v div 256)"

lemma encode_le_val: "encode_le (length bs) (le_val bs) = bs"
proof (induction bs)
  case (Cons b bs)
  have "unat b < 256" by simp
  then have "(unat b + 256 * le_val bs) mod 256 = unat b" "(unat b + 256 * le_val bs) div 256 = le_val bs" by simp_all
  then show ?case using Cons by simp
qed simp

text \<open>The coordinates the code takes to be of points whose order divides 8.\<close>

definition small_order_coordinates :: "int list" where
  "small_order_coordinates =
     [0, 1, 325606250916557431795983626356110631294008115727848805560023387167927233504,
      39382357235489614581723060781553021112529911719440698176882885853963445705823, p25519 - 1]"

lemma blocklist_values: "map le_val blocklist =
  [0, 1, 325606250916557431795983626356110631294008115727848805560023387167927233504,
   39382357235489614581723060781553021112529911719440698176882885853963445705823,
   57896044618658097711785492504343953926634992332820282019728792003956564819948,
   57896044618658097711785492504343953926634992332820282019728792003956564819949,
   57896044618658097711785492504343953926634992332820282019728792003956564819950]"
  by (simp add: blocklist_def)

lemma prime_value: "p25519 = 57896044618658097711785492504343953926634992332820282019728792003956564819949"
  by (simp add: p25519_def)

lemma small_order_residue:
  assumes "v < 2 ^ 255"
  shows "v \<in> set (map le_val blocklist) \<longleftrightarrow> int v mod p25519 \<in> set small_order_coordinates"
proof (cases "v < 57896044618658097711785492504343953926634992332820282019728792003956564819949")
  case True
  then have "int v mod p25519 = int v" unfolding prime_value by simp
  then show ?thesis using True unfolding blocklist_values small_order_coordinates_def prime_value by (simp only: set_simps insert_iff empty_iff) simp
next
  case False
  then obtain d where d: "v = 57896044618658097711785492504343953926634992332820282019728792003956564819949 + d" by (metis le_Suc_ex linorder_not_less)
  then have "d < 19" using assms by simp
  then have m: "int v mod p25519 = int d" unfolding d prime_value by simp
  have "v \<in> set (map le_val blocklist) \<longleftrightarrow> d = 0 \<or> d = 1" unfolding blocklist_values d by auto
  moreover have "int d \<in> set small_order_coordinates \<longleftrightarrow> d = 0 \<or> d = 1"
    unfolding small_order_coordinates_def prime_value using \<open>d < 19\<close> by auto
  ultimately show ?thesis unfolding m by simp
qed

lemma has_small_order_coordinate: "length p = 32 \<Longrightarrow> has_small_order p \<longleftrightarrow> decode_coordinate p \<in> set small_order_coordinates"
  using has_small_order_value [of p] small_order_residue [of "le_val p mod 2 ^ 255"]
  by (simp add: decode_coordinate_def zmod_int)

text \<open>
  C34: \<open>crypto_scalarmult_curve25519_ref10\<close> computes the function X25519 of RFC 7748 on every scalar and
  coordinate, encoded in canonical form, except that it refuses the coordinates of points of small
  order however they are encoded.
\<close>

theorem x25519_rfc7748:
  assumes "length n = 32" "length p = 32"
  shows "crypto_scalarmult_curve25519_ref10 n p =
      (if decode_coordinate p \<in> set small_order_coordinates then Inl (Ret (- 1))
       else Inr (encode_le 32 (nat (x25519 (decode_scalar n) (decode_coordinate p)))))"
proof (cases "has_small_order p")
    case True
    then show ?thesis using has_small_order_coordinate [OF assms(2)] by (simp add: crypto_scalarmult_curve25519_ref10_def)
  next
    case False
    from x25519_code [OF assms this] obtain q where
      q: "crypto_scalarmult_curve25519_ref10 n p = Inr q" "length q = 32" "int (le_val q) = x25519 (decode_scalar n) (decode_coordinate p)"
      by blast
    have "q = encode_le 32 (nat (x25519 (decode_scalar n) (decode_coordinate p)))"
      using encode_le_val [of q] q(2) by (simp flip: q(3))
    then show ?thesis using False has_small_order_coordinate [OF assms(2)] q(1) by simp
qed

text \<open>The base point, and the coordinate 1 in its second encoding, which the code refuses.\<close>

lemma x25519_rfc7748_witness:
  "crypto_scalarmult_curve25519_ref10 (replicate 32 7) (9 # replicate 31 0) =
     Inr (encode_le 32 (nat (x25519 (decode_scalar (replicate 32 7)) 9))) \<and>
   crypto_scalarmult_curve25519_ref10 (replicate 32 7) (blocklist ! 6) = Inl (Ret (- 1))"
proof (rule conjI)
  have "decode_coordinate (9 # replicate 31 0) = 9"
    by (simp add: decode_coordinate_def prime_value)
  then show "crypto_scalarmult_curve25519_ref10 (replicate 32 7) (9 # replicate 31 0) =
     Inr (encode_le 32 (nat (x25519 (decode_scalar (replicate 32 7)) 9)))"
    using x25519_rfc7748 [of "replicate 32 7" "9 # replicate 31 0"] by (simp add: small_order_coordinates_def prime_value del: replicate.simps)
  have l: "length (blocklist ! 6) = 32" by (simp add: blocklist_def)
  have "le_val (blocklist ! 6) = map le_val blocklist ! 6" by (simp add: blocklist_def)
  then have "decode_coordinate (blocklist ! 6) = 1"
    unfolding blocklist_values by (simp add: decode_coordinate_def prime_value)
  then show "crypto_scalarmult_curve25519_ref10 (replicate 32 7) (blocklist ! 6) = Inl (Ret (- 1))"
    using x25519_rfc7748 [of "replicate 32 7" "blocklist ! 6"] l by (simp add: small_order_coordinates_def)
qed

end
