(* ===== verification/Sc25519.thy ===== *)
theory Sc25519
  imports Fe25519
begin

text \<open>
  Scalars of Curve25519: integers modulo \<open>L = 2^252 + 27742317777372353535851937790883648493\<close>, the order of
  the base point, in limbs of 21 bits kept in signed 64-bit words (\<open>ed25519_ref10.c\<close>).  The variables \<open>s0\<close>
  to \<open>s23\<close> of the code are a list of 24 words.
\<close>

section \<open>Carries and folds\<close>

text \<open>One carry to the next limb, rounding to a multiple of \<open>2^21\<close>, and one rounding down.\<close>

definition sc_round :: "nat \<Rightarrow> i64 list \<Rightarrow> i64 list" where
  "sc_round i s =
     (let carry = sshift (s ! i + 2 ^ 20) 21;
          s = s[Suc i := s ! Suc i + carry]
      in s[i := s ! i - carry * 2 ^ 21])"

definition sc_floor :: "nat \<Rightarrow> i64 list \<Rightarrow> i64 list" where
  "sc_floor i s =
     (let carry = sshift (s ! i) 21;
          s = s[Suc i := s ! Suc i + carry]
      in s[i := s ! i - carry * 2 ^ 21])"

text \<open>Limb \<open>k\<close> stands for a multiple of \<open>2^252\<close>; it goes to six lower limbs and is not used again before it is set.\<close>

definition sc_fold :: "nat \<Rightarrow> i64 list \<Rightarrow> i64 list" where
  "sc_fold k s =
     s[k - 12 := s ! (k - 12) + s ! k * 666643,
       k - 11 := s ! (k - 11) + s ! k * 470296,
       k - 10 := s ! (k - 10) + s ! k * 654183,
       k - 9 := s ! (k - 9) - s ! k * 997805,
       k - 8 := s ! (k - 8) + s ! k * 136657,
       k - 7 := s ! (k - 7) - s ! k * 683901]"

text \<open>The common end of \<open>sc25519_mul\<close>, \<open>sc25519_muladd\<close> and \<open>sc25519_reduce\<close>.\<close>

definition sc_reduce_limbs :: "i64 list \<Rightarrow> i64 list" where
  "sc_reduce_limbs s =
     (let s = fold sc_fold [23, 22, 21, 20, 19, 18] s;
          s = fold sc_round [6, 8, 10, 12, 14, 16] s;
          s = fold sc_round [7, 9, 11, 13, 15] s;
          s = fold sc_fold [17, 16, 15, 14, 13, 12] s;
          s = s[12 := 0];
          s = fold sc_round [0, 2, 4, 6, 8, 10] s;
          s = fold sc_round [1, 3, 5, 7, 9, 11] s;
          s = sc_fold 12 s;
          s = s[12 := 0];
          s = fold sc_floor [0, 1, 2, 3, 4, 5, 6, 7, 8, 9, 10, 11] s;
          s = sc_fold 12 s
      in fold sc_floor [0, 1, 2, 3, 4, 5, 6, 7, 8, 9, 10] s)"

section \<open>Loads and stores\<close>

text \<open>The 12 limbs of 32 bytes; the last one keeps all the bits that are left.\<close>

definition sc_load :: "bytes \<Rightarrow> i64 list" where
  "sc_load s =
     [2097151 AND (load_3 s),
      2097151 AND drop_bit 5 (load_4 (drop 2 s)),
      2097151 AND drop_bit 2 (load_3 (drop 5 s)),
      2097151 AND drop_bit 7 (load_4 (drop 7 s)),
      2097151 AND drop_bit 4 (load_4 (drop 10 s)),
      2097151 AND drop_bit 1 (load_3 (drop 13 s)),
      2097151 AND drop_bit 6 (load_4 (drop 15 s)),
      2097151 AND drop_bit 3 (load_3 (drop 18 s)),
      2097151 AND (load_3 (drop 21 s)),
      2097151 AND drop_bit 5 (load_4 (drop 23 s)),
      2097151 AND drop_bit 2 (load_3 (drop 26 s)),
      drop_bit 7 (load_4 (drop 28 s))]"

text \<open>The 24 limbs of 64 bytes\<close>

definition sc_load_64 :: "bytes \<Rightarrow> i64 list" where
  "sc_load_64 s =
     [2097151 AND (load_3 s),
      2097151 AND drop_bit 5 (load_4 (drop 2 s)),
      2097151 AND drop_bit 2 (load_3 (drop 5 s)),
      2097151 AND drop_bit 7 (load_4 (drop 7 s)),
      2097151 AND drop_bit 4 (load_4 (drop 10 s)),
      2097151 AND drop_bit 1 (load_3 (drop 13 s)),
      2097151 AND drop_bit 6 (load_4 (drop 15 s)),
      2097151 AND drop_bit 3 (load_3 (drop 18 s)),
      2097151 AND (load_3 (drop 21 s)),
      2097151 AND drop_bit 5 (load_4 (drop 23 s)),
      2097151 AND drop_bit 2 (load_3 (drop 26 s)),
      2097151 AND drop_bit 7 (load_4 (drop 28 s)),
      2097151 AND drop_bit 4 (load_4 (drop 31 s)),
      2097151 AND drop_bit 1 (load_3 (drop 34 s)),
      2097151 AND drop_bit 6 (load_4 (drop 36 s)),
      2097151 AND drop_bit 3 (load_3 (drop 39 s)),
      2097151 AND (load_3 (drop 42 s)),
      2097151 AND drop_bit 5 (load_4 (drop 44 s)),
      2097151 AND drop_bit 2 (load_3 (drop 47 s)),
      2097151 AND drop_bit 7 (load_4 (drop 49 s)),
      2097151 AND drop_bit 4 (load_4 (drop 52 s)),
      2097151 AND drop_bit 1 (load_3 (drop 55 s)),
      2097151 AND drop_bit 6 (load_4 (drop 57 s)),
      drop_bit 3 (load_4 (drop 60 s))]"

definition sc_store :: "i64 list \<Rightarrow> bytes" where
  "sc_store s = map ucast
     [sshift (s ! 0) 0,
      sshift (s ! 0) 8,
      sshift (s ! 0) 16 OR (s ! 1) * 2 ^ 5,
      sshift (s ! 1) 3,
      sshift (s ! 1) 11,
      sshift (s ! 1) 19 OR (s ! 2) * 2 ^ 2,
      sshift (s ! 2) 6,
      sshift (s ! 2) 14 OR (s ! 3) * 2 ^ 7,
      sshift (s ! 3) 1,
      sshift (s ! 3) 9,
      sshift (s ! 3) 17 OR (s ! 4) * 2 ^ 4,
      sshift (s ! 4) 4,
      sshift (s ! 4) 12,
      sshift (s ! 4) 20 OR (s ! 5) * 2 ^ 1,
      sshift (s ! 5) 7,
      sshift (s ! 5) 15 OR (s ! 6) * 2 ^ 6,
      sshift (s ! 6) 2,
      sshift (s ! 6) 10,
      sshift (s ! 6) 18 OR (s ! 7) * 2 ^ 3,
      sshift (s ! 7) 5,
      sshift (s ! 7) 13,
      sshift (s ! 8) 0,
      sshift (s ! 8) 8,
      sshift (s ! 8) 16 OR (s ! 9) * 2 ^ 5,
      sshift (s ! 9) 3,
      sshift (s ! 9) 11,
      sshift (s ! 9) 19 OR (s ! 10) * 2 ^ 2,
      sshift (s ! 10) 6,
      sshift (s ! 10) 14 OR (s ! 11) * 2 ^ 7,
      sshift (s ! 11) 1,
      sshift (s ! 11) 9,
      sshift (s ! 11) 17]"

section \<open>Operations\<close>

text \<open>
  The sums of products \<open>a0 * b0\<close>, \<open>a0 * b1 + a1 * b0\<close>, \<open>...\<close>, \<open>a11 * b11\<close>, then the 23 carries that bring
  them to 21 bits, the even limbs first.
\<close>

definition sc_products :: "i64 list \<Rightarrow> i64 list \<Rightarrow> i64 list" where
  "sc_products a b = map (\<lambda>k. \<Sum>i\<leftarrow>[k - 11..<min 12 (Suc k)]. a ! i * b ! (k - i)) [0..<23] @ [0]"

definition sc_carry_products :: "i64 list \<Rightarrow> i64 list" where
  "sc_carry_products s =
     fold sc_round [1, 3, 5, 7, 9, 11, 13, 15, 17, 19, 21]
       (fold sc_round [0, 2, 4, 6, 8, 10, 12, 14, 16, 18, 20, 22] s)"

definition sc25519_mul :: "bytes \<Rightarrow> bytes \<Rightarrow> bytes" where
  "sc25519_mul a b = sc_store (sc_reduce_limbs (sc_carry_products (sc_products (sc_load a) (sc_load b))))"

text \<open>\<open>sc25519_muladd\<close> adds the limbs of \<open>c\<close> to the first twelve sums.\<close>

definition sc25519_muladd :: "bytes \<Rightarrow> bytes \<Rightarrow> bytes \<Rightarrow> bytes" where
  "sc25519_muladd a b c =
     sc_store (sc_reduce_limbs (sc_carry_products
       (map2 (+) (sc_load c @ replicate 12 0) (sc_products (sc_load a) (sc_load b)))))"

definition sc25519_sq :: "bytes \<Rightarrow> bytes" where
  "sc25519_sq a = sc25519_mul a a"

definition sc25519_sqmul :: "bytes \<Rightarrow> nat \<Rightarrow> bytes \<Rightarrow> bytes" where
  "sc25519_sqmul s n a = sc25519_mul ((sc25519_sq ^^ n) s) a"

definition sc25519_invert :: "bytes \<Rightarrow> bytes" where
  "sc25519_invert s =
    (let b10 = sc25519_sq s;
         b11 = sc25519_mul s b10;
         b100 = sc25519_mul s b11;
         b1000 = sc25519_sq b100;
         b1010 = sc25519_mul b10 b1000;
         b1011 = sc25519_mul s b1010;
         b10000 = sc25519_sq b1000;
         b10110 = sc25519_sq b1011;
         b100000 = sc25519_mul b1010 b10110;
         b100110 = sc25519_mul b10000 b10110;
         b1000000 = sc25519_sq b100000;
         b1010000 = sc25519_mul b10000 b1000000;
         b1010011 = sc25519_mul b11 b1010000;
         b1100011 = sc25519_mul b10000 b1010011;
         b1100111 = sc25519_mul b100 b1100011;
         b1101011 = sc25519_mul b100 b1100111;
         b10010011 = sc25519_mul b1000000 b1010011;
         b10010111 = sc25519_mul b100 b10010011;
         b10111101 = sc25519_mul b100110 b10010111;
         b11010011 = sc25519_mul b10110 b10111101;
         b11100111 = sc25519_mul b1010000 b10010111;
         b11101011 = sc25519_mul b100 b11100111;
         b11110101 = sc25519_mul b1010 b11101011;
         recip = sc25519_mul b1011 b11110101;
         recip = sc25519_sqmul recip 126 b1010011;
         recip = sc25519_sqmul recip 9 b10;
         recip = sc25519_mul recip b11110101;
         recip = sc25519_sqmul recip 7 b1100111;
         recip = sc25519_sqmul recip 9 b11110101;
         recip = sc25519_sqmul recip 11 b10111101;
         recip = sc25519_sqmul recip 8 b11100111;
         recip = sc25519_sqmul recip 9 b1101011;
         recip = sc25519_sqmul recip 6 b1011;
         recip = sc25519_sqmul recip 14 b10010011;
         recip = sc25519_sqmul recip 10 b1100011;
         recip = sc25519_sqmul recip 9 b10010111;
         recip = sc25519_sqmul recip 10 b11110101;
         recip = sc25519_sqmul recip 8 b11010011
     in sc25519_sqmul recip 8 b11101011)"

text \<open>The bytes are reduced in place; the first half holds the result.\<close>

definition sc25519_reduce :: "bytes \<Rightarrow> bytes" where
  "sc25519_reduce s = sc_store (sc_reduce_limbs (sc_load_64 s)) @ drop 32 s"

text \<open>The order \<open>L\<close> as bytes, and the comparison from the last byte down; \<open>c\<close> and \<open>n\<close> are promoted to \<open>int\<close>.\<close>

definition order_bytes :: bytes where
  "order_bytes =
     [0xed, 0xd3, 0xf5, 0x5c, 0x1a, 0x63, 0x12, 0x58, 0xd6, 0x9c, 0xf7,
      0xa2, 0xde, 0xf9, 0xde, 0x14, 0x00, 0x00, 0x00, 0x00, 0x00, 0x00,
      0x00, 0x00, 0x00, 0x00, 0x00, 0x00, 0x00, 0x00, 0x00, 0x10]"

definition canonical_step :: "u8 \<Rightarrow> u8 \<Rightarrow> u8 \<times> u8 \<Rightarrow> u8 \<times> u8" where
  "canonical_step x l = (\<lambda>(c, n).
     (c OR ucast (sshift (ucast x - ucast l :: i32) 8 AND ucast n),
      n AND ucast (sshift ((ucast x XOR ucast l) - 1 :: i32) 8)))"

definition sc25519_is_canonical :: "bytes \<Rightarrow> bool" where
  "sc25519_is_canonical s =
     (fst (fold (\<lambda>i. canonical_step (s ! i) (order_bytes ! i)) (rev [0..<32]) (0, 1)) \<noteq> 0)"

end
