(* ===== verification/Sc25519_Arith.thy ===== *)
theory Sc25519_Arith
  imports Sc25519 Fe25519_Bytes
begin

text \<open>
  The carries and folds of the scalar limbs on integers.  \<open>sval\<close> is the number the limbs stand for; each
  step of the code is followed on integers and on bounds of the limbs, which show that no shift sees a
  word that has wrapped.  The reduction keeps the value modulo the order and ends with the canonical one.
\<close>

section \<open>Limbs as integers\<close>

text \<open>The order of the base point, and the number a list of limbs stands for.\<close>

definition order :: int where
  "order = 2 ^ 252 + 27742317777372353535851937790883648493"

definition sval :: "int list \<Rightarrow> int" where
  "sval S = (\<Sum>i<length S. S ! i * 2 ^ (21 * i))"

lemma sval_update: "i < length S \<Longrightarrow> sval (S[i := x]) = sval S + (x - S ! i) * 2 ^ (21 * i)"
proof -
  assume i: "i < length S"
  then have s: "{..<length S} = insert i ({..<length S} - {i})" by auto
  have "sval (S[i := x]) = x * 2 ^ (21 * i) + (\<Sum>j\<in>{..<length S} - {i}. S[i := x] ! j * 2 ^ (21 * j))"
    unfolding sval_def length_list_update by (subst s, subst sum.insert) (simp_all add: i)
  also have "(\<Sum>j\<in>{..<length S} - {i}. S[i := x] ! j * 2 ^ (21 * j)) = (\<Sum>j\<in>{..<length S} - {i}. S ! j * 2 ^ (21 * j))"
    by (rule sum.cong) auto
  moreover have "sval S = S ! i * 2 ^ (21 * i) + (\<Sum>j\<in>{..<length S} - {i}. S ! j * 2 ^ (21 * j))"
    unfolding sval_def by (subst s, subst sum.insert) simp_all
  ultimately show ?thesis by (simp add: algebra_simps)
qed

lemma sval_snoc: "sval (S @ [x]) = sval S + x * 2 ^ (21 * length S)"
  by (simp add: sval_def nth_append)

lemma sval_Nil [simp]: "sval [] = 0"
  by (simp add: sval_def)

lemma sval_butlast: "S \<noteq> [] \<Longrightarrow> sval S = sval (butlast S) + last S * 2 ^ (21 * (length S - 1))"
  using sval_snoc [of "butlast S" "last S"] by simp

text \<open>
  \<open>agree B S s\<close>: the first limbs of \<open>s\<close>, those still in use, hold the integers \<open>S\<close>, which are bounded
  by \<open>B\<close>.
\<close>

definition agree :: "int list \<Rightarrow> int list \<Rightarrow> i64 list \<Rightarrow> bool" where
  "agree B S s \<longleftrightarrow> length s = 24 \<and> length S \<le> 24 \<and> length S = length B \<and>
     (\<forall>i<length S. s ! i = of_int (S ! i) \<and> \<bar>S ! i\<bar> \<le> B ! i)"

text \<open>The steps of the code on integers and on bounds.\<close>

definition iround :: "nat \<Rightarrow> int list \<Rightarrow> int list" where
  "iround i S = (let c = (S ! i + 2 ^ 20) div 2 ^ 21 in S[Suc i := S ! Suc i + c, i := S ! i - c * 2 ^ 21])"

definition ifloor :: "nat \<Rightarrow> int list \<Rightarrow> int list" where
  "ifloor i S = (let c = S ! i div 2 ^ 21 in S[Suc i := S ! Suc i + c, i := S ! i - c * 2 ^ 21])"

definition ifold :: "nat \<Rightarrow> int list \<Rightarrow> int list" where
  "ifold k S = butlast
     (S[k - 12 := S ! (k - 12) + S ! k * 666643,
        k - 11 := S ! (k - 11) + S ! k * 470296,
        k - 10 := S ! (k - 10) + S ! k * 654183,
        k - 9 := S ! (k - 9) - S ! k * 997805,
        k - 8 := S ! (k - 8) + S ! k * 136657,
        k - 7 := S ! (k - 7) - S ! k * 683901])"

definition bround :: "nat \<Rightarrow> int list \<Rightarrow> int list" where
  "bround i B = B[Suc i := B ! Suc i + (B ! i + 2 ^ 20) div 2 ^ 21, i := 2 ^ 20]"

definition bfloor :: "nat \<Rightarrow> int list \<Rightarrow> int list" where
  "bfloor i B = B[Suc i := B ! Suc i + B ! i div 2 ^ 21 + 1, i := 2 ^ 21 - 1]"

definition bfold :: "nat \<Rightarrow> int list \<Rightarrow> int list" where
  "bfold k B = butlast
     (B[k - 12 := B ! (k - 12) + B ! k * 666643,
        k - 11 := B ! (k - 11) + B ! k * 470296,
        k - 10 := B ! (k - 10) + B ! k * 654183,
        k - 9 := B ! (k - 9) + B ! k * 997805,
        k - 8 := B ! (k - 8) + B ! k * 136657,
        k - 7 := B ! (k - 7) + B ! k * 683901])"

definition carry_ok :: "nat \<Rightarrow> int list \<Rightarrow> bool" where
  "carry_ok i B \<longleftrightarrow> Suc i < length B \<and> B ! i + 2 ^ 20 < 2 ^ 63"

definition fold_ok :: "nat \<Rightarrow> int list \<Rightarrow> bool" where
  "fold_ok k B \<longleftrightarrow> length B = Suc k \<and> 12 \<le> k"

lemma agreeD:
  assumes "agree B S s" "i < length S"
  shows "s ! i = of_int (S ! i)" "\<bar>S ! i\<bar> \<le> B ! i" "i < length s" "i < length B"
  using assms by (auto simp: agree_def)

lemma agree_update:
  assumes "agree B S s" "i < length S" "\<bar>x\<bar> \<le> b" "y = of_int x"
  shows "agree (B[i := b]) (S[i := x]) (s[i := y])"
  using assms by (auto simp: agree_def nth_list_update)

lemma abs_less_add: "\<bar>x\<bar> \<le> b \<Longrightarrow> b + h < m \<Longrightarrow> 0 \<le> h \<Longrightarrow> \<bar>x\<bar> < m \<and> \<bar>x + h\<bar> < (m :: int)"
  by arith

lemma div_abs:
  fixes x b :: int
  assumes "\<bar>x\<bar> \<le> b"
  shows "\<bar>x div 2 ^ 21\<bar> \<le> b div 2 ^ 21 + 1"
  using assms by auto

lemma agree_round:
  assumes "agree B S s" "carry_ok i B"
  shows "agree (bround i B) (iround i S) (sc_round i s) \<and> sval (iround i S) = sval S"
proof -
  have i: "i < length S" "Suc i < length S" using assms by (auto simp: agree_def carry_ok_def)
  note d = agreeD [OF assms(1) i(1)] agreeD [OF assms(1) i(2)]
  let ?c = "(S ! i + 2 ^ 20) div 2 ^ 21"
  have "\<bar>S ! i + 2 ^ 20\<bar> < 2 ^ 63" using abs_less_add [OF d(2)] assms(2) unfolding carry_ok_def by (metis zero_le_numeral zero_le_power)
  from sint_of_int_64 [OF this] have "sint (s ! i + 2 ^ 20) = S ! i + 2 ^ 20" using d by simp
  then have c: "sshift (s ! i + 2 ^ 20) 21 = of_int ?c" by (simp only: sshift_of_int)
  have cb: "\<bar>?c\<bar> \<le> (B ! i + 2 ^ 20) div 2 ^ 21" using abs_div_pow [OF d(2), of 21] by simp
  have "agree (B[Suc i := B ! Suc i + (B ! i + 2 ^ 20) div 2 ^ 21]) (S[Suc i := S ! Suc i + ?c]) (s[Suc i := s ! Suc i + of_int ?c])"
    using d cb by (intro agree_update [OF assms(1) i(2)]) auto
  then have "agree (bround i B) (iround i S) (sc_round i s)"
    unfolding bround_def iround_def sc_round_def Let_def c
    by (rule agree_update) (use i d round_rest [of 21 "S ! i"] in \<open>simp_all\<close>)
  moreover have "sval (iround i S) = sval S"
    using i by (simp add: iround_def Let_def sval_update algebra_simps power_add)
  ultimately show ?thesis ..
qed

lemma agree_floor:
  assumes "agree B S s" "carry_ok i B"
  shows "agree (bfloor i B) (ifloor i S) (sc_floor i s) \<and> sval (ifloor i S) = sval S"
proof -
  have i: "i < length S" "Suc i < length S" using assms by (auto simp: agree_def carry_ok_def)
  note d = agreeD [OF assms(1) i(1)] agreeD [OF assms(1) i(2)]
  let ?c = "S ! i div 2 ^ 21"
  have "\<bar>S ! i\<bar> < 2 ^ 63" using abs_less_add [OF d(2)] assms(2) unfolding carry_ok_def by (metis zero_le_numeral zero_le_power)
  from sint_of_int_64 [OF this] have "sint (s ! i) = S ! i" using d by simp
  then have c: "sshift (s ! i) 21 = of_int ?c" by (simp only: sshift_of_int)
  have cb: "\<bar>?c\<bar> \<le> B ! i div 2 ^ 21 + 1" by (rule div_abs [OF d(2)])
  have "agree (B[Suc i := B ! Suc i + B ! i div 2 ^ 21 + 1]) (S[Suc i := S ! Suc i + ?c]) (s[Suc i := s ! Suc i + of_int ?c])"
    using d cb by (intro agree_update [OF assms(1) i(2)]) auto
  moreover have "\<bar>S ! i - ?c * 2 ^ 21\<bar> \<le> 2 ^ 21 - 1"
    using pos_mod_bound [of "2 ^ 21" "S ! i"] pos_mod_sign [of "2 ^ 21" "S ! i"] by (simp add: minus_div_mult_eq_mod)
  ultimately have "agree (bfloor i B) (ifloor i S) (sc_floor i s)"
    unfolding bfloor_def ifloor_def sc_floor_def Let_def c by (elim agree_update) (use i d in \<open>simp_all\<close>)
  moreover have "sval (ifloor i S) = sval S"
    using i by (simp add: ifloor_def Let_def sval_update algebra_simps power_add)
  ultimately show ?thesis ..
qed

lemma abs_mult_bound: "\<bar>x\<bar> \<le> b \<Longrightarrow> 0 \<le> c \<Longrightarrow> \<bar>y\<bar> \<le> d \<Longrightarrow> \<bar>y + x * c\<bar> \<le> d + b * (c :: int) \<and> \<bar>y - x * c\<bar> \<le> d + b * c"
proof -
  assume "\<bar>x\<bar> \<le> b" "0 \<le> c" "\<bar>y\<bar> \<le> d"
  then have "\<bar>x * c\<bar> \<le> b * c" by (simp add: abs_mult mult_right_mono)
  then show ?thesis using \<open>\<bar>y\<bar> \<le> d\<close> by arith
qed

lemma agree_butlast: "agree B S s \<Longrightarrow> agree (butlast B) (butlast S) s"
  by (auto simp: agree_def nth_butlast)

lemma agree_reset: "agree B S s \<Longrightarrow> length S < 24 \<Longrightarrow> agree (B @ [0]) (S @ [0]) (s[length S := 0])"
  by (auto simp: agree_def nth_append less_Suc_eq nth_list_update)

lemma agree_fold:
  assumes "agree B S s" "fold_ok k B"
  shows "agree (bfold k B) (ifold k S) (sc_fold k s) \<and> sval (ifold k S) = sval S - S ! k * 2 ^ (21 * (k - 12)) * order"
proof -
  have k: "length S = Suc k" "12 \<le> k" using assms by (auto simp: agree_def fold_ok_def)
  have d: "s ! i = of_int (S ! i)" "\<bar>S ! i\<bar> \<le> B ! i" if "i \<le> k" for i
    using agreeD [OF assms(1), of i] that k by auto
  have a: "agree (bfold k B) (ifold k S) (sc_fold k s)"
    unfolding bfold_def ifold_def sc_fold_def
    by (intro agree_butlast agree_update assms(1))
      (use k d in \<open>simp_all add: abs_mult_bound [THEN conjunct1] abs_mult_bound [THEN conjunct2]\<close>)
  let ?T = "S[k - 12 := S ! (k - 12) + S ! k * 666643, k - 11 := S ! (k - 11) + S ! k * 470296,
      k - 10 := S ! (k - 10) + S ! k * 654183, k - 9 := S ! (k - 9) - S ! k * 997805,
      k - 8 := S ! (k - 8) + S ! k * 136657, k - 7 := S ! (k - 7) - S ! k * 683901]"
  obtain m where m: "k = m + 12" using k(2) by (metis le_Suc_ex add.commute)
  have "last ?T = S ! k" using k m by (subst last_conv_nth) (auto simp: add.commute)
  moreover have "length ?T = Suc k" "?T \<noteq> []" using k by auto
  ultimately have "sval (ifold k S) = sval ?T - S ! k * 2 ^ (21 * k)"
    using sval_butlast [of ?T] by (simp add: ifold_def)
  also have "sval ?T = sval S + S ! k * 2 ^ (21 * m) * (666643 + 470296 * 2 ^ 21 + 654183 * 2 ^ 42 - 997805 * 2 ^ 63 + 136657 * 2 ^ 84 - 683901 * 2 ^ 105)"
    using k m by (simp add: sval_update algebra_simps power_add)
  finally show ?thesis using a m by (simp add: order_def algebra_simps power_add)
qed

section \<open>Sequences of steps\<close>

text \<open>\<open>represents v B s\<close>: the limbs in use have the value \<open>v\<close> modulo \<open>L\<close>.\<close>

definition represents :: "int \<Rightarrow> int list \<Rightarrow> i64 list \<Rightarrow> bool" where
  "represents v B s \<longleftrightarrow> (\<exists>S. agree B S s \<and> sval S mod order = v mod order)"

fun steps_ok :: "(nat \<Rightarrow> int list \<Rightarrow> bool) \<Rightarrow> (nat \<Rightarrow> int list \<Rightarrow> int list) \<Rightarrow> nat list \<Rightarrow> int list \<Rightarrow> bool" where
  "steps_ok ok f [] B = True"
| "steps_ok ok f (i # js) B = (ok i B \<and> steps_ok ok f js (f i B))"

lemma fold_steps:
  assumes "\<And>i B s. R B s \<Longrightarrow> ok i B \<Longrightarrow> R (f i B) (g i s)"
  shows "R B s \<Longrightarrow> steps_ok ok f js B \<Longrightarrow> R (fold f js B) (fold g js s)"
  by (induction js arbitrary: B s) (simp_all add: assms)

lemma represents_round: "represents v B s \<Longrightarrow> carry_ok i B \<Longrightarrow> represents v (bround i B) (sc_round i s)"
  unfolding represents_def by (elim exE conjE, frule (1) agree_round) auto

lemma represents_fold:
  assumes "represents v B s" "fold_ok k B"
  shows "represents v (bfold k B) (sc_fold k s)"
proof -
  obtain S where S: "agree B S s" "sval S mod order = v mod order" using assms(1) by (auto simp: represents_def)
  have "sval (ifold k S) = sval S + order * (- S ! k * 2 ^ (21 * (k - 12)))"
    using agree_fold [OF S(1) assms(2)] by simp
  from mod_eq_multiple [OF this] have "sval (ifold k S) mod order = sval S mod order" .
  then show ?thesis using agree_fold [OF S(1) assms(2)] S(2) by (auto simp: represents_def)
qed

lemma represents_reset:
  assumes "represents v B s" "length B = n" "n < 24"
  shows "represents v (B @ [0]) (s[n := 0])"
proof -
  obtain S where S: "agree B S s" "sval S mod order = v mod order" using assms(1) by (auto simp: represents_def)
  then have "length S = length B" by (simp add: agree_def)
  then show ?thesis using agree_reset [OF S(1)] S(2) assms(2,3) by (auto simp: represents_def sval_snoc intro!: exI [of _ "S @ [0]"])
qed

lemma represents_rounds:
  "represents v B s \<Longrightarrow> steps_ok carry_ok bround js B \<Longrightarrow> represents v (fold bround js B) (fold sc_round js s)"
  by (rule fold_steps [where R = "represents v" and ok = carry_ok]) (rule represents_round)

lemma represents_folds:
  "represents v B s \<Longrightarrow> steps_ok fold_ok bfold js B \<Longrightarrow> represents v (fold bfold js B) (fold sc_fold js s)"
  by (rule fold_steps [where R = "represents v" and ok = fold_ok]) (rule represents_fold)

text \<open>The steps up to the last rounding\<close>

definition sc_middle :: "i64 list \<Rightarrow> i64 list" where
  "sc_middle s = fold sc_round [1, 3, 5, 7, 9, 11] (fold sc_round [0, 2, 4, 6, 8, 10]
     ((fold sc_fold [17, 16, 15, 14, 13, 12] (fold sc_round [7, 9, 11, 13, 15] (fold sc_round [6, 8, 10, 12, 14, 16]
       (fold sc_fold [23, 22, 21, 20, 19, 18] s))))[12 := 0]))"

definition sc_last :: "i64 list \<Rightarrow> i64 list" where
  "sc_last s = fold sc_floor [0, 1, 2, 3, 4, 5, 6, 7, 8, 9, 10]
     (sc_fold 12 (fold sc_floor [0, 1, 2, 3, 4, 5, 6, 7, 8, 9, 10, 11] ((sc_fold 12 s)[12 := 0])))"

lemma sc_reduce_limbs_split: "sc_reduce_limbs s = sc_last (sc_middle s)"
  by (simp only: sc_reduce_limbs_def sc_last_def sc_middle_def Let_def)

text \<open>The limbs of 64 bytes, and those of the carried products, are below \<open>in_bound\<close>.\<close>

definition in_bound :: "int list" where
  "in_bound = [2 ^ 27, 2 ^ 27, 2 ^ 27, 2 ^ 27, 2 ^ 27, 2 ^ 27, 2 ^ 27, 2 ^ 27, 2 ^ 27, 2 ^ 27, 2 ^ 27, 2 ^ 27, 2 ^ 27, 2 ^ 27, 2 ^ 27, 2 ^ 27, 2 ^ 27, 2 ^ 27, 2 ^ 27, 2 ^ 27, 2 ^ 27, 2 ^ 27, 2 ^ 27, 2 ^ 29]"

lemmas bound_eval = bround_def bfold_def bfloor_def carry_ok_def fold_ok_def Let_def

definition mid_bound :: "int list" where
  "mid_bound = [1048576, 1048576, 82125162, 1048576, 236907086, 1048576, 370625796, 1048576, 228474742, 1048576, 47227768, 1048576, 49]"

lemma stage_1:
  "steps_ok fold_ok bfold [23, 22, 21, 20, 19, 18]
     in_bound"
  "fold bfold [23, 22, 21, 20, 19, 18]
     in_bound =
   [134217728, 134217728, 134217728, 134217728, 134217728, 134217728, 89475443064832, 152597503672320, 240400459628544, 374323579715584, 392665371770880, 752882936709120, 584347883143168, 595268508581888, 645826045018112, 165158940835840, 367166687805440, 134217728]"
  by (simp_all add: bound_eval in_bound_def)

lemma stage_2:
  "steps_ok carry_ok bround [6, 8, 10, 12, 14, 16]
     [134217728, 134217728, 134217728, 134217728, 134217728, 134217728, 89475443064832, 152597503672320, 240400459628544, 374323579715584, 392665371770880, 752882936709120, 584347883143168, 595268508581888, 645826045018112, 165158940835840, 367166687805440, 134217728]"
  "fold bround [6, 8, 10, 12, 14, 16]
     [134217728, 134217728, 134217728, 134217728, 134217728, 134217728, 89475443064832, 152597503672320, 240400459628544, 374323579715584, 392665371770880, 752882936709120, 584347883143168, 595268508581888, 645826045018112, 165158940835840, 367166687805440, 134217728] =
   [134217728, 134217728, 134217728, 134217728, 134217728, 134217728, 1048576, 152597546337536, 1048576, 374323694347456, 1048576, 752883123946560, 1048576, 595268787220672, 1048576, 165159248789696, 1048576, 309296448]"
  by (simp_all add: bound_eval)

lemma stage_3:
  "steps_ok carry_ok bround [7, 9, 11, 13, 15]
     [134217728, 134217728, 134217728, 134217728, 134217728, 134217728, 1048576, 152597546337536, 1048576, 374323694347456, 1048576, 752883123946560, 1048576, 595268787220672, 1048576, 165159248789696, 1048576, 309296448]"
  "fold bround [7, 9, 11, 13, 15]
     [134217728, 134217728, 134217728, 134217728, 134217728, 134217728, 1048576, 152597546337536, 1048576, 374323694347456, 1048576, 752883123946560, 1048576, 595268787220672, 1048576, 165159248789696, 1048576, 309296448] =
   [134217728, 134217728, 134217728, 134217728, 134217728, 134217728, 1048576, 1048576, 73812756, 1048576, 179540023, 1048576, 360051225, 1048576, 284894853, 1048576, 79802643, 309296448]"
  by (simp_all add: bound_eval)

lemma stage_4:
  "steps_ok fold_ok bfold [17, 16, 15, 14, 13, 12]
     [134217728, 134217728, 134217728, 134217728, 134217728, 134217728, 1048576, 1048576, 73812756, 1048576, 179540023, 1048576, 360051225, 1048576, 284894853, 1048576, 79802643, 309296448]"
  "fold bfold [17, 16, 15, 14, 13, 12]
     [134217728, 134217728, 134217728, 134217728, 134217728, 134217728, 1048576, 1048576, 73812756, 1048576, 179540023, 1048576, 360051225, 1048576, 284894853, 1048576, 79802643, 309296448] =
   [240025763005403, 170029810980696, 425955825328878, 494630943009117, 290316312904277, 775059467464350, 238362688239930, 476947125601160, 320240328068823, 96844633093255, 211528329623671, 1048576]"
  "length [240025763005403, 170029810980696, 425955825328878, 494630943009117, 290316312904277, 775059467464350, 238362688239930, 476947125601160, 320240328068823, 96844633093255, 211528329623671, 1048576] = 12"
  by (simp_all add: bound_eval)

lemma stage_5:
  "steps_ok carry_ok bround [0, 2, 4, 6, 8, 10]
     [240025763005403, 170029810980696, 425955825328878, 494630943009117, 290316312904277, 775059467464350, 238362688239930, 476947125601160, 320240328068823, 96844633093255, 211528329623671, 1048576, 0]"
  "fold bround [0, 2, 4, 6, 8, 10]
     [240025763005403, 170029810980696, 425955825328878, 494630943009117, 290316312904277, 775059467464350, 238362688239930, 476947125601160, 320240328068823, 96844633093255, 211528329623671, 1048576, 0] =
   [1048576, 170029925433899, 1048576, 494631146120682, 1048576, 775059605897956, 1048576, 476947239261347, 1048576, 96844785795743, 1048576, 101913144, 0]"
  by (simp_all add: bound_eval)

lemma stage_6:
  "steps_ok carry_ok bround [1, 3, 5, 7, 9, 11]
     [1048576, 170029925433899, 1048576, 494631146120682, 1048576, 775059605897956, 1048576, 476947239261347, 1048576, 96844785795743, 1048576, 101913144, 0]"
  "fold bround [1, 3, 5, 7, 9, 11]
     [1048576, 170029925433899, 1048576, 494631146120682, 1048576, 775059605897956, 1048576, 476947239261347, 1048576, 96844785795743, 1048576, 101913144, 0] =
   mid_bound"
  by (simp_all add: bound_eval mid_bound_def)


lemma less_24: "12 < (24 :: nat)"
  by simp

lemma sc_middle_represents: "represents v in_bound s \<Longrightarrow> represents v mid_bound (sc_middle s)"
proof -
  assume "represents v in_bound s"
  note 1 = represents_folds [OF this stage_1(1), unfolded stage_1(2)]
  note 2 = represents_rounds [OF 1 stage_2(1), unfolded stage_2(2)]
  note 3 = represents_rounds [OF 2 stage_3(1), unfolded stage_3(2)]
  note 4 = represents_folds [OF 3 stage_4(1), unfolded stage_4(2)]
  note 5 = represents_reset [OF 4 stage_4(3), unfolded append_Cons append_Nil, OF less_24]
  note 6 = represents_rounds [OF 5 stage_5(1), unfolded stage_5(2)]
  show ?thesis using represents_rounds [OF 6 stage_6(1), unfolded stage_6(2)] unfolding sc_middle_def .
qed

section \<open>The canonical result\<close>

lemma sval_mono: "length S = length B \<Longrightarrow> \<forall>i<length S. \<bar>S ! i\<bar> \<le> B ! i \<Longrightarrow> \<bar>sval S\<bar> \<le> sval B"
proof -
  assume a: "length S = length B" "\<forall>i<length S. \<bar>S ! i\<bar> \<le> B ! i"
  have "\<bar>sval S\<bar> \<le> (\<Sum>i<length S. \<bar>S ! i * 2 ^ (21 * i)\<bar>)" unfolding sval_def by (rule sum_abs)
  also have "\<dots> \<le> (\<Sum>i<length S. B ! i * 2 ^ (21 * i))" using a(2) by (intro sum_mono) (simp add: abs_mult)
  finally show ?thesis by (simp add: sval_def a(1))
qed

lemma sval_Cons: "sval (x # S) = x + 2 ^ 21 * sval S"
  unfolding sval_def length_Cons by (subst sum.lessThan_Suc_shift) (simp add: sum_distrib_left sum_distrib_right power_add algebra_simps)

lemma digits_range: "\<forall>x\<in>set S. 0 \<le> x \<and> x < 2 ^ 21 \<Longrightarrow> 0 \<le> sval S \<and> sval S < 2 ^ (21 * length S)"
proof (induction S)
  case (Cons x S)
  then have "0 \<le> x" "x < 2 ^ 21" "0 \<le> sval S" "sval S + 1 \<le> 2 ^ (21 * length S)" by auto
  then have "x + 2 ^ 21 * sval S < 2 ^ 21 * (sval S + 1)" "2 ^ 21 * (sval S + 1) \<le> 2 ^ 21 * 2 ^ (21 * length S)"
    by (simp, intro mult_left_mono) auto
  then show ?case using \<open>0 \<le> x\<close> \<open>0 \<le> sval S\<close> by (simp add: sval_Cons power_add)
qed simp

lemma ifloor_length [simp]: "length (ifloor i S) = length S"
  by (simp add: ifloor_def Let_def)

lemma floors_digits:
  "m < length S \<Longrightarrow> length (fold ifloor [0..<m] S) = length S \<and>
     (\<forall>i<m. 0 \<le> fold ifloor [0..<m] S ! i \<and> fold ifloor [0..<m] S ! i < 2 ^ 21)"
proof (induction m)
  case (Suc m)
  define T where "T = fold ifloor [0..<m] S"
  have T: "length T = length S" "\<forall>i<m. 0 \<le> T ! i \<and> T ! i < 2 ^ 21" using Suc by (simp_all add: T_def)
  have "0 \<le> ifloor m T ! i \<and> ifloor m T ! i < 2 ^ 21" if "i < Suc m" for i
    using T that Suc.prems by (cases "i = m") (simp_all add: ifloor_def Let_def minus_div_mult_eq_mod)
  then show ?case using T by (simp add: T_def)
qed simp

lemma agree_floors:
  "agree B S s \<Longrightarrow> steps_ok carry_ok bfloor js B \<Longrightarrow>
    agree (fold bfloor js B) (fold ifloor js S) (fold sc_floor js s) \<and> sval (fold ifloor js S) = sval S"
proof (induction js arbitrary: B S s)
  case (Cons i js)
  then have f: "agree (bfloor i B) (ifloor i S) (sc_floor i s)" "sval (ifloor i S) = sval S" "steps_ok carry_ok bfloor js (bfloor i B)"
    using agree_floor [of B S s i] by simp_all
  show ?case using Cons.IH [OF f(1,3)] f(2) by simp
qed simp

lemma upt_list: "[0, 1, 2, 3, 4, 5, 6, 7, 8, 9, 10] = [0..<11]" "[0, 1, 2, 3, 4, 5, 6, 7, 8, 9, 10, 11] = [0..<12]"
  by (simp_all add: upt_rec)

text \<open>The value after the floors: the low limbs are digits, the last one is the quotient.\<close>

lemma floors_split:
  assumes "length S = Suc m" "T = fold ifloor [0..<m] S" "sval T = sval S"
  shows "\<forall>i<m. 0 \<le> T ! i \<and> T ! i < 2 ^ 21" "T ! m = sval S div 2 ^ (21 * m)"
proof -
  have T: "length T = Suc m" "\<forall>i<m. 0 \<le> T ! i \<and> T ! i < 2 ^ 21"
    using floors_digits [of m S] assms by simp_all
  then show "\<forall>i<m. 0 \<le> T ! i \<and> T ! i < 2 ^ 21" by simp
  have l: "T \<noteq> []" using T(1) by auto
  then have "last T = T ! m" using T(1) by (simp add: last_conv_nth)
  have "\<forall>x\<in>set (butlast T). 0 \<le> x \<and> x < 2 ^ 21"
    using T by (auto simp: in_set_conv_nth nth_butlast)
  from digits_range [OF this] have b: "0 \<le> sval (butlast T)" "sval (butlast T) < 2 ^ (21 * m)" using T(1) by simp_all
  have "sval S = sval (butlast T) + T ! m * 2 ^ (21 * m)" using sval_butlast [OF l] \<open>last T = T ! m\<close> T(1) assms(3) by simp
  then show "T ! m = sval S div 2 ^ (21 * m)" using b by simp
qed

lemma last_bounds:
  "fold_ok 12 mid_bound"
  "bfold 12 mid_bound = [33714083, 24093080, 114180129, 49941021, 243603279, 34559725, 370625796, 1048576, 228474742, 1048576, 47227768, 1048576]"
  "sval [33714083, 24093080, 114180129, 49941021, 243603279, 34559725, 370625796, 1048576, 228474742, 1048576, 47227768, 1048576] < 2 ^ 252"
  by (simp_all add: bound_eval mid_bound_def sval_Cons)

definition fin_bound :: "int list" where
  "fin_bound = [2097151, 2097151, 2097151, 2097151, 2097151, 2097151, 2097151, 2097151, 2097151, 2097151, 2097151, 2097153]"

lemma last_floors:
  "steps_ok carry_ok bfloor [0, 1, 2, 3, 4, 5, 6, 7, 8, 9, 10, 11] [33714083, 24093080, 114180129, 49941021, 243603279, 34559725, 370625796, 1048576, 228474742, 1048576, 47227768, 1048576, 0]"
  "fold bfloor [0, 1, 2, 3, 4, 5, 6, 7, 8, 9, 10, 11] [33714083, 24093080, 114180129, 49941021, 243603279, 34559725, 370625796, 1048576, 228474742, 1048576, 47227768, 1048576, 0] = [2097151, 2097151, 2097151, 2097151, 2097151, 2097151, 2097151, 2097151, 2097151, 2097151, 2097151, 2097151, 1]"
  "fold_ok 12 [2097151, 2097151, 2097151, 2097151, 2097151, 2097151, 2097151, 2097151, 2097151, 2097151, 2097151, 2097151, 1]"
  "bfold 12 [2097151, 2097151, 2097151, 2097151, 2097151, 2097151, 2097151, 2097151, 2097151, 2097151, 2097151, 2097151, 1] = [2763794, 2567447, 2751334, 3094956, 2233808, 2781052, 2097151, 2097151, 2097151, 2097151, 2097151, 2097151]"
  "steps_ok carry_ok bfloor [0, 1, 2, 3, 4, 5, 6, 7, 8, 9, 10] [2763794, 2567447, 2751334, 3094956, 2233808, 2781052, 2097151, 2097151, 2097151, 2097151, 2097151, 2097151]"
  "fold bfloor [0, 1, 2, 3, 4, 5, 6, 7, 8, 9, 10] [2763794, 2567447, 2751334, 3094956, 2233808, 2781052, 2097151, 2097151, 2097151, 2097151, 2097151, 2097151] = fin_bound"
  by (simp_all add: bound_eval fin_bound_def)

lemma neg_small_div:
  fixes v :: int
  assumes "\<bar>v\<bar> < 2 ^ 252"
  shows "v - v div 2 ^ 252 * order = v mod order"
proof (cases "0 \<le> v")
  case True
  then show ?thesis using assms by (simp add: order_def)
next
  case False
  have "(v + 2 ^ 252) div 2 ^ 252 = 0" using False assms by (intro div_pos_pos_trivial) simp_all
  then have "v div 2 ^ 252 = -1" by simp
  moreover have "(v + order) mod order = v + order" using False assms by (intro mod_pos_pos_trivial) (simp_all add: order_def)
  ultimately show ?thesis by simp
qed

lemma sc_last_value:
  assumes "represents v mid_bound s"
  shows "\<exists>T. agree fin_bound T (sc_last s) \<and> sval T = v mod order \<and> (\<forall>i<11. 0 \<le> T ! i \<and> T ! i < 2 ^ 21) \<and>
    T ! 11 = v mod order div 2 ^ 231"
proof -
  obtain S where S: "agree mid_bound S s" "sval S mod order = v mod order" using assms by (auto simp: represents_def)
  define N where "N = ifold 12 S"
  have N: "agree (bfold 12 mid_bound) N (sc_fold 12 s)" "sval N mod order = v mod order"
    using agree_fold [OF S(1) last_bounds(1)] S(2) mod_eq_multiple [of "sval N" "sval S" order "- S ! 12"] by (simp_all add: N_def)
  have lN: "length N = 12" using N(1) by (simp add: agree_def last_bounds)
  have "\<bar>sval N\<bar> \<le> sval (bfold 12 mid_bound)" using N(1) by (intro sval_mono) (auto simp: agree_def)
  then have small: "\<bar>sval N\<bar> < 2 ^ 252" using last_bounds(2,3) by simp
  define F where "F = fold ifloor [0..<12] (N @ [0])"
  note r = agree_reset [OF N(1), unfolded lN last_bounds(2) append_Cons append_Nil, OF less_24]
  note f = agree_floors [OF r last_floors(1), unfolded last_floors(2), unfolded upt_list, folded F_def]
  have v: "sval F = sval N" using f by (simp add: sval_snoc)
  have F: "F ! 12 = sval N div 2 ^ 252"
    using floors_split(2) [of "N @ [0]" 12 F] lN v F_def by (simp add: sval_snoc)
  define G where "G = ifold 12 F"
  note g = agree_fold [OF conjunct1 [OF f] last_floors(3), unfolded last_floors(4), folded G_def]
  have G: "sval G = v mod order"
    using g v F neg_small_div [OF small] N(2) by simp
  have lG: "length G = 12" using conjunct1 [OF g] by (simp add: agree_def)
  define T where "T = fold ifloor [0..<11] G"
  note t = agree_floors [OF conjunct1 [OF g] last_floors(5), unfolded last_floors(6), unfolded upt_list, folded T_def]
  have "\<forall>i<11. 0 \<le> T ! i \<and> T ! i < 2 ^ 21" "T ! 11 = sval G div 2 ^ 231"
    using floors_split [of G 11 T] lG t T_def by simp_all
  then show ?thesis using t G unfolding sc_last_def upt_list by (intro exI [of _ T]) simp
qed

lemma sc_reduce_limbs_value:
  assumes "represents v in_bound s"
  shows "\<exists>T. agree fin_bound T (sc_reduce_limbs s) \<and> sval T = v mod order \<and> (\<forall>i<11. 0 \<le> T ! i \<and> T ! i < 2 ^ 21) \<and>
    T ! 11 = v mod order div 2 ^ 231"
  unfolding sc_reduce_limbs_split by (rule sc_last_value [OF sc_middle_represents [OF assms]])

end
