(* ===== verification/Sc25519_Correct.thy ===== *)
theory Sc25519_Correct
  imports Sc25519_Arith
begin

text \<open>
  The operations on scalars as integers modulo the order: reading and writing the limbs, the products,
  the inverse, and the test for canonical scalars.
\<close>

section \<open>Loading limbs\<close>

lemma int_le_val_drop_take:
  "int (le_val (take n (drop k s))) = int (le_val s) div 2 ^ (8 * k) mod 2 ^ (8 * n)"
  by (simp add: le_val_take le_val_drop zdiv_int zmod_int power_mult)

lemma take_drop_bytes:
  "k + 3 \<le> length s \<Longrightarrow> take 3 (drop k s) = [drop k s ! 0, drop k s ! 1, drop k s ! 2]"
  "k + 4 \<le> length s \<Longrightarrow> take 4 (drop k s) = [drop k s ! 0, drop k s ! 1, drop k s ! 2, drop k s ! 3]"
  by (rule nth_equalityI; auto simp: less_Suc_eq numeral_eq_Suc)+

lemma load_3_val:
  assumes "k + 3 \<le> length s"
  shows "load_3 (drop k s) = of_int (int (le_val s) div 2 ^ (8 * k) mod 2 ^ 24)"
proof -
  have "uint (drop k s ! 0) + 256 * uint (drop k s ! 1) + 65536 * uint (drop k s ! 2) = int (le_val (take 3 (drop k s)))"
    unfolding take_drop_bytes(1) [OF assms] int_le_val by simp
  then show ?thesis unfolding load_3_int int_le_val_drop_take by simp
qed

lemma load_4_val:
  assumes "k + 4 \<le> length s"
  shows "load_4 (drop k s) = of_int (int (le_val s) div 2 ^ (8 * k) mod 2 ^ 32)"
proof -
  have "uint (drop k s ! 0) + 256 * uint (drop k s ! 1) + 65536 * uint (drop k s ! 2) + 16777216 * uint (drop k s ! 3) =
      int (le_val (take 4 (drop k s)))"
    unfolding take_drop_bytes(2) [OF assms] int_le_val by simp
  then show ?thesis unfolding load_4_int int_le_val_drop_take by simp
qed

lemma drop_bit_of_int: "0 \<le> x \<Longrightarrow> x < 2 ^ 63 \<Longrightarrow> drop_bit n (of_int x :: i64) = of_int (x div 2 ^ n)"
proof -
  assume x: "0 \<le> x" "x < 2 ^ 63"
  have "uint (of_int x :: i64) = x" using x by (simp add: unsigned_of_int take_bit_int_eq_self)
  then have "uint (drop_bit n (of_int x :: i64)) = x div 2 ^ n"
    unfolding unsigned_drop_bit_eq using x by (simp add: take_bit_int_eq_self flip: drop_bit_eq_div)
  then show ?thesis by (metis word_of_int_uint)
qed

lemma mask_21: "2097151 AND (of_int x :: i64) = of_int (x mod 2 ^ 21)"
proof -
  have "(2097151 :: i64) = mask 21" by (simp add: mask_eq_exp_minus_1)
  then have "2097151 AND (of_int x :: i64) = take_bit 21 (of_int x)" by (simp add: take_bit_eq_mask and.commute)
  also have "\<dots> = of_int (take_bit 21 x)" by (simp add: take_bit_of_int)
  finally show ?thesis by (simp only: take_bit_eq_mod)
qed

lemma mod_div_mod:
  fixes v :: int
  assumes "k + 21 \<le> n"
  shows "v mod 2 ^ n div 2 ^ k mod 2 ^ 21 = v div 2 ^ k mod 2 ^ 21"
proof -
  have "take_bit 21 (drop_bit k (take_bit n v)) = take_bit 21 (drop_bit k v)"
    using assms by (intro bit_eqI) (auto simp: bit_simps)
  then show ?thesis by (simp only: take_bit_eq_mod drop_bit_eq_div)
qed

definition digit :: "nat \<Rightarrow> int \<Rightarrow> int" where
  "digit i v = v div 2 ^ (21 * i) mod 2 ^ 21"

lemma pow_mod_range: "0 \<le> v mod (2 :: int) ^ n" "n \<le> 62 \<Longrightarrow> v mod (2 :: int) ^ n < 2 ^ 63"
proof -
  assume "n \<le> 62"
  then have "(2 :: int) ^ n \<le> 2 ^ 62" by (intro power_increasing) auto
  moreover have "v mod (2 :: int) ^ n < 2 ^ n" by simp
  moreover have "(2 :: int) ^ 62 < 2 ^ 63" by simp
  ultimately show "v mod (2 :: int) ^ n < 2 ^ 63" by linarith
qed simp

lemma limb_3:
  assumes "k + 3 \<le> length s" "j + 21 \<le> 24" "8 * k + j = 21 * i"
  shows "2097151 AND drop_bit j (load_3 (drop k s)) = of_int (digit i (int (le_val s)))"
proof -
  have "drop_bit j (load_3 (drop k s)) = of_int (int (le_val s) div 2 ^ (8 * k) mod 2 ^ 24 div 2 ^ j)"
    unfolding load_3_val [OF assms(1)] by (rule drop_bit_of_int) (rule pow_mod_range; simp)+
  then show ?thesis using mod_div_mod [OF assms(2), of "int (le_val s) div 2 ^ (8 * k)"] assms(3)
    by (simp add: mask_21 digit_def flip: zdiv_zmult2_eq power_add)
qed

lemma limb_4:
  assumes "k + 4 \<le> length s" "j + 21 \<le> 32" "8 * k + j = 21 * i"
  shows "2097151 AND drop_bit j (load_4 (drop k s)) = of_int (digit i (int (le_val s)))"
proof -
  have "drop_bit j (load_4 (drop k s)) = of_int (int (le_val s) div 2 ^ (8 * k) mod 2 ^ 32 div 2 ^ j)"
    unfolding load_4_val [OF assms(1)] by (rule drop_bit_of_int) (rule pow_mod_range; simp)+
  then show ?thesis using mod_div_mod [OF assms(2), of "int (le_val s) div 2 ^ (8 * k)"] assms(3)
    by (simp add: mask_21 digit_def flip: zdiv_zmult2_eq power_add)
qed

lemma last_limb:
  assumes "length s = k + 4" "8 * k + j = 21 * i"
  shows "drop_bit j (load_4 (drop k s)) = of_int (int (le_val s) div 2 ^ (21 * i))"
proof -
  have "le_val s < 256 ^ (k + 4)" using le_val_less [of s] assms(1) by simp
  then have "int (le_val s) < 256 ^ (k + 4)" by (metis of_nat_less_iff of_nat_power of_nat_numeral)
  also have "(256 :: int) ^ (k + 4) = 2 ^ (8 * k) * 2 ^ 32" by (simp add: power_add power_mult)
  finally have "int (le_val s) < 2 ^ (8 * k + 32)" by (simp only: power_add)
  then have "int (le_val s) div 2 ^ (8 * k) < 2 ^ 32" by (rule limb_shift_less(2) [rotated]) simp
  then have m: "int (le_val s) div 2 ^ (8 * k) mod 2 ^ 32 = int (le_val s) div 2 ^ (8 * k)"
    by (intro mod_pos_pos_trivial) (simp_all add: pos_imp_zdiv_nonneg_iff)
  have "drop_bit j (load_4 (drop k s)) = of_int (int (le_val s) div 2 ^ (8 * k) mod 2 ^ 32 div 2 ^ j)"
    unfolding load_4_val [OF eq_imp_le [OF assms(1) [symmetric]]] by (rule drop_bit_of_int) (rule pow_mod_range; simp)+
  then show ?thesis unfolding m using assms(2) by (simp flip: zdiv_zmult2_eq power_add)
qed

definition digits :: "nat \<Rightarrow> int \<Rightarrow> int list" where
  "digits n v = map (\<lambda>i. digit i v) [0..<n] @ [v div 2 ^ (21 * n)]"

lemma sval_digits: "sval (digits n v) = v"
proof (induction n)
  case 0
  show ?case by (simp add: digits_def sval_Cons)
next
  case (Suc n)
  have "sval (digits (Suc n) v) = sval (map (\<lambda>i. digit i v) [0..<n]) + (digit n v + v div 2 ^ (21 * Suc n) * 2 ^ 21) * 2 ^ (21 * n)"
    by (simp add: digits_def sval_snoc append_assoc [symmetric] algebra_simps power_add del: append_assoc)
  also have "v div 2 ^ (21 * Suc n) = v div 2 ^ (21 * n) div 2 ^ 21"
    by (metis mult_Suc_right add.commute power_add zdiv_zmult2_eq zero_le_numeral zero_le_power)
  also have "digit n v + v div 2 ^ (21 * n) div 2 ^ 21 * 2 ^ 21 = v div 2 ^ (21 * n)"
    unfolding digit_def by (rule mod_div_mult_eq)
  finally show ?case using Suc by (simp add: digits_def sval_snoc)
qed

lemma upt_11: "[0..<11] = [0, 1, 2, 3, 4, 5, 6, 7, 8, 9, 10 :: nat]"
  by (simp add: upt_rec)

lemma upt_23: "[0..<23] = [0, 1, 2, 3, 4, 5, 6, 7, 8, 9, 10, 11, 12, 13, 14, 15, 16, 17, 18, 19, 20, 21, 22 :: nat]"
  by (simp add: upt_rec)

lemma sc_load_digits: "length s = 32 \<Longrightarrow> sc_load s = map of_int (digits 11 (int (le_val s)))"
  unfolding sc_load_def digits_def
  using limb_3 [of 0 s 0 0] limb_4 [of 2 s 5 1] limb_3 [of 5 s 2 2] limb_4 [of 7 s 7 3] limb_4 [of 10 s 4 4]
    limb_3 [of 13 s 1 5] limb_4 [of 15 s 6 6] limb_3 [of 18 s 3 7] limb_3 [of 21 s 0 8] limb_4 [of 23 s 5 9]
    limb_3 [of 26 s 2 10] last_limb [of s 28 7 11]
  by (simp add: upt_11 upt_23)

lemma sc_load_64_digits: "length s = 64 \<Longrightarrow> sc_load_64 s = map of_int (digits 23 (int (le_val s)))"
  unfolding sc_load_64_def digits_def
  using limb_3 [of 0 s 0 0] limb_4 [of 2 s 5 1] limb_3 [of 5 s 2 2] limb_4 [of 7 s 7 3] limb_4 [of 10 s 4 4]
    limb_3 [of 13 s 1 5] limb_4 [of 15 s 6 6] limb_3 [of 18 s 3 7] limb_3 [of 21 s 0 8] limb_4 [of 23 s 5 9]
    limb_3 [of 26 s 2 10] limb_4 [of 28 s 7 11] limb_4 [of 31 s 4 12] limb_3 [of 34 s 1 13] limb_4 [of 36 s 6 14]
    limb_3 [of 39 s 3 15] limb_3 [of 42 s 0 16] limb_4 [of 44 s 5 17] limb_3 [of 47 s 2 18] limb_4 [of 49 s 7 19]
    limb_4 [of 52 s 4 20] limb_3 [of 55 s 1 21] limb_4 [of 57 s 6 22] last_limb [of s 60 3 23]
  by (simp add: upt_11 upt_23)

lemma digits_bound: "0 \<le> v \<Longrightarrow> v < 2 ^ (21 * n + m) \<Longrightarrow> i \<le> n \<Longrightarrow>
    0 \<le> digits n v ! i \<and> digits n v ! i < (if i = n then 2 ^ m else 2 ^ 21)"
  by (auto simp: digits_def nth_append digit_def limb_shift_less pos_imp_zdiv_nonneg_iff)

section \<open>Storing limbs\<close>

lemma sum_12: "(\<Sum>i<12. f i) = f 0 + f 1 + f 2 + f 3 + f 4 + f 5 + f 6 + f 7 + f 8 + f 9 + f 10 + (f (11::nat) :: int)"
  by (simp add: numeral_eq_Suc)

lemma sval_12: "length S = 12 \<Longrightarrow> sval S = S ! 0 + S ! 1 * 2 ^ 21 + S ! 2 * 2 ^ 42 + S ! 3 * 2 ^ 63 + S ! 4 * 2 ^ 84 + S ! 5 * 2 ^ 105 +
    S ! 6 * 2 ^ 126 + S ! 7 * 2 ^ 147 + S ! 8 * 2 ^ 168 + S ! 9 * 2 ^ 189 + S ! 10 * 2 ^ 210 + S ! 11 * 2 ^ 231"
  by (simp add: sval_def sum_12)

lemma sval_12_cong:
  assumes "length T = 12" "T ! 0 = t0" "T ! 1 = t1" "T ! 2 = t2" "T ! 3 = t3" "T ! 4 = t4" "T ! 5 = t5" "T ! 6 = t6" "T ! 7 = t7" "T ! 8 = t8"
    "T ! 9 = t9" "T ! 10 = t10" "T ! 11 = t11"
  shows "sval T = t0 + t1 * 2 ^ 21 + t2 * 2 ^ 42 + t3 * 2 ^ 63 + t4 * 2 ^ 84 + t5 * 2 ^ 105 + t6 * 2 ^ 126 + t7 * 2 ^ 147 + t8 * 2 ^ 168 +
    t9 * 2 ^ 189 + t10 * 2 ^ 210 + t11 * 2 ^ 231"
  unfolding sval_12 [OF assms(1)] assms ..

lemma split_limb_1: "x = x mod 2 + 2 * (x div 2 mod 256) + 512 * (x div 512 mod 256) + 131072 * (x div 131072 :: int)"
  by (rule trans [OF split_limb [of x 1]]) simp

lemma split_limb_0: "x = x mod 256 + 256 * (x div 256 mod 256) + 65536 * (x div 65536 :: int)"
  by (rule trans [OF split_limb [of x 0]]) simp

lemma split_short: "x = x mod 2 ^ a + 2 ^ a * (x div 2 ^ a mod 256) + 2 ^ (a + 8) * (x div 2 ^ (a + 8) :: int)"
proof -
  have "x div 2 ^ a = x div 2 ^ a mod 256 + 256 * (x div 2 ^ a div 256)" by simp
  also have "x div 2 ^ a div 256 = x div 2 ^ (a + 8)" by (simp add: power_add zdiv_zmult2_eq)
  finally have "x = x mod 2 ^ a + 2 ^ a * (x div 2 ^ a mod 256 + 256 * (x div 2 ^ (a + 8)))"
    using mod_mult_div_eq [of x "2 ^ a"] by metis
  then show ?thesis by (simp add: algebra_simps power_add)
qed

lemma split_short_5: "x = x mod 32 + 32 * (x div 32 mod 256) + 8192 * (x div 8192 :: int)"
  by (rule trans [OF split_short [of x 5]]) simp

lemma split_short_6: "x = x mod 64 + 64 * (x div 64 mod 256) + 16384 * (x div 16384 :: int)"
  by (rule trans [OF split_short [of x 6]]) simp

lemma split_short_7: "x = x mod 128 + 128 * (x div 128 mod 256) + 32768 * (x div 32768 :: int)"
  by (rule trans [OF split_short [of x 7]]) simp

lemma length_sc_store [simp]: "length (sc_store s) = 32"
  by (simp add: sc_store_def)

lemma sc_store_value:
  assumes "length T = 12" "\<forall>i<12. sint (s ! i) = T ! i" "\<forall>i<11. 0 \<le> T ! i \<and> T ! i < 2 ^ 21" "0 \<le> T ! 11" "T ! 11 < 2 ^ 25"
  shows "int (le_val (sc_store s)) = sval T"
proof -
  have b: "uint (ucast (sshift (s ! i) n) :: u8) = T ! i div 2 ^ n mod 256" if "i < 12" for i n
    using uint_byte_shift [of "s ! i"] assms(2) that by simp
  have l: "0 \<le> T ! i div 2 ^ n" "T ! i div 2 ^ n < 2 ^ m" if "i < 11" "21 = n + m" for i n m
    using limb_shift_less [of "T ! i" n m] assms(3) that by simp_all
  have j: "uint (ucast (sshift (s ! i) n OR s ! k * 2 ^ m) :: u8) = T ! i div 2 ^ n + 2 ^ m * (T ! k mod 2 ^ (8 - m))"
    if "i < 11" "k < 12" "21 = n + m" "m \<le> 8" for i k n m
    using uint_byte_join [of "s ! i" n m "s ! k"] l [OF that(1,3)] assms(2) that by simp
  have last: "T ! 7 div 2 ^ 13 mod 256 = T ! 7 div 2 ^ 13" "T ! 11 div 2 ^ 17 mod 256 = T ! 11 div 2 ^ 17"
    using l [of 7 13 8] limb_shift_less [of "T ! 11" 17 8] assms(4,5) by (simp_all add: mod_pos_pos_trivial)
  note joins = j [of 0 1 16 5] j [of 1 2 19 2] j [of 2 3 14 7] j [of 3 4 17 4] j [of 4 5 20 1] j [of 5 6 15 6] j [of 6 7 18 3]
    j [of 8 9 16 5] j [of 9 10 19 2] j [of 10 11 14 7]
  note split = split_limb_0 [of "T ! 0"] split_limb_3 [of "T ! 1"] split_short_6 [of "T ! 2"] split_limb_1 [of "T ! 3"] split_limb_4 [of "T ! 4"]
     split_short_7 [of "T ! 5"] split_limb_2 [of "T ! 6"] split_short_5 [of "T ! 7"] split_limb_0 [of "T ! 8"] split_limb_3 [of "T ! 9"]
     split_short_6 [of "T ! 10"] split_limb_1 [of "T ! 11"]
  show ?thesis
    unfolding sc_store_def list.map int_le_val sval_12_cong [OF assms(1) split]
    by (simp only: b joins rel_simps zero_less_numeral one_less_numeral_iff simp_thms arith_simps)
      (simp add: last [simplified] algebra_simps)
qed

section \<open>Products\<close>

definition iproducts :: "int list \<Rightarrow> int list \<Rightarrow> int list" where
  "iproducts A B = map (\<lambda>k. \<Sum>i\<leftarrow>[k - 11..<min 12 (Suc k)]. A ! i * B ! (k - i)) [0..<23] @ [0]"

lemma iproducts_sum: "iproducts A B = map (\<lambda>k. \<Sum>i\<in>{k - 11..<min 12 (Suc k)}. A ! i * B ! (k - i)) [0..<23] @ [0]"
  unfolding iproducts_def by (simp only: interv_sum_list_conv_sum_set_nat set_upt)

lemma sval_iproducts:
  assumes "length A = 12" "length B = 12"
  shows "sval (iproducts A B) = sval A * sval B"
proof -
  have pow: "(2 :: int) ^ (21 * k) = 2 ^ (21 * i) * 2 ^ (21 * (k - i))" if "i < Suc (min 11 k)" for i k
    using that by (simp flip: power_add distrib_left)
  have "sval (iproducts A B) = (\<Sum>k<23. (\<Sum>i\<in>{k - 11..<min 12 (Suc k)}. A ! i * B ! (k - i)) * 2 ^ (21 * k))"
    unfolding iproducts_sum sval_snoc unfolding sval_def by (simp cong: sum.cong_simp del: sum.op_ivl_Suc)
  also have "\<dots> = (\<Sum>k<23. \<Sum>i\<in>{k - 11..<min 12 (Suc k)}. (A ! i * 2 ^ (21 * i)) * (B ! (k - i) * 2 ^ (21 * (k - i))))"
    by (intro sum.cong refl, subst sum_distrib_right, intro sum.cong refl) (simp add: pow)
  also have "\<dots> = (\<Sum>i<12. \<Sum>j<12. (A ! i * 2 ^ (21 * i)) * (B ! j * 2 ^ (21 * j)))"
    unfolding sum.cartesian_product
    by (subst sum.Sigma, simp, simp, rule sum.reindex_bij_witness [where i = "\<lambda>(i, j). (i + j, i)" and j = "\<lambda>(k, i). (i, k - i)"]) auto
  finally show ?thesis by (simp add: sval_def assms sum_product)
qed

lemma sc_products_of_int:
  assumes "length A = 12" "length B = 12"
  shows "sc_products (map of_int A) (map of_int B) = map of_int (iproducts A B)"
proof -
  have "(\<Sum>i\<leftarrow>[k - 11..<min 12 (Suc k)]. map of_int A ! i * (map of_int B ! (k - i) :: i64)) =
      of_int (\<Sum>i\<leftarrow>[k - 11..<min 12 (Suc k)]. A ! i * B ! (k - i))" if "k < 23" for k
    using assms that unfolding interv_sum_list_conv_sum_set_nat of_int_sum set_upt by (intro sum.cong refl) (auto simp: nth_map min_def split: if_splits)
  then show ?thesis by (simp add: sc_products_def iproducts_def)
qed

lemma iproducts_bound:
  assumes "length A = 12" "length B = 12" "length C = 12" "length D = 12"
    "\<forall>i<12. 0 \<le> A ! i \<and> A ! i \<le> C ! i" "\<forall>i<12. 0 \<le> B ! i \<and> B ! i \<le> D ! i" "k < 24"
  shows "0 \<le> iproducts A B ! k \<and> iproducts A B ! k \<le> iproducts C D ! k"
proof (cases "k < 23")
  case True
  have "0 \<le> A ! i * B ! (k - i) \<and> A ! i * B ! (k - i) \<le> C ! i * D ! (k - i)" if "i \<in> {k - 11..<min 12 (Suc k)}" for i
  proof -
    have "0 \<le> A ! i \<and> A ! i \<le> C ! i" "0 \<le> B ! (k - i) \<and> B ! (k - i) \<le> D ! (k - i)" using that assms(5,6) by auto
    then show ?thesis by (auto intro: mult_mono)
  qed
  then have "0 \<le> (\<Sum>i\<in>{k - 11..<min 12 (Suc k)}. A ! i * B ! (k - i))"
    "(\<Sum>i\<in>{k - 11..<min 12 (Suc k)}. A ! i * B ! (k - i)) \<le> (\<Sum>i\<in>{k - 11..<min 12 (Suc k)}. C ! i * D ! (k - i))"
    by (blast intro: sum_nonneg sum_mono)+
  then show ?thesis unfolding iproducts_sum using True by (simp add: nth_append del: sum.op_ivl_Suc)
next
  case False
  then have "k = 23" using assms(7) by simp
  then show ?thesis by (simp add: iproducts_def nth_append)
qed

text \<open>Bounds of the limbs of an operand, of the sums of products, and of the sums after their carries.\<close>

definition limb_bound :: "int list" where
  "limb_bound = [2 ^ 21, 2 ^ 21, 2 ^ 21, 2 ^ 21, 2 ^ 21, 2 ^ 21, 2 ^ 21, 2 ^ 21, 2 ^ 21, 2 ^ 21, 2 ^ 21, 2 ^ 25]"

definition sum_bound :: "int list" where
  "sum_bound = [4398048608256, 8796095119360, 13194141630464, 17592188141568, 21990234652672, 26388281163776, 30786327674880, 35184374185984, 39582420697088, 43980467208192, 48378513719296, 184717987020800, 180319906955264, 175921860444160, 171523813933056, 167125767421952, 162727720910848, 158329674399744, 153931627888640, 149533581377536, 145135534866432, 140737488355328, 1125899906842624, 0]"

lemma replicate_12: "replicate 12 x = [x, x, x, x, x, x, x, x, x, x, x, x]"
  by (simp add: numeral_eq_Suc)

lemma sum_bound_eq: "map2 (+) (limb_bound @ replicate 12 0) (iproducts limb_bound limb_bound) = sum_bound"
  unfolding iproducts_def upt_23 limb_bound_def sum_bound_def replicate_12 by (simp add: upt_rec)

lemma carry_stages:
  "steps_ok carry_ok bround [0, 2, 4, 6, 8, 10, 12, 14, 16, 18, 20, 22] sum_bound"
  "fold bround [0, 2, 4, 6, 8, 10, 12, 14, 16, 18, 20, 22] sum_bound = [1048576, 8796097216513, 1048576, 17592194433025, 1048576, 26388291649537, 1048576, 35184388866049, 1048576, 43980486082561, 1048576, 184718010089473, 1048576, 175921946427392, 1048576, 167125849210880, 1048576, 158329751994368, 1048576, 149533654777856, 1048576, 140737557561344, 1048576, 536870912]"
  "steps_ok carry_ok bround [1, 3, 5, 7, 9, 11, 13, 15, 17, 19, 21] [1048576, 8796097216513, 1048576, 17592194433025, 1048576, 26388291649537, 1048576, 35184388866049, 1048576, 43980486082561, 1048576, 184718010089473, 1048576, 175921946427392, 1048576, 167125849210880, 1048576, 158329751994368, 1048576, 149533654777856, 1048576, 140737557561344, 1048576, 536870912]"
  "list_all2 (\<le>) (fold bround [1, 3, 5, 7, 9, 11, 13, 15, 17, 19, 21] [1048576, 8796097216513, 1048576, 17592194433025, 1048576, 26388291649537, 1048576, 35184388866049, 1048576, 43980486082561, 1048576, 184718010089473, 1048576, 175921946427392, 1048576, 167125849210880, 1048576, 158329751994368, 1048576, 149533654777856, 1048576, 140737557561344, 1048576, 536870912]) in_bound"
  by (simp_all add: bound_eval sum_bound_def in_bound_def)

lemma agree_mono: "agree B S s \<Longrightarrow> list_all2 (\<le>) B C \<Longrightarrow> agree C S s"
  by (auto simp: agree_def list_all2_conv_all_nth) (meson order_trans)

lemma sc_carry_products_represents:
  assumes "agree sum_bound S s"
  shows "represents (sval S) in_bound (sc_carry_products s)"
proof -
  have "represents (sval S) sum_bound s" using assms by (auto simp: represents_def)
  note 1 = represents_rounds [OF this carry_stages(1), unfolded carry_stages(2)]
  note 2 = represents_rounds [OF 1 carry_stages(3)]
  show ?thesis using 2 agree_mono [OF _ carry_stages(4)] unfolding sc_carry_products_def represents_def by blast
qed

lemma sc_store_reduced:
  assumes "represents v in_bound s"
  shows "int (le_val (sc_store (sc_reduce_limbs s))) = v mod order"
proof -
  obtain T where T: "agree fin_bound T (sc_reduce_limbs s)" "sval T = v mod order" "\<forall>i<11. 0 \<le> T ! i \<and> T ! i < 2 ^ 21"
    "T ! 11 = v mod order div 2 ^ 231"
    using sc_reduce_limbs_value [OF assms] by blast
  have l: "length T = 12" using T(1) by (simp add: agree_def fin_bound_def)
  have m: "0 \<le> v mod order" "v mod order < 2 ^ (231 + 22)" using pos_mod_bound [of order v] by (simp_all add: order_def)
  have t: "0 \<le> T ! 11" "T ! 11 < 2 ^ 22" unfolding T(4) by (rule limb_shift_less [OF m])+
  have "T ! i < 2 ^ 22 \<and> 0 \<le> T ! i" if "i < 12" for i
  proof (cases "i = 11")
    case False
    then have "0 \<le> T ! i" "T ! i < 2 ^ 21" using T(3) that by auto
    then show ?thesis by simp
  qed (use t in simp)
  then have "sint (sc_reduce_limbs s ! i) = T ! i" if "i < 12" for i
    using agreeD(1) [OF T(1), of i] sint_of_int_64 [of "T ! i"] that l by fastforce
  then show ?thesis using sc_store_value [OF l _ T(3) t(1)] t(2) T(2) by simp
qed

lemma length_digits [simp]: "length (digits n v) = Suc n"
  by (simp add: digits_def)

lemma sc25519_reduce_value:
  assumes "length s = 64"
  shows "int (le_val (take 32 (sc25519_reduce s))) = int (le_val s) mod order"
proof -
  let ?v = "int (le_val s)"
  have "le_val s < 256 ^ 64" using le_val_less [of s] assms by simp
  then have v: "?v < 2 ^ (21 * 23 + 29)" by simp
  have "\<bar>digits 23 ?v ! i\<bar> \<le> in_bound ! i" if "i < 24" for i
  proof -
    have "in_bound ! i = (if i = 23 then 2 ^ 29 else 2 ^ 27)" using that by (simp add: in_bound_def nth_Cons' less_Suc_eq_le numeral_eq_Suc)
    then show ?thesis using digits_bound [OF _ v, of i] that by (auto split: if_splits)
  qed
  then have "agree in_bound (digits 23 ?v) (sc_load_64 s)"
    using assms by (auto simp: agree_def sc_load_64_digits in_bound_def)
  then have "represents ?v in_bound (sc_load_64 s)" by (auto simp: represents_def sval_digits intro!: exI [of _ "digits 23 ?v"])
  from sc_store_reduced [OF this] show ?thesis by (simp add: sc25519_reduce_def)
qed

lemma load_limbs:
  assumes "length s = 32" "v = int (le_val s)"
  shows "sc_load s = map of_int (digits 11 v)" "length (digits 11 v) = 12"
    "\<forall>i<12. 0 \<le> digits 11 v ! i \<and> digits 11 v ! i \<le> limb_bound ! i"
proof -
  have "le_val s < 256 ^ 32" using le_val_less [of s] assms by simp
  then have v: "v < 2 ^ (21 * 11 + 25)" "0 \<le> v" using assms(2) by simp_all
  show "sc_load s = map of_int (digits 11 v)" using sc_load_digits assms by simp
  have "0 \<le> digits 11 v ! i \<and> digits 11 v ! i \<le> limb_bound ! i" if "i < 12" for i
  proof -
    have "limb_bound ! i = (if i = 11 then 2 ^ 25 else 2 ^ 21)" using that by (simp add: limb_bound_def nth_Cons' less_Suc_eq_le numeral_eq_Suc)
    then show ?thesis using digits_bound [OF v(2,1), of i] that by (auto split: if_splits)
  qed
  then show "\<forall>i<12. 0 \<le> digits 11 v ! i \<and> digits 11 v ! i \<le> limb_bound ! i" by blast
qed simp

lemma sval_add: "length A = length B \<Longrightarrow> sval (map2 (+) A B) = sval A + sval B"
  by (simp add: sval_def algebra_simps flip: sum.distrib)

lemma sval_zeros: "sval (A @ replicate n 0) = sval A"
  by (induction n) (simp_all add: sval_snoc replicate_append_same [symmetric] append_assoc [symmetric] del: append_assoc)

lemma sc_sums_value:
  assumes "length C = 12" "\<forall>i<12. 0 \<le> C ! i \<and> C ! i \<le> limb_bound ! i" "length a = 32" "length b = 32"
  shows "int (le_val (sc_store (sc_reduce_limbs (sc_carry_products
    (map2 (+) (map of_int C @ replicate 12 0) (sc_products (sc_load a) (sc_load b))))))) =
    (int (le_val a) * int (le_val b) + sval C) mod order"
proof -
  let ?a = "digits 11 (int (le_val a))" and ?b = "digits 11 (int (le_val b))"
  note a = load_limbs [OF assms(3) refl] and b = load_limbs [OF assms(4) refl]
  define S where "S = map2 (+) (C @ replicate 12 0) (iproducts ?a ?b)"
  have l: "length limb_bound = 12" "length (iproducts ?a ?b) = 24" "length (iproducts limb_bound limb_bound) = 24"
    by (simp_all add: limb_bound_def iproducts_def)
  have p: "sc_products (sc_load a) (sc_load b) = map of_int (iproducts ?a ?b)"
    using sc_products_of_int [OF a(2) b(2)] a(1) b(1) by simp
  have s: "map2 (+) (map of_int C @ replicate 12 0) (map of_int (iproducts ?a ?b)) = (map of_int S :: i64 list)"
    unfolding S_def by (rule nth_equalityI) (auto simp: nth_append assms(1) l)
  have "\<bar>S ! i\<bar> \<le> sum_bound ! i" if "i < 24" for i
  proof -
    have "0 \<le> iproducts ?a ?b ! i \<and> iproducts ?a ?b ! i \<le> iproducts limb_bound limb_bound ! i"
      by (rule iproducts_bound [OF a(2) b(2) l(1,1) a(3) b(3) that])
    moreover have "0 \<le> (C @ replicate 12 0) ! i \<and> (C @ replicate 12 0) ! i \<le> (limb_bound @ replicate 12 0) ! i"
      using assms(1,2) l(1) that by (auto simp: nth_append)
    ultimately show ?thesis unfolding S_def sum_bound_eq [symmetric] using that by (simp add: assms(1) l)
  qed
  moreover have "length S = 24" "length sum_bound = 24" by (simp_all add: S_def assms(1) l sum_bound_def)
  ultimately have "agree sum_bound S (map of_int S)" by (simp add: agree_def)
  from sc_store_reduced [OF sc_carry_products_represents [OF this]]
  have "int (le_val (sc_store (sc_reduce_limbs (sc_carry_products (map of_int S))))) = sval S mod order" .
  moreover have "sval S = int (le_val a) * int (le_val b) + sval C"
    unfolding S_def by (subst sval_add) (simp_all add: assms(1) l sval_zeros sval_iproducts a b sval_digits)
  ultimately show ?thesis unfolding p s by simp
qed

section \<open>The operations modulo the order\<close>

lemma sc25519_muladd_value:
  assumes "length a = 32" "length b = 32" "length c = 32"
  shows "int (le_val (sc25519_muladd a b c)) = (int (le_val a) * int (le_val b) + int (le_val c)) mod order"
  using sc_sums_value [OF load_limbs(2,3) [OF assms(3) refl] assms(1,2)] load_limbs(1) [OF assms(3) refl]
  by (simp add: sc25519_muladd_def sval_digits)

lemma sc_products_plus_0: "map2 (+) (map of_int (replicate 12 0) @ replicate 12 0) (sc_products a b) = sc_products a b"
proof -
  have "map of_int (replicate 12 0) @ replicate 12 (0 :: i64) = replicate 24 0" by (simp flip: replicate_add)
  moreover have "length (sc_products a b) = 24" by (simp add: sc_products_def)
  ultimately show ?thesis by (intro nth_equalityI) simp_all
qed

lemma sc25519_mul_value:
  assumes "length a = 32" "length b = 32"
  shows "int (le_val (sc25519_mul a b)) = int (le_val a) * int (le_val b) mod order"
proof -
  have "\<forall>i<12. 0 \<le> replicate 12 (0 :: int) ! i \<and> replicate 12 0 ! i \<le> limb_bound ! i"
    by (simp add: limb_bound_def nth_Cons')
  from sc_sums_value [OF _ this assms] show ?thesis
    using sval_zeros [of "[]" 12] unfolding sc_products_plus_0 sc25519_mul_def by simp
qed

lemma length_sc25519 [simp]: "length (sc25519_mul a b) = 32" "length (sc25519_muladd a b c) = 32" "length (sc25519_sq a) = 32"
  "length (sc25519_sqmul s n a) = 32"
  by (simp_all add: sc25519_mul_def sc25519_muladd_def sc25519_sq_def sc25519_sqmul_def)

section \<open>The inverse\<close>

definition power_rep :: "int \<Rightarrow> nat \<Rightarrow> bytes \<Rightarrow> bool" where
  "power_rep x m a \<longleftrightarrow> length a = 32 \<and> int (le_val a) mod order = x ^ m mod order"

lemma power_rep_mul: "power_rep x m a \<Longrightarrow> power_rep x n b \<Longrightarrow> power_rep x (m + n) (sc25519_mul a b)"
  by (simp add: power_rep_def sc25519_mul_value power_add) (metis mod_mult_eq)

lemma power_rep_sq: "power_rep x m a \<Longrightarrow> power_rep x (2 * m) (sc25519_sq a)"
  using power_rep_mul [of x m a m a] by (simp add: sc25519_sq_def mult_2)

lemma power_rep_sqmul:
  assumes "power_rep x m s" "power_rep x k a"
  shows "power_rep x (m * 2 ^ n + k) (sc25519_sqmul s n a)"
proof -
  have "power_rep x (m * 2 ^ n) ((sc25519_sq ^^ n) s)"
  proof (induction n)
    case (Suc n)
    then show ?case using power_rep_sq [OF Suc] by (simp add: algebra_simps)
  qed (use assms(1) in simp)
  then show ?thesis unfolding sc25519_sqmul_def using assms(2) by (rule power_rep_mul)
qed

lemma power_rep_let: "power_rep x m a \<Longrightarrow> (\<And>y. power_rep x m y \<Longrightarrow> power_rep x e (f y)) \<Longrightarrow> power_rep x e (let y = a in f y)"
  by simp

lemma power_rep_exponent: "power_rep x m a \<Longrightarrow> m = e \<Longrightarrow> power_rep x e a"
  by simp

lemma power_rep_invert:
  assumes "length s = 32"
  shows "power_rep (int (le_val s)) (nat (order - 2)) (sc25519_invert s)"
proof -
  have "power_rep (int (le_val s)) 1 s" using assms by (simp add: power_rep_def)
  then show ?thesis unfolding sc25519_invert_def
    apply -
    apply (rule power_rep_let, (rule power_rep_mul power_rep_sq power_rep_sqmul; assumption))+
    apply (rule power_rep_exponent, rule power_rep_sqmul, assumption, assumption)
    by (simp add: order_def)
qed

section \<open>Canonical scalars\<close>

lemma le_val_order_bytes: "int (le_val order_bytes) = order"
  by (simp add: order_bytes_def order_def)

lemma sign_of_difference: "sshift (ucast (x :: u8) - ucast (l :: u8) :: i32) 8 = (if x < l then - 1 else 0)"
proof -
  have u: "uint x < 256" "uint l < 256" "0 \<le> uint x" "0 \<le> uint l" using uint_byte_range [of x] uint_byte_range [of l] by auto
  have "(ucast x - ucast l :: i32) = of_int (uint x - uint l)" by simp
  moreover have "\<bar>uint x - uint l\<bar> < 256" using u by linarith
  then have "sint (of_int (uint x - uint l) :: i32) = uint x - uint l" by (intro sint_of_int_32) simp
  ultimately have "sshift (ucast x - ucast l :: i32) 8 = of_int ((uint x - uint l) div 256)" by (simp only: sshift_of_int) simp
  moreover have "(uint x - uint l) div 256 = (if x < l then - 1 else 0)"
  proof (cases "x < l")
    case True
    then have "uint x < uint l" by (simp add: word_less_def)
    then have "(uint x - uint l + 256) div 256 = 0" using u by (intro div_pos_pos_trivial) linarith+
    then have "(uint x - uint l) div 256 = - 1" by simp
    then show ?thesis using True by simp
  next
    case False
    then have "uint l \<le> uint x" by (simp add: word_less_def)
    then have "(uint x - uint l) div 256 = 0" using u by (intro div_pos_pos_trivial) linarith+
    then show ?thesis using False by simp
  qed
  ultimately show ?thesis by simp
qed

lemma sign_of_xor: "sshift ((ucast (x :: u8) XOR ucast (l :: u8)) - 1 :: i32) 8 = (if x = l then - 1 else 0)"
proof -
  have "(ucast x XOR ucast l :: i32) = ucast (x XOR l)" by (simp add: unsigned_xor_eq)
  moreover have "(1 :: i32) = ucast (1 :: u8)" by simp
  ultimately have "sshift ((ucast x XOR ucast l) - 1 :: i32) 8 = sshift (ucast (x XOR l) - ucast (1 :: u8)) 8" by (simp only:)
  also have "\<dots> = (if x XOR l < 1 then - 1 else 0)" by (rule sign_of_difference)
  also have "x XOR l < 1 \<longleftrightarrow> x = l"
  proof
    assume "x XOR l < 1"
    then have "x XOR l = 0" by (simp add: word_less_nat_alt unat_eq_zero)
    then show "x = l" by (metis xor.assoc xor.right_neutral xor_self_eq)
  qed simp
  finally show ?thesis .
qed

definition flag :: "bool \<Rightarrow> u8" where
  "flag b = (if b then 1 else 0)"

lemma minus_1_byte: "(ucast (- 1 :: i32) :: u8) = - 1"
  by (rule bit_word_eqI) (simp add: bit_simps)

lemma canonical_step_flags:
  "canonical_step x l (flag c, flag n) = (flag (c \<or> n \<and> x < l), flag (n \<and> x = l))"
  unfolding canonical_step_def sign_of_difference sign_of_xor by (auto simp: flag_def minus_1_byte)

lemma digit_less: "a < 256 \<Longrightarrow> b < 256 \<Longrightarrow> a + 256 * x < b + 256 * y \<longleftrightarrow> x < y \<or> x = y \<and> a < (b :: nat)"
  by (cases x y rule: linorder_cases) auto

lemma canonical_fold:
  "length xs = length ls \<Longrightarrow> fold (\<lambda>(x, l). canonical_step x l) (rev (zip xs ls)) (0, 1) = (flag (le_val xs < le_val ls), flag (xs = ls))"
proof (induction xs ls rule: list_induct2)
  case Nil
  show ?case by (simp add: flag_def)
next
  case (Cons x xs l ls)
  have b: "unat x < 256" "unat l < 256" using unsigned_less [of x] unsigned_less [of l] by simp_all
  have eq: "xs = ls \<longleftrightarrow> le_val xs = le_val ls" using le_val_inj [OF Cons.hyps] by auto
  have "le_val (x # xs) < le_val (l # ls) \<longleftrightarrow> le_val xs < le_val ls \<or> xs = ls \<and> x < l"
    unfolding eq le_val.simps word_less_nat_alt by (rule digit_less [OF b])
  then show ?case using Cons.IH by (simp add: canonical_step_flags conj_commute)
qed

lemma length_order_bytes: "length order_bytes = 32"
  by (simp add: order_bytes_def)

lemma sc25519_is_canonical_less:
  assumes "length s = 32"
  shows "sc25519_is_canonical s \<longleftrightarrow> int (le_val s) < order"
proof -
  have z: "map (\<lambda>i. (s ! i, order_bytes ! i)) [0..<32] = zip s order_bytes"
    by (rule nth_equalityI) (simp_all add: assms length_order_bytes)
  have "fold (\<lambda>i. canonical_step (s ! i) (order_bytes ! i)) (rev [0..<32]) (0, 1) =
      fold (\<lambda>(x, l). canonical_step x l) (map (\<lambda>i. (s ! i, order_bytes ! i)) (rev [0..<32])) (0, 1)"
    unfolding fold_map by (simp add: comp_def)
  also have "map (\<lambda>i. (s ! i, order_bytes ! i)) (rev [0..<32]) = rev (zip s order_bytes)" by (simp only: rev_map z flip: rev_map)
  also have "fold (\<lambda>(x, l). canonical_step x l) (rev (zip s order_bytes)) (0, 1) = (flag (le_val s < le_val order_bytes), flag (s = order_bytes))"
    by (rule canonical_fold) (simp add: assms length_order_bytes)
  finally have "sc25519_is_canonical s \<longleftrightarrow> le_val s < le_val order_bytes" unfolding sc25519_is_canonical_def by (simp add: flag_def)
  then show ?thesis unfolding le_val_order_bytes [symmetric] by simp
qed

section \<open>Properties\<close>

text \<open>\<open>sc25519_invert\<close> raises a scalar to the power \<open>L - 2\<close> modulo \<open>L\<close>.\<close>

lemma sc25519_invert_power:
  assumes "length s = 32"
  shows "int (le_val (sc25519_invert s)) mod order = int (le_val s) ^ nat (order - 2) mod order"
  using power_rep_invert [OF assms] by (simp add: power_rep_def)

text \<open>
  C33: for operands of 32 bytes the scalar operations return the 32 bytes of the product and of
  product and sum modulo the order \<open>L\<close> of the base point, and the reduction of 64 bytes leaves their
  remainder modulo \<open>L\<close> in the first half; \<open>sc25519_is_canonical\<close> tells the scalars below \<open>L\<close>, as all
  these results are.
\<close>

theorem sc25519_modulo:
  assumes "length a = 32" "length b = 32" "length c = 32" "length s = 64"
  shows "int (le_val (sc25519_mul a b)) = int (le_val a) * int (le_val b) mod order \<and>
    int (le_val (sc25519_muladd a b c)) = (int (le_val a) * int (le_val b) + int (le_val c)) mod order \<and>
    int (le_val (take 32 (sc25519_reduce s))) = int (le_val s) mod order \<and>
    (sc25519_is_canonical a \<longleftrightarrow> int (le_val a) < order) \<and> sc25519_is_canonical (sc25519_mul a b) \<and>
    sc25519_is_canonical (sc25519_muladd a b c) \<and> sc25519_is_canonical (take 32 (sc25519_reduce s))"
proof -
  have "length (take 32 (sc25519_reduce s)) = 32" by (simp add: sc25519_reduce_def)
  moreover have "0 < order" by (simp add: order_def)
  ultimately show ?thesis using assms
    by (simp add: sc25519_is_canonical_less sc25519_mul_value sc25519_muladd_value sc25519_reduce_value)
qed

lemma sc25519_modulo_witness:
  "int (le_val (sc25519_mul (2 # replicate 31 0) order_bytes)) = 0 \<and>
   int (le_val (sc25519_muladd (2 # replicate 31 0) (3 # replicate 31 0) order_bytes)) = 6 \<and>
   int (le_val (take 32 (sc25519_reduce (order_bytes @ replicate 32 0)))) = 0 \<and> \<not> sc25519_is_canonical order_bytes"
  using sc25519_modulo [of "2 # replicate 31 0" order_bytes "replicate 32 0" "replicate 64 0"]
    sc25519_modulo [of "2 # replicate 31 0" "3 # replicate 31 0" order_bytes "order_bytes @ replicate 32 0"]
    sc25519_modulo [of order_bytes order_bytes order_bytes "replicate 64 0"]
  by (simp add: length_order_bytes le_val_order_bytes le_val_append order_def)

end
