(* ===== verification/Ge25519.thy ===== *)
theory Ge25519
  imports Sc25519 SodiumUtils
begin

text \<open>
  The group of points of the Edwards curve \<open>-x^2 + y^2 = 1 + d * x^2 * y^2\<close> in libsodium's portable code
  (\<open>ed25519_ref10.c\<close>, \<open>ed25519_ref10.h\<close>): the representations of points, addition and doubling, the
  encoding of points, constant-time table lookup, and the three scalar multiplications.  The precomputed
  tables are arguments here; \<open>Ge25519_Base\<close> holds them.
\<close>

section \<open>Field elements\<close>

definition fe25519_iszero :: "fe25519 \<Rightarrow> i32" where
  "fe25519_iszero f = sodium_is_zero (fe25519_tobytes f) 32"

definition fe25519_cneg :: "fe25519 \<Rightarrow> u32 \<Rightarrow> fe25519" where
  "fe25519_cneg f b = fe25519_cmov f (fe25519_neg f) b"

definition fe25519_abs :: "fe25519 \<Rightarrow> fe25519" where
  "fe25519_abs f = fe25519_cneg f (ucast (fe25519_isnegative f))"

definition fe25519_sqrtm1 :: fe25519 where
  "fe25519_sqrtm1 = [-32595792, -7943725, 9377950, 3500415, 12389472, -272473, -25146209, -2005654, 326686, 11406482]"

definition ed25519_d :: fe25519 where
  "ed25519_d = [-10913610, 13857413, -15372611, 6949391, 114729, -8787816, -6275908, -3247719, -18696448, -12055116]"

definition ed25519_d2 :: fe25519 where
  "ed25519_d2 = [-21827239, -5839606, -30745221, 13898782, 229458, 15978800, -12551817, -6495438, 29715968, 9444199]"

section \<open>Points\<close>

text \<open>
  \<open>p2\<close>: \<open>x = X/Z\<close>, \<open>y = Y/Z\<close>; \<open>p3\<close>: also \<open>X*Y = Z*T\<close>; \<open>p1p1\<close>: \<open>x = X/Z\<close>, \<open>y = Y/T\<close>; \<open>precomp\<close>:
  \<open>y+x\<close>, \<open>y-x\<close>, \<open>2*d*x*y\<close>; \<open>cached\<close>: the same times \<open>Z\<close>.
\<close>

record ge25519_p2 =
  p2_X :: fe25519
  p2_Y :: fe25519
  p2_Z :: fe25519

record ge25519_p3 =
  p3_X :: fe25519
  p3_Y :: fe25519
  p3_Z :: fe25519
  p3_T :: fe25519

record ge25519_p1p1 =
  p1_X :: fe25519
  p1_Y :: fe25519
  p1_Z :: fe25519
  p1_T :: fe25519

record ge25519_precomp =
  yplusx :: fe25519
  yminusx :: fe25519
  xy2d :: fe25519

record ge25519_cached =
  YplusX :: fe25519
  YminusX :: fe25519
  cd_Z :: fe25519
  T2d :: fe25519

definition ge25519_p2_0 :: ge25519_p2 where
  "ge25519_p2_0 = \<lparr>p2_X = fe25519_0, p2_Y = fe25519_1, p2_Z = fe25519_1\<rparr>"

definition ge25519_p3_0 :: ge25519_p3 where
  "ge25519_p3_0 = \<lparr>p3_X = fe25519_0, p3_Y = fe25519_1, p3_Z = fe25519_1, p3_T = fe25519_0\<rparr>"

definition ge25519_precomp_0 :: ge25519_precomp where
  "ge25519_precomp_0 = \<lparr>yplusx = fe25519_1, yminusx = fe25519_1, xy2d = fe25519_0\<rparr>"

definition ge25519_cached_0 :: ge25519_cached where
  "ge25519_cached_0 = \<lparr>YplusX = fe25519_1, YminusX = fe25519_1, cd_Z = fe25519_1, T2d = fe25519_0\<rparr>"

section \<open>Addition and doubling\<close>

definition ge25519_add_cached :: "ge25519_p3 \<Rightarrow> ge25519_cached \<Rightarrow> ge25519_p1p1" where
  "ge25519_add_cached p q =
    (let X = fe25519_add (p3_Y p) (p3_X p);
         Y = fe25519_sub (p3_Y p) (p3_X p);
         Z = fe25519_mul X (YplusX q);
         Y = fe25519_mul Y (YminusX q);
         T = fe25519_mul (T2d q) (p3_T p);
         X = fe25519_mul (p3_Z p) (cd_Z q);
         t0 = fe25519_add X X;
         X = fe25519_sub Z Y;
         Y = fe25519_add Z Y;
         Z = fe25519_add t0 T;
         T = fe25519_sub t0 T
     in \<lparr>p1_X = X, p1_Y = Y, p1_Z = Z, p1_T = T\<rparr>)"

definition ge25519_sub_cached :: "ge25519_p3 \<Rightarrow> ge25519_cached \<Rightarrow> ge25519_p1p1" where
  "ge25519_sub_cached p q =
    (let X = fe25519_add (p3_Y p) (p3_X p);
         Y = fe25519_sub (p3_Y p) (p3_X p);
         Z = fe25519_mul X (YminusX q);
         Y = fe25519_mul Y (YplusX q);
         T = fe25519_mul (T2d q) (p3_T p);
         X = fe25519_mul (p3_Z p) (cd_Z q);
         t0 = fe25519_add X X;
         X = fe25519_sub Z Y;
         Y = fe25519_add Z Y;
         Z = fe25519_sub t0 T;
         T = fe25519_add t0 T
     in \<lparr>p1_X = X, p1_Y = Y, p1_Z = Z, p1_T = T\<rparr>)"

definition ge25519_add_precomp :: "ge25519_p3 \<Rightarrow> ge25519_precomp \<Rightarrow> ge25519_p1p1" where
  "ge25519_add_precomp p q =
    (let X = fe25519_add (p3_Y p) (p3_X p);
         Y = fe25519_sub (p3_Y p) (p3_X p);
         Z = fe25519_mul X (yplusx q);
         Y = fe25519_mul Y (yminusx q);
         T = fe25519_mul (xy2d q) (p3_T p);
         t0 = fe25519_add (p3_Z p) (p3_Z p);
         X = fe25519_sub Z Y;
         Y = fe25519_add Z Y;
         Z = fe25519_add t0 T;
         T = fe25519_sub t0 T
     in \<lparr>p1_X = X, p1_Y = Y, p1_Z = Z, p1_T = T\<rparr>)"

definition ge25519_sub_precomp :: "ge25519_p3 \<Rightarrow> ge25519_precomp \<Rightarrow> ge25519_p1p1" where
  "ge25519_sub_precomp p q =
    (let X = fe25519_add (p3_Y p) (p3_X p);
         Y = fe25519_sub (p3_Y p) (p3_X p);
         Z = fe25519_mul X (yminusx q);
         Y = fe25519_mul Y (yplusx q);
         T = fe25519_mul (xy2d q) (p3_T p);
         t0 = fe25519_add (p3_Z p) (p3_Z p);
         X = fe25519_sub Z Y;
         Y = fe25519_add Z Y;
         Z = fe25519_sub t0 T;
         T = fe25519_add t0 T
     in \<lparr>p1_X = X, p1_Y = Y, p1_Z = Z, p1_T = T\<rparr>)"

definition ge25519_p2_dbl :: "ge25519_p2 \<Rightarrow> ge25519_p1p1" where
  "ge25519_p2_dbl p =
    (let X = fe25519_sq (p2_X p);
         Z = fe25519_sq (p2_Y p);
         T = fe25519_sq2 (p2_Z p);
         Y = fe25519_add (p2_X p) (p2_Y p);
         t0 = fe25519_sq Y;
         Y = fe25519_add Z X;
         Z = fe25519_sub Z X;
         X = fe25519_sub t0 Y;
         T = fe25519_sub T Z
     in \<lparr>p1_X = X, p1_Y = Y, p1_Z = Z, p1_T = T\<rparr>)"

section \<open>Conversions\<close>

definition ge25519_p1p1_to_p2 :: "ge25519_p1p1 \<Rightarrow> ge25519_p2" where
  "ge25519_p1p1_to_p2 p =
     \<lparr>p2_X = fe25519_mul (p1_X p) (p1_T p), p2_Y = fe25519_mul (p1_Y p) (p1_Z p), p2_Z = fe25519_mul (p1_Z p) (p1_T p)\<rparr>"

definition ge25519_p1p1_to_p3 :: "ge25519_p1p1 \<Rightarrow> ge25519_p3" where
  "ge25519_p1p1_to_p3 p =
     \<lparr>p3_X = fe25519_mul (p1_X p) (p1_T p), p3_Y = fe25519_mul (p1_Y p) (p1_Z p), p3_Z = fe25519_mul (p1_Z p) (p1_T p),
      p3_T = fe25519_mul (p1_X p) (p1_Y p)\<rparr>"

definition ge25519_p3_to_p2 :: "ge25519_p3 \<Rightarrow> ge25519_p2" where
  "ge25519_p3_to_p2 p = \<lparr>p2_X = p3_X p, p2_Y = p3_Y p, p2_Z = p3_Z p\<rparr>"

definition ge25519_p3_dbl :: "ge25519_p3 \<Rightarrow> ge25519_p1p1" where
  "ge25519_p3_dbl p = ge25519_p2_dbl (ge25519_p3_to_p2 p)"

definition ge25519_p3_to_cached :: "ge25519_p3 \<Rightarrow> ge25519_cached" where
  "ge25519_p3_to_cached p =
     \<lparr>YplusX = fe25519_add (p3_Y p) (p3_X p), YminusX = fe25519_sub (p3_Y p) (p3_X p), cd_Z = p3_Z p,
      T2d = fe25519_mul (p3_T p) ed25519_d2\<rparr>"

definition ge25519_p3_to_precomp :: "ge25519_p3 \<Rightarrow> ge25519_precomp" where
  "ge25519_p3_to_precomp p =
    (let recip = fe25519_invert (p3_Z p);
         x = fe25519_mul (p3_X p) recip;
         y = fe25519_mul (p3_Y p) recip;
         xy = fe25519_mul x y
     in \<lparr>yplusx = fe25519_add y x, yminusx = fe25519_sub y x, xy2d = fe25519_mul xy ed25519_d2\<rparr>)"

definition ge25519_p3p3_dbl :: "ge25519_p3 \<Rightarrow> ge25519_p3" where
  "ge25519_p3p3_dbl p = ge25519_p1p1_to_p3 (ge25519_p3_dbl p)"

definition ge25519_p3_add :: "ge25519_p3 \<Rightarrow> ge25519_p3 \<Rightarrow> ge25519_p3" where
  "ge25519_p3_add p q = ge25519_p1p1_to_p3 (ge25519_add_cached p (ge25519_p3_to_cached q))"

text \<open>\<open>r * 2^n + q\<close>; the code is called with \<open>n\<close> at least 1 (for 0 it reads a variable it has not set).\<close>

definition ge25519_p3_dbladd :: "ge25519_p3 \<Rightarrow> nat \<Rightarrow> ge25519_p3 \<Rightarrow> ge25519_p3" where
  "ge25519_p3_dbladd r n q =
    (let p2 = ((\<lambda>p2. ge25519_p1p1_to_p2 (ge25519_p2_dbl p2)) ^^ (n - 1)) (ge25519_p3_to_p2 r);
         p1p1 = ge25519_p2_dbl p2
     in ge25519_p3_add (ge25519_p1p1_to_p3 p1p1) q)"

section \<open>Encoding of points\<close>

text \<open>\<open>s[31] ^= fe25519_isnegative(x) << 7\<close>\<close>

definition ge25519_encode :: "fe25519 \<Rightarrow> fe25519 \<Rightarrow> fe25519 \<Rightarrow> bytes" where
  "ge25519_encode X Y Z =
    (let recip = fe25519_invert Z;
         x = fe25519_mul X recip;
         y = fe25519_mul Y recip;
         s = fe25519_tobytes y
     in s[31 := s ! 31 XOR ucast (push_bit 7 (fe25519_isnegative x))])"

definition ge25519_tobytes :: "ge25519_p2 \<Rightarrow> bytes" where
  "ge25519_tobytes h = ge25519_encode (p2_X h) (p2_Y h) (p2_Z h)"

definition ge25519_p3_tobytes :: "ge25519_p3 \<Rightarrow> bytes" where
  "ge25519_p3_tobytes h = ge25519_encode (p3_X h) (p3_Y h) (p3_Z h)"

text \<open>The candidate root \<open>x = u * v^3 * (u * v^7)^((q-5)/8)\<close> of \<open>u / v\<close> and \<open>v * x^2\<close>, shared by the two decoders.\<close>

definition decode_root :: "bytes \<Rightarrow> fe25519 \<times> fe25519 \<times> fe25519 \<times> fe25519" where
  "decode_root s =
    (let Y = fe25519_frombytes s;
         Z = fe25519_1;
         u = fe25519_sq Y;
         v = fe25519_mul u ed25519_d;
         u = fe25519_sub u Z;
         v = fe25519_add v Z;
         v3 = fe25519_sq v;
         v3 = fe25519_mul v3 v;
         X = fe25519_sq v3;
         X = fe25519_mul X v;
         X = fe25519_mul X u;
         X = fe25519_pow22523 X;
         X = fe25519_mul X v3;
         X = fe25519_mul X u;
         vxx = fe25519_sq X;
         vxx = fe25519_mul vxx v
     in (X, Y, u, vxx))"

definition ge25519_frombytes_negate_vartime :: "bytes \<Rightarrow> ge25519_p3 option" where
  "ge25519_frombytes_negate_vartime s =
    (let (X, Y, u, vxx) = decode_root s;
         m_root_check = fe25519_sub vxx u;
         p_root_check = fe25519_add vxx u
     in if fe25519_iszero m_root_check = 0 \<and> fe25519_iszero p_root_check = 0 then None
        else let X = (if fe25519_iszero m_root_check = 0 then fe25519_mul X fe25519_sqrtm1 else X);
                 X = (if fe25519_isnegative X = ucast (drop_bit 7 (s ! 31)) then fe25519_neg X else X)
             in Some \<lparr>p3_X = X, p3_Y = Y, p3_Z = fe25519_1, p3_T = fe25519_mul X Y\<rparr>)"

text \<open>The constant-time decoder: a point whatever the bytes, and 0 or -1.\<close>

definition ge25519_frombytes :: "bytes \<Rightarrow> ge25519_p3 \<times> i32" where
  "ge25519_frombytes s =
    (let (X, Y, u, vxx) = decode_root s;
         m_root_check = fe25519_sub vxx u;
         p_root_check = fe25519_add vxx u;
         has_m_root = fe25519_iszero m_root_check;
         has_p_root = fe25519_iszero p_root_check;
         x_sqrtm1 = fe25519_mul X fe25519_sqrtm1;
         X = fe25519_cmov X x_sqrtm1 (ucast (1 - has_m_root));
         negx = fe25519_neg X;
         X = fe25519_cmov X negx (ucast (fe25519_isnegative X XOR ucast (drop_bit 7 (s ! 31))))
     in (\<lparr>p3_X = X, p3_Y = Y, p3_Z = fe25519_1, p3_T = fe25519_mul X Y\<rparr>, (has_m_root OR has_p_root) - 1))"

section \<open>Checks of points\<close>

definition ge25519_is_on_curve :: "ge25519_p3 \<Rightarrow> i32" where
  "ge25519_is_on_curve p =
    (let x2 = fe25519_sq (p3_X p);
         y2 = fe25519_sq (p3_Y p);
         z2 = fe25519_sq (p3_Z p);
         t0 = fe25519_sub y2 x2;
         t0 = fe25519_mul t0 z2;
         t1 = fe25519_mul x2 y2;
         t1 = fe25519_mul t1 ed25519_d;
         z4 = fe25519_sq z2;
         t1 = fe25519_add t1 z4;
         t0 = fe25519_sub t0 t1
     in fe25519_iszero t0)"

text \<open>\<open>y\<close> below the prime; the subtractions are those of \<open>unsigned int\<close>, cut to 8 bits when stored.\<close>

definition ge25519_is_canonical :: "bytes \<Rightarrow> i32" where
  "ge25519_is_canonical s =
    (let c = (s ! 31 AND 0x7f) XOR 0x7f;
         c = fold (\<lambda>i c. c OR (s ! i XOR 0xff)) (rev [1..<31]) c;
         c = ucast (drop_bit 8 (ucast c - 1 :: u32)) :: u8;
         d = ucast (drop_bit 8 (0xed - 1 - ucast (s ! 0) :: u32)) :: u8
     in 1 - ucast (c AND d AND 1))"

definition ge25519_blocklist :: "bytes list" where
  "ge25519_blocklist =
    [[0x00, 0x00, 0x00, 0x00, 0x00, 0x00, 0x00, 0x00, 0x00, 0x00, 0x00, 0x00, 0x00, 0x00, 0x00, 0x00,
      0x00, 0x00, 0x00, 0x00, 0x00, 0x00, 0x00, 0x00, 0x00, 0x00, 0x00, 0x00, 0x00, 0x00, 0x00, 0x00],
     [0x01, 0x00, 0x00, 0x00, 0x00, 0x00, 0x00, 0x00, 0x00, 0x00, 0x00, 0x00, 0x00, 0x00, 0x00, 0x00,
      0x00, 0x00, 0x00, 0x00, 0x00, 0x00, 0x00, 0x00, 0x00, 0x00, 0x00, 0x00, 0x00, 0x00, 0x00, 0x00],
     [0x26, 0xe8, 0x95, 0x8f, 0xc2, 0xb2, 0x27, 0xb0, 0x45, 0xc3, 0xf4, 0x89, 0xf2, 0xef, 0x98, 0xf0,
      0xd5, 0xdf, 0xac, 0x05, 0xd3, 0xc6, 0x33, 0x39, 0xb1, 0x38, 0x02, 0x88, 0x6d, 0x53, 0xfc, 0x05],
     [0xc7, 0x17, 0x6a, 0x70, 0x3d, 0x4d, 0xd8, 0x4f, 0xba, 0x3c, 0x0b, 0x76, 0x0d, 0x10, 0x67, 0x0f,
      0x2a, 0x20, 0x53, 0xfa, 0x2c, 0x39, 0xcc, 0xc6, 0x4e, 0xc7, 0xfd, 0x77, 0x92, 0xac, 0x03, 0x7a],
     [0xec, 0xff, 0xff, 0xff, 0xff, 0xff, 0xff, 0xff, 0xff, 0xff, 0xff, 0xff, 0xff, 0xff, 0xff, 0xff,
      0xff, 0xff, 0xff, 0xff, 0xff, 0xff, 0xff, 0xff, 0xff, 0xff, 0xff, 0xff, 0xff, 0xff, 0xff, 0x7f],
     [0xed, 0xff, 0xff, 0xff, 0xff, 0xff, 0xff, 0xff, 0xff, 0xff, 0xff, 0xff, 0xff, 0xff, 0xff, 0xff,
      0xff, 0xff, 0xff, 0xff, 0xff, 0xff, 0xff, 0xff, 0xff, 0xff, 0xff, 0xff, 0xff, 0xff, 0xff, 0x7f],
     [0xee, 0xff, 0xff, 0xff, 0xff, 0xff, 0xff, 0xff, 0xff, 0xff, 0xff, 0xff, 0xff, 0xff, 0xff, 0xff,
      0xff, 0xff, 0xff, 0xff, 0xff, 0xff, 0xff, 0xff, 0xff, 0xff, 0xff, 0xff, 0xff, 0xff, 0xff, 0x7f]]"

definition ge25519_has_small_order :: "bytes \<Rightarrow> bool" where
  "ge25519_has_small_order s = blocklisted ge25519_blocklist s"

section \<open>Constant-time lookup\<close>

text \<open>Bytes of both signs; the results are 0 or 1.\<close>

definition equal_byte :: "u8 \<Rightarrow> u8 \<Rightarrow> u8" where
  "equal_byte b c =
    (let x = b XOR c;
         y = ucast x :: u32;
         y = y - 1
     in ucast (drop_bit 31 y))"

definition negative_byte :: "u8 \<Rightarrow> u8" where
  "negative_byte b = ucast (drop_bit 63 (scast b :: u64))"

definition babs_byte :: "u8 \<Rightarrow> u8" where
  "babs_byte b = ucast (scast b - ((- ucast (negative_byte b)) AND scast b) * 2 :: i32)"

definition ge25519_cmov :: "ge25519_precomp \<Rightarrow> ge25519_precomp \<Rightarrow> u8 \<Rightarrow> ge25519_precomp" where
  "ge25519_cmov t u b =
     \<lparr>yplusx = fe25519_cmov (yplusx t) (yplusx u) (ucast b), yminusx = fe25519_cmov (yminusx t) (yminusx u) (ucast b),
      xy2d = fe25519_cmov (xy2d t) (xy2d u) (ucast b)\<rparr>"

definition ge25519_cmov_cached :: "ge25519_cached \<Rightarrow> ge25519_cached \<Rightarrow> u8 \<Rightarrow> ge25519_cached" where
  "ge25519_cmov_cached t u b =
     \<lparr>YplusX = fe25519_cmov (YplusX t) (YplusX u) (ucast b), YminusX = fe25519_cmov (YminusX t) (YminusX u) (ucast b),
      cd_Z = fe25519_cmov (cd_Z t) (cd_Z u) (ucast b), T2d = fe25519_cmov (T2d t) (T2d u) (ucast b)\<rparr>"

definition ge25519_cmov8 :: "ge25519_precomp list \<Rightarrow> u8 \<Rightarrow> ge25519_precomp" where
  "ge25519_cmov8 precomp b =
    (let t = fold (\<lambda>j t. ge25519_cmov t (precomp ! j) (equal_byte (babs_byte b) (of_nat (Suc j)))) [0..<8] ge25519_precomp_0;
         minust = \<lparr>yplusx = yminusx t, yminusx = yplusx t, xy2d = fe25519_neg (xy2d t)\<rparr>
     in ge25519_cmov t minust (negative_byte b))"

definition ge25519_cmov8_cached :: "ge25519_cached list \<Rightarrow> u8 \<Rightarrow> ge25519_cached" where
  "ge25519_cmov8_cached cached b =
    (let t = fold (\<lambda>j t. ge25519_cmov_cached t (cached ! j) (equal_byte (babs_byte b) (of_nat (Suc j)))) [0..<8] ge25519_cached_0;
         minust = \<lparr>YplusX = YminusX t, YminusX = YplusX t, cd_Z = cd_Z t, T2d = fe25519_neg (T2d t)\<rparr>
     in ge25519_cmov_cached t minust (negative_byte b))"

section \<open>Digits of scalars\<close>

text \<open>
  \<open>slide_vartime\<close>: odd digits between -15 and 15, most of them 0.  The \<open>signed char\<close> array holds nothing
  beyond that range, so its entries are integers.
\<close>

definition scalar_bits :: "bytes \<Rightarrow> int list" where
  "scalar_bits a = map (\<lambda>i. uint (1 AND drop_bit (i mod 8) (a ! (i div 8)))) [0..<256]"

function slide_carry :: "nat \<Rightarrow> int list \<Rightarrow> int list" where
  "slide_carry k r =
     (if k < 256 then if r ! k = 0 then r[k := 1] else slide_carry (Suc k) (r[k := 0]) else r)"
  by pat_completeness auto
termination by (relation "measure (\<lambda>(k, r). 256 - k)") auto

declare slide_carry.simps [simp del]

function slide_inner :: "nat \<Rightarrow> nat \<Rightarrow> int list \<Rightarrow> int list" where
  "slide_inner i b r =
     (if b \<le> 6 \<and> i + b < 256 then
        if r ! (i + b) = 0 then slide_inner i (Suc b) r
        else let ribs = r ! (i + b) * 2 ^ b; cmp = r ! i + ribs in
          if cmp \<le> 15 then slide_inner i (Suc b) (r[i := cmp, i + b := 0])
          else let cmp = r ! i - ribs in
            if cmp < -15 then r
            else slide_inner i (Suc b) (slide_carry (i + b) (r[i := cmp]))
      else r)"
  by pat_completeness auto
termination by (relation "measure (\<lambda>(i, b, r). 7 - b)") auto

declare slide_inner.simps [simp del]

definition slide_step :: "nat \<Rightarrow> int list \<Rightarrow> int list" where
  "slide_step i r = (if r ! i = 0 then r else slide_inner i 1 r)"

definition slide_vartime :: "bytes \<Rightarrow> int list" where
  "slide_vartime a = fold slide_step [0..<256] (scalar_bits a)"

text \<open>The 64 digits between -8 and 8 of the other two multiplications\<close>

definition scalar_nibbles :: "bytes \<Rightarrow> int list" where
  "scalar_nibbles a = concat (map (\<lambda>i. [uint (a ! i AND 15), uint (drop_bit 4 (a ! i) AND 15)]) [0..<32])"

definition recode_step :: "nat \<Rightarrow> int list \<times> int \<Rightarrow> int list \<times> int" where
  "recode_step i = (\<lambda>(e, carry).
     let ei = e ! i + carry;
         carry = (ei + 8) div 16
     in (e[i := ei - carry * 16], carry))"

definition scalar_recode :: "bytes \<Rightarrow> int list" where
  "scalar_recode a = (let (e, carry) = fold recode_step [0..<63] (scalar_nibbles a, 0) in e[63 := e ! 63 + carry])"

section \<open>Scalar multiplication\<close>

text \<open>\<open>ge25519_scalarmult\<close>: the first eight multiples of the point, then 16 times the sum and a digit.\<close>

definition small_multiples :: "ge25519_p3 \<Rightarrow> ge25519_cached list" where
  "small_multiples p =
    (let c1 = ge25519_p3_to_cached p;
         p2 = ge25519_p1p1_to_p3 (ge25519_p3_dbl p); c2 = ge25519_p3_to_cached p2;
         p3 = ge25519_p1p1_to_p3 (ge25519_add_cached p c2); c3 = ge25519_p3_to_cached p3;
         p4 = ge25519_p1p1_to_p3 (ge25519_p3_dbl p2); c4 = ge25519_p3_to_cached p4;
         p5 = ge25519_p1p1_to_p3 (ge25519_add_cached p c4); c5 = ge25519_p3_to_cached p5;
         p6 = ge25519_p1p1_to_p3 (ge25519_p3_dbl p3); c6 = ge25519_p3_to_cached p6;
         p7 = ge25519_p1p1_to_p3 (ge25519_add_cached p c6); c7 = ge25519_p3_to_cached p7;
         p8 = ge25519_p1p1_to_p3 (ge25519_p3_dbl p4); c8 = ge25519_p3_to_cached p8
     in [c1, c2, c3, c4, c5, c6, c7, c8])"

definition times_16 :: "ge25519_p1p1 \<Rightarrow> ge25519_p1p1" where
  "times_16 r = ((\<lambda>r. ge25519_p2_dbl (ge25519_p1p1_to_p2 r)) ^^ 4) r"

definition ge25519_scalarmult :: "bytes \<Rightarrow> ge25519_p3 \<Rightarrow> ge25519_p3" where
  "ge25519_scalarmult a p =
    (let pi = small_multiples p;
         e = scalar_recode a;
         add = (\<lambda>i h. ge25519_add_cached h (ge25519_cmov8_cached pi (word_of_int (e ! i))));
         h = fold (\<lambda>i h. ge25519_p1p1_to_p3 (times_16 (add i h))) (rev [1..<64]) ge25519_p3_0
     in ge25519_p1p1_to_p3 (add 0 h))"

text \<open>\<open>ge25519_scalarmult_base\<close> with the table as an argument: odd digits, times 16, even digits.\<close>

definition scalarmult_table :: "ge25519_precomp list list \<Rightarrow> bytes \<Rightarrow> ge25519_p3" where
  "scalarmult_table base a =
    (let e = scalar_recode a;
         step = (\<lambda>i h. ge25519_p1p1_to_p3 (ge25519_add_precomp h (ge25519_cmov8 (base ! (i div 2)) (word_of_int (e ! i)))));
         h = fold step (map (\<lambda>j. 2 * j + 1) [0..<32]) ge25519_p3_0;
         r = ge25519_p3_dbl h;
         r = ((\<lambda>r. ge25519_p2_dbl (ge25519_p1p1_to_p2 r)) ^^ 3) r
     in fold step (map (\<lambda>j. 2 * j) [0..<32]) (ge25519_p1p1_to_p3 r))"

text \<open>\<open>ge25519_double_scalarmult_vartime\<close>: the odd multiples \<open>A, 3A, ..., 15A\<close>, then the digits from the top.\<close>

definition odd_multiples :: "ge25519_p3 \<Rightarrow> ge25519_cached list" where
  "odd_multiples A =
    (let A2 = ge25519_p1p1_to_p3 (ge25519_p3_dbl A);
         step = (\<lambda>c. ge25519_p3_to_cached (ge25519_p1p1_to_p3 (ge25519_add_cached A2 c)))
     in map (\<lambda>j. (step ^^ j) (ge25519_p3_to_cached A)) [0..<8])"

definition add_digit :: "('p \<Rightarrow> ge25519_p3) \<Rightarrow> (ge25519_p3 \<Rightarrow> 'c \<Rightarrow> 'p) \<Rightarrow> (ge25519_p3 \<Rightarrow> 'c \<Rightarrow> 'p) \<Rightarrow> 'c list \<Rightarrow> int \<Rightarrow> 'p \<Rightarrow> 'p" where
  "add_digit to_p3 add sub table e t =
     (if 0 < e then add (to_p3 t) (table ! nat (e div 2))
      else if e < 0 then sub (to_p3 t) (table ! nat (- e div 2))
      else t)"

definition double_scalarmult_table :: "ge25519_precomp list \<Rightarrow> bytes \<Rightarrow> ge25519_p3 \<Rightarrow> bytes \<Rightarrow> ge25519_p2" where
  "double_scalarmult_table Bi a A b =
    (let aslide = slide_vartime a;
         bslide = slide_vartime b;
         Ai = odd_multiples A
     in fold (\<lambda>i r.
          let t = ge25519_p2_dbl r;
              t = add_digit ge25519_p1p1_to_p3 ge25519_add_cached ge25519_sub_cached Ai (aslide ! i) t;
              t = add_digit ge25519_p1p1_to_p3 ge25519_add_precomp ge25519_sub_precomp Bi (bslide ! i) t
          in ge25519_p1p1_to_p2 t)
        (dropWhile (\<lambda>i. aslide ! i = 0 \<and> bslide ! i = 0) (rev [0..<256])) ge25519_p2_0)"

section \<open>Multiplication by the order\<close>

definition ge25519_mul_l :: "ge25519_p3 \<Rightarrow> ge25519_p3" where
  "ge25519_mul_l p =
    (let b10 = ge25519_p3p3_dbl p;
         b11 = ge25519_p3_add p b10;
         b100 = ge25519_p3_add p b11;
         b110 = ge25519_p3_add b10 b100;
         b1000 = ge25519_p3_add b10 b110;
         b1011 = ge25519_p3_add b11 b1000;
         b10000 = ge25519_p3p3_dbl b1000;
         b100000 = ge25519_p3p3_dbl b10000;
         b100110 = ge25519_p3_add b110 b100000;
         b1000000 = ge25519_p3p3_dbl b100000;
         b1010000 = ge25519_p3_add b10000 b1000000;
         b1010011 = ge25519_p3_add b11 b1010000;
         b1100011 = ge25519_p3_add b10000 b1010011;
         b1100111 = ge25519_p3_add b100 b1100011;
         b1101011 = ge25519_p3_add b100 b1100111;
         b10010011 = ge25519_p3_add b1000000 b1010011;
         b10010111 = ge25519_p3_add b100 b10010011;
         b10111101 = ge25519_p3_add b100110 b10010111;
         b11010011 = ge25519_p3_add b1000000 b10010011;
         b11100111 = ge25519_p3_add b1010000 b10010111;
         b11101101 = ge25519_p3_add b110 b11100111;
         b11110101 = ge25519_p3_add b1000 b11101101;
         r = ge25519_p3_add b1011 b11110101;
         r = ge25519_p3_dbladd r 126 b1010011;
         r = ge25519_p3_dbladd r 9 b10;
         r = ge25519_p3_add r b11110101;
         r = ge25519_p3_dbladd r 7 b1100111;
         r = ge25519_p3_dbladd r 9 b11110101;
         r = ge25519_p3_dbladd r 11 b10111101;
         r = ge25519_p3_dbladd r 8 b11100111;
         r = ge25519_p3_dbladd r 9 b1101011;
         r = ge25519_p3_dbladd r 6 b1011;
         r = ge25519_p3_dbladd r 14 b10010011;
         r = ge25519_p3_dbladd r 10 b1100011;
         r = ge25519_p3_dbladd r 9 b10010111;
         r = ge25519_p3_dbladd r 10 b11110101;
         r = ge25519_p3_dbladd r 8 b11010011
     in ge25519_p3_dbladd r 8 b11101101)"

definition ge25519_is_on_main_subgroup :: "ge25519_p3 \<Rightarrow> i32" where
  "ge25519_is_on_main_subgroup p = fe25519_iszero (p3_X (ge25519_mul_l p))"

end
