(* ===== verification/Ge25519_Law.thy ===== *)
theory Ge25519_Law
  imports Ge25519 X25519
begin

text \<open>
  What the point operations of \<open>Ge25519\<close> compute: in every representation the result stands for the sum
  that the addition law of the curve gives, and no limb leaves its bounds.  Then the constant-time
  lookups.
\<close>

section \<open>Field elements with bounded limbs\<close>

text \<open>\<open>rep k f a\<close>: the limbs of \<open>f\<close> are at most \<open>k\<close> times the tight bounds and stand for \<open>a\<close> modulo the prime.\<close>

definition rep :: "nat \<Rightarrow> fe25519 \<Rightarrow> int \<Rightarrow> bool" where
  "rep k f a \<longleftrightarrow> bounded (map ((*) (int k)) tight) (map sint f) \<and> fe_val f mod p25519 = a mod p25519"

lemma length_tight: "length tight = 10"
  by (simp add: tight_def)

lemma tight_nonneg: "i < 10 \<Longrightarrow> 0 \<le> tight ! i"
proof -
  have "\<forall>i<10. 0 \<le> tight ! i" unfolding all_10 by (simp add: tight_def)
  then show "i < 10 \<Longrightarrow> 0 \<le> tight ! i" by blast
qed

lemma repD: "rep k f a \<Longrightarrow> length f = 10" "rep k f a \<Longrightarrow> i < 10 \<Longrightarrow> \<bar>sint (f ! i)\<bar> \<le> int k * tight ! i"
  by (auto simp: rep_def bounded_def length_tight)

lemma rep_cong: "rep k f a \<Longrightarrow> a mod p25519 = b mod p25519 \<Longrightarrow> rep k f b"
  by (simp add: rep_def)

lemma rep_mono: "rep j f a \<Longrightarrow> j \<le> k \<Longrightarrow> rep k f a"
proof -
  assume a: "rep j f a" "j \<le> k"
  have "int j * tight ! i \<le> int k * tight ! i" if "i < 10" for i using tight_nonneg [OF that] a(2) by (intro mult_right_mono) auto
  then show ?thesis using a(1) unfolding rep_def by (auto intro: bounded_mono simp: length_tight)
qed

lemma rep_loose: "rep k f a \<Longrightarrow> k \<le> 3 \<Longrightarrow> loose_fe f"
proof -
  assume "rep k f a" "k \<le> 3"
  then have "rep 3 f a" by (rule rep_mono)
  then have "bounded (map ((*) (int 3)) tight) (map sint f)" by (simp only: rep_def)
  then show ?thesis by (rule bounded_mono) (simp_all add: all_10 loose_def tight_def)
qed

lemma rep_tight: "rep 1 f a \<longleftrightarrow> tight_fe f \<and> fe_val f mod p25519 = a mod p25519"
proof -
  have "map ((*) (int 1)) tight = tight" by (simp add: list_eq_iff_nth_eq)
  then show ?thesis by (simp add: rep_def)
qed

lemma rep_3: "rep k f a \<Longrightarrow> k \<le> 3 \<Longrightarrow> bounded (map ((*) 3) tight) (map sint f)"
  using rep_mono [of k f a 3] by (simp add: rep_def)

lemma rep_add_sub:
  assumes "rep j f a" "rep k g b" "j + k \<le> 6"
  shows "rep (j + k) (fe25519_add f g) (a + b)" "rep (j + k) (fe25519_sub f g) (a - b)"
proof -
  note l = repD(1) [OF assms(1)] repD(1) [OF assms(2)]
  have t: "\<forall>i<10. 6 * tight ! i < 2 ^ 30" unfolding all_10 by (simp add: tight_def)
  have s: "sint (f ! i + g ! i) = sint (f ! i) + sint (g ! i)" "sint (f ! i - g ! i) = sint (f ! i) - sint (g ! i)"
    "\<bar>sint (f ! i) + sint (g ! i)\<bar> \<le> int (j + k) * tight ! i" "\<bar>sint (f ! i) - sint (g ! i)\<bar> \<le> int (j + k) * tight ! i"
    if i: "i < 10" for i
  proof -
    note b = repD(2) [OF assms(1) i] repD(2) [OF assms(2) i]
    have "int j * tight ! i \<le> 6 * tight ! i" "int k * tight ! i \<le> 6 * tight ! i"
      using assms(3) by (auto intro!: mult_right_mono tight_nonneg [OF i])
    then have "\<bar>sint (f ! i)\<bar> < 2 ^ 30" "\<bar>sint (g ! i)\<bar> < 2 ^ 30" using b t i by fastforce+
    then show "sint (f ! i + g ! i) = sint (f ! i) + sint (g ! i)" "sint (f ! i - g ! i) = sint (f ! i) - sint (g ! i)"
      by (rule sint_add_sub_32)+
    have "int (j + k) * tight ! i = int j * tight ! i + int k * tight ! i" by (simp add: algebra_simps)
    then show "\<bar>sint (f ! i) + sint (g ! i)\<bar> \<le> int (j + k) * tight ! i" "\<bar>sint (f ! i) - sint (g ! i)\<bar> \<le> int (j + k) * tight ! i"
      using b by linarith+
  qed
  have m: "map sint (fe25519_add f g) = map2 (+) (map sint f) (map sint g)" "map sint (fe25519_sub f g) = map2 (-) (map sint f) (map sint g)"
    by (rule nth_equalityI; use l s in \<open>simp add: fe25519_add_def fe25519_sub_def\<close>)+
  have v: "fe_val (fe25519_add f g) = fe_val f + fe_val g" "fe_val (fe25519_sub f g) = fe_val f - fe_val g"
    unfolding fe_val_def m using ival_map2 [of "map sint f" "map sint g"] l by simp_all
  have "bounded (map ((*) (int (j + k))) tight) (map sint (fe25519_add f g))" "bounded (map ((*) (int (j + k))) tight) (map sint (fe25519_sub f g))"
    using s(3,4) l by (auto simp: bounded_def m length_tight)
  then show "rep (j + k) (fe25519_add f g) (a + b)" "rep (j + k) (fe25519_sub f g) (a - b)"
    using assms(1,2) unfolding rep_def v by (auto intro: mod_add_cong mod_diff_cong)
qed

lemma rep_add_11: "rep 1 f a \<Longrightarrow> rep 1 g b \<Longrightarrow> rep 2 (fe25519_add f g) (a + b)"
  and rep_sub_11: "rep 1 f a \<Longrightarrow> rep 1 g b \<Longrightarrow> rep 2 (fe25519_sub f g) (a - b)"
  and rep_add_21: "rep 2 f a \<Longrightarrow> rep 1 g b \<Longrightarrow> rep 3 (fe25519_add f g) (a + b)"
  and rep_sub_21: "rep 2 f a \<Longrightarrow> rep 1 g b \<Longrightarrow> rep 3 (fe25519_sub f g) (a - b)"
  and rep_add_12: "rep 1 f a \<Longrightarrow> rep 2 g b \<Longrightarrow> rep 3 (fe25519_add f g) (a + b)"
  and rep_sub_12: "rep 1 f a \<Longrightarrow> rep 2 g b \<Longrightarrow> rep 3 (fe25519_sub f g) (a - b)"
  using rep_add_sub [of 1 f a 1 g b] rep_add_sub [of 2 f a 1 g b] rep_add_sub [of 1 f a 2 g b]
  by (simp_all add: numeral_2_eq_2 numeral_3_eq_3)

lemma le_3: "1 \<le> (3 :: nat)" "2 \<le> (3 :: nat)" "3 \<le> (3 :: nat)"
  by simp_all

lemma rep_mul: "rep j f a \<Longrightarrow> rep k g b \<Longrightarrow> j \<le> 3 \<Longrightarrow> k \<le> 3 \<Longrightarrow> rep 1 (fe25519_mul f g) (a * b)"
  using fe25519_mul_ok [OF rep_loose rep_loose, of j f a k g b] unfolding rep_tight by (auto simp: rep_def intro: mod_mult_cong)

lemma rep_sq: "rep k f a \<Longrightarrow> k \<le> 3 \<Longrightarrow> rep 1 (fe25519_sq f) (a * a)"
  using fe25519_sq_ok [OF rep_loose, of k f a] unfolding rep_tight power2_eq_square by (auto simp: rep_def intro: mod_mult_cong)

lemma doubled_bounds:
  "carries_ok [0, 4, 1, 5, 2, 6, 3, 7, 4, 8, 9, 0] (map (\<lambda>b. b + b) (map (imul loose loose) [0..<10]))"
  "bounded tight (fold bcarry [0, 4, 1, 5, 2, 6, 3, 7, 4, 8, 9, 0] (map (\<lambda>b. b + b) (map (imul loose loose) [0..<10])))"
  unfolding product_bounds bounded_def all_10 by (simp_all add: bcarry_eval tight_def)

lemma rep_sq2:
  assumes "rep k f a" "k \<le> 3"
  shows "rep 1 (fe25519_sq2 f) (2 * a * a)"
proof -
  note l = rep_loose [OF assms]
  let ?F = "map sint f" and ?B = "map (imul loose loose) [0..<10]"
  define C where "C = map (imul ?F ?F) [0..<10]"
  have sums: "sq_sums f = map of_int C" unfolding C_def using sq_sums_int looseD [OF l] by blast
  have d: "map (\<lambda>h. h + h) (sq_sums f) = map of_int (map (\<lambda>h. h + h) C)" by (simp add: sums)
  have "bounded ?B C" unfolding C_def by (rule imul_bounded [OF l l])
  then have "bounded (map (\<lambda>b. b + b) ?B) (map (\<lambda>h. h + h) C)" by (fastforce simp: bounded_def)
  moreover have "\<forall>i<10. map (\<lambda>b. b + b) ?B ! i < 2 ^ 63" unfolding product_bounds all_10 by simp
  ultimately have "tight_fe (fe25519_sq2 f)" "fe_val (fe25519_sq2 f) mod p25519 = ival (map (\<lambda>h. h + h) C) mod p25519"
    using carries_store [OF _ _ doubled_bounds tight_less] unfolding fe25519_sq2_def d mul_carries_def by blast+
  moreover have "ival (map (\<lambda>h. h + h) C) = 2 * ival C"
    by (simp add: ival_def C_def sum_distrib_left algebra_simps)
  moreover have "ival C mod p25519 = (fe_val f * fe_val f) mod p25519" unfolding C_def fe_val_def by (rule imul_value)
  moreover have "(fe_val f * fe_val f) mod p25519 = (a * a) mod p25519" using assms(1) by (auto simp: rep_def intro: mod_mult_cong)
  ultimately show ?thesis unfolding rep_tight mult.assoc by (metis mod_mult_right_eq)
qed

lemma rep_neg: "rep k f a \<Longrightarrow> k \<le> 3 \<Longrightarrow> rep k (fe25519_neg f) (- a)"
proof -
  assume r: "rep k f a" and k: "k \<le> 3"
  note l = repD(1) [OF r]
  have n: "sint (- (f ! i)) = - sint (f ! i)" if "i < 10" for i
  proof -
    have "\<bar>sint (f ! i)\<bar> \<le> 2 ^ 29" using looseD(2) [OF rep_loose [OF r k]] that by blast
    then have "\<bar>- sint (f ! i)\<bar> < 2 ^ 31" by simp
    from sint_of_int_32 [OF this] show ?thesis by simp
  qed
  have m: "map sint (fe25519_neg f) = map uminus (map sint f)"
    by (rule nth_equalityI) (simp_all add: fe25519_neg_def l n)
  have "fe_val (fe25519_neg f) = - fe_val f" unfolding fe_val_def m by (simp add: ival_def l sum_negf)
  moreover have "bounded (map ((*) (int k)) tight) (map sint (fe25519_neg f))" using r unfolding rep_def m by (auto simp: bounded_def)
  moreover have "- fe_val f mod p25519 = - a mod p25519" by (rule Euclidean_Rings.mod_minus_cong) (use r in \<open>simp add: rep_def\<close>)
  ultimately show ?thesis by (simp add: rep_def)
qed

lemma cmov_cases: "length f = length g \<Longrightarrow> fe25519_cmov f g (of_bool b) = (if b then g else f)"
proof (cases b)
  case True
  assume "length f = length g"
  then show ?thesis using xor_list_cancel(1) [of f g] True by (simp add: fe25519_cmov_def Let_def flip: map_map)
next
  case False
  assume "length f = length g"
  then have "map2 (XOR) f (map (\<lambda>x. 0) (map2 (XOR) f g)) = f" by (auto simp: list_eq_iff_nth_eq)
  then show ?thesis using False by (simp add: fe25519_cmov_def Let_def del: map_map)
qed

lemma rep_const: "rep 1 fe25519_0 0" "rep 1 fe25519_1 1"
  using repr_const unfolding rep_tight repr_def by (auto simp: p25519_def)

text \<open>Zero is recognised up to three times the tight bounds.\<close>

lemma iszero_rep:
  assumes "rep k f a" "k \<le> 3"
  shows "fe25519_iszero f = (if a mod p25519 = 0 then 1 else 0)"
proof -
  note b = rep_3 [OF assms]
  have l: "length (fe25519_tobytes f) = 32" by (simp add: fe25519_tobytes_def)
  have "int (le_val (fe25519_tobytes f)) = ival (map sint (fe25519_reduce f))"
    unfolding fe25519_tobytes_def by (rule pack_limbs_value [OF fe25519_reduce_sum(1,2) [OF b]])
  then have "le_val (fe25519_tobytes f) = 0 \<longleftrightarrow> a mod p25519 = 0"
    using fe25519_reduce_zero [OF b] assms(1) by (auto simp: rep_def)
  moreover have "le_val (fe25519_tobytes f) = 0 \<longleftrightarrow> (\<forall>i<32. fe25519_tobytes f ! i = 0)"
  proof
    assume "le_val (fe25519_tobytes f) = 0"
    then have "fe25519_tobytes f = replicate 32 0" using l by (intro le_val_inj) simp_all
    then show "\<forall>i<32. fe25519_tobytes f ! i = 0" by simp
  next
    assume "\<forall>i<32. fe25519_tobytes f ! i = 0"
    then have "fe25519_tobytes f = replicate 32 0" using l by (intro nth_equalityI) simp_all
    then show "le_val (fe25519_tobytes f) = 0" by simp
  qed
  ultimately show ?thesis unfolding fe25519_iszero_def sodium_is_zero_eq by simp
qed

section \<open>The Edwards curve\<close>

text \<open>
  Points are pairs of integers, taken modulo the prime.  \<open>edwards_sum P Q R\<close>: the denominators of the
  addition law are invertible and \<open>R\<close> is the sum of \<open>P\<close> and \<open>Q\<close>.
\<close>

definition ed_d :: int where
  "ed_d = 37095705934669439343138083508754565189542113879843219016388785533085940283555"

type_synonym point = "int \<times> int"

definition same_mod :: "int \<Rightarrow> int \<Rightarrow> bool" where
  "same_mod a b \<longleftrightarrow> a mod p25519 = b mod p25519"

definition on_curve :: "point \<Rightarrow> bool" where
  "on_curve = (\<lambda>(x, y). same_mod (y * y - x * x) (1 + ed_d * (x * x * y * y)))"

definition edwards_sum :: "point \<Rightarrow> point \<Rightarrow> point \<Rightarrow> bool" where
  "edwards_sum = (\<lambda>(x1, y1) (x2, y2) (x3, y3).
     let e = ed_d * (x1 * x2 * y1 * y2) in
       coprime (1 + e) p25519 \<and> coprime (1 - e) p25519 \<and>
       same_mod (x3 * (1 + e)) (x1 * y2 + y1 * x2) \<and> same_mod (y3 * (1 - e)) (y1 * y2 + x1 * x2))"

text \<open>The representations: which point a structure of the code stands for.\<close>

definition p2_at :: "ge25519_p2 \<Rightarrow> point \<Rightarrow> bool" where
  "p2_at P = (\<lambda>(x, y). \<exists>Z. coprime Z p25519 \<and> rep 1 (p2_X P) (x * Z) \<and> rep 1 (p2_Y P) (y * Z) \<and> rep 1 (p2_Z P) Z)"

definition p3_at :: "ge25519_p3 \<Rightarrow> point \<Rightarrow> bool" where
  "p3_at P = (\<lambda>(x, y). \<exists>Z. coprime Z p25519 \<and> rep 1 (p3_X P) (x * Z) \<and> rep 1 (p3_Y P) (y * Z) \<and> rep 1 (p3_Z P) Z \<and>
     rep 1 (p3_T P) (x * y * Z))"

definition p1p1_at :: "ge25519_p1p1 \<Rightarrow> point \<Rightarrow> bool" where
  "p1p1_at P = (\<lambda>(x, y). \<exists>Z T. coprime Z p25519 \<and> coprime T p25519 \<and> rep 3 (p1_X P) (x * Z) \<and> rep 3 (p1_Y P) (y * T) \<and>
     rep 3 (p1_Z P) Z \<and> rep 3 (p1_T P) T)"

definition precomp_at :: "ge25519_precomp \<Rightarrow> point \<Rightarrow> bool" where
  "precomp_at P = (\<lambda>(x, y). rep 2 (yplusx P) (y + x) \<and> rep 2 (yminusx P) (y - x) \<and> rep 1 (xy2d P) (2 * ed_d * (x * y)))"

definition cached_at :: "ge25519_cached \<Rightarrow> point \<Rightarrow> bool" where
  "cached_at P = (\<lambda>(x, y). \<exists>Z. coprime Z p25519 \<and> rep 2 (YplusX P) ((y + x) * Z) \<and> rep 2 (YminusX P) ((y - x) * Z) \<and>
     rep 1 (cd_Z P) Z \<and> rep 1 (T2d P) (2 * ed_d * (x * y) * Z))"

definition negated :: "point \<Rightarrow> point" where
  "negated = (\<lambda>(x, y). (- x, y))"

lemma same_mod_dvd: "same_mod a b \<longleftrightarrow> p25519 dvd a - b"
  by (simp add: same_mod_def mod_eq_dvd_iff)

lemma rep_same: "rep k f a \<Longrightarrow> same_mod a b \<Longrightarrow> rep k f b"
  by (simp add: same_mod_def rep_cong)

lemma same_mod_scale: "same_mod a b \<Longrightarrow> same_mod (c * a) (c * b)"
  by (auto simp: same_mod_def intro: mod_mult_cong)

lemma same_mod_sym: "same_mod a b \<Longrightarrow> same_mod b a" and same_mod_refl [simp]: "same_mod a a"
  by (simp_all add: same_mod_def)

lemma odd_p25519 [simp]: "odd p25519"
  by (simp add: p25519_def)

lemma coprime_mod: "same_mod a b \<Longrightarrow> coprime a p25519 \<Longrightarrow> coprime b p25519"
proof -
  have "p25519 \<noteq> 0" by (simp add: p25519_def)
  then show "same_mod a b \<Longrightarrow> coprime a p25519 \<Longrightarrow> coprime b p25519"
    unfolding same_mod_def by (metis coprime_mod_left_iff)
qed

text \<open>What the additions compute, written with the coordinates\<close>

lemma sum_numerators:
  "(y1 * Z1 + x1 * Z1) * ((y2 + x2) * Z2) - (y1 * Z1 - x1 * Z1) * ((y2 - x2) * Z2) = 2 * Z1 * Z2 * (x1 * y2 + y1 * x2)"
  "(y1 * Z1 + x1 * Z1) * ((y2 + x2) * Z2) + (y1 * Z1 - x1 * Z1) * ((y2 - x2) * Z2) = 2 * Z1 * Z2 * (y1 * y2 + x1 * x2)"
  "Z1 * Z2 + Z1 * Z2 + 2 * d * (x2 * y2) * Z2 * (x1 * y1 * Z1) = 2 * Z1 * Z2 * (1 + d * (x1 * x2 * y1 * y2))"
  "Z1 * Z2 + Z1 * Z2 - 2 * d * (x2 * y2) * Z2 * (x1 * y1 * Z1) = 2 * Z1 * Z2 * (1 - d * (x1 * x2 * y1 * y2))"
  for x1 y1 x2 y2 Z1 Z2 d :: int
  by algebra+

text \<open>The last step of all four additions\<close>

lemma p1p1_intro:
  assumes "rep 1 B b" "rep 1 A a" "rep 3 Z (k * (1 + e))" "rep 3 T (k * (1 - e))" "b - a = k * nx" "b + a = k * ny"
    "coprime k p25519" "coprime (1 + e) p25519" "coprime (1 - e) p25519" "same_mod (x * (1 + e)) nx" "same_mod (y * (1 - e)) ny"
  shows "p1p1_at \<lparr>p1_X = fe25519_sub B A, p1_Y = fe25519_add B A, p1_Z = Z, p1_T = T\<rparr> (x, y)"
proof -
  note s = rep_add_11 [OF assms(1,2)] rep_sub_11 [OF assms(1,2)]
  have "same_mod (k * nx) (x * (k * (1 + e)))" "same_mod (k * ny) (y * (k * (1 - e)))"
    using same_mod_scale [OF same_mod_sym [OF assms(10)], of k] same_mod_scale [OF same_mod_sym [OF assms(11)], of k]
    by (simp_all add: algebra_simps)
  then have "rep 2 (fe25519_sub B A) (x * (k * (1 + e)))" "rep 2 (fe25519_add B A) (y * (k * (1 - e)))"
    using s assms(5,6) by (auto intro: rep_same)
  then have "rep 3 (fe25519_sub B A) (x * (k * (1 + e)))" "rep 3 (fe25519_add B A) (y * (k * (1 - e)))"
    by (auto intro: rep_mono)
  moreover have "coprime (k * (1 + e)) p25519" "coprime (k * (1 - e)) p25519" using assms(7-9) by (simp_all add: coprime_mult_left_iff)
  ultimately show ?thesis using assms(3,4)
    unfolding p1p1_at_def prod.case by (rule_tac exI [of _ "k * (1 + e)"], rule_tac exI [of _ "k * (1 - e)"]) simp
qed

lemma edwards_sumD:
  assumes "edwards_sum (x1, y1) (x2, y2) (x3, y3)" "e = ed_d * (x1 * x2 * y1 * y2)"
  shows "coprime (1 + e) p25519" "coprime (1 - e) p25519" "same_mod (x3 * (1 + e)) (x1 * y2 + y1 * x2)"
    "same_mod (y3 * (1 - e)) (y1 * y2 + x1 * x2)"
  using assms by (auto simp: edwards_sum_def Let_def)

lemma add_cached_at:
  assumes "p3_at P A" "cached_at Q B" "edwards_sum A B C"
  shows "p1p1_at (ge25519_add_cached P Q) C"
proof -
  obtain x1 y1 x2 y2 x3 y3 where c: "A = (x1, y1)" "B = (x2, y2)" "C = (x3, y3)" by (metis prod.collapse)
  obtain Z1 where P: "coprime Z1 p25519" "rep 1 (p3_X P) (x1 * Z1)" "rep 1 (p3_Y P) (y1 * Z1)" "rep 1 (p3_Z P) Z1" "rep 1 (p3_T P) (x1 * y1 * Z1)"
    using assms(1) by (auto simp: p3_at_def c)
  obtain Z2 where Q: "coprime Z2 p25519" "rep 2 (YplusX Q) ((y2 + x2) * Z2)" "rep 2 (YminusX Q) ((y2 - x2) * Z2)" "rep 1 (cd_Z Q) Z2"
    "rep 1 (T2d Q) (2 * ed_d * (x2 * y2) * Z2)"
    using assms(2) by (auto simp: cached_at_def c)
  note b = rep_mul [OF rep_add_11 [OF P(3,2)] Q(2) le_3(2,2)] and a = rep_mul [OF rep_sub_11 [OF P(3,2)] Q(3) le_3(2,2)]
  note t = rep_mul [OF Q(5) P(5) le_3(1,1)] and z = rep_mul [OF P(4) Q(4) le_3(1,1)]
  have zt: "rep 3 (fe25519_add (fe25519_add (fe25519_mul (p3_Z P) (cd_Z Q)) (fe25519_mul (p3_Z P) (cd_Z Q))) (fe25519_mul (T2d Q) (p3_T P)))
      (2 * Z1 * Z2 * (1 + ed_d * (x1 * x2 * y1 * y2)))"
    "rep 3 (fe25519_sub (fe25519_add (fe25519_mul (p3_Z P) (cd_Z Q)) (fe25519_mul (p3_Z P) (cd_Z Q))) (fe25519_mul (T2d Q) (p3_T P)))
      (2 * Z1 * Z2 * (1 - ed_d * (x1 * x2 * y1 * y2)))"
    using rep_add_21 [OF rep_add_11 [OF z z] t] rep_sub_21 [OF rep_add_11 [OF z z] t] unfolding sum_numerators(3,4) by simp_all
  show ?thesis
    unfolding ge25519_add_cached_def Let_def c(3)
    by (rule p1p1_intro [OF b a zt sum_numerators(1,2) _ edwards_sumD [OF assms(3) [unfolded c] refl]])
      (use P(1) Q(1) in \<open>simp_all add: coprime_mult_left_iff\<close>)
qed

text \<open>Subtraction adds the point with \<open>x\<close> negated.\<close>

lemma cached_at_negated:
  assumes "cached_at Q (x2, y2)"
  obtains Z2 where "coprime Z2 p25519" "rep 2 (YminusX Q) ((y2 + - x2) * Z2)" "rep 2 (YplusX Q) ((y2 - - x2) * Z2)" "rep 1 (cd_Z Q) Z2"
    "rep 1 (T2d Q) (- (2 * ed_d * (- x2 * y2) * Z2))"
  using assms by (auto simp: cached_at_def)

lemma sub_cached_at:
  assumes "p3_at P A" "cached_at Q B" "edwards_sum A (negated B) C"
  shows "p1p1_at (ge25519_sub_cached P Q) C"
proof -
  obtain x1 y1 x2 y2 x3 y3 where c: "A = (x1, y1)" "B = (x2, y2)" "C = (x3, y3)" by (metis prod.collapse)
  obtain Z1 where P: "coprime Z1 p25519" "rep 1 (p3_X P) (x1 * Z1)" "rep 1 (p3_Y P) (y1 * Z1)" "rep 1 (p3_Z P) Z1" "rep 1 (p3_T P) (x1 * y1 * Z1)"
    using assms(1) by (auto simp: p3_at_def c)
  obtain Z2 where Q: "coprime Z2 p25519" "rep 2 (YminusX Q) ((y2 + - x2) * Z2)" "rep 2 (YplusX Q) ((y2 - - x2) * Z2)" "rep 1 (cd_Z Q) Z2"
    "rep 1 (T2d Q) (- (2 * ed_d * (- x2 * y2) * Z2))"
    using cached_at_negated assms(2) c(2) by blast
  note b = rep_mul [OF rep_add_11 [OF P(3,2)] Q(2) le_3(2,2)] and a = rep_mul [OF rep_sub_11 [OF P(3,2)] Q(3) le_3(2,2)]
  note t = rep_mul [OF Q(5) P(5) le_3(1,1)] and z = rep_mul [OF P(4) Q(4) le_3(1,1)]
  have zt: "rep 3 (fe25519_sub (fe25519_add (fe25519_mul (p3_Z P) (cd_Z Q)) (fe25519_mul (p3_Z P) (cd_Z Q))) (fe25519_mul (T2d Q) (p3_T P)))
      (2 * Z1 * Z2 * (1 + ed_d * (x1 * - x2 * y1 * y2)))"
    "rep 3 (fe25519_add (fe25519_add (fe25519_mul (p3_Z P) (cd_Z Q)) (fe25519_mul (p3_Z P) (cd_Z Q))) (fe25519_mul (T2d Q) (p3_T P)))
      (2 * Z1 * Z2 * (1 - ed_d * (x1 * - x2 * y1 * y2)))"
    using rep_add_21 [OF rep_add_11 [OF z z] t] rep_sub_21 [OF rep_add_11 [OF z z] t] unfolding sum_numerators(3,4) [symmetric] by simp_all
  show ?thesis
    unfolding ge25519_sub_cached_def Let_def c(3)
    by (rule p1p1_intro [OF b a zt sum_numerators(1,2) _ edwards_sumD [OF assms(3) [unfolded c negated_def prod.case] refl]])
      (use P(1) Q(1) in \<open>simp_all add: coprime_mult_left_iff\<close>)
qed

lemma sum_numerators_1:
  "(y1 * Z1 + x1 * Z1) * (y2 + x2) - (y1 * Z1 - x1 * Z1) * (y2 - x2) = 2 * Z1 * (x1 * y2 + y1 * x2)"
  "(y1 * Z1 + x1 * Z1) * (y2 + x2) + (y1 * Z1 - x1 * Z1) * (y2 - x2) = 2 * Z1 * (y1 * y2 + x1 * x2)"
  "Z1 + Z1 + 2 * d * (x2 * y2) * (x1 * y1 * Z1) = 2 * Z1 * (1 + d * (x1 * x2 * y1 * y2))"
  "Z1 + Z1 - 2 * d * (x2 * y2) * (x1 * y1 * Z1) = 2 * Z1 * (1 - d * (x1 * x2 * y1 * y2))"
  for x1 y1 x2 y2 Z1 d :: int
  by algebra+

lemma add_precomp_at:
  assumes "p3_at P A" "precomp_at Q B" "edwards_sum A B C"
  shows "p1p1_at (ge25519_add_precomp P Q) C"
proof -
  obtain x1 y1 x2 y2 x3 y3 where c: "A = (x1, y1)" "B = (x2, y2)" "C = (x3, y3)" by (metis prod.collapse)
  obtain Z1 where P: "coprime Z1 p25519" "rep 1 (p3_X P) (x1 * Z1)" "rep 1 (p3_Y P) (y1 * Z1)" "rep 1 (p3_Z P) Z1" "rep 1 (p3_T P) (x1 * y1 * Z1)"
    using assms(1) by (auto simp: p3_at_def c)
  have Q: "rep 2 (yplusx Q) (y2 + x2)" "rep 2 (yminusx Q) (y2 - x2)" "rep 1 (xy2d Q) (2 * ed_d * (x2 * y2))"
    using assms(2) by (auto simp: precomp_at_def c)
  note b = rep_mul [OF rep_add_11 [OF P(3,2)] Q(1) le_3(2,2)] and a = rep_mul [OF rep_sub_11 [OF P(3,2)] Q(2) le_3(2,2)]
  note t = rep_mul [OF Q(3) P(5) le_3(1,1)]
  have zt: "rep 3 (fe25519_add (fe25519_add (p3_Z P) (p3_Z P)) (fe25519_mul (xy2d Q) (p3_T P))) (2 * Z1 * (1 + ed_d * (x1 * x2 * y1 * y2)))"
    "rep 3 (fe25519_sub (fe25519_add (p3_Z P) (p3_Z P)) (fe25519_mul (xy2d Q) (p3_T P))) (2 * Z1 * (1 - ed_d * (x1 * x2 * y1 * y2)))"
    using rep_add_21 [OF rep_add_11 [OF P(4,4)] t] rep_sub_21 [OF rep_add_11 [OF P(4,4)] t] unfolding sum_numerators_1(3,4) by simp_all
  show ?thesis
    unfolding ge25519_add_precomp_def Let_def c(3)
    by (rule p1p1_intro [OF b a zt sum_numerators_1(1,2) _ edwards_sumD [OF assms(3) [unfolded c] refl]])
      (use P(1) in \<open>simp_all add: coprime_mult_left_iff\<close>)
qed

lemma sub_precomp_at:
  assumes "p3_at P A" "precomp_at Q B" "edwards_sum A (negated B) C"
  shows "p1p1_at (ge25519_sub_precomp P Q) C"
proof -
  obtain x1 y1 x2 y2 x3 y3 where c: "A = (x1, y1)" "B = (x2, y2)" "C = (x3, y3)" by (metis prod.collapse)
  obtain Z1 where P: "coprime Z1 p25519" "rep 1 (p3_X P) (x1 * Z1)" "rep 1 (p3_Y P) (y1 * Z1)" "rep 1 (p3_Z P) Z1" "rep 1 (p3_T P) (x1 * y1 * Z1)"
    using assms(1) by (auto simp: p3_at_def c)
  have Q: "rep 2 (yminusx Q) (y2 + - x2)" "rep 2 (yplusx Q) (y2 - - x2)" "rep 1 (xy2d Q) (- (2 * ed_d * (- x2 * y2)))"
    using assms(2) by (auto simp: precomp_at_def c)
  note b = rep_mul [OF rep_add_11 [OF P(3,2)] Q(1) le_3(2,2)] and a = rep_mul [OF rep_sub_11 [OF P(3,2)] Q(2) le_3(2,2)]
  note t = rep_mul [OF Q(3) P(5) le_3(1,1)]
  have zt: "rep 3 (fe25519_sub (fe25519_add (p3_Z P) (p3_Z P)) (fe25519_mul (xy2d Q) (p3_T P))) (2 * Z1 * (1 + ed_d * (x1 * - x2 * y1 * y2)))"
    "rep 3 (fe25519_add (fe25519_add (p3_Z P) (p3_Z P)) (fe25519_mul (xy2d Q) (p3_T P))) (2 * Z1 * (1 - ed_d * (x1 * - x2 * y1 * y2)))"
    using rep_add_21 [OF rep_add_11 [OF P(4,4)] t] rep_sub_21 [OF rep_add_11 [OF P(4,4)] t] unfolding sum_numerators_1(3,4) [symmetric] by simp_all
  show ?thesis
    unfolding ge25519_sub_precomp_def Let_def c(3)
    by (rule p1p1_intro [OF b a zt sum_numerators_1(1,2) _ edwards_sumD [OF assms(3) [unfolded c negated_def prod.case] refl]])
      (use P(1) in \<open>simp_all add: coprime_mult_left_iff\<close>)
qed

section \<open>Doubling\<close>

lemma double_numerators:
  "(x * Z + y * Z) * (x * Z + y * Z) - (y * Z * (y * Z) + x * Z * (x * Z)) = Z * Z * (2 * (x * y))"
  "y * Z * (y * Z) + x * Z * (x * Z) = Z * Z * (y * y + x * x)"
  "y * Z * (y * Z) - x * Z * (x * Z) = Z * Z * (y * y - x * x)"
  "2 * Z * Z - (y * Z * (y * Z) - x * Z * (x * Z)) = Z * Z * (2 - (y * y - x * x))"
  for x y Z :: int
  by algebra+

lemma p2_dbl_at:
  assumes "p2_at P A" "on_curve A" "edwards_sum A A C"
  shows "p1p1_at (ge25519_p2_dbl P) C"
proof -
  obtain x y x3 y3 where c: "A = (x, y)" "C = (x3, y3)" by (metis prod.collapse)
  obtain Z where P: "coprime Z p25519" "rep 1 (p2_X P) (x * Z)" "rep 1 (p2_Y P) (y * Z)" "rep 1 (p2_Z P) Z"
    using assms(1) by (auto simp: p2_at_def c)
  let ?e = "ed_d * (x * x * y * y)" and ?w = "y * y - x * x"
  note S = edwards_sumD [OF assms(3) [unfolded c] refl]
  have w: "same_mod ?w (1 + ?e)" "same_mod (2 - ?w) (1 - ?e)"
    using assms(2) dvd_diff_commute [of p25519 "?w" "1 + ?e"] by (auto simp: on_curve_def c same_mod_dvd algebra_simps)
  note xx = rep_sq [OF P(2) le_3(1)] and yy = rep_sq [OF P(3) le_3(1)] and zz = rep_sq2 [OF P(4) le_3(1)]
  note t0 = rep_sq [OF rep_add_11 [OF P(2,3)] le_3(2)]
  have X: "rep 3 (p1_X (ge25519_p2_dbl P)) (x3 * (Z * Z * (1 + ?e)))"
    using rep_sub_12 [OF t0 rep_add_11 [OF yy xx]] same_mod_scale [OF same_mod_sym [OF S(3)], of "Z * Z"]
    unfolding ge25519_p2_dbl_def Let_def double_numerators by (auto elim!: rep_same simp: algebra_simps)
  have Y: "rep 2 (p1_Y (ge25519_p2_dbl P)) (y3 * (Z * Z * (1 - ?e)))"
    using rep_add_11 [OF yy xx] same_mod_scale [OF same_mod_sym [OF S(4)], of "Z * Z"]
    unfolding ge25519_p2_dbl_def Let_def double_numerators by (auto elim!: rep_same simp: algebra_simps)
  have Z: "rep 2 (p1_Z (ge25519_p2_dbl P)) (Z * Z * (1 + ?e))"
    using rep_sub_11 [OF yy xx] same_mod_scale [OF w(1), of "Z * Z"]
    unfolding ge25519_p2_dbl_def Let_def double_numerators by (auto elim!: rep_same)
  have T: "rep 3 (p1_T (ge25519_p2_dbl P)) (Z * Z * (1 - ?e))"
    using rep_sub_12 [OF zz rep_sub_11 [OF yy xx]] same_mod_scale [OF w(2), of "Z * Z"]
    unfolding ge25519_p2_dbl_def Let_def double_numerators(4) by (auto elim!: rep_same)
  have "coprime (Z * Z * (1 + ?e)) p25519" "coprime (Z * Z * (1 - ?e)) p25519"
    using P(1) S(1,2) by (simp_all add: coprime_mult_left_iff)
  moreover note X T rep_mono [OF Y, of 3] rep_mono [OF Z, of 3]
  ultimately show ?thesis unfolding p1p1_at_def c(2) prod.case
    by (rule_tac exI [of _ "Z * Z * (1 + ?e)"], rule_tac exI [of _ "Z * Z * (1 - ?e)"]) simp
qed

section \<open>Conversions\<close>

lemma p1p1_to_p3_at:
  assumes "p1p1_at P A"
  shows "p3_at (ge25519_p1p1_to_p3 P) A"
proof -
  obtain x y where c: "A = (x, y)" by (metis prod.collapse)
  obtain Z T where P: "coprime Z p25519" "coprime T p25519" "rep 3 (p1_X P) (x * Z)" "rep 3 (p1_Y P) (y * T)" "rep 3 (p1_Z P) Z" "rep 3 (p1_T P) T"
    using assms by (auto simp: p1p1_at_def c)
  have "rep 1 (p3_X (ge25519_p1p1_to_p3 P)) (x * (Z * T))" "rep 1 (p3_Y (ge25519_p1p1_to_p3 P)) (y * (Z * T))"
    "rep 1 (p3_Z (ge25519_p1p1_to_p3 P)) (Z * T)" "rep 1 (p3_T (ge25519_p1p1_to_p3 P)) (x * y * (Z * T))"
    using rep_mul [OF P(3,6) le_3(3,3)] rep_mul [OF P(4,5) le_3(3,3)] rep_mul [OF P(5,6) le_3(3,3)] rep_mul [OF P(3,4) le_3(3,3)]
    by (simp_all add: ge25519_p1p1_to_p3_def mult_ac)
  then show ?thesis unfolding p3_at_def c prod.case using P(1,2) by (rule_tac exI [of _ "Z * T"]) (simp add: coprime_mult_left_iff)
qed

lemma p3_to_p2_at: "p3_at P A \<Longrightarrow> p2_at (ge25519_p3_to_p2 P) A"
  by (auto simp: p3_at_def p2_at_def ge25519_p3_to_p2_def)

lemma p1p1_to_p2_at: "p1p1_at P A \<Longrightarrow> p2_at (ge25519_p1p1_to_p2 P) A"
  using p3_to_p2_at [OF p1p1_to_p3_at] by (simp add: ge25519_p1p1_to_p2_def ge25519_p1p1_to_p3_def ge25519_p3_to_p2_def)

lemma p3_dbl_at: "p3_at P A \<Longrightarrow> on_curve A \<Longrightarrow> edwards_sum A A C \<Longrightarrow> p1p1_at (ge25519_p3_dbl P) C"
  unfolding ge25519_p3_dbl_def by (rule p2_dbl_at [OF p3_to_p2_at])

lemma rep_d: "rep 1 ed25519_d ed_d" "rep 1 ed25519_d2 (2 * ed_d)"
  unfolding rep_tight bounded_def all_10 ed25519_d_def ed25519_d2_def ed_d_def tight_def fe_val_def ival_sum
  by (simp_all add: p25519_def)

lemma p3_to_cached_at:
  assumes "p3_at P A"
  shows "cached_at (ge25519_p3_to_cached P) A"
proof -
  obtain x y where c: "A = (x, y)" by (metis prod.collapse)
  obtain Z where P: "coprime Z p25519" "rep 1 (p3_X P) (x * Z)" "rep 1 (p3_Y P) (y * Z)" "rep 1 (p3_Z P) Z" "rep 1 (p3_T P) (x * y * Z)"
    using assms by (auto simp: p3_at_def c)
  note r = rep_add_11 [OF P(3,2)] rep_sub_11 [OF P(3,2)] rep_mul [OF P(5) rep_d(2) le_3(1,1)]
  show ?thesis unfolding cached_at_def c prod.case
    by (rule exI [of _ Z]) (use r P in \<open>simp add: ge25519_p3_to_cached_def algebra_simps\<close>)
qed

lemma p2_0_at: "p2_at ge25519_p2_0 (0, 1)" and p3_0_at: "p3_at ge25519_p3_0 (0, 1)"
  and precomp_0_at: "precomp_at ge25519_precomp_0 (0, 1)" and cached_0_at: "cached_at ge25519_cached_0 (0, 1)"
  using rep_const rep_mono [OF rep_const(2), of 2]
  by (auto simp: p2_at_def p3_at_def precomp_at_def cached_at_def ge25519_p2_0_def ge25519_p3_0_def ge25519_precomp_0_def ge25519_cached_0_def
      intro!: exI [of _ 1])

lemma precomp_negated:
  "precomp_at Q A \<Longrightarrow> precomp_at \<lparr>yplusx = yminusx Q, yminusx = yplusx Q, xy2d = fe25519_neg (xy2d Q)\<rparr> (negated A)"
  using rep_neg [of 1 "xy2d Q"] le_3(1) by (fastforce simp: precomp_at_def negated_def)

lemma cached_negated:
  "cached_at Q A \<Longrightarrow> cached_at \<lparr>YplusX = YminusX Q, YminusX = YplusX Q, cd_Z = cd_Z Q, T2d = fe25519_neg (T2d Q)\<rparr> (negated A)"
  using rep_neg [of 1 "T2d Q"] le_3(1) by (fastforce simp: cached_at_def negated_def)

section \<open>Lookup in the tables\<close>

lemma lookup_bytes:
  "list_all (\<lambda>e. list_all (\<lambda>j. equal_byte (babs_byte (word_of_int e)) (of_nat (Suc j)) = of_bool (nat \<bar>e\<bar> = Suc j)) [0..<8]) [-8..8]"
  "list_all (\<lambda>e. negative_byte (word_of_int e) = of_bool (e < 0)) [-8..8]"
  by code_simp+

lemma equal_digit:
  assumes "- 8 \<le> e" "e \<le> 8" "j < 8"
  shows "equal_byte (babs_byte (word_of_int e)) (of_nat (Suc j)) = of_bool (nat \<bar>e\<bar> = Suc j)"
proof -
  have "e \<in> set [-8..8]" "j \<in> set [0..<8]" using assms by (simp_all only: set_upto set_upt atLeastAtMost_iff atLeastLessThan_iff) simp_all
  then show ?thesis using lookup_bytes(1) unfolding list_all_iff by blast
qed

lemma negative_digit:
  assumes "- 8 \<le> e" "e \<le> 8"
  shows "negative_byte (word_of_int e) = of_bool (e < 0)"
proof -
  have "e \<in> set [-8..8]" using assms by (simp only: set_upto atLeastAtMost_iff)
  then show ?thesis using lookup_bytes(2) unfolding list_all_iff by blast
qed

lemma precomp_lengths: "precomp_at Q A \<Longrightarrow> length (yplusx Q) = 10 \<and> length (yminusx Q) = 10 \<and> length (xy2d Q) = 10"
  by (auto simp: precomp_at_def dest: repD)

lemma cached_lengths: "cached_at Q A \<Longrightarrow> length (YplusX Q) = 10 \<and> length (YminusX Q) = 10 \<and> length (cd_Z Q) = 10 \<and> length (T2d Q) = 10"
  by (auto simp: cached_at_def dest: repD)

lemma cmov_bits: "length f = length g \<Longrightarrow> fe25519_cmov f g 1 = g" "length f = length g \<Longrightarrow> fe25519_cmov f g 0 = f"
  using cmov_cases [of f g True] cmov_cases [of f g False] by simp_all

lemma cmov_precomp: "precomp_at t A \<Longrightarrow> precomp_at u B \<Longrightarrow> ge25519_cmov t u (of_bool b) = (if b then u else t)"
  using precomp_lengths [of t A] precomp_lengths [of u B] cmov_bits by (cases b) (simp_all add: ge25519_cmov_def)

lemma cmov_cached: "cached_at t A \<Longrightarrow> cached_at u B \<Longrightarrow> ge25519_cmov_cached t u (of_bool b) = (if b then u else t)"
  using cached_lengths [of t A] cached_lengths [of u B] cmov_bits by (cases b) (simp_all add: ge25519_cmov_cached_def)

text \<open>A pass over the table with a selecting flag that is set at most once\<close>

lemma fold_select:
  assumes "\<And>j. j < n \<Longrightarrow> P (tab ! j)" "P t0" "\<And>t u b. P t \<Longrightarrow> P u \<Longrightarrow> mv t u (of_bool b :: u8) = (if b then u else t)"
    "\<And>j. j < n \<Longrightarrow> flag j = of_bool (k = Suc j)"
  shows "fold (\<lambda>j t. mv t (tab ! j) (flag j)) [0..<n] t0 = (if 1 \<le> k \<and> k \<le> n then tab ! (k - 1) else t0)"
  using assms(1,4)
proof (induction n)
  case (Suc n)
  have "P (if 1 \<le> k \<and> k \<le> n then tab ! (k - 1) else t0)" using Suc.prems(1) assms(2) by auto
  then show ?case using Suc.IH Suc.prems assms(3) by (auto simp: le_Suc_eq)
qed auto

lemma cmov8_at:
  assumes "- 8 \<le> e" "e \<le> 8" "\<And>j. j < 8 \<Longrightarrow> precomp_at (tab ! j) (M (int (Suc j)))" "M 0 = (0, 1)" "\<And>i. M (- i) = negated (M i)"
  shows "precomp_at (ge25519_cmov8 tab (word_of_int e)) (M e)"
proof -
  let ?k = "nat \<bar>e\<bar>"
  define t where "t = fold (\<lambda>j t. ge25519_cmov t (tab ! j) (equal_byte (babs_byte (word_of_int e)) (of_nat (Suc j)))) [0..<8] ge25519_precomp_0"
  have "t = (if 1 \<le> ?k \<and> ?k \<le> 8 then tab ! (?k - 1) else ge25519_precomp_0)"
    unfolding t_def
    by (rule fold_select [where P = "\<lambda>t. \<exists>A. precomp_at t A"])
      (use assms(3) precomp_0_at cmov_precomp equal_digit [OF assms(1,2)] in blast)+
  then have t: "precomp_at t (M (int ?k))"
    using assms(1,2,4) assms(3) [of "?k - 1"] precomp_0_at by (cases "?k = 0") auto
  have "ge25519_cmov8 tab (word_of_int e) =
      (if e < 0 then \<lparr>yplusx = yminusx t, yminusx = yplusx t, xy2d = fe25519_neg (xy2d t)\<rparr> else t)"
    unfolding ge25519_cmov8_def Let_def negative_digit [OF assms(1,2)] t_def [symmetric]
    by (rule cmov_precomp [OF t precomp_negated [OF t]])
  then show ?thesis using t precomp_negated [OF t] assms(5) [of "- e"] by auto
qed

lemma cmov8_cached_at:
  assumes "- 8 \<le> e" "e \<le> 8" "\<And>j. j < 8 \<Longrightarrow> cached_at (tab ! j) (M (int (Suc j)))" "M 0 = (0, 1)" "\<And>i. M (- i) = negated (M i)"
  shows "cached_at (ge25519_cmov8_cached tab (word_of_int e)) (M e)"
proof -
  let ?k = "nat \<bar>e\<bar>"
  define t where "t = fold (\<lambda>j t. ge25519_cmov_cached t (tab ! j) (equal_byte (babs_byte (word_of_int e)) (of_nat (Suc j)))) [0..<8] ge25519_cached_0"
  have "t = (if 1 \<le> ?k \<and> ?k \<le> 8 then tab ! (?k - 1) else ge25519_cached_0)"
    unfolding t_def
    by (rule fold_select [where P = "\<lambda>t. \<exists>A. cached_at t A"])
      (use assms(3) cached_0_at cmov_cached equal_digit [OF assms(1,2)] in blast)+
  then have t: "cached_at t (M (int ?k))"
    using assms(1,2,4) assms(3) [of "?k - 1"] cached_0_at by (cases "?k = 0") auto
  have "ge25519_cmov8_cached tab (word_of_int e) =
      (if e < 0 then \<lparr>YplusX = YminusX t, YminusX = YplusX t, cd_Z = cd_Z t, T2d = fe25519_neg (T2d t)\<rparr> else t)"
    unfolding ge25519_cmov8_cached_def Let_def negative_digit [OF assms(1,2)] t_def [symmetric]
    by (rule cmov_cached [OF t cached_negated [OF t]])
  then show ?thesis using t cached_negated [OF t] assms(5) [of "- e"] by auto
qed

end
