(* ===== verification/Ge25519_Mult.thy ===== *)
theory Ge25519_Mult
  imports Ge25519_Law Sc25519_Arith
begin

text \<open>
  The scalar multiplications of \<open>Ge25519\<close>: the digits they recode a scalar into have its value, and the
  loops over them give the multiple of the point, for every indexing of points that respects the
  addition law.
\<close>

section \<open>Multiples of a point\<close>

text \<open>
  \<open>multiples M\<close>: \<open>M i\<close> is the \<open>i\<close>-th multiple of a point of the curve, in the sense of the addition law.
\<close>

definition multiples :: "(int \<Rightarrow> point) \<Rightarrow> bool" where
  "multiples M \<longleftrightarrow> M 0 = (0, 1) \<and> (\<forall>i. on_curve (M i)) \<and> (\<forall>i. M (- i) = negated (M i)) \<and> (\<forall>i j. edwards_sum (M i) (M j) (M (i + j)))"

lemma multiplesD:
  assumes "multiples M"
  shows "M 0 = (0, 1)" "on_curve (M i)" "M (- i) = negated (M i)" "edwards_sum (M i) (M j) (M (i + j))"
  using assms by (auto simp: multiples_def)

lemma multiples_scale: "multiples M \<Longrightarrow> multiples (\<lambda>i. M (i * k))"
  by (auto simp: multiples_def distrib_right)

lemma add_cached_multiple: "multiples M \<Longrightarrow> p3_at P (M i) \<Longrightarrow> cached_at Q (M j) \<Longrightarrow> p1p1_at (ge25519_add_cached P Q) (M (i + j))"
  by (rule add_cached_at) (auto simp: multiplesD)


lemma add_precomp_multiple: "multiples M \<Longrightarrow> p3_at P (M i) \<Longrightarrow> precomp_at Q (M j) \<Longrightarrow> p1p1_at (ge25519_add_precomp P Q) (M (i + j))"
  by (rule add_precomp_at) (auto simp: multiplesD)


lemma p2_dbl_multiple:
  assumes "multiples M" "p2_at P (M i)"
  shows "p1p1_at (ge25519_p2_dbl P) (M (2 * i))"
  using p2_dbl_at [OF assms(2) multiplesD(2) [OF assms(1)] multiplesD(4) [OF assms(1)]] unfolding mult_2 .

lemma p3_dbl_multiple:
  assumes "multiples M" "p3_at P (M i)"
  shows "p1p1_at (ge25519_p3_dbl P) (M (2 * i))"
  using p3_dbl_at [OF assms(2) multiplesD(2) [OF assms(1)] multiplesD(4) [OF assms(1)]] unfolding mult_2 .

lemma dbl_power_multiple:
  assumes "multiples M" "p1p1_at r (M i)"
  shows "p1p1_at (((\<lambda>r. ge25519_p2_dbl (ge25519_p1p1_to_p2 r)) ^^ n) r) (M (2 ^ n * i))"
proof (induction n)
  case (Suc n)
  from p2_dbl_multiple [OF assms(1) p1p1_to_p2_at [OF Suc]] show ?case by (simp add: mult.assoc)
qed (use assms(2) in simp)

lemma at_eq: "p3_at P (M i) \<Longrightarrow> i = j \<Longrightarrow> p3_at P (M j)" "cached_at Q (M i) \<Longrightarrow> i = j \<Longrightarrow> cached_at Q (M j)"
  "p1p1_at R (M i) \<Longrightarrow> i = j \<Longrightarrow> p1p1_at R (M j)"
  by simp_all

lemma small_multiples_at:
  assumes "multiples M" "p3_at p (M u)" "j < 8"
  shows "cached_at (small_multiples p ! j) (M (int (Suc j) * u))"
proof -
  note add = p1p1_to_p3_at [OF add_cached_multiple [OF assms(1)]] and dbl = p1p1_to_p3_at [OF p3_dbl_multiple [OF assms(1)]]
  note c1 = p3_to_cached_at [OF assms(2)]
  note p2 = dbl [OF assms(2)] note c2 = p3_to_cached_at [OF p2]
  note p3 = add [OF assms(2) c2] note c3 = p3_to_cached_at [OF p3]
  note p4 = dbl [OF p2] note c4 = p3_to_cached_at [OF p4]
  note p5 = add [OF assms(2) c4] note c5 = p3_to_cached_at [OF p5]
  note p6 = dbl [OF p3] note c6 = p3_to_cached_at [OF p6]
  note p7 = add [OF assms(2) c6] note c7 = p3_to_cached_at [OF p7]
  note p8 = dbl [OF p4] note c8 = p3_to_cached_at [OF p8]
  show ?thesis using less_8_cases [OF assms(3)] unfolding small_multiples_def Let_def
    by (elim disjE) (use at_eq(2) [of _ M, OF c1] at_eq(2) [of _ M, OF c2] at_eq(2) [of _ M, OF c3] at_eq(2) [of _ M, OF c4] at_eq(2) [of _ M, OF c5] at_eq(2) [of _ M, OF c6]
      at_eq(2) [of _ M, OF c7] at_eq(2) [of _ M, OF c8] in simp_all)
qed


section \<open>Digits\<close>

fun dval :: "int \<Rightarrow> int list \<Rightarrow> int" where
  "dval b [] = 0"
| "dval b (x # xs) = x + b * dval b xs"

lemma dval_update: "i < length S \<Longrightarrow> dval b (S[i := x]) = dval b S + (x - S ! i) * b ^ i"
proof (induction S arbitrary: i)
  case (Cons y S)
  show ?case
  proof (cases i)
    case (Suc k)
    then have "dval b (S[k := x]) = dval b S + (x - S ! k) * b ^ k" using Cons by simp
    then have "b * dval b (S[k := x]) = b * (dval b S + (x - S ! k) * b ^ k)" by (rule arg_cong)
    then show ?thesis using Suc by (simp add: algebra_simps)
  qed simp
qed simp

lemma dval_drop: "i < length S \<Longrightarrow> dval b (drop i S) = S ! i + b * dval b (drop (Suc i) S)"
  by (simp flip: Cons_nth_drop_Suc)

text \<open>The nibbles of a scalar, and the carries that bring them between -8 and 8\<close>

lemma scalar_nibbles_list:
  assumes "length a = 32"
  shows "scalar_nibbles a = concat (map (\<lambda>x. [uint (x AND 15), uint (drop_bit 4 x AND 15)]) a)"
proof -
  have "map ((!) a) [0..<32] = a" using map_nth [of a] assms by simp
  then have "concat (map (\<lambda>x. [uint (x AND 15), uint (drop_bit 4 x AND 15)]) (map ((!) a) [0..<32])) =
      concat (map (\<lambda>x. [uint (x AND 15), uint (drop_bit 4 x AND 15)]) a)" by simp
  then show ?thesis unfolding scalar_nibbles_def map_map comp_def .
qed

lemma nibbles_of_byte: "uint ((x :: u8) AND 15) = uint x mod 16" "uint (drop_bit 4 (x :: u8) AND 15) = uint x div 16"
proof -
  have m: "uint (w AND 15) = uint w mod 16" for w :: u8
  proof -
    have "(15 :: u8) = mask 4" by (simp add: mask_eq_exp_minus_1)
    then have "w AND 15 = take_bit 4 w" by (simp only: take_bit_eq_mask)
    then have "uint (w AND 15) = take_bit 4 (uint w)" by (simp only: unsigned_take_bit_eq)
    then show ?thesis by (simp add: take_bit_eq_mod)
  qed
  have "uint (drop_bit 4 x) = uint x div 16"
  proof -
    have "take_bit 8 (uint x) = uint x" using uint_byte_range [of x] by (intro take_bit_int_eq_self) simp_all
    then show ?thesis unfolding unsigned_drop_bit_eq by (simp add: drop_bit_eq_div)
  qed
  moreover have "uint x div 16 < 16" using uint_byte_range [of x] by simp
  ultimately show "uint (x AND 15) = uint x mod 16" "uint (drop_bit 4 x AND 15) = uint x div 16"
    unfolding m by (simp_all add: mod_pos_pos_trivial pos_imp_zdiv_nonneg_iff)
qed

lemma nibbles_value:
  "dval 16 (concat (map (\<lambda>x. [uint (x AND 15), uint (drop_bit 4 x AND 15)]) (a :: bytes))) = int (le_val a)"
  "length (concat (map (\<lambda>x. [uint (x AND 15), uint (drop_bit 4 x AND 15)]) (a :: bytes))) = 2 * length a"
  "\<forall>e\<in>set (concat (map (\<lambda>x. [uint (x AND 15), uint (drop_bit 4 x AND 15)]) (a :: bytes))). 0 \<le> e \<and> e \<le> 15"
proof -
  show "dval 16 (concat (map (\<lambda>x. [uint (x AND 15), uint (drop_bit 4 x AND 15)]) a)) = int (le_val a)"
    unfolding nibbles_of_byte(2) unfolding nibbles_of_byte(1) by (induction a) simp_all
  have "0 \<le> uint x mod 16 \<and> uint x mod 16 \<le> 15 \<and> 0 \<le> uint x div 16 \<and> uint x div 16 \<le> 15" for x :: u8
    using uint_byte_range [of x] pos_mod_bound [of 16 "uint x"] by (auto simp: pos_imp_zdiv_nonneg_iff)
  then show "\<forall>e\<in>set (concat (map (\<lambda>x. [uint (x AND 15), uint (drop_bit 4 x AND 15)]) a)). 0 \<le> e \<and> e \<le> 15"
    unfolding nibbles_of_byte(2) unfolding nibbles_of_byte(1) by auto
qed (induction a; simp)

lemma carry_digit:
  assumes "0 \<le> (x :: int)" "x \<le> 15" "0 \<le> c" "c \<le> 1"
  shows "0 \<le> (x + c + 8) div 16" "(x + c + 8) div 16 \<le> 1" "- 8 \<le> x + c - (x + c + 8) div 16 * 16" "x + c - (x + c + 8) div 16 * 16 \<le> 7"
proof -
  define q where "q = (x + c + 8) div 16"
  define s where "s = (x + c + 8) mod 16"
  have "x + c + 8 = 16 * q + s" unfolding q_def s_def by simp
  moreover have "0 \<le> s" "s < 16" unfolding s_def by simp_all
  ultimately show "0 \<le> (x + c + 8) div 16" "(x + c + 8) div 16 \<le> 1" "- 8 \<le> x + c - (x + c + 8) div 16 * 16" "x + c - (x + c + 8) div 16 * 16 \<le> 7"
    using assms unfolding q_def [symmetric] by linarith+
qed

lemma recode_fold:
  assumes "length e = 64" "\<forall>x\<in>set e. 0 \<le> x \<and> x \<le> 15" "m \<le> 63"
  shows "\<exists>r c. fold recode_step [0..<m] (e, 0) = (r, c) \<and> length r = 64 \<and> (\<forall>j<m. - 8 \<le> r ! j \<and> r ! j \<le> 7) \<and>
    (\<forall>j<64. m \<le> j \<longrightarrow> r ! j = e ! j) \<and> 0 \<le> c \<and> c \<le> 1 \<and> dval 16 r + c * 16 ^ m = dval 16 e"
  using assms(3)
proof (induction m)
  case (Suc m)
  then obtain r c where r: "fold recode_step [0..<m] (e, 0) = (r, c)" "length r = 64" "\<forall>j<m. - 8 \<le> r ! j \<and> r ! j \<le> 7"
    "\<forall>j<64. m \<le> j \<longrightarrow> r ! j = e ! j" "0 \<le> c" "c \<le> 1" "dval 16 r + c * 16 ^ m = dval 16 e" by auto
  have m: "r ! m = e ! m" "m < 64" using r(4) Suc.prems by auto
  have em: "0 \<le> e ! m" "e ! m \<le> 15" using assms(1,2) m(2) by auto
  define c' where "c' = (e ! m + c + 8) div 16"
  let ?r = "r[m := e ! m + c - c' * 16]"
  have f: "fold recode_step [0..<Suc m] (e, 0) = (?r, c')" using r(1) m(1) by (simp add: recode_step_def Let_def c'_def)
  note c' = carry_digit [OF em r(5,6), folded c'_def]
  have "dval 16 ?r = dval 16 r + (e ! m + c - c' * 16 - r ! m) * 16 ^ m" by (rule dval_update) (use r(2) m(2) in simp)
  then have "dval 16 ?r + c' * 16 ^ Suc m = dval 16 e" using r(7) m(1) by (simp add: algebra_simps)
  moreover have "- 8 \<le> ?r ! j \<and> ?r ! j \<le> 7" if "j < Suc m" for j
    using that r(2,3) m(2) c'(3,4) by (cases "j = m") auto
  moreover have "?r ! j = e ! j" if "j < 64" "Suc m \<le> j" for j using that r(4) by auto
  ultimately show ?case using f r(2) c'(1,2) by auto
qed (use assms(1) in simp)

lemma scalar_recode_ok:
  assumes "length a = 32" "a ! 31 \<le> 127"
  shows "length (scalar_recode a) = 64" "\<forall>j<64. - 8 \<le> scalar_recode a ! j \<and> scalar_recode a ! j \<le> 8"
    "dval 16 (scalar_recode a) = int (le_val a)"
proof -
  let ?e = "scalar_nibbles a"
  note l = scalar_nibbles_list [OF assms(1)]
  have "length ?e = 2 * length a" unfolding l by (rule nibbles_value)
  then have e: "length ?e = 64" "\<forall>x\<in>set ?e. 0 \<le> x \<and> x \<le> 15" "dval 16 ?e = int (le_val a)"
    using assms(1) unfolding l nibbles_value(1) by (simp only:, intro nibbles_value(3), simp)
  have top: "0 \<le> ?e ! 63" "?e ! 63 \<le> 7"
  proof -
    have a: "a = take 31 a @ [a ! 31]" using take_Suc_conv_app_nth [of 31 a] assms(1) by simp
    have "?e = concat (map (\<lambda>x. [uint (x AND 15), uint (drop_bit 4 x AND 15)]) (take 31 a)) @
        [uint (a ! 31 AND 15), uint (drop_bit 4 (a ! 31) AND 15)]"
      unfolding l using arg_cong [OF a, of "\<lambda>l. concat (map (\<lambda>x. [uint (x AND 15), uint (drop_bit 4 x AND 15)]) l)"]
      unfolding map_append concat_append list.map concat.simps append_Nil2 .
    moreover have "length (concat (map (\<lambda>x. [uint (x AND 15), uint (drop_bit 4 x AND 15)]) (take 31 a))) = 62"
      unfolding nibbles_value(2) using assms(1) by simp
    ultimately have "?e ! 63 = uint (a ! 31) div 16" by (simp add: nth_append nibbles_of_byte(2))
    moreover have "uint (a ! 31) \<le> 127" using assms(2) by (simp add: word_le_def)
    ultimately show "0 \<le> ?e ! 63" "?e ! 63 \<le> 7" by (auto simp: pos_imp_zdiv_nonneg_iff)
  qed
  obtain r c where r: "fold recode_step [0..<63] (?e, 0) = (r, c)" "length r = 64" "\<forall>j<63. - 8 \<le> r ! j \<and> r ! j \<le> 7"
    "\<forall>j<64. 63 \<le> j \<longrightarrow> r ! j = ?e ! j" "0 \<le> c" "c \<le> 1" "dval 16 r + c * 16 ^ 63 = dval 16 ?e"
    using recode_fold [OF e(1,2), of 63] by auto
  have d: "scalar_recode a = r[63 := r ! 63 + c]" unfolding scalar_recode_def r(1) Let_def prod.case ..
  show "length (scalar_recode a) = 64" unfolding d using r(2) by simp
  show "\<forall>j<64. - 8 \<le> scalar_recode a ! j \<and> scalar_recode a ! j \<le> 8"
  proof (intro allI impI)
    fix j :: nat
    assume "j < 64"
    then show "- 8 \<le> scalar_recode a ! j \<and> scalar_recode a ! j \<le> 8"
      unfolding d using r(2-6) top by (cases "j = 63") (auto dest: spec [of _ j])
  qed
  show "dval 16 (scalar_recode a) = int (le_val a)"
    unfolding d using dval_update [of 63 r 16 "r ! 63 + c"] r(2,7) e(3) by simp
qed

section \<open>Multiplication of a point\<close>

lemma scalarmult_digits:
  assumes "multiples M" "length e = 64" "\<forall>j<64. - 8 \<le> e ! j \<and> e ! j \<le> 8" "\<And>j. j < 8 \<Longrightarrow> cached_at (tab ! j) (M (int (Suc j)))" "i \<le> 64" "1 \<le> i"
  defines "add \<equiv> \<lambda>i h. ge25519_add_cached h (ge25519_cmov8_cached tab (word_of_int (e ! i)))"
  shows "p3_at (foldr (\<lambda>i h. ge25519_p1p1_to_p3 (times_16 (add i h))) [i..<64] ge25519_p3_0) (M (16 * dval 16 (drop i e)))"
  using assms(5,6)
proof (induction i rule: inc_induct)
  case base
  show ?case using p3_0_at multiplesD(1) [OF assms(1)] assms(2) by simp
next
  case (step i)
  then have i: "i < 64" by simp
  let ?h = "foldr (\<lambda>i h. ge25519_p1p1_to_p3 (times_16 (add i h))) [Suc i..<64] ge25519_p3_0"
  have "cached_at (ge25519_cmov8_cached tab (word_of_int (e ! i))) (M (e ! i))"
    using assms(3) i by (intro cmov8_cached_at assms(4) multiplesD [OF assms(1)]) auto
  from add_cached_multiple [OF assms(1) _ this] step
  have "p1p1_at (add i ?h) (M (16 * dval 16 (drop (Suc i) e) + e ! i))" unfolding add_def by simp
  from p1p1_to_p3_at [OF dbl_power_multiple [OF assms(1) this, of 4]]
  have "p3_at (ge25519_p1p1_to_p3 (times_16 (add i ?h))) (M (16 * dval 16 (drop i e)))"
    unfolding times_16_def using dval_drop [of i e 16] i assms(2) by (simp add: algebra_simps)
  moreover have "[i..<64] = i # [Suc i..<64]" using i by (simp add: upt_conv_Cons)
  ultimately show ?case by simp
qed

lemma ge25519_scalarmult_at:
  assumes "multiples M" "p3_at p (M u)" "length a = 32" "a ! 31 \<le> 127"
  shows "p3_at (ge25519_scalarmult a p) (M (int (le_val a) * u))"
proof -
  let ?M = "\<lambda>i. M (i * u)" and ?e = "scalar_recode a" and ?tab = "small_multiples p"
  define add where "add = (\<lambda>i h. ge25519_add_cached h (ge25519_cmov8_cached ?tab (word_of_int (?e ! i))))"
  note m = multiples_scale [OF assms(1), of u] and e = scalar_recode_ok [OF assms(3,4)]
  have tab: "cached_at (?tab ! j) (?M (int (Suc j)))" if "j < 8" for j using small_multiples_at [OF assms(1,2) that] .
  let ?h = "fold (\<lambda>i h. ge25519_p1p1_to_p3 (times_16 (add i h))) (rev [1..<64]) ge25519_p3_0"
  have "p3_at ?h (?M (16 * dval 16 (drop 1 ?e)))"
    using scalarmult_digits [OF m e(1,2) tab, of 1] unfolding add_def foldr_conv_fold by simp
  moreover have "cached_at (ge25519_cmov8_cached ?tab (word_of_int (?e ! 0))) (?M (?e ! 0))"
    using e(2) by (intro cmov8_cached_at tab multiplesD [OF m]) auto
  ultimately have "p1p1_at (add 0 ?h) (?M (16 * dval 16 (drop 1 ?e) + ?e ! 0))"
    unfolding add_def by (rule add_cached_multiple [OF m])
  then have "p1p1_at (add 0 ?h) (?M (dval 16 ?e))" using dval_drop [of 0 ?e 16] e(1) by (simp add: add.commute)
  from p1p1_to_p3_at [OF this] show ?thesis unfolding ge25519_scalarmult_def Let_def add_def e(3) .
qed

section \<open>Sliding digits\<close>























section \<open>A sum of two multiples\<close>








section \<open>Multiplication with a table\<close>

lemma dval_sum: "dval b xs = (\<Sum>i<length xs. xs ! i * b ^ i)"
proof (induction xs)
  case (Cons x xs)
  then show ?case unfolding length_Cons lessThan_Suc_eq_insert_0 by (simp add: sum.reindex sum_distrib_left algebra_simps)
qed simp

lemma sum_even_odd: "(\<Sum>i<2 * n. f i) = (\<Sum>i<n. f (2 * i)) + (\<Sum>i<n. f (2 * i + 1))"
  for f :: "nat \<Rightarrow> int" and n :: nat
  by (induction n) simp_all

lemma dval_16_pairs:
  "length e = 64 \<Longrightarrow> dval 16 e = 16 * (\<Sum>i<32. e ! (2 * i + 1) * 256 ^ i) + (\<Sum>i<32. e ! (2 * i) * 256 ^ i)"
proof -
  assume l: "length e = 64"
  have "(16 :: int) ^ (2 * i) = 256 ^ i" "(16 :: int) ^ (2 * i + 1) = 16 * 256 ^ i" for i by (simp_all add: power_mult)
  then show ?thesis using sum_even_odd [of "\<lambda>i. e ! i * 16 ^ i" 32] l unfolding dval_sum by (simp add: sum_distrib_left mult.left_commute del: mult_Suc_right)
qed

lemma table_digits:
  assumes "multiples M" "\<And>i j. i < 32 \<Longrightarrow> j < 8 \<Longrightarrow> precomp_at (base ! i ! j) (M (int (Suc j) * 256 ^ i * u))" "p3_at h (M (w * u))"
    "\<And>i. i < n \<Longrightarrow> - 8 \<le> e ! (2 * i + c) \<and> e ! (2 * i + c) \<le> 8" "n \<le> 32" "c < 2"
  defines "step \<equiv> \<lambda>i h. ge25519_p1p1_to_p3 (ge25519_add_precomp h (ge25519_cmov8 (base ! (i div 2)) (word_of_int (e ! i))))"
  shows "p3_at (fold step (map (\<lambda>j. 2 * j + c) [0..<n]) h) (M ((w + (\<Sum>i<n. e ! (2 * i + c) * 256 ^ i)) * u))"
  using assms(4,5)
proof (induction n)
  case (Suc n)
  let ?h = "fold step (map (\<lambda>j. 2 * j + c) [0..<n]) h" and ?e = "e ! (2 * n + c)"
  let ?M = "\<lambda>i. M (i * (256 ^ n * u))"
  note m = multiples_scale [OF assms(1), of "256 ^ n * u"]
  have h: "p3_at ?h (M ((w + (\<Sum>i<n. e ! (2 * i + c) * 256 ^ i)) * u))" using Suc by simp
  have "precomp_at (ge25519_cmov8 (base ! n) (word_of_int ?e)) (?M ?e)"
    using Suc.prems assms(2) by (intro cmov8_at multiplesD [OF m]) (auto simp: mult.assoc)
  from p1p1_to_p3_at [OF add_precomp_multiple [OF assms(1) h this]]
  have "p3_at (step (2 * n + c) ?h) (M ((w + (\<Sum>i<n. e ! (2 * i + c) * 256 ^ i)) * u + ?e * (256 ^ n * u)))"
    unfolding step_def using assms(6) by simp
  then show ?case by (simp add: algebra_simps)
qed (use assms(3) in simp)

lemma scalarmult_table_at:
  assumes "multiples M" "\<And>i j. i < 32 \<Longrightarrow> j < 8 \<Longrightarrow> precomp_at (base ! i ! j) (M (int (Suc j) * 256 ^ i * u))" "length a = 32" "a ! 31 \<le> 127"
  shows "p3_at (scalarmult_table base a) (M (int (le_val a) * u))"
proof -
  note e = scalar_recode_ok [OF assms(3,4)]
  let ?e = "scalar_recode a"
  define step where "step = (\<lambda>i h. ge25519_p1p1_to_p3 (ge25519_add_precomp h (ge25519_cmov8 (base ! (i div 2)) (word_of_int (?e ! i)))))"
  define od where "od = (\<Sum>i<32. ?e ! (2 * i + 1) * 256 ^ i)"
  define h where "h = fold step (map (\<lambda>j. 2 * j + 1) [0..<32]) ge25519_p3_0"
  have d: "- 8 \<le> ?e ! (2 * i + c) \<and> ?e ! (2 * i + c) \<le> 8" if "i < 32" "c < 2" for i c using e(2) that by simp
  have "p3_at ge25519_p3_0 (M (0 * u))" using p3_0_at multiplesD(1) [OF assms(1)] by simp
  from table_digits [OF assms(1,2) this d, of 32 1] have h: "p3_at h (M (od * u))" unfolding h_def step_def od_def by simp
  define r where "r = ((\<lambda>r. ge25519_p2_dbl (ge25519_p1p1_to_p2 r)) ^^ 3) (ge25519_p3_dbl h)"
  have "p1p1_at r (M (16 * od * u))"
    using dbl_power_multiple [OF assms(1) p3_dbl_multiple [OF assms(1) h], of 3] unfolding r_def by (simp add: mult.assoc)
  from table_digits [OF assms(1,2) p1p1_to_p3_at [OF this] d, of 32 0]
  have "p3_at (fold step (map (\<lambda>j. 2 * j) [0..<32]) (ge25519_p1p1_to_p3 r)) (M (dval 16 ?e * u))"
    unfolding step_def dval_16_pairs [OF e(1)] od_def by simp
  then show ?thesis unfolding scalarmult_table_def Let_def h_def r_def step_def e(3) .
qed

section \<open>Multiplication by the order of the base point\<close>

lemma p3p3_dbl_multiple: "multiples M \<Longrightarrow> p3_at P (M i) \<Longrightarrow> p3_at (ge25519_p3p3_dbl P) (M (2 * i))"
  unfolding ge25519_p3p3_dbl_def by (rule p1p1_to_p3_at [OF p3_dbl_multiple])

lemma p3_add_multiple: "multiples M \<Longrightarrow> p3_at P (M i) \<Longrightarrow> p3_at Q (M j) \<Longrightarrow> p3_at (ge25519_p3_add P Q) (M (i + j))"
  unfolding ge25519_p3_add_def by (rule p1p1_to_p3_at [OF add_cached_multiple [OF _ _ p3_to_cached_at]])

lemma p3_dbladd_multiple:
  assumes "multiples M" "p3_at P (M i)" "p3_at Q (M j)" "0 < n"
  shows "p3_at (ge25519_p3_dbladd P n Q) (M (2 ^ n * i + j))"
proof -
  have "p2_at (((\<lambda>p2. ge25519_p1p1_to_p2 (ge25519_p2_dbl p2)) ^^ m) (ge25519_p3_to_p2 P)) (M (2 ^ m * i))" for m
  proof (induction m)
    case (Suc m)
    from p1p1_to_p2_at [OF p2_dbl_multiple [OF assms(1) this]] show ?case by (simp add: mult.assoc)
  qed (use p3_to_p2_at [OF assms(2)] in simp)
  from p1p1_to_p3_at [OF p2_dbl_multiple [OF assms(1) this [of "n - 1"]]] p3_add_multiple [OF assms(1) _ assms(3)]
  have "p3_at (ge25519_p3_dbladd P n Q) (M (2 * (2 ^ (n - 1) * i) + j))" unfolding ge25519_p3_dbladd_def Let_def by blast
  moreover have "2 * (2 ^ (n - 1) * i) + j = 2 ^ n * i + j" using assms(4) by (cases n) simp_all
  ultimately show ?thesis by (simp only:)
qed

lemma multiple_let: "p3_at P (M (i * u)) \<Longrightarrow> (\<And>y. p3_at y (M (i * u)) \<Longrightarrow> p3_at (F y) (M (e * u))) \<Longrightarrow> p3_at (let y = P in F y) (M (e * u))"
  by simp

lemma multiple_exponent: "p3_at P (M (i * u)) \<Longrightarrow> i = e \<Longrightarrow> p3_at P (M (e * u))"
  by simp

lemma mul_l_at:
  assumes "multiples M" "p3_at p (M u)"
  shows "p3_at (ge25519_mul_l p) (M (order * u))"
proof -
  note m = multiples_scale [OF assms(1), of u]
  note dbl = p3p3_dbl_multiple [OF m] and add = p3_add_multiple [OF m] and dbladd = p3_dbladd_multiple [OF m _ _ zero_less_numeral]
  have "p3_at p (M (1 * u))" using assms(2) by simp
  then show ?thesis unfolding ge25519_mul_l_def
    apply -
    apply (rule multiple_let, (rule dbl add dbladd; assumption))+
    apply (rule multiple_exponent, rule dbladd, assumption, assumption)
    by (simp add: order_def)
qed

section \<open>A point of order four\<close>

text \<open>The multiples of the point whose coordinates are the root of -1 and 0\<close>

definition root_m1 :: int where
  "root_m1 = 19681161376707505956807079304988542015446066515923890162744021073123829784752"

definition quarter :: "int \<Rightarrow> point" where
  "quarter i = (if i mod 4 = 0 then (0, 1) else if i mod 4 = 1 then (root_m1, 0) else if i mod 4 = 2 then (0, - 1) else (- root_m1, 0))"

lemma root_m1_square: "same_mod (root_m1 * root_m1) (- 1)"
  unfolding root_m1_def same_mod_def p25519_def by simp

lemma mod_4_cases: "(i :: int) mod 4 = 0 \<or> i mod 4 = 1 \<or> i mod 4 = 2 \<or> i mod 4 = 3"
  by (smt (verit) pos_mod_bound pos_mod_sign)

lemma same_mod_negative: "same_mod a b \<Longrightarrow> same_mod (- a) (- b)"
  unfolding same_mod_def by (rule Euclidean_Rings.mod_minus_cong)

lemma quarter_sum: "edwards_sum (quarter i) (quarter j) (quarter (i + j))"
proof -
  have s: "same_mod (- 1) (root_m1 * root_m1)" "same_mod 1 (- (root_m1 * root_m1))"
    using root_m1_square same_mod_negative [OF root_m1_square] by (simp_all add: same_mod_sym)
  have "(i + j) mod 4 = (i mod 4 + j mod 4) mod 4" by (simp add: mod_add_eq)
  then show ?thesis using mod_4_cases [of i] mod_4_cases [of j]
    by (elim disjE) (simp_all add: quarter_def edwards_sum_def s)
qed

lemma quarter_multiples: "multiples quarter"
proof -
  have "on_curve (quarter i)" for i
    using mod_4_cases [of i] root_m1_square same_mod_negative [OF root_m1_square] by (elim disjE) (simp_all add: quarter_def on_curve_def)
  moreover have "quarter (- i) = negated (quarter i)" for i
  proof -
    have "(- i) mod 4 = (- (i mod 4)) mod 4" by (simp add: mod_minus_eq)
    then show ?thesis using mod_4_cases [of i] by (elim disjE) (simp_all add: quarter_def negated_def)
  qed
  ultimately show ?thesis using quarter_sum by (simp add: multiples_def quarter_def)
qed

lemma rep_root_m1: "rep 1 fe25519_sqrtm1 root_m1"
  unfolding rep_tight bounded_def all_10 fe25519_sqrtm1_def root_m1_def tight_def fe_val_def ival_sum
  by (simp_all add: p25519_def)

definition quarter_point :: ge25519_p3 where
  "quarter_point = \<lparr>p3_X = fe25519_sqrtm1, p3_Y = fe25519_0, p3_Z = fe25519_1, p3_T = fe25519_0\<rparr>"

lemma quarter_point_at: "p3_at quarter_point (quarter 1)"
  using rep_root_m1 rep_const by (auto simp: p3_at_def quarter_point_def quarter_def intro!: exI [of _ 1])

definition quarter_entry :: "int \<Rightarrow> ge25519_precomp" where
  "quarter_entry i =
    (if i mod 4 = 0 then ge25519_precomp_0
     else if i mod 4 = 1 then \<lparr>yplusx = fe25519_sqrtm1, yminusx = fe25519_neg fe25519_sqrtm1, xy2d = fe25519_0\<rparr>
     else if i mod 4 = 2 then \<lparr>yplusx = fe25519_neg fe25519_1, yminusx = fe25519_neg fe25519_1, xy2d = fe25519_0\<rparr>
     else \<lparr>yplusx = fe25519_neg fe25519_sqrtm1, yminusx = fe25519_sqrtm1, xy2d = fe25519_0\<rparr>)"

lemma quarter_entry_at: "precomp_at (quarter_entry i) (quarter i)"
  using mod_4_cases [of i] rep_mono [OF rep_root_m1, of 2] rep_mono [OF rep_const(2), of 2] rep_const(1)
    rep_neg [OF rep_root_m1] rep_neg [OF rep_const(2)] rep_mono [OF rep_neg [OF rep_root_m1 le_3(1)], of 2] rep_mono [OF rep_neg [OF rep_const(2) le_3(1)], of 2]
  by (elim disjE) (simp_all add: precomp_at_def quarter_def quarter_entry_def ge25519_precomp_0_def)

section \<open>What the operations compute\<close>

text \<open>
  C30: the point operations compute the addition law of the curve: where the denominators of the law are
  invertible, the sum, the difference and the double of points in the code's representations stand for
  the law's results, by either form of the second operand.
\<close>

theorem ge25519_adds_points:
  assumes "p3_at P A" "p3_at Q B" "precomp_at R B" "on_curve A"
    "edwards_sum A B C" "edwards_sum A (negated B) D" "edwards_sum A A E"
  shows "p3_at (ge25519_p3_add P Q) C \<and>
    p3_at (ge25519_p1p1_to_p3 (ge25519_sub_cached P (ge25519_p3_to_cached Q))) D \<and>
    p3_at (ge25519_p1p1_to_p3 (ge25519_add_precomp P R)) C \<and>
    p3_at (ge25519_p1p1_to_p3 (ge25519_sub_precomp P R)) D \<and>
    p3_at (ge25519_p3p3_dbl P) E"
  unfolding ge25519_p3_add_def ge25519_p3p3_dbl_def
  using add_cached_at [OF assms(1) p3_to_cached_at [OF assms(2)] assms(5)] sub_cached_at [OF assms(1) p3_to_cached_at [OF assms(2)] assms(6)]
    add_precomp_at [OF assms(1,3,5)] sub_precomp_at [OF assms(1,3,6)] p3_dbl_at [OF assms(1,4,7)]
  by (blast intro: p1p1_to_p3_at)

theorem ge25519_adds_points_witness:
  "p3_at (ge25519_p3_add quarter_point quarter_point) (0, - 1) \<and>
   p3_at (ge25519_p1p1_to_p3 (ge25519_sub_precomp quarter_point (quarter_entry 1))) (0, 1)"
proof -
  have s: "edwards_sum (quarter 1) (quarter 1) (0, - 1)" "edwards_sum (quarter 1) (negated (quarter 1)) (0, 1)"
    using quarter_sum [of 1 1] quarter_sum [of 1 "- 1"] multiplesD(3) [OF quarter_multiples, of 1] by (simp_all add: quarter_def)
  show ?thesis
    using ge25519_adds_points [OF quarter_point_at quarter_point_at quarter_entry_at multiplesD(2) [OF quarter_multiples] s s(1)] by blast
qed

text \<open>
  C29: \<open>ge25519_scalarmult\<close> multiplies a point by a scalar of 32 bytes below \<open>2^255\<close>, \<open>ge25519_mul_l\<close> by the
  order \<open>L\<close> of the base point, and the multiplication with a table (that of \<open>ge25519_scalarmult_base\<close>) the
  point whose multiples by \<open>(j + 1) * 256^i\<close> the table holds, for every indexing \<open>M\<close> of points by integers
  that respects the addition law.
\<close>

theorem ge25519_scalarmult_point:
  assumes "multiples M" "p3_at p (M u)" "\<And>i j. i < 32 \<Longrightarrow> j < 8 \<Longrightarrow> precomp_at (base ! i ! j) (M (int (Suc j) * 256 ^ i * v))"
    "length a = 32" "a ! 31 \<le> 127"
  shows "p3_at (ge25519_scalarmult a p) (M (int (le_val a) * u)) \<and> p3_at (ge25519_mul_l p) (M (order * u)) \<and>
    p3_at (scalarmult_table base a) (M (int (le_val a) * v))"
  using ge25519_scalarmult_at [OF assms(1,2,4,5)] mul_l_at [OF assms(1,2)] scalarmult_table_at [OF assms(1,3-5)] by blast

theorem ge25519_scalarmult_point_witness:
  "p3_at (ge25519_scalarmult (7 # replicate 31 0) quarter_point) (- root_m1, 0) \<and> p3_at (ge25519_mul_l quarter_point) (root_m1, 0) \<and>
   p3_at (scalarmult_table (map (\<lambda>i. map (\<lambda>j. quarter_entry (int (Suc j) * 256 ^ i)) [0..<8]) [0..<32]) (7 # replicate 31 0)) (- root_m1, 0)"
  using ge25519_scalarmult_point [OF quarter_multiples quarter_point_at, of "map (\<lambda>i. map (\<lambda>j. quarter_entry (int (Suc j) * 256 ^ i)) [0..<8]) [0..<32]" 1 "7 # replicate 31 0"]
    quarter_entry_at
  by (simp add: quarter_def order_def del: upt_rec_numeral)



end
