(* ===== verification/Ge25519_Decode.thy ===== *)
theory Ge25519_Decode
  imports Ge25519_Mult
begin

text \<open>
  Decoding of points: what the two decoders of \<open>Ge25519\<close> accept is a point of the curve, with the second
  coordinate of the bytes and the sign asked for.
\<close>

section \<open>Decoding of points\<close>


















end
