(* ===== verification/Ge25519_Base2.thy ===== *)
theory Ge25519_Base2
  imports Ge25519_Base
begin

text \<open>
  The second table of Ed25519 holds the odd multiples of the base point: checked entry by entry against
  the addition law.
\<close>

section \<open>Sums checked with quotients and inverses\<close>

lemma cong_cert: "a + 19 * q = 2 ^ 255 * q + b \<Longrightarrow> same_mod a b"
proof -
  assume "a + 19 * q = 2 ^ 255 * q + b"
  then have "a - b = p25519 * q" by (simp add: p25519_def algebra_simps)
  then show ?thesis by (simp add: same_mod_dvd)
qed

lemma same_mod_trans: "same_mod a b \<Longrightarrow> same_mod b c \<Longrightarrow> same_mod a c"
  by (simp add: same_mod_def)

lemma same_mod_mult: "same_mod a b \<Longrightarrow> same_mod c d \<Longrightarrow> same_mod (a * c) (b * d)"
  unfolding same_mod_def by (rule mod_mult_cong)

lemma same_mod_add: "same_mod a b \<Longrightarrow> same_mod c d \<Longrightarrow> same_mod (a + c) (b + d)" "same_mod a b \<Longrightarrow> same_mod c d \<Longrightarrow> same_mod (a - c) (b - d)"
  unfolding same_mod_def by (rule mod_add_cong mod_diff_cong; assumption)+

lemma coprime_inverse: "same_mod (a * i) 1 \<Longrightarrow> coprime a p25519"
proof -
  assume "same_mod (a * i) 1"
  then have "coprime (a * i) p25519" using coprime_mod [of 1 "a * i"] by (simp add: same_mod_sym)
  then show ?thesis by (simp add: coprime_mult_left_iff)
qed

lemma edwards_sum_check:
  assumes "same_mod (x1 * x2) m1" "same_mod (y1 * y2) m2" "same_mod (m1 * m2) m3" "same_mod (ed_d * m3) e"
    "same_mod (a * i1) 1" "same_mod (b * i2) 1" "1 + e = a" "1 - e = b"
    "same_mod (x3 * a) n1" "same_mod (y3 * b) n2" "same_mod (x1 * y2 + y1 * x2) n1" "same_mod (m2 + m1) n2"
  shows "edwards_sum (x1, y1) (x2, y2) (x3, y3)"
proof -
  let ?e = "ed_d * (x1 * x2 * y1 * y2)"
  have "same_mod (x1 * x2 * (y1 * y2)) (m1 * m2)" by (rule same_mod_mult [OF assms(1,2)])
  then have "same_mod (x1 * x2 * y1 * y2) m3" using same_mod_trans [OF _ assms(3)] by (simp only: mult.assoc)
  then have e: "same_mod ?e e" using same_mod_trans [OF same_mod_scale assms(4)] by blast
  have "same_mod (1 + ?e) a" "same_mod (1 - ?e) b"
    using same_mod_add [OF same_mod_refl e, of 1] unfolding assms(7,8) .
  moreover have "coprime a p25519" "coprime b p25519" using coprime_inverse assms(5,6) by blast+
  moreover have "same_mod (y1 * y2 + x1 * x2) n2" using same_mod_trans [OF same_mod_add(1) [OF assms(2,1)] assms(12)] .
  ultimately show ?thesis unfolding edwards_sum_def prod.case Let_def using assms(9-11)
    by (meson coprime_mod same_mod_scale same_mod_sym same_mod_trans)
qed


section \<open>The points of the second table\<close>

text \<open>
  The base point \<open>B\<close>, its double and the odd multiples \<open>B\<close>, \<open>3 * B\<close>, ..., \<open>15 * B\<close>.  The sums are checked with
  quotients and inverses computed outside.
\<close>

definition ed_base :: point where
  "ed_base = (15112221349535400772501151409588531511454012693041857206046113283949847762202, 46316835694926478169428394003475163141307993866256225615783033603165251855960)"

definition ed_base_doubled :: point where
  "ed_base_doubled = (24727413235106541002554574571675588834622768167397638456726423682521233608206, 15549675580280190176352668710449542251549572066445060580507079593062643049417)"

definition odd_base_points :: "point list" where
  "odd_base_points =
    [(15112221349535400772501151409588531511454012693041857206046113283949847762202, 46316835694926478169428394003475163141307993866256225615783033603165251855960),
     (46896733464454938657123544595386787789046198280132665686241321779790909858396, 8324843778533443976490377120369201138301417226297555316741202210403726505172),
     (33467004535436536005251147249499675200073690106659565782908757308821616914995, 43097193783671926753355113395909008640284023746042808659097434958891230611693),
     (9199134265559022971505535402808359556995554859516252602543778295037484220679, 22512087849695599276028560866629687720820254811233262850576678203618951717560),
     (24193060302538010417230488029838514081720802923509845138863968807030823940444, 57551756252899625001155759838357770487605224608455116862194664796369308545472),
     (9451145793506787353375160377761530931587019091193333050860601958827395183563, 20609402718286069808115703540855311742885093522056241285814584245966805874451),
     (7442235066513780790779899786332475485840754593728627195931759107337804079085, 8529785864514984411577036536286432879603480171865651918962709025066066124672),
     (35771902585589234259498423420223840099331465042459337605611172842168536632769, 8502034780705657720897159939055122322178084209392286764802307224484658961631)]"

lemma on_curve_check:
  assumes "same_mod (x * x) a" "same_mod (y * y) b" "same_mod (a * b) c" "same_mod (ed_d * c) e" "same_mod (b - a) (1 + e)"
  shows "on_curve (x, y)"
proof -
  have "same_mod (x * x * (y * y)) c" by (rule same_mod_trans [OF same_mod_mult [OF assms(1,2)] assms(3)])
  then have "same_mod (ed_d * (x * x * y * y)) e" using same_mod_trans [OF same_mod_scale assms(4)] by (simp only: mult.assoc)
  then have "same_mod (1 + ed_d * (x * x * y * y)) (1 + e)" by (rule same_mod_add(1) [OF same_mod_refl])
  moreover have "same_mod (y * y - x * x) (b - a)" by (rule same_mod_add(2) [OF assms(2,1)])
  ultimately show ?thesis unfolding on_curve_def prod.case using assms(5) by (meson same_mod_sym same_mod_trans)
qed

lemma base_on_curve: "on_curve ed_base"
  unfolding ed_base_def
proof (rule on_curve_check [of _ "26187595835145689230469591415084376402084551887632582719101735842039498021991" _ "37053468555941182535542715202780130513046395093004980492626426882532201484768" "30655112042971184558329056706696549839726511367961720624960021019854854290862" "10865872720795493305073123787695754110961843205372397773524691040492703462776"])
  show "same_mod (15112221349535400772501151409588531511454012693041857206046113283949847762202 * 15112221349535400772501151409588531511454012693041857206046113283949847762202) 26187595835145689230469591415084376402084551887632582719101735842039498021991" by (rule cong_cert [of _ "3944643120641682540557488748386534817562863454810087094083181913524639656337"]) simp
  show "same_mod (46316835694926478169428394003475163141307993866256225615783033603165251855960 * 46316835694926478169428394003475163141307993866256225615783033603165251855960) 37053468555941182535542715202780130513046395093004980492626426882532201484768" by (rule cong_cert [of _ "37053468555941182535542715202780130513046395093004980492626426882532201484768"]) simp
  show "same_mod (26187595835145689230469591415084376402084551887632582719101735842039498021991 * 37053468555941182535542715202780130513046395093004980492626426882532201484768) 30655112042971184558329056706696549839726511367961720624960021019854854290862" by (rule cong_cert [of _ "16760061334493241107500538505654000897334113208084852940225110938905278734074"]) simp
  show "same_mod (ed_d * 30655112042971184558329056706696549839726511367961720624960021019854854290862) 10865872720795493305073123787695754110961843205372397773524691040492703462776" unfolding ed_d_def by (rule cong_cert [of _ "19641635784112395346641967481223427603076292420967697888635760513231183455066"]) simp
  show "same_mod (37053468555941182535542715202780130513046395093004980492626426882532201484768 - 26187595835145689230469591415084376402084551887632582719101735842039498021991) (1 + 10865872720795493305073123787695754110961843205372397773524691040492703462776)" by (rule cong_cert [of _ "0"]) simp
qed

lemma base_double: "edwards_sum (15112221349535400772501151409588531511454012693041857206046113283949847762202, 46316835694926478169428394003475163141307993866256225615783033603165251855960) (15112221349535400772501151409588531511454012693041857206046113283949847762202, 46316835694926478169428394003475163141307993866256225615783033603165251855960) (24727413235106541002554574571675588834622768167397638456726423682521233608206, 15549675580280190176352668710449542251549572066445060580507079593062643049417)"
proof (rule edwards_sum_check [of _ _ "26187595835145689230469591415084376402084551887632582719101735842039498021991" _ _ "37053468555941182535542715202780130513046395093004980492626426882532201484768" "30655112042971184558329056706696549839726511367961720624960021019854854290862" "10865872720795493305073123787695754110961843205372397773524691040492703462776" "10865872720795493305073123787695754110961843205372397773524691040492703462777" "209325846291170943509691191589112255490563248687624486049616149279891676193" "- 10865872720795493305073123787695754110961843205372397773524691040492703462775" "23433485286344922975343343183309822149119477277686524097973672123823657291327" _ "35758763082988260778358940756210441203653418775431027933619539655111069383513" _ "5345019772428774054226814113520552988495954647817281191999370720615134686810"])
  show "same_mod (15112221349535400772501151409588531511454012693041857206046113283949847762202 * (15112221349535400772501151409588531511454012693041857206046113283949847762202)) (26187595835145689230469591415084376402084551887632582719101735842039498021991)" by (rule cong_cert [of _ "3944643120641682540557488748386534817562863454810087094083181913524639656337"]) simp
  show "same_mod (46316835694926478169428394003475163141307993866256225615783033603165251855960 * (46316835694926478169428394003475163141307993866256225615783033603165251855960)) (37053468555941182535542715202780130513046395093004980492626426882532201484768)" by (rule cong_cert [of _ "37053468555941182535542715202780130513046395093004980492626426882532201484768"]) simp
  show "same_mod (26187595835145689230469591415084376402084551887632582719101735842039498021991 * (37053468555941182535542715202780130513046395093004980492626426882532201484768)) (30655112042971184558329056706696549839726511367961720624960021019854854290862)" by (rule cong_cert [of _ "16760061334493241107500538505654000897334113208084852940225110938905278734074"]) simp
  show "same_mod (ed_d * (30655112042971184558329056706696549839726511367961720624960021019854854290862)) (10865872720795493305073123787695754110961843205372397773524691040492703462776)" unfolding ed_d_def by (rule cong_cert [of _ "19641635784112395346641967481223427603076292420967697888635760513231183455066"]) simp
  show "same_mod (10865872720795493305073123787695754110961843205372397773524691040492703462777 * (209325846291170943509691191589112255490563248687624486049616149279891676193)) (1)" by (rule cong_cert [of _ "39286068987166379365534598460247025388597226932259233411430977511593730040"]) simp
  show "same_mod (- 10865872720795493305073123787695754110961843205372397773524691040492703462775 * (23433485286344922975343343183309822149119477277686524097973672123823657291327)) (1)" by (rule cong_cert [of _ "- 4397973474754440286967242851607998898452437350460971718965314058899781133874"]) simp
  show "same_mod (24727413235106541002554574571675588834622768167397638456726423682521233608206 * (10865872720795493305073123787695754110961843205372397773524691040492703462777)) (35758763082988260778358940756210441203653418775431027933619539655111069383513)" by (rule cong_cert [of _ "4640816599768074523567265725477282336817799778256961706557227807567430185401"]) simp
  show "same_mod (15549675580280190176352668710449542251549572066445060580507079593062643049417 * (- 10865872720795493305073123787695754110961843205372397773524691040492703462775)) (5345019772428774054226814113520552988495954647817281191999370720615134686810)" by (rule cong_cert [of _ "- 2918347821822279244224534467951863095252877302676643115518800860268071522765"]) simp
  show "same_mod (15112221349535400772501151409588531511454012693041857206046113283949847762202 * 46316835694926478169428394003475163141307993866256225615783033603165251855960 + 46316835694926478169428394003475163141307993866256225615783033603165251855960 * 15112221349535400772501151409588531511454012693041857206046113283949847762202) 35758763082988260778358940756210441203653418775431027933619539655111069383513" by (rule cong_cert [of _ "24179554159256641236001842255341650418326420308866971529673781254319756419523"]) simp
  show "same_mod (37053468555941182535542715202780130513046395093004980492626426882532201484768 + 26187595835145689230469591415084376402084551887632582719101735842039498021991) 5345019772428774054226814113520552988495954647817281191999370720615134686810" by (rule cong_cert [of _ "1"]) simp
qed simp_all

lemma odd_base_sum_0: "edwards_sum (15112221349535400772501151409588531511454012693041857206046113283949847762202, 46316835694926478169428394003475163141307993866256225615783033603165251855960) (24727413235106541002554574571675588834622768167397638456726423682521233608206, 15549675580280190176352668710449542251549572066445060580507079593062643049417) (46896733464454938657123544595386787789046198280132665686241321779790909858396, 8324843778533443976490377120369201138301417226297555316741202210403726505172)"
proof (rule edwards_sum_check [of _ _ "25225440941862457257645256542063839045928653454434489306237645082571845078638" _ _ "47177367235419010768153430470966006157220653052848217676242938876824053331503" "3364236006921377708987850388260268045919210514534713198477653094347271829663" "12965896712281167460188844285041720407456251414812089957574419241826119111093" "12965896712281167460188844285041720407456251414812089957574419241826119111094" "29600802672229291977551086989035457193912897394190512490856270676290202971450" "- 12965896712281167460188844285041720407456251414812089957574419241826119111092" "12427363435476498764622292639380187905816969151665599103759243972126144747838" _ "21329434546539205775653041478616763119709200870664478950272909389572409521696" _ "14506763558623370314013194508685891276514314174462424962751791955439333590192"])
  show "same_mod (15112221349535400772501151409588531511454012693041857206046113283949847762202 * (24727413235106541002554574571675588834622768167397638456726423682521233608206)) (25225440941862457257645256542063839045928653454434489306237645082571845078638)" by (rule cong_cert [of _ "6454433021663346227697405437452792583555821297117287786816762890575823932726"]) simp
  show "same_mod (46316835694926478169428394003475163141307993866256225615783033603165251855960 * (15549675580280190176352668710449542251549572066445060580507079593062643049417)) (47177367235419010768153430470966006157220653052848217676242938876824053331503)" by (rule cong_cert [of _ "12439740464224152141082134968359633801239657653156048464405663674450114439533"]) simp
  show "same_mod (25225440941862457257645256542063839045928653454434489306237645082571845078638 * (47177367235419010768153430470966006157220653052848217676242938876824053331503)) (3364236006921377708987850388260268045919210514534713198477653094347271829663)" by (rule cong_cert [of _ "20555288341858445091655881398897118214263259624518105402237652989900493436799"]) simp
  show "same_mod (ed_d * (3364236006921377708987850388260268045919210514534713198477653094347271829663)) (12965896712281167460188844285041720407456251414812089957574419241826119111093)" unfolding ed_d_def by (rule cong_cert [of _ "2155565383258724699621487326096273367412687650293044625345827486478075842728"]) simp
  show "same_mod (12965896712281167460188844285041720407456251414812089957574419241826119111094 * (29600802672229291977551086989035457193912897394190512490856270676290202971450)) (1)" by (rule cong_cert [of _ "6629139392452627800747756727327378811291480314330367441404854080411285246151"]) simp
  show "same_mod (- 12965896712281167460188844285041720407456251414812089957574419241826119111092 * (12427363435476498764622292639380187905816969151665599103759243972126144747838)) (1)" by (rule cong_cert [of _ "- 2783124680998330539791939497196969452204043389894178261245581432649349228253"]) simp
  show "same_mod (46896733464454938657123544595386787789046198280132665686241321779790909858396 * (12965896712281167460188844285041720407456251414812089957574419241826119111094)) (21329434546539205775653041478616763119709200870664478950272909389572409521696)" by (rule cong_cert [of _ "10502586251765189032171361699000264158397174470481734387195668932726726272872"]) simp
  show "same_mod (8324843778533443976490377120369201138301417226297555316741202210403726505172 * (- 12965896712281167460188844285041720407456251414812089957574419241826119111092)) (14506763558623370314013194508685891276514314174462424962751791955439333590192)" by (rule cong_cert [of _ "- 1864359910755556230756376877239954303300786756820140253993326411207065582784"]) simp
  show "same_mod (15112221349535400772501151409588531511454012693041857206046113283949847762202 * 15549675580280190176352668710449542251549572066445060580507079593062643049417 + 46316835694926478169428394003475163141307993866256225615783033603165251855960 * 24727413235106541002554574571675588834622768167397638456726423682521233608206) 21329434546539205775653041478616763119709200870664478950272909389572409521696" by (rule cong_cert [of _ "23840759491345569440485289424927131004463260464483504793203189492499157537602"]) simp
  show "same_mod (47177367235419010768153430470966006157220653052848217676242938876824053331503 + 25225440941862457257645256542063839045928653454434489306237645082571845078638) 14506763558623370314013194508685891276514314174462424962751791955439333590192" by (rule cong_cert [of _ "1"]) simp
qed simp_all

lemma odd_base_sum_1: "edwards_sum (46896733464454938657123544595386787789046198280132665686241321779790909858396, 8324843778533443976490377120369201138301417226297555316741202210403726505172) (24727413235106541002554574571675588834622768167397638456726423682521233608206, 15549675580280190176352668710449542251549572066445060580507079593062643049417) (33467004535436536005251147249499675200073690106659565782908757308821616914995, 43097193783671926753355113395909008640284023746042808659097434958891230611693)"
proof (rule edwards_sum_check [of _ _ "48340943397957672063845076961079850094226192239642303261637243939815458376085" _ _ "44797614286132229630946778029717472893086876719631224265665813444759707094146" "42371533499781928103430765740550095599405096895089063229563725931958961537065" "38992872074211770242716245714054993943552099849601362769832305884147734512537" "38992872074211770242716245714054993943552099849601362769832305884147734512538" "29660477934786797460256459814545889426269004665773291847071182618599551217061" "- 38992872074211770242716245714054993943552099849601362769832305884147734512536" "51178657838794802314375452211932977104438832034001385903422592450851300501002" _ "1185694846455181342456520448993323900561873012422453615693636545405975309872" _ "35242513065431803983006362486453369060678076626453245507574265380618600650282"])
  show "same_mod (46896733464454938657123544595386787789046198280132665686241321779790909858396 * (24727413235106541002554574571675588834622768167397638456726423682521233608206)) (48340943397957672063845076961079850094226192239642303261637243939815458376085)" by (rule cong_cert [of _ "20029605051439257545288017948402983388317488377638599063002798194777807630559"]) simp
  show "same_mod (8324843778533443976490377120369201138301417226297555316741202210403726505172 * (15549675580280190176352668710449542251549572066445060580507079593062643049417)) (44797614286132229630946778029717472893086876719631224265665813444759707094146)" by (rule cong_cert [of _ "2235880203308253119519222121890932670933772483120078552391370436872692883322"]) simp
  show "same_mod (48340943397957672063845076961079850094226192239642303261637243939815458376085 * (44797614286132229630946778029717472893086876719631224265665813444759707094146)) (42371533499781928103430765740550095599405096895089063229563725931958961537065)" by (rule cong_cert [of _ "37404263984409838010198068788034133636932658738789404062886173428130962818405"]) simp
  show "same_mod (ed_d * (42371533499781928103430765740550095599405096895089063229563725931958961537065)) (38992872074211770242716245714054993943552099849601362769832305884147734512537)" unfolding ed_d_def by (rule cong_cert [of _ "27148693094007366111345366357935517749014715109041703713943420964163043468362"]) simp
  show "same_mod (38992872074211770242716245714054993943552099849601362769832305884147734512538 * (29660477934786797460256459814545889426269004665773291847071182618599551217061)) (1)" by (rule cong_cert [of _ "19976273498283218670778393546530773510718789899430402843185046916617678922533"]) simp
  show "same_mod (- 38992872074211770242716245714054993943552099849601362769832305884147734512536 * (51178657838794802314375452211932977104438832034001385903422592450851300501002)) (1)" by (rule cong_cert [of _ "- 34468725302088431669577571281883006482376796678739445245080631375030175325077"]) simp
  show "same_mod (33467004535436536005251147249499675200073690106659565782908757308821616914995 * (38992872074211770242716245714054993943552099849601362769832305884147734512538)) (1185694846455181342456520448993323900561873012422453615693636545405975309872)" by (rule cong_cert [of _ "22539961670141264825032842176044456866530163614812222023405499037387995969462"]) simp
  show "same_mod (43097193783671926753355113395909008640284023746042808659097434958891230611693 * (- 38992872074211770242716245714054993943552099849601362769832305884147734512536)) (35242513065431803983006362486453369060678076626453245507574265380618600650282)" by (rule cong_cert [of _ "- 29025875170454503863744136436304667593184035664383105375875854408921235177770"]) simp
  show "same_mod (46896733464454938657123544595386787789046198280132665686241321779790909858396 * 15549675580280190176352668710449542251549572066445060580507079593062643049417 + 8324843778533443976490377120369201138301417226297555316741202210403726505172 * 24727413235106541002554574571675588834622768167397638456726423682521233608206) 1185694846455181342456520448993323900561873012422453615693636545405975309872" by (rule cong_cert [of _ "16151031552081166966260336496622061582543477667927992890195017125653391977908"]) simp
  show "same_mod (44797614286132229630946778029717472893086876719631224265665813444759707094146 + 48340943397957672063845076961079850094226192239642303261637243939815458376085) 35242513065431803983006362486453369060678076626453245507574265380618600650282" by (rule cong_cert [of _ "1"]) simp
qed simp_all

lemma odd_base_sum_2: "edwards_sum (33467004535436536005251147249499675200073690106659565782908757308821616914995, 43097193783671926753355113395909008640284023746042808659097434958891230611693) (24727413235106541002554574571675588834622768167397638456726423682521233608206, 15549675580280190176352668710449542251549572066445060580507079593062643049417) (9199134265559022971505535402808359556995554859516252602543778295037484220679, 22512087849695599276028560866629687720820254811233262850576678203618951717560)"
proof (rule edwards_sum_check [of _ _ "6340004638261182900895289219772987200849098283612958019611071795932256623560" _ _ "27213516076568098771156700155333099061231010900289323149495096076870574395288" "15346874318147105863293115084415884734066589450846357509903977324495490947132" "26708851835273599236554348871529033123123434212128029177396509941486770170587" "26708851835273599236554348871529033123123434212128029177396509941486770170588" "53375505135313229606775476404274437850839292217484306675712255771034529699596" "- 26708851835273599236554348871529033123123434212128029177396509941486770170586" "16756154419809903178550114253542695530956127259463057353725220520958859291308" _ "3663950890373774115901108867091966127669441317688269166598728886030604535467" _ "33553520714829281672051989375106086262080109183902281169106167872802831018848"])
  show "same_mod (33467004535436536005251147249499675200073690106659565782908757308821616914995 * (24727413235106541002554574571675588834622768167397638456726423682521233608206)) (6340004638261182900895289219772987200849098283612958019611071795932256623560)" by (rule cong_cert [of _ "14293764908116530862448180713109370502117189820835074215820232183375730470090"]) simp
  show "same_mod (43097193783671926753355113395909008640284023746042808659097434958891230611693 * (15549675580280190176352668710449542251549572066445060580507079593062643049417)) (27213516076568098771156700155333099061231010900289323149495096076870574395288)" by (rule cong_cert [of _ "11575011491209865433133808471897716672703133499734705597028430690659308629457"]) simp
  show "same_mod (6340004638261182900895289219772987200849098283612958019611071795932256623560 * (27213516076568098771156700155333099061231010900289323149495096076870574395288)) (15346874318147105863293115084415884734066589450846357509903977324495490947132)" by (rule cong_cert [of _ "2980062269974738850882056107034744850476570958375963751354989650526159839252"]) simp
  show "same_mod (ed_d * (15346874318147105863293115084415884734066589450846357509903977324495490947132)) (26708851835273599236554348871529033123123434212128029177396509941486770170587)" unfolding ed_d_def by (rule cong_cert [of _ "9833195695355790751508348975109235895354174384303978101396976577935051672477"]) simp
  show "same_mod (26708851835273599236554348871529033123123434212128029177396509941486770170588 * (53375505135313229606775476404274437850839292217484306675712255771034529699596)) (1)" by (rule cong_cert [of _ "24623417155384394775307477940976477232497684838837466212941596724761177407403"]) simp
  show "same_mod (- 26708851835273599236554348871529033123123434212128029177396509941486770170586 * (16756154419809903178550114253542695530956127259463057353725220520958859291308)) (1)" by (rule cong_cert [of _ "- 7730021086508560468605800768396437960331211876181387581463366112763583430461"]) simp
  show "same_mod (9199134265559022971505535402808359556995554859516252602543778295037484220679 * (26708851835273599236554348871529033123123434212128029177396509941486770170588)) (3663950890373774115901108867091966127669441317688269166598728886030604535467)" by (rule cong_cert [of _ "4243784108740710510242939549308612702871047059302194843568174405205316247965"]) simp
  show "same_mod (22512087849695599276028560866629687720820254811233262850576678203618951717560 * (- 26708851835273599236554348871529033123123434212128029177396509941486770170586)) (33553520714829281672051989375106086262080109183902281169106167872802831018848)" by (rule cong_cert [of _ "- 10385373005022375857829404006604739990702519416690008831408371873121523661392"]) simp
  show "same_mod (33467004535436536005251147249499675200073690106659565782908757308821616914995 * 15549675580280190176352668710449542251549572066445060580507079593062643049417 + 43097193783671926753355113395909008640284023746042808659097434958891230611693 * 24727413235106541002554574571675588834622768167397638456726423682521233608206) 3663950890373774115901108867091966127669441317688269166598728886030604535467" by (rule cong_cert [of _ "27395363423859512737473673468678346225467034950714634449466303322270567450094"]) simp
  show "same_mod (27213516076568098771156700155333099061231010900289323149495096076870574395288 + 6340004638261182900895289219772987200849098283612958019611071795932256623560) 33553520714829281672051989375106086262080109183902281169106167872802831018848" by (rule cong_cert [of _ "0"]) simp
qed simp_all

lemma odd_base_sum_3: "edwards_sum (9199134265559022971505535402808359556995554859516252602543778295037484220679, 22512087849695599276028560866629687720820254811233262850576678203618951717560) (24727413235106541002554574571675588834622768167397638456726423682521233608206, 15549675580280190176352668710449542251549572066445060580507079593062643049417) (24193060302538010417230488029838514081720802923509845138863968807030823940444, 57551756252899625001155759838357770487605224608455116862194664796369308545472)"
proof (rule edwards_sum_check [of _ _ "9325763809085646680044095575923854707602173682939668350085181842640224927057" _ _ "30902426918875499502853874846454069254968873582337309167482348478985076034870" "56168597102055912493228154247220266103922034630928085176911135512893652829234" "7248842797640218075432952744241253730385792372876792704258571421819384289417" "7248842797640218075432952744241253730385792372876792704258571421819384289418" "4406926543836820313545746557770880485436638040494012428395420780827493486658" "- 7248842797640218075432952744241253730385792372876792704258571421819384289416" "43690871305248575831008865333100546015381653378596230937114109121175043822736" _ "18631916069660024058582028364850377862271588238870765750845816607847755468369" _ "40228190727961146182897970422377923962571047265276977517567530321625300961927"])
  show "same_mod (9199134265559022971505535402808359556995554859516252602543778295037484220679 * (24727413235106541002554574571675588834622768167397638456726423682521233608206)) (9325763809085646680044095575923854707602173682939668350085181842640224927057)" by (rule cong_cert [of _ "3928952243421470271284563548988221211934248508304978769883102841983841268533"]) simp
  show "same_mod (22512087849695599276028560866629687720820254811233262850576678203618951717560 * (15549675580280190176352668710449542251549572066445060580507079593062643049417)) (30902426918875499502853874846454069254968873582337309167482348478985076034870)" by (rule cong_cert [of _ "6046279413442381593574959747587532512666219343760505271703330394674977379850"]) simp
  show "same_mod (9325763809085646680044095575923854707602173682939668350085181842640224927057 * (30902426918875499502853874846454069254968873582337309167482348478985076034870)) (56168597102055912493228154247220266103922034630928085176911135512893652829234)" by (rule cong_cert [of _ "4977692974902968079557050512975271774708224397294629905061717369126201459444"]) simp
  show "same_mod (ed_d * (56168597102055912493228154247220266103922034630928085176911135512893652829234)) (7248842797640218075432952744241253730385792372876792704258571421819384289417)" unfolding ed_d_def by (rule cong_cert [of _ "35988879285016098650482474679385003568221542663143350483833672257718875497697"]) simp
  show "same_mod (7248842797640218075432952744241253730385792372876792704258571421819384289418 * (4406926543836820313545746557770880485436638040494012428395420780827493486658)) (1)" by (rule cong_cert [of _ "551766842578501710646152169040584530131979788187684025548934567783135924607"]) simp
  show "same_mod (- 7248842797640218075432952744241253730385792372876792704258571421819384289416 * (43690871305248575831008865333100546015381653378596230937114109121175043822736)) (1)" by (rule cong_cert [of _ "- 5470291794020270150602713311654600750495217919122745675092215910350471939173"]) simp
  show "same_mod (24193060302538010417230488029838514081720802923509845138863968807030823940444 * (7248842797640218075432952744241253730385792372876792704258571421819384289418)) (18631916069660024058582028364850377862271588238870765750845816607847755468369)" by (rule cong_cert [of _ "3029078965273756902325320361646637691001190148679231843459172364002971415427"]) simp
  show "same_mod (57551756252899625001155759838357770487605224608455116862194664796369308545472 * (- 7248842797640218075432952744241253730385792372876792704258571421819384289416)) (40228190727961146182897970422377923962571047265276977517567530321625300961927)" by (rule cong_cert [of _ "- 7205736359940062271378719512897081319050319411114903533222979770658030175171"]) simp
  show "same_mod (9199134265559022971505535402808359556995554859516252602543778295037484220679 * 15549675580280190176352668710449542251549572066445060580507079593062643049417 + 22512087849695599276028560866629687720820254811233262850576678203618951717560 * 24727413235106541002554574571675588834622768167397638456726423682521233608206) 18631916069660024058582028364850377862271588238870765750845816607847755468369" by (rule cong_cert [of _ "12085614088183002154606879935193781587571889024757389884599338233892334568566"]) simp
  show "same_mod (30902426918875499502853874846454069254968873582337309167482348478985076034870 + 9325763809085646680044095575923854707602173682939668350085181842640224927057) 40228190727961146182897970422377923962571047265276977517567530321625300961927" by (rule cong_cert [of _ "0"]) simp
qed simp_all

lemma odd_base_sum_4: "edwards_sum (24193060302538010417230488029838514081720802923509845138863968807030823940444, 57551756252899625001155759838357770487605224608455116862194664796369308545472) (24727413235106541002554574571675588834622768167397638456726423682521233608206, 15549675580280190176352668710449542251549572066445060580507079593062643049417) (9451145793506787353375160377761530931587019091193333050860601958827395183563, 20609402718286069808115703540855311742885093522056241285814584245966805874451)"
proof (rule edwards_sum_check [of _ _ "39471529557189836860058826487841429781340761288845943468618747970698615279953" _ _ "30669764113903190525019673621186452561310012811730212691302466949682132105660" "30794055059241951527746855506676385403749644531741541474523954922722731491442" "7877478122048862755598430610344988161480765250477852441251648244542214503244" "7877478122048862755598430610344988161480765250477852441251648244542214503245" "19306539377775585111071352746688655305426338197572552479892446140559228803844" "- 7877478122048862755598430610344988161480765250477852441251648244542214503243" "50784778608605979794450485591035042501968224899941735380563705507248104184244" _ "23111987870531211173190912890935396542172085290565636798209265697342132866593" _ "12245249052434929673293007604683928416015781767755874140192422916424182565664"])
  show "same_mod (24193060302538010417230488029838514081720802923509845138863968807030823940444 * (24727413235106541002554574571675588834622768167397638456726423682521233608206)) (39471529557189836860058826487841429781340761288845943468618747970698615279953)" by (rule cong_cert [of _ "10332861311391167468301009556494463863360341253977303113715794824777279599539"]) simp
  show "same_mod (57551756252899625001155759838357770487605224608455116862194664796369308545472 * (15549675580280190176352668710449542251549572066445060580507079593062643049417)) (30669764113903190525019673621186452561310012811730212691302466949682132105660)" by (rule cong_cert [of _ "15457206873153973002413809275534372347319238052505611109330133136220891334036"]) simp
  show "same_mod (39471529557189836860058826487841429781340761288845943468618747970698615279953 * (30669764113903190525019673621186452561310012811730212691302466949682132105660)) (30794055059241951527746855506676385403749644531741541474523954922722731491442)" by (rule cong_cert [of _ "20909589052372617446660529477932335918240843957685947339957346590156249029362"]) simp
  show "same_mod (ed_d * (30794055059241951527746855506676385403749644531741541474523954922722731491442)) (7877478122048862755598430610344988161480765250477852441251648244542214503244)" unfolding ed_d_def by (rule cong_cert [of _ "19730660678769798722284829952681584207168013573816118436099772376841932285234"]) simp
  show "same_mod (7877478122048862755598430610344988161480765250477852441251648244542214503245 * (19306539377775585111071352746688655305426338197572552479892446140559228803844)) (1)" by (rule cong_cert [of _ "2626895197463786121589071024703830290331417473294526327972862130148722112671"]) simp
  show "same_mod (- 7877478122048862755598430610344988161480765250477852441251648244542214503243 * (50784778608605979794450485591035042501968224899941735380563705507248104184244)) (1)" by (rule cong_cert [of _ "- 6909901791347298156748880540788138338324843367535162127022501052735551043857"]) simp
  show "same_mod (9451145793506787353375160377761530931587019091193333050860601958827395183563 * (7877478122048862755598430610344988161480765250477852441251648244542214503245)) (23111987870531211173190912890935396542172085290565636798209265697342132866593)" by (rule cong_cert [of _ "1285946124766018085003618760799179595963271003006021652004374776816155926758"]) simp
  show "same_mod (20609402718286069808115703540855311742885093522056241285814584245966805874451 * (- 7877478122048862755598430610344988161480765250477852441251648244542214503243)) (12245249052434929673293007604683928416015781767755874140192422916424182565664)" by (rule cong_cert [of _ "- 2804165985623696191138716239871310793058600792671999609849798677377275595093"]) simp
  show "same_mod (24193060302538010417230488029838514081720802923509845138863968807030823940444 * 15549675580280190176352668710449542251549572066445060580507079593062643049417 + 57551756252899625001155759838357770487605224608455116862194664796369308545472 * 24727413235106541002554574571675588834622768167397638456726423682521233608206) 23111987870531211173190912890935396542172085290565636798209265697342132866593" by (rule cong_cert [of _ "31078121314186264158891071884916197571370130133239092102676931899131465809063"]) simp
  show "same_mod (30669764113903190525019673621186452561310012811730212691302466949682132105660 + 39471529557189836860058826487841429781340761288845943468618747970698615279953) 12245249052434929673293007604683928416015781767755874140192422916424182565664" by (rule cong_cert [of _ "1"]) simp
qed simp_all

lemma odd_base_sum_5: "edwards_sum (9451145793506787353375160377761530931587019091193333050860601958827395183563, 20609402718286069808115703540855311742885093522056241285814584245966805874451) (24727413235106541002554574571675588834622768167397638456726423682521233608206, 15549675580280190176352668710449542251549572066445060580507079593062643049417) (7442235066513780790779899786332475485840754593728627195931759107337804079085, 8529785864514984411577036536286432879603480171865651918962709025066066124672)"
proof (rule edwards_sum_check [of _ _ "14980201344168139239096952090747236809489943918441111821135166819811770972053" _ _ "40530214640583553323417811076674281727125935410020683054938954657707605882204" "12403671989286842433575992357264831529847132505728420164571586863353642167606" "39401460070013387312891163651564801670953213707982218393283189671500785029234" "39401460070013387312891163651564801670953213707982218393283189671500785029235" "20131218813956695663299769617495535820299723826781792366788265790679555306929" "- 39401460070013387312891163651564801670953213707982218393283189671500785029233" "36223956451863132738033407112531849025059007152367525016837815189647188801471" _ "15872896726639023516424862102278644050585275809409279586394685455594397488025" _ "55510415984751692562514763167421518536615879328461794876074121477519376854257"])
  show "same_mod (9451145793506787353375160377761530931587019091193333050860601958827395183563 * (24727413235106541002554574571675588834622768167397638456726423682521233608206)) (14980201344168139239096952090747236809489943918441111821135166819811770972053)" by (rule cong_cert [of _ "4036586421759911061921598706944881940732696592131598501888848002958458712825"]) simp
  show "same_mod (20609402718286069808115703540855311742885093522056241285814584245966805874451 * (15549675580280190176352668710449542251549572066445060580507079593062643049417)) (40530214640583553323417811076674281727125935410020683054938954657707605882204)" by (rule cong_cert [of _ "5535257689597256053294773264299714481693146139969948684309505484495364087787"]) simp
  show "same_mod (14980201344168139239096952090747236809489943918441111821135166819811770972053 * (40530214640583553323417811076674281727125935410020683054938954657707605882204)) (12403671989286842433575992357264831529847132505728420164571586863353642167606)" by (rule cong_cert [of _ "10486912876991722794409515624992879084109920141191277036591926642391086298094"]) simp
  show "same_mod (ed_d * (12403671989286842433575992357264831529847132505728420164571586863353642167606)) (39401460070013387312891163651564801670953213707982218393283189671500785029234)" unfolding ed_d_def by (rule cong_cert [of _ "7947399026226355776547404239562243699219446800947339387578929642897220054704"]) simp
  show "same_mod (39401460070013387312891163651564801670953213707982218393283189671500785029235 * (20131218813956695663299769617495535820299723826781792366788265790679555306929)) (1)" by (rule cong_cert [of _ "13700407678682654957254777992909019945124321567650551401746943782308858381386"]) simp
  show "same_mod (- 39401460070013387312891163651564801670953213707982218393283189671500785029233 * (36223956451863132738033407112531849025059007152367525016837815189647188801471)) (1)" by (rule cong_cert [of _ "- 24652405585165347390300451979664716634986510489413541688979273706133127245456"]) simp
  show "same_mod (7442235066513780790779899786332475485840754593728627195931759107337804079085 * (39401460070013387312891163651564801670953213707982218393283189671500785029235)) (15872896726639023516424862102278644050585275809409279586394685455594397488025)" by (rule cong_cert [of _ "5064852525528067700587028409505865751592360905533385245891769993233475910550"]) simp
  show "same_mod (8529785864514984411577036536286432879603480171865651918962709025066066124672 * (- 39401460070013387312891163651564801670953213707982218393283189671500785029233)) (55510415984751692562514763167421518536615879328461794876074121477519376854257)" by (rule cong_cert [of _ "- 5804990986174238405323029107441839482691466531557658185355143233028219383317"]) simp
  show "same_mod (9451145793506787353375160377761530931587019091193333050860601958827395183563 * 15549675580280190176352668710449542251549572066445060580507079593062643049417 + 20609402718286069808115703540855311742885093522056241285814584245966805874451 * 24727413235106541002554574571675588834622768167397638456726423682521233608206) 15872896726639023516424862102278644050585275809409279586394685455594397488025" by (rule cong_cert [of _ "11340661919469932828310079704009186685839560703168487821999312426212771222948"]) simp
  show "same_mod (40530214640583553323417811076674281727125935410020683054938954657707605882204 + 14980201344168139239096952090747236809489943918441111821135166819811770972053) 55510415984751692562514763167421518536615879328461794876074121477519376854257" by (rule cong_cert [of _ "0"]) simp
qed simp_all

lemma odd_base_sum_6: "edwards_sum (7442235066513780790779899786332475485840754593728627195931759107337804079085, 8529785864514984411577036536286432879603480171865651918962709025066066124672) (24727413235106541002554574571675588834622768167397638456726423682521233608206, 15549675580280190176352668710449542251549572066445060580507079593062643049417) (35771902585589234259498423420223840099331465042459337605611172842168536632769, 8502034780705657720897159939055122322178084209392286764802307224484658961631)"
proof (rule edwards_sum_check [of _ _ "38919509364173204966524514906699328588686310710353568878912568345721734308542" _ _ "19825164067779614078206114249232182759535213208898892830988794012221484831435" "34319297624379560845894772703016622542474881780285926576103609213095591097140" "45816845794232749498991608072953932466942116014606495453164585144074912777403" "45816845794232749498991608072953932466942116014606495453164585144074912777404" "33105960062627449769010434009774447103463185824684675009288372152149118322876" "- 45816845794232749498991608072953932466942116014606495453164585144074912777402" "1677192478102012764114690149702135592329374575953018343606435677942794128014" _ "52345474882183454637402053908966547624978157682823997393061930721292767231219" _ "848628813294721332945136651587557421586531586432179690172570353986654320028"])
  show "same_mod (7442235066513780790779899786332475485840754593728627195931759107337804079085 * (24727413235106541002554574571675588834622768167397638456726423682521233608206)) (38919509364173204966524514906699328588686310710353568878912568345721734308542)" by (rule cong_cert [of _ "3178580213805842815851282036490783082207594897576336962237670237303692305432"]) simp
  show "same_mod (8529785864514984411577036536286432879603480171865651918962709025066066124672 * (15549675580280190176352668710449542251549572066445060580507079593062643049417)) (19825164067779614078206114249232182759535213208898892830988794012221484831435)" by (rule cong_cert [of _ "2290923392713489987586226983216406500706998834692637638154562739667878077161"]) simp
  show "same_mod (38919509364173204966524514906699328588686310710353568878912568345721734308542 * (19825164067779614078206114249232182759535213208898892830988794012221484831435)) (34319297624379560845894772703016622542474881780285926576103609213095591097140)" by (rule cong_cert [of _ "13327087604419192653222692458902383321686738656975717041161420743210304585870"]) simp
  show "same_mod (ed_d * (34319297624379560845894772703016622542474881780285926576103609213095591097140)) (45816845794232749498991608072953932466942116014606495453164585144074912777403)" unfolding ed_d_def by (rule cong_cert [of _ "21989387719728672478274349498328709831001507480990493697829770488113908602053"]) simp
  show "same_mod (45816845794232749498991608072953932466942116014606495453164585144074912777404 * (33105960062627449769010434009774447103463185824684675009288372152149118322876)) (1)" by (rule cong_cert [of _ "26198865173780953903129777095461425910030558138136151206569398227082841008747"]) simp
  show "same_mod (- 45816845794232749498991608072953932466942116014606495453164585144074912777402 * (1677192478102012764114690149702135592329374575953018343606435677942794128014)) (1)" by (rule cong_cert [of _ "- 1327269758108530223958794253733143899250719950208308373231235471510829664321"]) simp
  show "same_mod (35771902585589234259498423420223840099331465042459337605611172842168536632769 * (45816845794232749498991608072953932466942116014606495453164585144074912777404)) (52345474882183454637402053908966547624978157682823997393061930721292767231219)" by (rule cong_cert [of _ "28308596128207231145721318538685982025362652538757453936639265933113812594893"]) simp
  show "same_mod (8502034780705657720897159939055122322178084209392286764802307224484658961631 * (- 45816845794232749498991608072953932466942116014606495453164585144074912777402)) (848628813294721332945136651587557421586531586432179690172570353986654320028)" by (rule cong_cert [of _ "- 6728204302220312255003807672134891790266411611788884637598582490664149176810"]) simp
  show "same_mod (7442235066513780790779899786332475485840754593728627195931759107337804079085 * 15549675580280190176352668710449542251549572066445060580507079593062643049417 + 8529785864514984411577036536286432879603480171865651918962709025066066124672 * 24727413235106541002554574571675588834622768167397638456726423682521233608206) 52345474882183454637402053908966547624978157682823997393061930721292767231219" by (rule cong_cert [of _ "5641903223385999442895694176319799809830967392932706455235396634852418907242"]) simp
  show "same_mod (19825164067779614078206114249232182759535213208898892830988794012221484831435 + 38919509364173204966524514906699328588686310710353568878912568345721734308542) 848628813294721332945136651587557421586531586432179690172570353986654320028" by (rule cong_cert [of _ "1"]) simp
qed simp_all

lemma precomp_check:
  assumes "limbs_within tight (yplusx q)" "limbs_within tight (yminusx q)" "limbs_within tight (xy2d q)"
    "same_mod (fe_val (yplusx q)) (y + x)" "same_mod (fe_val (yminusx q)) (y - x)" "same_mod (x * y) m" "same_mod (2 * ed_d * m) (fe_val (xy2d q))"
  shows "precomp_at q (x, y)"
proof -
  have "same_mod (fe_val (xy2d q)) (2 * ed_d * (x * y))"
    by (rule same_mod_sym) (rule same_mod_trans [OF same_mod_scale [OF assms(6)] assms(7)])
  then have "rep 1 (yplusx q) (y + x)" "rep 1 (yminusx q) (y - x)" "rep 1 (xy2d q) (2 * ed_d * (x * y))"
    using assms(1-5) limbs_within_tight unfolding rep_tight same_mod_def by blast+
  then show ?thesis using rep_mono [of 1 _ _ 2] by (simp add: precomp_at_def)
qed

lemma base2_point_0: "precomp_at (ge25519_base2 ! 0) (15112221349535400772501151409588531511454012693041857206046113283949847762202, 46316835694926478169428394003475163141307993866256225615783033603165251855960)"
proof (rule precomp_check [of _ _ _ "46827403850823179245072216630277197565144205554125654976674165829533817101731"])
  have v: "fe_val (yplusx (ge25519_base2 ! 0)) = 3533012425803781230144052908719740726127014226477800802100354883158534798213" "fe_val (yminusx (ge25519_base2 ! 0)) = - 26691430273267020314858249910457322296781011159605913609991871684741160726191" "fe_val (xy2d (ge25519_base2 ! 0)) = - 7658430290429433199253656808231786248588514975978872815715289361970058581381"
    unfolding fe_val_def ival_sum ge25519_base2_def by simp_all
  show "same_mod (fe_val (yplusx (ge25519_base2 ! 0))) (46316835694926478169428394003475163141307993866256225615783033603165251855960 + 15112221349535400772501151409588531511454012693041857206046113283949847762202)" unfolding v by (rule cong_cert [of _ "- 1"]) simp
  show "same_mod (fe_val (yminusx (ge25519_base2 ! 0))) (46316835694926478169428394003475163141307993866256225615783033603165251855960 - 15112221349535400772501151409588531511454012693041857206046113283949847762202)" unfolding v by (rule cong_cert [of _ "- 1"]) simp
  show "same_mod (15112221349535400772501151409588531511454012693041857206046113283949847762202 * 46316835694926478169428394003475163141307993866256225615783033603165251855960) 46827403850823179245072216630277197565144205554125654976674165829533817101731" by (rule cong_cert [of _ "12089777079628320618000921127670825209163210154433485764836890627159878209761"]) simp
  show "same_mod (2 * ed_d * 46827403850823179245072216630277197565144205554125654976674165829533817101731) (fe_val (xy2d (ge25519_base2 ! 0)))" unfolding v ed_d_def by (rule cong_cert [of _ "60007401693010716848578972718972579622751081550669298468045873082723336218259"]) simp
qed (use base2_entry [of 0] in \<open>simp_all add: entry_within_def\<close>)

lemma base2_point_1: "precomp_at (ge25519_base2 ! 1) (46896733464454938657123544595386787789046198280132665686241321779790909858396, 8324843778533443976490377120369201138301417226297555316741202210403726505172)"
proof (rule precomp_check [of _ _ _ "19133203167024340156157901305709655404499344800967978305064989153409356768282"])
  have v: "fe_val (yplusx (ge25519_base2 ! 1)) = - 2674467375669715078171570788587964999287376826390061016746268013761928456381" "fe_val (yminusx (ge25519_base2 ! 1)) = 19324154932736603031152325029326367275890211278985171650228672434569381466725" "fe_val (xy2d (ge25519_base2 ! 1)) = - 17116947377249126259557375896760539191404829378624049010295706104213611161444"
    unfolding fe_val_def ival_sum ge25519_base2_def by simp_all
  show "same_mod (fe_val (yplusx (ge25519_base2 ! 1))) (8324843778533443976490377120369201138301417226297555316741202210403726505172 + 46896733464454938657123544595386787789046198280132665686241321779790909858396)" unfolding v by (rule cong_cert [of _ "- 1"]) simp
  show "same_mod (fe_val (yminusx (ge25519_base2 ! 1))) (8324843778533443976490377120369201138301417226297555316741202210403726505172 - 46896733464454938657123544595386787789046198280132665686241321779790909858396)" unfolding v by (rule cong_cert [of _ "1"]) simp
  show "same_mod (46896733464454938657123544595386787789046198280132665686241321779790909858396 * 8324843778533443976490377120369201138301417226297555316741202210403726505172) 19133203167024340156157901305709655404499344800967978305064989153409356768282" by (rule cong_cert [of _ "6743258237874379575953832327795487793144750025096763998866812939822304010670"]) simp
  show "same_mod (2 * ed_d * 19133203167024340156157901305709655404499344800967978305064989153409356768282) (fe_val (xy2d (ge25519_base2 ! 1)))" unfolding v ed_d_def by (rule cong_cert [of _ "24518416860674016354171078136646165519664432527730980697505321609225690116736"]) simp
qed (use base2_entry [of 1] in \<open>simp_all add: entry_within_def\<close>)

lemma base2_point_2: "precomp_at (ge25519_base2 ! 2) (33467004535436536005251147249499675200073690106659565782908757308821616914995, 43097193783671926753355113395909008640284023746042808659097434958891230611693)"
proof (rule precomp_check [of _ _ _ "52631435118507418230927645098360784166288333741771923328027903523704223039952"])
  have v: "fe_val (yplusx (ge25519_base2 ! 2)) = 18668153700450365046820768141064729913722721519882092422277400263756282706739" "fe_val (yminusx (ge25519_base2 ! 2)) = 9630189248235390748103966146409333440210333639383242876188677650069613696698" "fe_val (xy2d (ge25519_base2 ! 2)) = - 27289405588673654262236781204217667191986561123886393674357247068389210684776"
    unfolding fe_val_def ival_sum ge25519_base2_def by simp_all
  show "same_mod (fe_val (yplusx (ge25519_base2 ! 2))) (43097193783671926753355113395909008640284023746042808659097434958891230611693 + 33467004535436536005251147249499675200073690106659565782908757308821616914995)" unfolding v by (rule cong_cert [of _ "- 1"]) simp
  show "same_mod (fe_val (yminusx (ge25519_base2 ! 2))) (43097193783671926753355113395909008640284023746042808659097434958891230611693 - 33467004535436536005251147249499675200073690106659565782908757308821616914995)" unfolding v by (rule cong_cert [of _ "0"]) simp
  show "same_mod (33467004535436536005251147249499675200073690106659565782908757308821616914995 * 43097193783671926753355113395909008640284023746042808659097434958891230611693) 52631435118507418230927645098360784166288333741771923328027903523704223039952" by (rule cong_cert [of _ "24912478724978669719436288467669755371092766181383718252439230274986184940067"]) simp
  show "same_mod (2 * ed_d * 52631435118507418230927645098360784166288333741771923328027903523704223039952) (fe_val (xy2d (ge25519_base2 ! 2)))" unfolding v ed_d_def by (rule cong_cert [of _ "67445030241205362027057100153579717089129371506252038910400855114664124851304"]) simp
qed (use base2_entry [of 2] in \<open>simp_all add: entry_within_def\<close>)

lemma base2_point_3: "precomp_at (ge25519_base2 ! 3) (9199134265559022971505535402808359556995554859516252602543778295037484220679, 22512087849695599276028560866629687720820254811233262850576678203618951717560)"
proof (rule precomp_check [of _ _ _ "7969306344939599448108779620249142998159244560978835759187616138611789393179"])
  have v: "fe_val (yplusx (ge25519_base2 ! 3)) = - 26184822503403475464251396234905906648819182662070766566608335505300128881710" "fe_val (yminusx (ge25519_base2 ! 3)) = 13312953584136576304523025463821328163824699951717010248032899908581467496881" "fe_val (xy2d (ge25519_base2 ! 3)) = - 2431657015584972697853056118816474425792590835962464619820990274753041747019"
    unfolding fe_val_def ival_sum ge25519_base2_def by simp_all
  show "same_mod (fe_val (yplusx (ge25519_base2 ! 3))) (22512087849695599276028560866629687720820254811233262850576678203618951717560 + 9199134265559022971505535402808359556995554859516252602543778295037484220679)" unfolding v by (rule cong_cert [of _ "- 1"]) simp
  show "same_mod (fe_val (yminusx (ge25519_base2 ! 3))) (22512087849695599276028560866629687720820254811233262850576678203618951717560 - 9199134265559022971505535402808359556995554859516252602543778295037484220679)" unfolding v by (rule cong_cert [of _ "0"]) simp
  show "same_mod (9199134265559022971505535402808359556995554859516252602543778295037484220679 * 22512087849695599276028560866629687720820254811233262850576678203618951717560) 7969306344939599448108779620249142998159244560978835759187616138611789393179" by (rule cong_cert [of _ "3576957978588238476811314794424929515154206407324990029083190680237458175489"]) simp
  show "same_mod (2 * ed_d * 7969306344939599448108779620249142998159244560978835759187616138611789393179) (fe_val (xy2d (ge25519_base2 ! 3)))" unfolding v ed_d_def by (rule cong_cert [of _ "10212339949036977873478538216042640383040519286425215616646731479385893218241"]) simp
qed (use base2_entry [of 3] in \<open>simp_all add: entry_within_def\<close>)

lemma base2_point_4: "precomp_at (ge25519_base2 ! 4) (24193060302538010417230488029838514081720802923509845138863968807030823940444, 57551756252899625001155759838357770487605224608455116862194664796369308545472)"
proof (rule precomp_check [of _ _ _ "41812410146810177838232618347187858057822209473536282119740688245908349056101"])
  have v: "fe_val (yplusx (ge25519_base2 ! 4)) = 23848771936779537706600755363852330642691035199144679981329841599443567665967" "fe_val (yminusx (ge25519_base2 ! 4)) = - 24537348668296483127860220695824697520750570647875010296398096014618080214921" "fe_val (xy2d (ge25519_base2 ! 4)) = - 5538278692233152133376739725259355329941280220717145056557503951635050287314"
    unfolding fe_val_def ival_sum ge25519_base2_def by simp_all
  show "same_mod (fe_val (yplusx (ge25519_base2 ! 4))) (57551756252899625001155759838357770487605224608455116862194664796369308545472 + 24193060302538010417230488029838514081720802923509845138863968807030823940444)" unfolding v by (rule cong_cert [of _ "- 1"]) simp
  show "same_mod (fe_val (yminusx (ge25519_base2 ! 4))) (57551756252899625001155759838357770487605224608455116862194664796369308545472 - 24193060302538010417230488029838514081720802923509845138863968807030823940444)" unfolding v by (rule cong_cert [of _ "- 1"]) simp
  show "same_mod (24193060302538010417230488029838514081720802923509845138863968807030823940444 * 57551756252899625001155759838357770487605224608455116862194664796369308545472) 41812410146810177838232618347187858057822209473536282119740688245908349056101" by (rule cong_cert [of _ "24049192284452839026368981968108426564614361617599417040661616562485502377383"]) simp
  show "same_mod (2 * ed_d * 41812410146810177838232618347187858057822209473536282119740688245908349056101) (fe_val (xy2d (ge25519_base2 ! 4)))" unfolding v ed_d_def by (rule cong_cert [of _ "53580892492472628563105941894284836764544414043521129529110603656071299305776"]) simp
qed (use base2_entry [of 4] in \<open>simp_all add: entry_within_def\<close>)

lemma base2_point_5: "precomp_at (ge25519_base2 ! 5) (9451145793506787353375160377761530931587019091193333050860601958827395183563, 20609402718286069808115703540855311742885093522056241285814584245966805874451)"
proof (rule precomp_check [of _ _ _ "41115672721981046446137450827132502570366877864937539642265045489017153122004"])
  have v: "fe_val (yplusx (ge25519_base2 ! 5)) = - 27835496106865240550294628585727111252162879719570707683053605799162363761935" "fe_val (yminusx (ge25519_base2 ! 5)) = 11158256924779282454740543163093780811298074430862908234953982287139410690888" "fe_val (xy2d (ge25519_base2 ! 5)) = 27941507066570052986778351271715755022397500567158991111890716087464763623913"
    unfolding fe_val_def ival_sum ge25519_base2_def by simp_all
  show "same_mod (fe_val (yplusx (ge25519_base2 ! 5))) (20609402718286069808115703540855311742885093522056241285814584245966805874451 + 9451145793506787353375160377761530931587019091193333050860601958827395183563)" unfolding v by (rule cong_cert [of _ "- 1"]) simp
  show "same_mod (fe_val (yminusx (ge25519_base2 ! 5))) (20609402718286069808115703540855311742885093522056241285814584245966805874451 - 9451145793506787353375160377761530931587019091193333050860601958827395183563)" unfolding v by (rule cong_cert [of _ "0"]) simp
  show "same_mod (9451145793506787353375160377761530931587019091193333050860601958827395183563 * 20609402718286069808115703540855311742885093522056241285814584245966805874451) 41115672721981046446137450827132502570366877864937539642265045489017153122004" by (rule cong_cert [of _ "3364348481672345450490071950188201941897672407967167034662012885099961841041"]) simp
  show "same_mod (2 * ed_d * 41115672721981046446137450827132502570366877864937539642265045489017153122004) (fe_val (xy2d (ge25519_base2 ! 5)))" unfolding v ed_d_def by (rule cong_cert [of _ "52688051995496399580961730955716703727794946229204640619610599856925224329323"]) simp
qed (use base2_entry [of 5] in \<open>simp_all add: entry_within_def\<close>)

lemma base2_point_6: "precomp_at (ge25519_base2 ! 6) (7442235066513780790779899786332475485840754593728627195931759107337804079085, 8529785864514984411577036536286432879603480171865651918962709025066066124672)"
proof (rule precomp_check [of _ _ _ "29471055441072170259805152731682457644447474860555123755684575143128358334291"])
  have v: "fe_val (yplusx (ge25519_base2 ! 6)) = 15972020931028765202356936322618908365444234765594279114894468132403870203757" "fe_val (yminusx (ge25519_base2 ! 6)) = 1087550798001203620797136749953957393762725578137024723030949917728262045587" "fe_val (xy2d (ge25519_base2 ! 6)) = - 24658731954444850638391282627992509015936355844633454421460281249029118057589"
    unfolding fe_val_def ival_sum ge25519_base2_def by simp_all
  show "same_mod (fe_val (yplusx (ge25519_base2 ! 6))) (8529785864514984411577036536286432879603480171865651918962709025066066124672 + 7442235066513780790779899786332475485840754593728627195931759107337804079085)" unfolding v by (rule cong_cert [of _ "0"]) simp
  show "same_mod (fe_val (yminusx (ge25519_base2 ! 6))) (8529785864514984411577036536286432879603480171865651918962709025066066124672 - 7442235066513780790779899786332475485840754593728627195931759107337804079085)" unfolding v by (rule cong_cert [of _ "0"]) simp
  show "same_mod (7442235066513780790779899786332475485840754593728627195931759107337804079085 * 8529785864514984411577036536286432879603480171865651918962709025066066124672) 29471055441072170259805152731682457644447474860555123755684575143128358334291" by (rule cong_cert [of _ "1096459557623892196493299667445616164183037679408002196057053966527443213121"]) simp
  show "same_mod (2 * ed_d * 29471055441072170259805152731682457644447474860555123755684575143128358334291) (fe_val (xy2d (ge25519_base2 ! 6)))" unfolding v ed_d_def by (rule cong_cert [of _ "37765951488645653388836826742036493115133281323534507132220851433967931450851"]) simp
qed (use base2_entry [of 6] in \<open>simp_all add: entry_within_def\<close>)

lemma base2_point_7: "precomp_at (ge25519_base2 ! 7) (35771902585589234259498423420223840099331465042459337605611172842168536632769, 8502034780705657720897159939055122322178084209392286764802307224484658961631)"
proof (rule precomp_check [of _ _ _ "42609173769455554086108030252596314253679554082059705507322920389417832202025"])
  have v: "fe_val (yplusx (ge25519_base2 ! 7)) = - 13622107252363205731389909145064991505125443080968657649315311937303369225549" "fe_val (yminusx (ge25519_base2 ! 7)) = - 27269867804883576538601263481168717777153380833067050840808865617683877671138" "fe_val (xy2d (ge25519_base2 ! 7)) = - 21206794958313804217892670850113670548490237750447414108551674528239769832151"
    unfolding fe_val_def ival_sum ge25519_base2_def by simp_all
  show "same_mod (fe_val (yplusx (ge25519_base2 ! 7))) (8502034780705657720897159939055122322178084209392286764802307224484658961631 + 35771902585589234259498423420223840099331465042459337605611172842168536632769)" unfolding v by (rule cong_cert [of _ "- 1"]) simp
  show "same_mod (fe_val (yminusx (ge25519_base2 ! 7))) (8502034780705657720897159939055122322178084209392286764802307224484658961631 - 35771902585589234259498423420223840099331465042459337605611172842168536632769)" unfolding v by (rule cong_cert [of _ "0"]) simp
  show "same_mod (35771902585589234259498423420223840099331465042459337605611172842168536632769 * 8502034780705657720897159939055122322178084209392286764802307224484658961631) 42609173769455554086108030252596314253679554082059705507322920389417832202025" by (rule cong_cert [of _ "5253104282994168183921517903901539759328624563151459270604398721148228361486"]) simp
  show "same_mod (2 * ed_d * 42609173769455554086108030252596314253679554082059705507322920389417832202025) (fe_val (xy2d (ge25519_base2 ! 7)))" unfolding v ed_d_def by (rule cong_cert [of _ "54601912468527077717399298051076647175802436810069606016855296614618169567649"]) simp
qed (use base2_entry [of 7] in \<open>simp_all add: entry_within_def\<close>)


lemma odd_base_points_at:
  "odd_base_points ! 0 = (15112221349535400772501151409588531511454012693041857206046113283949847762202, 46316835694926478169428394003475163141307993866256225615783033603165251855960)"
  "odd_base_points ! 1 = (46896733464454938657123544595386787789046198280132665686241321779790909858396, 8324843778533443976490377120369201138301417226297555316741202210403726505172)"
  "odd_base_points ! 2 = (33467004535436536005251147249499675200073690106659565782908757308821616914995, 43097193783671926753355113395909008640284023746042808659097434958891230611693)"
  "odd_base_points ! 3 = (9199134265559022971505535402808359556995554859516252602543778295037484220679, 22512087849695599276028560866629687720820254811233262850576678203618951717560)"
  "odd_base_points ! 4 = (24193060302538010417230488029838514081720802923509845138863968807030823940444, 57551756252899625001155759838357770487605224608455116862194664796369308545472)"
  "odd_base_points ! 5 = (9451145793506787353375160377761530931587019091193333050860601958827395183563, 20609402718286069808115703540855311742885093522056241285814584245966805874451)"
  "odd_base_points ! 6 = (7442235066513780790779899786332475485840754593728627195931759107337804079085, 8529785864514984411577036536286432879603480171865651918962709025066066124672)"
  "odd_base_points ! 7 = (35771902585589234259498423420223840099331465042459337605611172842168536632769, 8502034780705657720897159939055122322178084209392286764802307224484658961631)"
  by (simp_all add: odd_base_points_def)

text \<open>
  C32: the table with which signatures are verified holds \<open>B\<close>, \<open>3 * B\<close>, ..., \<open>15 * B\<close>, where \<open>B\<close> is the point of
  the curve whose second coordinate is 4/5: each entry stands for the point before it plus twice \<open>B\<close>.  All
  limbs of the table with which messages are signed are within the bounds of the arithmetic.
\<close>

theorem base2_odd_multiples:
  "list_all (list_all entry_within) ge25519_base \<and> on_curve ed_base \<and> same_mod (5 * snd ed_base) 4 \<and> edwards_sum ed_base ed_base ed_base_doubled \<and>
   odd_base_points ! 0 = ed_base \<and>
   list_all2 (\<lambda>P Q. edwards_sum P ed_base_doubled Q) (butlast odd_base_points) (tl odd_base_points) \<and>
   list_all2 precomp_at ge25519_base2 odd_base_points"
proof (intro conjI)
  show "list_all (list_all entry_within) ge25519_base" by (rule ge25519_base_within)
  show "on_curve ed_base" by (rule base_on_curve)
  show "same_mod (5 * snd ed_base) 4" by (simp add: ed_base_def same_mod_def p25519_def)
  show "edwards_sum ed_base ed_base ed_base_doubled" unfolding ed_base_def ed_base_doubled_def by (rule base_double)
  show "odd_base_points ! 0 = ed_base" by (simp add: odd_base_points_def ed_base_def)
  show "list_all2 (\<lambda>P Q. edwards_sum P ed_base_doubled Q) (butlast odd_base_points) (tl odd_base_points)"
    unfolding odd_base_points_def ed_base_doubled_def list.sel butlast.simps list.distinct if_False if_True list_all2_Cons list.rel_inject
    using odd_base_sum_0 odd_base_sum_1 odd_base_sum_2 odd_base_sum_3 odd_base_sum_4 odd_base_sum_5 odd_base_sum_6 by simp
  show "list_all2 precomp_at ge25519_base2 odd_base_points"
    unfolding list_all2_conv_all_nth
  proof (intro conjI allI impI)
    fix j
    assume "j < length ge25519_base2"
    then have "j < 8" by (simp add: ge25519_base2_def)
    from less_8_cases [OF this] show "precomp_at (ge25519_base2 ! j) (odd_base_points ! j)"
      by (elim disjE) (simp_all only: odd_base_points_at base2_point_0 base2_point_1 base2_point_2 base2_point_3 base2_point_4 base2_point_5 base2_point_6 base2_point_7)
  qed (simp add: ge25519_base2_def odd_base_points_def)
qed

end
