(* ===== verification/Ed25519.thy ===== *)
theory Ed25519
  imports Ge25519_Decode Ge25519_Base Sc25519_Correct Sha512 MFCrypto X25519
begin

text \<open>
  Ed25519 signatures (\<open>crypto_sign/ed25519/ref10\<close>: \<open>keypair.c\<close>, \<open>sign.c\<close>, \<open>open.c\<close>, and \<open>sign_ed25519.c\<close>), in
  the deterministic build without \<open>ED25519_COMPAT\<close>.  The hash states are locals the code does not
  initialise: their bytes are arguments.
\<close>

section \<open>Keys\<close>

definition crypto_sign_ed25519_seed_keypair :: "crypto_hash_sha512_state \<Rightarrow> bytes \<Rightarrow> bytes \<times> bytes" where
  "crypto_sign_ed25519_seed_keypair local seed =
    (let sk = clamp (crypto_hash_sha512 local (take 32 seed));
         A = ge25519_scalarmult_base (take 32 sk);
         pk = ge25519_p3_tobytes A
     in (pk, take 32 seed @ take 32 pk))"

text \<open>The seed is drawn with \<open>randombytes_buf\<close>.\<close>

definition crypto_sign_ed25519_keypair :: "crypto_hash_sha512_state \<Rightarrow> bytes \<Rightarrow> bytes \<times> bytes" where
  "crypto_sign_ed25519_keypair local rnd = crypto_sign_ed25519_seed_keypair local (take 32 rnd)"

definition crypto_sign_ed25519_sk_to_seed :: "bytes \<Rightarrow> bytes" where
  "crypto_sign_ed25519_sk_to_seed sk = take 32 sk"

definition crypto_sign_ed25519_sk_to_pk :: "bytes \<Rightarrow> bytes" where
  "crypto_sign_ed25519_sk_to_pk sk = take 32 (drop 32 sk)"

definition crypto_sign_ed25519_sk_to_curve25519 :: "crypto_hash_sha512_state \<Rightarrow> bytes \<Rightarrow> bytes" where
  "crypto_sign_ed25519_sk_to_curve25519 local sk = take 32 (clamp (crypto_hash_sha512 local (take 32 sk)))"

definition crypto_sign_ed25519_pk_to_curve25519 :: "bytes \<Rightarrow> bytes option" where
  "crypto_sign_ed25519_pk_to_curve25519 pk =
    (if ge25519_has_small_order pk then None
     else case ge25519_frombytes_negate_vartime pk of
       None \<Rightarrow> None
     | Some A \<Rightarrow>
         if ge25519_is_on_main_subgroup A = 0 then None
         else let one_minus_y = fe25519_sub fe25519_1 (p3_Y A);
                  x = fe25519_add fe25519_1 (p3_Y A);
                  one_minus_y = fe25519_invert one_minus_y;
                  x = fe25519_mul x one_minus_y
              in Some (fe25519_tobytes x))"

section \<open>Signing\<close>

text \<open>The characters of \<open>SigEd25519 no Ed25519 collisions\<close>, 1 and 0\<close>

definition DOM2PREFIX :: bytes where
  "DOM2PREFIX =
    [0x53, 0x69, 0x67, 0x45, 0x64, 0x32, 0x35, 0x35, 0x31, 0x39, 0x20,
     0x6e, 0x6f, 0x20,
     0x45, 0x64, 0x32, 0x35, 0x35, 0x31, 0x39, 0x20,
     0x63, 0x6f, 0x6c, 0x6c, 0x69, 0x73, 0x69, 0x6f, 0x6e, 0x73, 1, 0]"

definition ed25519_hinit :: "crypto_hash_sha512_state \<Rightarrow> bool \<Rightarrow> crypto_hash_sha512_state" where
  "ed25519_hinit local prehashed =
    (let hs = crypto_hash_sha512_init local
     in if prehashed then crypto_hash_sha512_update hs DOM2PREFIX else hs)"

text \<open>The status, the signature and its length\<close>

definition ed25519_sign_detached ::
    "crypto_hash_sha512_state \<Rightarrow> bytes \<Rightarrow> bytes \<Rightarrow> bool \<Rightarrow> i32 \<times> bytes \<times> u64" where
  "ed25519_sign_detached local m sk prehashed =
    (let hs = ed25519_hinit local prehashed;
         az = crypto_hash_sha512 local (take 32 sk);
         hs = crypto_hash_sha512_update hs (take 32 (drop 32 az));
         hs = crypto_hash_sha512_update hs m;
         nonce = crypto_hash_sha512_final hs;
         pk = take 32 (drop 32 sk);
         nonce = sc25519_reduce nonce;
         R = ge25519_scalarmult_base (take 32 nonce);
         sig = ge25519_p3_tobytes R @ pk;
         hs = ed25519_hinit local prehashed;
         hs = crypto_hash_sha512_update hs (take 64 sig);
         hs = crypto_hash_sha512_update hs m;
         hram = crypto_hash_sha512_final hs;
         hram = sc25519_reduce hram;
         az = clamp az;
         sig = write_at sig 32 (sc25519_muladd (take 32 hram) (take 32 az) (take 32 nonce))
     in (0, sig, 64))"

definition crypto_sign_ed25519_detached :: "crypto_hash_sha512_state \<Rightarrow> bytes \<Rightarrow> bytes \<Rightarrow> i32 \<times> bytes \<times> u64" where
  "crypto_sign_ed25519_detached local m sk = ed25519_sign_detached local m sk False"

text \<open>The signed message and its length\<close>

definition crypto_sign_ed25519 :: "crypto_hash_sha512_state \<Rightarrow> bytes \<Rightarrow> bytes \<Rightarrow> i32 \<times> bytes \<times> u64" where
  "crypto_sign_ed25519 local m sk =
    (let (ret, sig, siglen) = crypto_sign_ed25519_detached local m sk
     in if ret \<noteq> 0 \<or> siglen \<noteq> 64 then (-1, replicate (length m + 64) 0, 0)
        else (0, sig @ m, of_nat (length m) + siglen))"

section \<open>Verification\<close>

text \<open>
  \<open>rcheck == sig\<close> compares addresses: \<open>rcheck\<close> is a local array, so the term in the middle is 0.
\<close>

definition ed25519_verify_detached :: "crypto_hash_sha512_state \<Rightarrow> bytes \<Rightarrow> bytes \<Rightarrow> bytes \<Rightarrow> bool \<Rightarrow> i32" where
  "ed25519_verify_detached local sig m pk prehashed =
    (if sig ! 63 AND 240 \<noteq> 0 \<and> \<not> sc25519_is_canonical (take 32 (drop 32 sig)) then -1
     else if ge25519_has_small_order (take 32 sig) then -1
     else if ge25519_is_canonical pk = 0 \<or> ge25519_has_small_order pk then -1
     else case ge25519_frombytes_negate_vartime pk of
       None \<Rightarrow> -1
     | Some A \<Rightarrow>
         let hs = ed25519_hinit local prehashed;
             hs = crypto_hash_sha512_update hs (take 32 sig);
             hs = crypto_hash_sha512_update hs (take 32 pk);
             hs = crypto_hash_sha512_update hs m;
             h = crypto_hash_sha512_final hs;
             h = sc25519_reduce h;
             R = ge25519_double_scalarmult_vartime (take 32 h) A (take 32 (drop 32 sig));
             rcheck = ge25519_tobytes R
         in crypto_verify_32 rcheck sig OR (- 0) OR sodium_memcmp sig rcheck 32)"

definition crypto_sign_ed25519_verify_detached :: "crypto_hash_sha512_state \<Rightarrow> bytes \<Rightarrow> bytes \<Rightarrow> bytes \<Rightarrow> i32" where
  "crypto_sign_ed25519_verify_detached local sig m pk = ed25519_verify_detached local sig m pk False"

definition crypto_sign_ed25519_MESSAGEBYTES_MAX :: u64 where
  "crypto_sign_ed25519_MESSAGEBYTES_MAX = - 1 - 64"

text \<open>The message buffer and the length are \<open>None\<close> for null pointers.\<close>

definition crypto_sign_ed25519_open ::
    "crypto_hash_sha512_state \<Rightarrow> bytes option \<Rightarrow> u64 option \<Rightarrow> bytes \<Rightarrow> bytes \<Rightarrow> i32 \<times> bytes option \<times> u64 option" where
  "crypto_sign_ed25519_open local m mlen_p sm pk =
    (let smlen = of_nat (length sm) :: u64;
         badsig = map_option (\<lambda>_. 0) mlen_p
     in if smlen < 64 \<or> crypto_sign_ed25519_MESSAGEBYTES_MAX < smlen - 64 then (-1, m, badsig)
        else let mlen = smlen - 64 in
          if crypto_sign_ed25519_verify_detached local (take 64 sm) (take (unat mlen) (drop 64 sm)) pk \<noteq> 0
          then (-1, map_option (\<lambda>m. write_at m 0 (replicate (unat mlen) 0)) m, badsig)
          else (0, map_option (\<lambda>m. write_at m 0 (take (unat mlen) (drop 64 sm))) m, map_option (\<lambda>_. mlen) mlen_p))"

section \<open>Signatures of a message given in pieces\<close>

definition crypto_sign_ed25519ph_init :: "crypto_hash_sha512_state \<Rightarrow> crypto_hash_sha512_state" where
  "crypto_sign_ed25519ph_init state = crypto_hash_sha512_init state"

definition crypto_sign_ed25519ph_update :: "crypto_hash_sha512_state \<Rightarrow> bytes \<Rightarrow> crypto_hash_sha512_state" where
  "crypto_sign_ed25519ph_update state m = crypto_hash_sha512_update state m"

definition crypto_sign_ed25519ph_final_create :: "crypto_hash_sha512_state \<Rightarrow> crypto_hash_sha512_state \<Rightarrow> bytes \<Rightarrow> i32 \<times> bytes \<times> u64" where
  "crypto_sign_ed25519ph_final_create local state sk =
    (let ph = crypto_hash_sha512_final state in ed25519_sign_detached local ph sk True)"

definition crypto_sign_ed25519ph_final_verify :: "crypto_hash_sha512_state \<Rightarrow> crypto_hash_sha512_state \<Rightarrow> bytes \<Rightarrow> bytes \<Rightarrow> i32" where
  "crypto_sign_ed25519ph_final_verify local state sig pk =
    (let ph = crypto_hash_sha512_final state in ed25519_verify_detached local sig ph pk True)"

section \<open>The messenger's signer\<close>

definition ed25519_signer :: "crypto_hash_sha512_state \<Rightarrow> signer" where
  "ed25519_signer local =
     \<lparr>sg_seed_keypair = crypto_sign_ed25519_seed_keypair local,
      sg_sign_detached = (\<lambda>sk m. let (ret, sig, siglen) = crypto_sign_ed25519_detached local m sk
         in if ret = 0 then Inr sig else Inl (Ret ret)),
      sg_verify_detached = (\<lambda>pk sig m. crypto_sign_ed25519_verify_detached local sig m pk)\<rparr>"

section \<open>The curve of the boxes\<close>

text \<open>
  \<open>x25519_ref10.c\<close>: the multiple of the base point of X25519, by way of the Edwards curve, and the portable
  implementation the boxes use.
\<close>

definition edwards_to_montgomery :: "fe25519 \<Rightarrow> fe25519 \<Rightarrow> fe25519" where
  "edwards_to_montgomery edwardsY edwardsZ =
    (let tempX = fe25519_add edwardsZ edwardsY;
         tempZ = fe25519_sub edwardsZ edwardsY;
         tempZ = fe25519_invert tempZ
     in fe25519_mul tempX tempZ)"

definition crypto_scalarmult_curve25519_ref10_base :: "bytes \<Rightarrow> bytes result" where
  "crypto_scalarmult_curve25519_ref10_base n =
    (let t = clamp (take 32 n);
         A = ge25519_scalarmult_base t;
         pk = edwards_to_montgomery (p3_Y A) (p3_Z A)
     in Inr (fe25519_tobytes pk))"

definition curve25519_implementation :: curve where
  "curve25519_implementation = \<lparr>cv_mult = crypto_scalarmult_curve25519_ref10, cv_mult_base = crypto_scalarmult_curve25519_ref10_base\<rparr>"

end
