(* ===== verification/Ed25519_Correct.thy ===== *)
theory Ed25519_Correct
  imports Ed25519
begin

text \<open>
  What the Ed25519 functions do: which keys are canonical and of small order, when a signature is
  accepted, what is signed, and how signing and opening fit together.
\<close>

section \<open>Hashing\<close>

definition dom_prefix :: "bool \<Rightarrow> bytes" where
  "dom_prefix prehashed = (if prehashed then DOM2PREFIX else [])"

lemma hinit_repr: "length (sha512_buf local) = 128 \<Longrightarrow> sha512_repr (ed25519_hinit local prehashed) (dom_prefix prehashed)"
  using sha512_repr_update [OF sha512_repr_init, of local DOM2PREFIX] sha512_repr_init [of local]
  by (simp add: ed25519_hinit_def dom_prefix_def DOM2PREFIX_def)

lemma hash_two:
  assumes "length (sha512_buf local) = 128" "length a < 2 ^ 64" "length b < 2 ^ 64"
  shows "crypto_hash_sha512_final (crypto_hash_sha512_update (crypto_hash_sha512_update (ed25519_hinit local prehashed) a) b) =
    sha512_digest (dom_prefix prehashed @ a @ b)"
  using sha512_repr_final [OF sha512_repr_update [OF sha512_repr_update [OF hinit_repr]]] assms by simp

lemma hash_three:
  assumes "length (sha512_buf local) = 128" "length a < 2 ^ 64" "length b < 2 ^ 64" "length c < 2 ^ 64"
  shows "crypto_hash_sha512_final (crypto_hash_sha512_update (crypto_hash_sha512_update (crypto_hash_sha512_update (ed25519_hinit local prehashed) a) b) c) =
    sha512_digest (dom_prefix prehashed @ a @ b @ c)"
  using sha512_repr_final [OF sha512_repr_update [OF sha512_repr_update [OF sha512_repr_update [OF hinit_repr]]]] assms by simp

section \<open>Canonical keys\<close>

lemma all_bytes: "(\<forall>b :: u8. Q b) \<longleftrightarrow> list_all (\<lambda>n. Q (word_of_nat n)) [0..<256]"
proof
  assume r: "list_all (\<lambda>n. Q (word_of_nat n)) [0..<256]"
  show "\<forall>b :: u8. Q b"
  proof
    fix b :: u8
    have "unat b < 256" "0 \<le> unat b" by simp_all
    then have "unat b \<in> set [0..<256]" by (simp only: set_upt atLeastLessThan_iff)
    then have "Q (word_of_nat (unat b))" using r unfolding list_all_iff by blast
    then show "Q b" by simp
  qed
qed (simp add: list_all_iff)

lemma first_byte_check: "\<forall>b :: u8. bit (drop_bit 8 (0xed - 1 - ucast b :: u32)) 0 = (236 < unat b)"
  unfolding all_bytes by code_simp

lemma top_byte_check: "\<forall>b :: u8. ((b AND 0x7f) XOR 0x7f = 0) = (unat b mod 128 = 127)"
  unfolding all_bytes by code_simp

lemma fold_or_zero: "fold (\<lambda>i c. c OR g i) is c = (0 :: 'a::len word) \<longleftrightarrow> c = 0 \<and> (\<forall>i\<in>set is. g i = 0)" for "is" g c
  by (induction "is" arbitrary: c) (auto simp: or_eq_0_iff)

lemma max_digits:
  assumes "a < 256" "b < B" "c < 128" "K = 128 * B" "0 < B"
  shows "256 * K - 19 \<le> a + 256 * (b + B * c) \<longleftrightarrow> 236 < a \<and> b = B - 1 \<and> c = (127 :: nat)"
proof -
  have "B * c \<le> B * 127" using assms(3) by (intro mult_le_mono) simp_all
  then have T: "b + B * c < K" using assms(2,4) by linarith
  have "256 * K - 19 \<le> a + 256 * t \<longleftrightarrow> 236 < a \<and> t = K - 1" if "t < K" for t
    using that assms(1) by (cases "Suc t = K") auto
  from this [OF T] have "256 * K - 19 \<le> a + 256 * (b + B * c) \<longleftrightarrow> 236 < a \<and> b + B * c = K - 1" .
  also have "b + B * c = K - 1 \<longleftrightarrow> b = B - 1 \<and> c = 127"
  proof
    assume e: "b + B * c = K - 1"
    have "c = 127"
    proof (rule ccontr)
      assume "c \<noteq> 127"
      then have "B * c \<le> B * 126" using assms(3) by (intro mult_le_mono) simp_all
      then show False using e assms(2,4,5) by linarith
    qed
    then show "b = B - 1 \<and> c = 127" using e assms(2,4,5) by simp
  qed (use assms(2,4) in auto)
  finally show ?thesis .
qed

lemma le_val_max: "le_val bs = 256 ^ length bs - 1 \<longleftrightarrow> (\<forall>b\<in>set bs. b = - 1)"
proof -
  have m: "le_val (replicate n (- 1)) = 256 ^ n - 1" for n
    by (induction n) (auto simp: unsigned_minus_1_eq_mask mask_eq_exp_minus_1 diff_mult_distrib2)
  have "le_val bs = 256 ^ length bs - 1 \<longleftrightarrow> bs = replicate (length bs) (- 1)"
    using le_val_inj [of bs "replicate (length bs) (- 1)"] m [of "length bs"] by auto
  also have "\<dots> \<longleftrightarrow> (\<forall>b\<in>set bs. b = - 1)" by (auto simp: list_eq_iff_nth_eq all_set_conv_all_nth)
  finally show ?thesis .
qed

lemma ge25519_is_canonical_less:
  assumes "length s = 32"
  shows "ge25519_is_canonical s = of_bool (int (le_val s) mod 2 ^ 255 < p25519)"
proof -
  obtain a where a: "s = s ! 0 # drop 1 s" "length (drop 1 s) = 31" using assms by (cases s) auto
  define b where "b = take 30 (drop 1 s)"
  have d: "drop 1 s = b @ [s ! 31]" using assms take_Suc_conv_app_nth [of 30 "drop 1 s"] by (simp add: b_def)
  have lb: "length b = 30" using assms by (simp add: b_def)
  have bi: "b ! i = s ! Suc i" if "i < 30" for i using that assms by (simp add: b_def)
  let ?c = "fold (\<lambda>i c. c OR (s ! i XOR 0xff)) (rev [1..<31]) ((s ! 31 AND 0x7f) XOR 0x7f)"
  have "?c = 0 \<longleftrightarrow> unat (s ! 31) mod 128 = 127 \<and> (\<forall>i\<in>{1..<31}. s ! i = - 1)"
  proof -
    have "(255 :: u8) = - 1" by simp
    then show ?thesis using spec [OF top_byte_check, of "s ! 31"] by (simp only: fold_or_zero xor_eq_0 set_rev set_upt)
  qed
  also have "(\<forall>i\<in>{1..<31}. s ! i = - 1) \<longleftrightarrow> (\<forall>x\<in>set b. x = - 1)"
  proof -
    have "(\<forall>i\<in>{1..<31}. s ! i = - 1) \<longleftrightarrow> (\<forall>i<30. s ! Suc i = - 1)" by (auto simp: Ball_def gr0_conv_Suc Suc_le_eq)
    then show ?thesis unfolding all_set_conv_all_nth lb using bi by simp
  qed
  finally have c: "?c = 0 \<longleftrightarrow> unat (s ! 31) mod 128 = 127 \<and> le_val b = 256 ^ 30 - 1" unfolding le_val_max [of b, unfolded lb, symmetric] .
  have m: "unat (s ! 31 AND 0x7f) = unat (s ! 31) mod 128"
  proof -
    have "(0x7f :: u8) = mask 7" by (simp add: mask_eq_exp_minus_1)
    then have "s ! 31 AND 0x7f = take_bit 7 (s ! 31)" by (simp only: take_bit_eq_mask)
    then show ?thesis by (simp only: unsigned_take_bit_eq) (simp add: take_bit_eq_mod)
  qed
  have v: "le_val s mod 2 ^ 255 = unat (s ! 0) + 256 * (le_val b + 256 ^ 30 * (unat (s ! 31) mod 128))"
  proof -
    have "s = s ! 0 # b @ [s ! 31]" using a(1) unfolding d .
    then have "s[31 := s ! 31 AND 0x7f] = (s ! 0 # b @ [s ! 31])[31 := s ! 31 AND 0x7f]" by (rule arg_cong)
    also have "\<dots> = s ! 0 # b @ [s ! 31 AND 0x7f]" using lb by (simp add: list_update_append)
    finally show ?thesis unfolding masked_value [OF assms, symmetric] using m by (simp add: le_val_append lb)
  qed
  have l: "256 * 2 ^ 247 = (2 :: nat) ^ 255" "(2 :: nat) ^ 247 = 128 * 256 ^ 30" by simp_all
  have "2 ^ 255 - 19 \<le> le_val s mod 2 ^ 255 \<longleftrightarrow> 236 < unat (s ! 0) \<and> le_val b = 256 ^ 30 - 1 \<and> unat (s ! 31) mod 128 = 127"
    unfolding v unfolding l(1) [symmetric] using le_val_less [of b] lb by (intro max_digits l(2)) simp_all
  moreover have "int (le_val s) mod 2 ^ 255 < p25519 \<longleftrightarrow> \<not> 2 ^ 255 - 19 \<le> le_val s mod 2 ^ 255"
  proof -
    have z: "int (le_val s) mod 2 ^ 255 = int (le_val s mod 2 ^ 255)" by (simp only: of_nat_mod of_nat_power of_nat_numeral)
    have p: "p25519 = int (2 ^ 255 - 19)" by (simp add: prime_value)
    show ?thesis unfolding z p of_nat_less_iff not_le ..
  qed
  ultimately have r: "int (le_val s) mod 2 ^ 255 < p25519 \<longleftrightarrow> \<not> (?c = 0 \<and> 236 < unat (s ! 0))" using c by auto
  have "ge25519_is_canonical s = 1 - of_bool (?c = 0 \<and> 236 < unat (s ! 0))"
  proof -
    have "ucast (ucast (drop_bit 8 x :: u32) AND ucast y AND 1 :: u8) = (of_bool (bit x 8 \<and> bit y 0) :: i32)" for x y :: u32
      by (rule bit_word_eqI) (auto simp: bit_simps bit_1_iff)
    then show ?thesis unfolding ge25519_is_canonical_def Let_def using bit_8_of_pred [of ?c] spec [OF first_byte_check, of "s ! 0"] by simp
  qed
  then show ?thesis unfolding r by simp
qed

section \<open>Keys of small order\<close>

text \<open>The second coordinates of the points whose order divides 8\<close>

definition small_order_ys :: "int list" where
  "small_order_ys =
    [0, 1, 2707385501144840649318225287225658788936804267575313519463743609750303402022,
     55188659117513257062467267217118295137698188065244968500265048394206261417927, p25519 - 1]"

lemma ge25519_blocklist_values: "map le_val ge25519_blocklist =
  [0, 1, 2707385501144840649318225287225658788936804267575313519463743609750303402022,
   55188659117513257062467267217118295137698188065244968500265048394206261417927,
   57896044618658097711785492504343953926634992332820282019728792003956564819948,
   57896044618658097711785492504343953926634992332820282019728792003956564819949,
   57896044618658097711785492504343953926634992332820282019728792003956564819950]"
  by (simp add: ge25519_blocklist_def)

lemma small_order_y_residue:
  assumes "v < 2 ^ 255"
  shows "v \<in> set (map le_val ge25519_blocklist) \<longleftrightarrow> int v mod p25519 \<in> set small_order_ys"
proof (cases "v < 57896044618658097711785492504343953926634992332820282019728792003956564819949")
  case True
  then have "int v mod p25519 = int v" unfolding prime_value by simp
  then show ?thesis using True unfolding ge25519_blocklist_values small_order_ys_def prime_value by (simp only: set_simps insert_iff empty_iff) simp
next
  case False
  then obtain d where d: "v = 57896044618658097711785492504343953926634992332820282019728792003956564819949 + d" by (metis le_Suc_ex linorder_not_less)
  then have "d < 19" using assms by simp
  then have m: "int v mod p25519 = int d" unfolding d prime_value by simp
  have "v \<in> set (map le_val ge25519_blocklist) \<longleftrightarrow> d = 0 \<or> d = 1" unfolding ge25519_blocklist_values d by auto
  moreover have "int d \<in> set small_order_ys \<longleftrightarrow> d = 0 \<or> d = 1"
    unfolding small_order_ys_def prime_value using \<open>d < 19\<close> by auto
  ultimately show ?thesis unfolding m by simp
qed

lemma int_mod_255: "int n mod 2 ^ 255 = int (n mod 2 ^ 255)"
  by (simp only: of_nat_mod of_nat_power of_nat_numeral)

lemma ge25519_has_small_order_y:
  assumes "length s = 32"
  shows "ge25519_has_small_order s \<longleftrightarrow> int (le_val s) mod 2 ^ 255 mod p25519 \<in> set small_order_ys"
proof -
  have "b \<in> set ge25519_blocklist \<Longrightarrow> length b = 32" for b by (auto simp: ge25519_blocklist_def)
  from blocklisted_value [OF assms this] show ?thesis
    unfolding ge25519_has_small_order_def int_mod_255 using small_order_y_residue [of "le_val s mod 2 ^ 255"] by simp
qed

section \<open>Verification\<close>

text \<open>
  The condition under which a signature of 64 bytes, \<open>R\<close> and \<open>S\<close>, is accepted: \<open>S\<close> is below \<open>L\<close>, the key's
  coordinate is below the prime, neither \<open>R\<close> nor the key has small order, and \<open>R\<close> is the encoding of
  \<open>S * B - h * A\<close> for the key's point \<open>A\<close> and the hash \<open>h\<close> of \<open>R\<close>, the key and the message.
\<close>

definition challenge :: "bool \<Rightarrow> bytes \<Rightarrow> bytes \<Rightarrow> bytes \<Rightarrow> bytes" where
  "challenge prehashed R pk m = take 32 (sc25519_reduce (sha512_digest (dom_prefix prehashed @ R @ pk @ m)))"

definition ed25519_accepts :: "bool \<Rightarrow> bytes \<Rightarrow> bytes \<Rightarrow> bytes \<Rightarrow> bool" where
  "ed25519_accepts prehashed sig m pk \<longleftrightarrow>
     int (le_val (drop 32 sig)) < order \<and> int (le_val pk) mod 2 ^ 255 < p25519 \<and>
     int (le_val (take 32 sig)) mod 2 ^ 255 mod p25519 \<notin> set small_order_ys \<and>
     int (le_val pk) mod 2 ^ 255 mod p25519 \<notin> set small_order_ys \<and>
     (\<exists>A. ge25519_frombytes_negate_vartime pk = Some A \<and>
       ge25519_tobytes (ge25519_double_scalarmult_vartime (challenge prehashed (take 32 sig) pk m) A (drop 32 sig)) = take 32 sig)"

lemma high_bits_clear:
  assumes "length s = 32" "s ! 31 AND 240 = 0"
  shows "int (le_val s) < order"
proof -
  have "\<forall>b :: u8. b AND 240 = 0 \<longrightarrow> unat b < 16" unfolding all_bytes by code_simp
  then have u: "unat (s ! 31) < 16" using assms(2) by blast
  have "le_val s = le_val (take 31 s) + 256 ^ 31 * unat (s ! 31)"
    using le_val_append [of "take 31 s" "[s ! 31]"] take_Suc_conv_app_nth [of 31 s] assms(1) by simp
  moreover have "le_val (take 31 s) < 256 ^ 31" using le_val_less [of "take 31 s"] assms(1) by simp
  ultimately have "le_val s < 256 ^ 31 * 16" using u by simp
  then have "int (le_val s) < 2 ^ 252" by simp
  then show ?thesis by (simp add: order_def)
qed

lemma length_ge25519_tobytes [simp]: "length (ge25519_tobytes h) = 32" "length (ge25519_p3_tobytes p) = 32"
  by (simp_all add: ge25519_tobytes_def ge25519_p3_tobytes_def ge25519_encode_def fe25519_tobytes_def Let_def)

lemma take_32_eq: "length x = 32 \<Longrightarrow> 32 \<le> length y \<Longrightarrow> (\<forall>i<32. x ! i = y ! i) \<longleftrightarrow> x = take 32 y"
  by (auto simp: list_eq_iff_nth_eq)

lemma ed25519_verify_eq:
  assumes "length (sha512_buf local) = 128" "length sig = 64" "length pk = 32" "length m < 2 ^ 64"
  shows "ed25519_verify_detached local sig m pk prehashed = (if ed25519_accepts prehashed sig m pk then 0 else - 1)"
proof -
  have l: "length (take 32 sig) = 32" "length (drop 32 sig) = 32" "take 32 (drop 32 sig) = drop 32 sig" "take 32 pk = pk" using assms(2,3) by simp_all
  have S: "sig ! 63 AND 240 \<noteq> 0 \<and> \<not> sc25519_is_canonical (drop 32 sig) \<longleftrightarrow> \<not> int (le_val (drop 32 sig)) < order"
    using sc25519_is_canonical_less [OF l(2)] high_bits_clear [OF l(2)] assms(2) by auto
  have h: "crypto_hash_sha512_final (crypto_hash_sha512_update (crypto_hash_sha512_update (crypto_hash_sha512_update
      (ed25519_hinit local prehashed) (take 32 sig)) pk) m) = sha512_digest (dom_prefix prehashed @ take 32 sig @ pk @ m)"
    using hash_three [OF assms(1)] assms(2-4) by simp
  have c: "crypto_verify_32 x sig OR (- 0) OR sodium_memcmp sig x 32 = (if x = take 32 sig then 0 else - 1)" if "length x = 32" for x
    using take_32_eq [of x sig] that assms(2) by (auto simp: crypto_verify_32_def crypto_verify_n_eq sodium_memcmp_eq)
  show ?thesis
    unfolding ed25519_verify_detached_def l(3,4) S ge25519_is_canonical_less [OF assms(3)] ge25519_has_small_order_y [OF l(1)]
      ge25519_has_small_order_y [OF assms(3)] Let_def h c [OF length_ge25519_tobytes(1)]
    by (auto simp: ed25519_accepts_def challenge_def split: option.split)
qed

section \<open>Signing\<close>

text \<open>The secret scalar and the nonce of a signature\<close>

definition secret_scalar :: "bytes \<Rightarrow> bytes" where
  "secret_scalar sk = take 32 (clamp (sha512_digest (take 32 sk)))"

definition sign_nonce :: "bool \<Rightarrow> bytes \<Rightarrow> bytes \<Rightarrow> bytes" where
  "sign_nonce prehashed m sk = take 32 (sc25519_reduce (sha512_digest (dom_prefix prehashed @ drop 32 (sha512_digest (take 32 sk)) @ m)))"

lemma ed25519_sign_eq:
  assumes "length (sha512_buf local) = 128" "length sk = 64" "length m < 2 ^ 64"
  shows "ed25519_sign_detached local m sk prehashed =
    (let R = ge25519_p3_tobytes (ge25519_scalarmult_base (sign_nonce prehashed m sk))
     in (0, R @ sc25519_muladd (challenge prehashed R (drop 32 sk) m) (secret_scalar sk) (sign_nonce prehashed m sk), 64))"
proof -
  have l: "take 32 (drop 32 (sha512_digest x)) = drop 32 (sha512_digest x)" "take 32 (drop 32 sk) = drop 32 sk" for x using assms(2) by simp_all
  have az: "crypto_hash_sha512 local (take 32 sk) = sha512_digest (take 32 sk)" by (rule crypto_hash_sha512_digest [OF assms(1)]) simp
  have h1: "crypto_hash_sha512_final (crypto_hash_sha512_update (crypto_hash_sha512_update (ed25519_hinit local prehashed)
      (drop 32 (sha512_digest (take 32 sk)))) m) = sha512_digest (dom_prefix prehashed @ drop 32 (sha512_digest (take 32 sk)) @ m)"
    by (rule hash_two [OF assms(1) _ assms(3)]) simp
  have h2: "crypto_hash_sha512_final (crypto_hash_sha512_update (crypto_hash_sha512_update (ed25519_hinit local prehashed)
      (take 64 (R @ drop 32 sk))) m) = sha512_digest (dom_prefix prehashed @ R @ drop 32 sk @ m)" if "length R = 32" for R
    using hash_two [OF assms(1) _ assms(3), of "R @ drop 32 sk"] that assms(2) by simp
  show ?thesis unfolding ed25519_sign_detached_def Let_def az l h1 h2 [OF length_ge25519_tobytes(2)]
    using assms(2) by (simp add: write_at_def challenge_def secret_scalar_def sign_nonce_def)
qed

lemma length_challenge [simp]: "length (challenge ph R pk m) = 32" "length (secret_scalar sk) = 32" "length (sign_nonce ph m sk) = 32"
  by (simp_all add: challenge_def secret_scalar_def sign_nonce_def sc25519_reduce_def)

section \<open>Properties\<close>

text \<open>A hash state whose bytes nobody has set, for the instances\<close>

definition demo_hash_state :: crypto_hash_sha512_state where
  "demo_hash_state = \<lparr>sha512_state = [], sha512_count0 = 5, sha512_count1 = 6, sha512_buf = replicate 128 7\<rparr>"

lemma demo_hash_state_ok: "length (sha512_buf demo_hash_state) = 128"
  by (simp add: demo_hash_state_def)





lemma unat_small: "n < 2 ^ 64 \<Longrightarrow> unat (of_nat n :: u64) = n"
  by (simp add: unsigned_of_nat take_bit_nat_eq_self)

lemma length_plus_64: "n < 2 ^ 64 - 64 \<Longrightarrow> unat (of_nat n + 64 :: u64) = n + 64 \<and> unat (of_nat n :: u64) = n"
  using unat_small [of "n + 64"] unat_small [of n] by simp

text \<open>
  C27: \<open>crypto_sign_ed25519_open\<close> gives back the message that \<open>crypto_sign_ed25519\<close> signed, with its length, exactly when
  its signature is accepted under the key; otherwise it clears as many bytes of the buffer and reports
  the length 0.  Below 64 bytes nothing is read and the buffer is left alone.
\<close>

theorem crypto_sign_ed25519_roundtrip:
  assumes "length (sha512_buf local) = 128" "length sk = 64" "length pk = 32" "length m < 2 ^ 64 - 64"
    "crypto_sign_ed25519 local m sk = (ret, sm, smlen)" "length short < 64"
  shows "ret = 0 \<and> smlen = of_nat (length sm) \<and> length sm = length m + 64 \<and>
    crypto_sign_ed25519_open local (Some buf) (Some n) sm pk =
      (if ed25519_accepts False (take 64 sm) m pk then (0, Some (write_at buf 0 m), Some (of_nat (length m)))
       else (- 1, Some (write_at buf 0 (replicate (length m) 0)), Some 0)) \<and>
    crypto_sign_ed25519_open local (Some buf) (Some n) short pk = (- 1, Some buf, Some 0)"
proof (intro conjI)
  have lm: "length m < 2 ^ 64" using assms(4) by linarith
  obtain sig where g: "ed25519_sign_detached local m sk False = (0, sig, 64)" "length sig = 64"
    unfolding ed25519_sign_eq [OF assms(1,2) lm] Let_def by (simp add: prod_eq_iff)
  then have c: "ret = 0" "sm = sig @ m" "smlen = of_nat (length m) + 64"
    using assms(5) by (simp_all add: crypto_sign_ed25519_def crypto_sign_ed25519_detached_def)
  show "ret = 0" "smlen = of_nat (length sm)" "length sm = length m + 64" using c g(2) by simp_all
  have o: "of_nat (length sm) = (of_nat (length m) + 64 :: u64)" using c g(2) by simp
  have u: "unat (of_nat (length m) + 64 :: u64) = length m + 64" "unat (of_nat (length m) :: u64) = length m"
    using length_plus_64 [OF assms(4)] by blast+
  have ok: "\<not> (of_nat (length m) + 64 :: u64) < 64" "\<not> crypto_sign_ed25519_MESSAGEBYTES_MAX < of_nat (length m)"
    unfolding word_less_nat_alt u crypto_sign_ed25519_MESSAGEBYTES_MAX_def using assms(4) by simp_all
  have v: "crypto_sign_ed25519_verify_detached local sig m pk = (if ed25519_accepts False sig m pk then 0 else - 1)"
    unfolding crypto_sign_ed25519_verify_detached_def by (rule ed25519_verify_eq [OF assms(1) g(2) assms(3) lm])
  show "crypto_sign_ed25519_open local (Some buf) (Some n) sm pk =
      (if ed25519_accepts False (take 64 sm) m pk then (0, Some (write_at buf 0 m), Some (of_nat (length m)))
       else (- 1, Some (write_at buf 0 (replicate (length m) 0)), Some 0))"
    unfolding crypto_sign_ed25519_open_def o Let_def using ok g(2) by (simp add: c(2) u v)
  have "unat (of_nat (length short) :: u64) = length short" using assms(6) by (intro unat_small) simp
  then have "(of_nat (length short) :: u64) < 64" unfolding word_less_nat_alt using assms(6) by simp
  then show "crypto_sign_ed25519_open local (Some buf) (Some n) short pk = (- 1, Some buf, Some 0)"
    by (simp add: crypto_sign_ed25519_open_def)
qed

theorem crypto_sign_ed25519_roundtrip_witness:
  "\<exists>sm. length sm = 67 \<and> fst (crypto_sign_ed25519_open demo_hash_state
     (Some []) (Some 9) sm (replicate 32 5)) = (if ed25519_accepts False (take 64 sm) [1, 2, 3] (replicate 32 5) then 0 else - 1)"
proof -
  obtain ret sm smlen where s: "crypto_sign_ed25519 demo_hash_state [1, 2, 3] (replicate 64 1) = (ret, sm, smlen)" by (metis prod_cases3)
  have "length (replicate 64 1 :: bytes) = 64" "length (replicate 32 5 :: bytes) = 32"
    "length [1, 2, 3 :: u8] < 2 ^ 64 - 64" "length ([] :: bytes) < 64" by simp_all
  from crypto_sign_ed25519_roundtrip [OF demo_hash_state_ok this(1-3) s this(4), of "[]" 9] show ?thesis by (intro exI [of _ sm]) (auto split: if_splits)
qed

end
