(* ===== verification/Broker.thy ===== *)
theory Broker
  imports Worker
begin

text \<open>
  The life of a broker, \<open>MFBroker_Alloc\<close> and \<open>MFBroker_Free\<close> of \<open>mfbroker/mfbroker.c\<close>: the sockets it opens,
  the threads it creates and joins, and the connections it ends.  The loops of the threads are
  those of \<open>Worker\<close>; here each is a parameter, taken to have run when the thread is waited for.
\<close>

section \<open>State\<close>

datatype EBrokerMode = bmClient | bmServer

text \<open>The array of connections behind the broker is \<open>bs_conns\<close> of the store.  A null pointer is 0.\<close>

record MF_BROKER =
  mb_PublicKey :: MFCRYPTO_PUBLIC_KEY
  mb_SecretKey :: MFCRYPTO_SECRET_KEY
  mb_ConnectionCount :: i32
  mb_Mode :: EBrokerMode
  mb_ErrorCallback :: u64
  mb_ErrorCallbackContext :: u64
  mb_MessageCallback :: u64
  mb_MessageCallbackContext :: u64
  mb_Threads :: "u64 list"
  mb_ThreadCount :: nat
  mb_ListenSocket :: u64
  mb_ListenThread :: u64

definition maxConnections :: nat where "maxConnections = 64"

definition workerThreadCount :: nat where "workerThreadCount = 8"

definition sizeof_broker_block :: u64 where
  "sizeof_broker_block = 240 + of_nat maxConnections * 168 + of_nat workerThreadCount * 8"

definition zero_broker :: MF_BROKER where
  "zero_broker = \<lparr>mb_PublicKey = \<lparr>pk_Enc = replicate 32 0, pk_Sign = replicate 32 0\<rparr>,
     mb_SecretKey = \<lparr>sk_Enc = replicate 32 0, sk_Sign = replicate 64 0\<rparr>, mb_ConnectionCount = 0, mb_Mode = bmClient,
     mb_ErrorCallback = 0, mb_ErrorCallbackContext = 0, mb_MessageCallback = 0, mb_MessageCallbackContext = 0,
     mb_Threads = replicate workerThreadCount 0, mb_ThreadCount = 0, mb_ListenSocket = 0, mb_ListenThread = 0\<rparr>"

record system =
  sy_brokers :: "MF_BROKER heap"
  sy_store :: broker_store
  sy_threads :: thread_heap
  sy_lastIndex :: u32

text \<open>
  What Windows answers.  For an address: what \<open>socket\<close> gives, what \<open>connect\<close>, \<open>bind\<close> and \<open>listen\<close> return
  and the \<open>WSAGetLastError\<close> after them, and the results of \<open>MFLock_Init\<close> and \<open>GetLastError\<close>.  Of the
  rest: \<open>getaddrinfo\<close>, the outcome of each \<open>CreateThread\<close>, the allocators, and what the loop of a
  thread does to the connections until it returns with an exit code.
\<close>

record address =
  ad_socket :: u64
  ad_connect :: "i32 \<times> i32"
  ad_bind :: "i32 \<times> i32"
  ad_listen :: "i32 \<times> i32"
  ad_lock :: "i32 \<times> i32"

record winsys =
  en_addrs :: "i32 \<times> address list"
  en_create :: "nat \<Rightarrow> (u64 \<times> u32, i32) sum"
  en_brokers :: "MF_BROKER allocator"
  en_threads :: "MF_THREAD allocator"
  en_loop :: "u64 \<Rightarrow> broker_store \<Rightarrow> i32 \<times> broker_store"

definition SOCKET_ERROR :: i32 where "SOCKET_ERROR = - 1"

text \<open>\<open>if (ret == SOCKET_ERROR) ret = WSAGetLastError();\<close>\<close>

definition ws_status :: "i32 \<times> i32 \<Rightarrow> i32" where
  "ws_status r = (if fst r = SOCKET_ERROR then snd r else fst r)"

definition broker_write :: "u64 \<Rightarrow> (MF_BROKER \<Rightarrow> MF_BROKER) \<Rightarrow> system \<Rightarrow> system result" where
  "broker_write b f s =
     rbind (mem_read b (sy_brokers s)) (\<lambda>x. rbind (mem_write b (f x) (sy_brokers s)) (\<lambda>h. Inr (s\<lparr>sy_brokers := h\<rparr>)))"

definition sys_store :: "(broker_store \<Rightarrow> broker_store result) \<Rightarrow> system \<Rightarrow> system result" where
  "sys_store f s = rbind (f (sy_store s)) (\<lambda>st. Inr (s\<lparr>sy_store := st\<rparr>))"

definition sys_threads :: "(thread_heap \<Rightarrow> thread_heap result) \<Rightarrow> system \<Rightarrow> system result" where
  "sys_threads f s = rbind (f (sy_threads s)) (\<lambda>h. Inr (s\<lparr>sy_threads := h\<rparr>))"

definition sys_close :: "u64 \<Rightarrow> system \<Rightarrow> system" where
  "sys_close sock s = s\<lparr>sy_store := (sy_store s)\<lparr>bs_closed := bs_closed (sy_store s) @ [sock]\<rparr>\<rparr>"

fun for_each :: "('a \<Rightarrow> 's \<Rightarrow> 's result) \<Rightarrow> 'a list \<Rightarrow> 's \<Rightarrow> 's result" where
  "for_each f [] s = Inr s"
| "for_each f (x # xs) s = rbind (f x s) (for_each f xs)"

section \<open>Opening a socket\<close>

text \<open>The body of the loop over the addresses once \<open>socket\<close> has succeeded.\<close>

definition broker_open :: "EBrokerMode \<Rightarrow> u64 \<Rightarrow> address \<Rightarrow> system \<Rightarrow> (i32 \<times> system) result" where
  "broker_open Mode b a s =
     rbind
       (case Mode of
          bmClient \<Rightarrow>
            (let ret = ws_status (ad_connect a)
             in rbind
                  (if ret = 0
                   then let (ret, x) = MFConn_Init (fst (ad_lock a)) (snd (ad_lock a)) (ad_socket a) 0
                        in rbind (sys_store (conn_write 0 (\<lambda>_. x)) s) (\<lambda>s. Inr (ret, s))
                   else Inr (ret, s)) (\<lambda>(ret, s).
                if ret = 0
                then rbind (broker_write b (\<lambda>x. x\<lparr>mb_ConnectionCount := mb_ConnectionCount x + 1\<rparr>) s) (\<lambda>s. Inr (ret, s))
                else Inr (ret, s)))
        | bmServer \<Rightarrow>
            (let ret = ws_status (ad_bind a);
                 ret = (if ret = 0 then ws_status (ad_listen a) else ret)
             in if ret = 0
                then rbind (broker_write b (\<lambda>x. x\<lparr>mb_ListenSocket := ad_socket a\<rparr>) s) (\<lambda>s. Inr (ret, s))
                else Inr (ret, s)))
       (\<lambda>(ret, s). Inr (ret, if ret \<noteq> 0 then sys_close (ad_socket a) s else s))"

text \<open>
  The loop: an address for which \<open>socket\<close> fails leaves \<open>ret\<close> as it was, 0 at the first one.  The
  result has the status and the last socket.
\<close>

fun open_loop :: "EBrokerMode \<Rightarrow> u64 \<Rightarrow> address list \<Rightarrow> i32 \<Rightarrow> u64 \<Rightarrow> system \<Rightarrow> (i32 \<times> u64 \<times> system) result" where
  "open_loop Mode b [] ret sock s = Inr (ret, sock, s)"
| "open_loop Mode b (a # as) ret sock s =
     rbind (if ad_socket a \<noteq> INVALID_SOCKET then broker_open Mode b a s else Inr (ret, s)) (\<lambda>(ret, s).
       if ret = 0 then Inr (ret, ad_socket a, s) else open_loop Mode b as ret (ad_socket a) s)"

section \<open>Threads\<close>

text \<open>The routines, as addresses.\<close>

definition MFBrokerThreadRoutine :: u64 where "MFBrokerThreadRoutine = 0x10"
definition MFBrokerServerThread :: u64 where "MFBrokerServerThread = 0x20"

text \<open>The \<open>n\<close>-th call of \<open>MFThread_Create\<close>; \<open>store\<close> keeps the thread in the broker when it is given.\<close>

definition broker_thread ::
    "winsys \<Rightarrow> nat \<Rightarrow> u64 \<Rightarrow> u64 \<Rightarrow> (u64 \<Rightarrow> MF_BROKER \<Rightarrow> MF_BROKER) \<Rightarrow> system \<Rightarrow> (i32 \<times> system) result" where
  "broker_thread E n R b store s =
     rbind (MFThread_Create (en_threads E) (en_create E n) R b (sy_lastIndex s) (sy_threads s)) (\<lambda>(ret, p, l, h).
       let s = s\<lparr>sy_lastIndex := l, sy_threads := h\<rparr>
       in rbind (case p of None \<Rightarrow> Inr s | Some t \<Rightarrow> broker_write b (store t) s) (\<lambda>s. Inr (ret, s)))"

text \<open>
  The end of a thread.  A worker of a server closes the listening socket when its loop has ended; the
  thread's wrapper then drops the thread's reference.
\<close>

definition worker_end :: "u64 \<Rightarrow> system \<Rightarrow> system result" where
  "worker_end b s =
     rbind (mem_read b (sy_brokers s)) (\<lambda>x. Inr (if mb_Mode x = bmServer then sys_close (mb_ListenSocket x) s else s))"

definition thread_ends :: "winsys \<Rightarrow> bool \<Rightarrow> u64 \<Rightarrow> u64 \<Rightarrow> system \<Rightarrow> system result" where
  "thread_ends E worker b t s =
     (let (code, st) = en_loop E t (sy_store s); s = s\<lparr>sy_store := st\<rparr>
      in rbind (if worker then worker_end b s else Inr s) (\<lambda>s.
         sys_threads (\<lambda>h. rbind (MFThreadWrapperRoutine t code h) (\<lambda>(_, h). Inr h)) s))"

text \<open>\<open>MFThread_WaitFor\<close> returns when the thread has ended; then \<open>MFThread_Close\<close>.\<close>

definition wait_close :: "winsys \<Rightarrow> bool \<Rightarrow> u64 \<Rightarrow> u64 \<Rightarrow> system \<Rightarrow> system result" where
  "wait_close E worker b t s =
     rbind (MFThread_WaitFor t (sy_threads s)) (\<lambda>handle.
     rbind (thread_ends E worker b t s) (\<lambda>s.
       sys_threads (\<lambda>h. rbind (MFThread_Close t h) (\<lambda>(_, h). Inr h)) s))"

text \<open>The workers of a server, from number \<open>i\<close> on; when one cannot be created those before it are ended.\<close>

fun create_workers :: "winsys \<Rightarrow> u64 \<Rightarrow> nat \<Rightarrow> nat \<Rightarrow> system \<Rightarrow> (i32 \<times> system) result" where
  "create_workers E b i 0 s = Inr (0, s)"
| "create_workers E b i (Suc n) s =
     rbind (broker_thread E (i + 1) MFBrokerThreadRoutine b (\<lambda>t x. x\<lparr>mb_Threads := (mb_Threads x)[i := t]\<rparr>) s) (\<lambda>(ret, s).
       if ret \<noteq> 0
       then rbind (mem_read b (sy_brokers s)) (\<lambda>x.
            rbind (for_each (\<lambda>t. sys_threads (MFThread_Terminate t)) (take i (mb_Threads x)) s) (\<lambda>s.
            rbind (for_each (wait_close E True b) (take i (mb_Threads x)) s) (\<lambda>s. Inr (ret, s))))
       else create_workers E b (i + 1) n s)"

definition end_listener :: "winsys \<Rightarrow> u64 \<Rightarrow> system \<Rightarrow> system result" where
  "end_listener E b s =
     rbind (mem_read b (sy_brokers s)) (\<lambda>x.
     rbind (sys_threads (MFThread_Terminate (mb_ListenThread x)) s) (\<lambda>s.
       wait_close E False b (mb_ListenThread x) s))"

section \<open>MFBroker_Alloc\<close>

text \<open>The threads, and what is undone when one is missing.\<close>

definition broker_start :: "winsys \<Rightarrow> EBrokerMode \<Rightarrow> u64 \<Rightarrow> u64 \<Rightarrow> system \<Rightarrow> (i32 \<times> system) result" where
  "broker_start E Mode b sock s =
     rbind
       (case Mode of
          bmClient \<Rightarrow>
            rbind (broker_write b (\<lambda>x. x\<lparr>mb_ThreadCount := 1\<rparr>) s) (\<lambda>s.
              broker_thread E 0 MFBrokerThreadRoutine b (\<lambda>t x. x\<lparr>mb_Threads := (mb_Threads x)[0 := t]\<rparr>) s)
        | bmServer \<Rightarrow>
            rbind (broker_thread E 0 MFBrokerServerThread b (\<lambda>t x. x\<lparr>mb_ListenThread := t\<rparr>) s) (\<lambda>(ret, s).
              if ret = 0
              then rbind (broker_write b (\<lambda>x. x\<lparr>mb_ThreadCount := workerThreadCount\<rparr>) s) (\<lambda>s.
                   rbind (create_workers E b 0 workerThreadCount s) (\<lambda>(ret, s).
                     rbind (if ret \<noteq> 0 then end_listener E b s else Inr s) (\<lambda>s. Inr (ret, s))))
              else Inr (ret, s)))
       (\<lambda>(ret, s).
          if ret \<noteq> 0
          then case Mode of
                 bmClient \<Rightarrow>
                   rbind (sys_store (MFConnection_Release 0) s) (\<lambda>s.
                   rbind (broker_write b (\<lambda>x. x\<lparr>mb_ConnectionCount := mb_ConnectionCount x - 1\<rparr>) s) (\<lambda>s. Inr (ret, s)))
               | bmServer \<Rightarrow> Inr (ret, sys_close sock s)
          else Inr (ret, s))"

text \<open>Dropping a reference of the broker; its connections go with it.\<close>

definition broker_release :: "u64 \<Rightarrow> system \<Rightarrow> system result" where
  "broker_release b s =
     rbind (MFGen_RefMemRelease b (sy_brokers s)) (\<lambda>h.
       Inr (s\<lparr>sy_brokers := h, sy_store := (if h (b - 0x10) = None then (sy_store s)\<lparr>bs_conns := []\<rparr> else sy_store s)\<rparr>))"

text \<open>The keys the caller passes are not used; the callbacks and their contexts are addresses.\<close>

definition MFBroker_Alloc ::
    "winsys \<Rightarrow> EBrokerMode \<Rightarrow> MFCRYPTO_PUBLIC_KEY \<Rightarrow> MFCRYPTO_SECRET_KEY \<Rightarrow> u64 \<Rightarrow> u64 \<Rightarrow> u64 \<Rightarrow> u64 \<Rightarrow> system \<Rightarrow>
     (i32 \<times> u64 option \<times> system) result" where
  "MFBroker_Alloc E Mode PublicKey SecretKey MessageCallback MessageCallbackContext ErrorCallback ErrorCallbackContext s =
     rbind (MFGen_RefMemAlloc (en_brokers E) (\<lambda>_. zero_broker) sizeof_broker_block (sy_brokers s)) (\<lambda>(ret, p, h).
       case p of
         None \<Rightarrow> Inr (ret, None, s\<lparr>sy_brokers := h\<rparr>)
       | Some b \<Rightarrow>
           let s = s\<lparr>sy_brokers := h, sy_store := (sy_store s)\<lparr>bs_conns := replicate maxConnections zero_connection\<rparr>\<rparr>
           in rbind (broker_write b (\<lambda>x. zero_broker\<lparr>mb_Mode := Mode, mb_MessageCallback := MessageCallback,
                  mb_MessageCallbackContext := ErrorCallbackContext, mb_ErrorCallback := ErrorCallback,
                  mb_ErrorCallbackContext := ErrorCallbackContext, mb_ListenSocket := INVALID_SOCKET\<rparr>) s) (\<lambda>s.
              let (ret, addrs) = en_addrs E
              in rbind (if ret = 0 then open_loop Mode b addrs ret INVALID_SOCKET s else Inr (ret, INVALID_SOCKET, s))
                   (\<lambda>(ret, sock, s).
                 rbind (if ret = 0 then broker_start E Mode b sock s else Inr (ret, s)) (\<lambda>(ret, s).
                 rbind (if ret = 0 then rbind (MFGen_RefMemAddRef b (sy_brokers s)) (\<lambda>h. Inr (s\<lparr>sy_brokers := h\<rparr>)) else Inr s)
                   (\<lambda>s. rbind (broker_release b s) (\<lambda>s. Inr (ret, if ret = 0 then Some b else None, s)))))))"

section \<open>MFBroker_Free\<close>

text \<open>The connections in use, from slot \<open>i\<close> on.  The step is 1, so the search ends.\<close>

lemma MFConn_Next_range: "MFConn_Next conns s i n k = Some (Inr (Some c)) \<Longrightarrow> i \<le> c \<and> c < s + n"
proof (induction conns s i n k rule: MFConn_Next.induct)
  case (1 conns s i n k)
  then show ?case by (subst (asm) MFConn_Next.simps) (auto split: if_splits)
qed

function free_connections :: "nat \<Rightarrow> nat \<Rightarrow> broker_store \<Rightarrow> broker_store result" where
  "free_connections n i st =
     (case MFConn_Next (bs_conns st) 0 i n 1 of
        None \<Rightarrow> Inl Undef
      | Some (Inl e) \<Rightarrow> Inl e
      | Some (Inr None) \<Rightarrow> Inr st
      | Some (Inr (Some c)) \<Rightarrow>
          rbind (MFConnection_Clear c st) (\<lambda>st.
          rbind (MFConnection_Release c st) (\<lambda>st.
            free_connections n (c + 1) st)))"
  by pat_completeness auto

termination
  by (relation "measure (\<lambda>(n, i, st). n - i)") (auto dest!: MFConn_Next_range)

declare free_connections.simps [simp del]

definition MFBroker_Free :: "winsys \<Rightarrow> u64 \<Rightarrow> system \<Rightarrow> system result" where
  "MFBroker_Free E b s =
     rbind (mem_read b (sy_brokers s)) (\<lambda>x.
     let ts = take (mb_ThreadCount x) (mb_Threads x)
     in rbind (for_each (\<lambda>t. sys_threads (MFThread_Terminate t)) ts s) (\<lambda>s.
        rbind (for_each (wait_close E True b) ts s) (\<lambda>s.
        rbind (if mb_Mode x = bmServer
               then rbind (end_listener E b s) (\<lambda>s. Inr (sys_close (mb_ListenSocket x) s)) else Inr s) (\<lambda>s.
        rbind (sys_store (free_connections maxConnections 0) s) (\<lambda>s.
          broker_release b s)))))"

end
