(* ===== verification/Broker_Life.thy ===== *)
theory Broker_Life
  imports Broker
begin

text \<open>
  What \<open>MFBroker_Alloc\<close> and \<open>MFBroker_Free\<close> do: the threads that are created and joined, as changes of the
  heap of thread objects; the socket that is opened; the connections that are ended.  A thread's
  object has two references from its creation until it ends and its handle is closed.
\<close>

section \<open>Threads that are created and joined\<close>

text \<open>A thread of the broker as \<open>MFThread_Create\<close> leaves it: one reference of the thread, one of the broker.\<close>

definition new_thread :: "u64 \<Rightarrow> u64 \<Rightarrow> u32 \<Rightarrow> u64 \<times> u32 \<Rightarrow> MF_THREAD block" where
  "new_thread R b l ht = \<lparr>RefCount = 2, Contents = zero_thread\<lparr>Routine := R, th_Context := b, th_Index := l,
     ThreadHandle := fst ht, ThreadId := snd ht\<rparr>\<rparr>"

lemma MFThread_Create_outcome:
  assumes "alloc_fresh os" "\<forall>e. ct = Inr e \<longrightarrow> e \<noteq> 0"
  shows "(\<exists>ret l'. MFThread_Create os ct R b l h = Inr (ret, None, l', h) \<and> ret \<noteq> 0 \<and>
      (os (sizeof_MF_THREAD + 0x10) h = None \<or> (\<exists>e. ct = Inr e))) \<or>
    (\<exists>t ht. ct = Inl ht \<and> h (t - 0x10) = None \<and> t \<noteq> 0 \<and>
      MFThread_Create os ct R b l h = Inr (0, Some t, l + 1, h(t - 0x10 \<mapsto> new_thread R b (l + 1) ht)))"
proof (cases "os (sizeof_MF_THREAD + 0x10) h")
  case None
  then show ?thesis by (simp add: MFThread_Create_def MFGen_RefMemAlloc_def Let_def E_OUTOFMEMORY_def)
next
  case (Some a)
  then have f: "h a = None" "a + 0x10 \<noteq> 0" using assms(1) by (auto simp: alloc_fresh_def)
  have w: "thread_write (a + 0x10) g k = Inr (k(a \<mapsto> x\<lparr>Contents := g (Contents x)\<rparr>))" if "k a = Some x" for g k x
    using that by (simp add: thread_write_def mem_read_def mem_write_def)
  note ops = MFGen_RefMemAlloc_def MFGen_RefMemAddRef_def MFGen_RefMemRelease_def
  show ?thesis
  proof (cases ct)
    case (Inl ht)
    then show ?thesis using f Some
      by (intro disjI2 exI [of _ "a + 0x10"])
        (cases ht; simp add: MFThread_Create_def ops w Let_def sizeof_MF_THREAD_def new_thread_def)
  next
    case (Inr e)
    moreover have "h(a := None) = h" using f(1) by (simp add: fun_upd_idem)
    ultimately show ?thesis using f Some assms(2)
      by (intro disjI1) (simp add: MFThread_Create_def ops w Let_def sizeof_MF_THREAD_def)
  qed
qed

text \<open>The threads whose objects the broker holds.\<close>

definition joinable :: "thread_heap \<Rightarrow> u64 \<Rightarrow> bool" where
  "joinable h t \<longleftrightarrow> t \<noteq> 0 \<and> (\<exists>c. h (t - 0x10) = Some \<lparr>RefCount = 2, Contents = c\<rparr>)"

lemma terminate_each:
  assumes "\<forall>t \<in> set ts. joinable (sy_threads s) t"
  shows "\<exists>h. for_each (\<lambda>t. sys_threads (MFThread_Terminate t)) ts s = Inr (s\<lparr>sy_threads := h\<rparr>) \<and>
    (\<forall>t. joinable h t = joinable (sy_threads s) t) \<and> (\<forall>a. a + 0x10 \<notin> set ts \<longrightarrow> h a = sy_threads s a)"
  using assms
proof (induction ts arbitrary: s)
  case (Cons t ts)
  let ?h = "sy_threads s"
  obtain c where c: "?h (t - 0x10) = Some \<lparr>RefCount = 2, Contents = c\<rparr>" using Cons.prems by (auto simp: joinable_def)
  define h1 where "h1 = ?h(t - 0x10 \<mapsto> \<lparr>RefCount = 2, Contents = c\<lparr>th_Terminated := 1\<rparr>\<rparr>)"
  have r: "sys_threads (MFThread_Terminate t) s = Inr (s\<lparr>sy_threads := h1\<rparr>)"
    using c by (simp add: h1_def sys_threads_def MFThread_Terminate_def thread_write_def mem_read_def mem_write_def)
  have j: "joinable h1 u = joinable ?h u" for u using c by (auto simp: h1_def joinable_def)
  have "\<forall>u \<in> set ts. joinable (sy_threads (s\<lparr>sy_threads := h1\<rparr>)) u" using Cons.prems j by simp
  from Cons.IH [OF this] obtain h where
    h: "for_each (\<lambda>t. sys_threads (MFThread_Terminate t)) ts (s\<lparr>sy_threads := h1\<rparr>) = Inr (s\<lparr>sy_threads := h\<rparr>)"
    "\<forall>u. joinable h u = joinable h1 u" "\<forall>a. a + 0x10 \<notin> set ts \<longrightarrow> h a = h1 a"
    by auto
  have "h a = ?h a" if "a + 0x10 \<notin> set (t # ts)" for a using that h(3) by (cases "a = t - 0x10") (auto simp: h1_def)
  then show ?case using r h(1,2) j by auto
next
  case Nil
  show ?case by (intro exI [of _ "sy_threads s"]) simp
qed

text \<open>What the end of a thread does to the connections.\<close>

definition after_thread :: "winsys \<Rightarrow> bool \<Rightarrow> MF_BROKER \<Rightarrow> u64 \<Rightarrow> broker_store \<Rightarrow> broker_store" where
  "after_thread E worker x t st =
     (let st = snd (en_loop E t st)
      in if worker \<and> mb_Mode x = bmServer then st\<lparr>bs_closed := bs_closed st @ [mb_ListenSocket x]\<rparr> else st)"

lemma wait_close_ok:
  assumes "joinable (sy_threads s) t" "mem_read b (sy_brokers s) = Inr x"
  shows "wait_close E w b t s = Inr (s\<lparr>sy_threads := (sy_threads s)(t - 0x10 := None),
    sy_store := after_thread E w x t (sy_store s)\<rparr>)"
proof -
  obtain c where c: "sy_threads s (t - 0x10) = Some \<lparr>RefCount = 2, Contents = c\<rparr>" "t \<noteq> 0"
    using assms(1) by (auto simp: joinable_def)
  obtain code st where l: "en_loop E t (sy_store s) = (code, st)" by (cases "en_loop E t (sy_store s)")
  have e: "thread_ends E w b t s = Inr (s\<lparr>sy_store := after_thread E w x t (sy_store s), sy_threads := (sy_threads s)
      (t - 0x10 \<mapsto> \<lparr>RefCount = 1, Contents = c\<lparr>th_ExitCode := code, th_Finished := 1\<rparr>\<rparr>)\<rparr>)"
    using c l assms(2)
    by (simp add: thread_ends_def worker_end_def after_thread_def sys_close_def sys_threads_def MFThreadWrapperRoutine_def
        thread_write_def mem_read_def mem_write_def MFGen_RefMemRelease_def Let_def)
  show ?thesis unfolding wait_close_def e using c
    by (simp add: MFThread_WaitFor_def sys_threads_def MFThread_Close_def mem_read_def MFGen_RefMemRelease_def Let_def)
qed

lemma wait_close_each:
  assumes "\<forall>t \<in> set ts. joinable (sy_threads s) t" "distinct ts" "mem_read b (sy_brokers s) = Inr x"
  shows "for_each (wait_close E w b) ts s = Inr (s\<lparr>sy_threads := (\<lambda>a. if a + 0x10 \<in> set ts then None else sy_threads s a),
    sy_store := fold (after_thread E w x) ts (sy_store s)\<rparr>)"
  using assms
proof (induction ts arbitrary: s)
  case (Cons t ts)
  define s1 where "s1 = s\<lparr>sy_threads := (sy_threads s)(t - 0x10 := None), sy_store := after_thread E w x t (sy_store s)\<rparr>"
  have r: "wait_close E w b t s = Inr s1" using wait_close_ok Cons.prems by (simp add: s1_def)
  have "joinable (sy_threads s1) u" if "u \<in> set ts" for u
    using that Cons.prems(1,2) by (auto simp: joinable_def s1_def)
  moreover have "mem_read b (sy_brokers s1) = Inr x" using Cons.prems(3) by (simp add: s1_def)
  ultimately have "for_each (wait_close E w b) ts s1 = Inr (s1\<lparr>sy_threads := (\<lambda>a. if a + 0x10 \<in> set ts then None else sy_threads s1 a),
    sy_store := fold (after_thread E w x) ts (sy_store s1)\<rparr>)" using Cons.IH [of s1] Cons.prems(2) by simp
  moreover have "(\<lambda>a. if a + 0x10 \<in> set ts then None else sy_threads s1 a) =
      (\<lambda>a. if a + 0x10 \<in> set (t # ts) then None else sy_threads s a)"
    by (auto simp: fun_eq_iff s1_def)
  ultimately show ?case using r by (simp add: s1_def)
qed simp

section \<open>Creation and what is undone\<close>

text \<open>The heap \<open>h'\<close> has the threads \<open>ts\<close> beside the objects of \<open>h\<close>.\<close>

definition threads_added :: "thread_heap \<Rightarrow> u64 list \<Rightarrow> thread_heap \<Rightarrow> bool" where
  "threads_added h ts h' \<longleftrightarrow> distinct ts \<and> (\<forall>t \<in> set ts. h (t - 0x10) = None \<and> joinable h' t) \<and>
     (\<forall>a. a + 0x10 \<notin> set ts \<longrightarrow> h' a = h a)"

lemma threads_added_Nil [simp]: "threads_added h [] h' \<longleftrightarrow> h' = h"
  by (auto simp: threads_added_def)

lemma joinable_alive: "joinable h t \<Longrightarrow> h (t - 0x10) \<noteq> None"
  by (auto simp: joinable_def)

lemma joinable_upd: "joinable (h(t - 0x10 \<mapsto> new_thread R b l ht)) u \<longleftrightarrow> (if u = t then t \<noteq> 0 else joinable h u)"
  by (auto simp: joinable_def new_thread_def)

lemma threads_added_new:
  assumes "threads_added h ts h'" "h' (t - 0x10) = None" "t \<noteq> 0"
  shows "threads_added h (ts @ [t]) (h'(t - 0x10 \<mapsto> new_thread R b l ht))"
proof -
  have n: "t \<notin> set ts" using assms(1,2) joinable_alive unfolding threads_added_def by blast
  then have "h (t - 0x10) = None" using assms(1,2) unfolding threads_added_def by (metis diff_add_cancel)
  moreover have "a \<noteq> t - 0x10" if "a + 0x10 \<noteq> t" for a using that by auto
  ultimately show ?thesis using assms n unfolding threads_added_def by (auto simp: joinable_upd)
qed

lemma threads_added_gone:
  assumes "threads_added h (ts @ us) h'"
  shows "threads_added h ts (\<lambda>a. if a + 0x10 \<in> set us then None else h' a)"
proof -
  let ?k = "\<lambda>a. if a + 0x10 \<in> set us then None else h' a"
  have d: "distinct ts" "set ts \<inter> set us = {}" using assms by (simp_all add: threads_added_def)
  have "h (t - 0x10) = None \<and> joinable ?k t" if "t \<in> set ts" for t
  proof -
    have "t \<notin> set us" using that d(2) by blast
    then have "joinable ?k t = joinable h' t" by (simp add: joinable_def)
    then show ?thesis using assms that by (simp add: threads_added_def)
  qed
  moreover have "?k a = h a" if "a + 0x10 \<notin> set ts" for a
  proof (cases "a + 0x10 \<in> set us")
    case True
    then have "h (a + 0x10 - 0x10) = None" using assms unfolding threads_added_def by (metis Un_iff set_append)
    then show ?thesis using True by simp
  next
    case False
    then have "h' a = h a" using assms that by (simp add: threads_added_def)
    then show ?thesis using False by simp
  qed
  ultimately show ?thesis using d(1) unfolding threads_added_def by blast
qed

lemma threads_added_terminated:
  assumes "threads_added h ts k" "\<forall>t. joinable k' t = joinable k t" "\<forall>a. a + 0x10 \<notin> set us \<longrightarrow> k' a = k a" "set us \<subseteq> set ts"
  shows "threads_added h ts k'"
proof -
  have "k' a = h a" if "a + 0x10 \<notin> set ts" for a
  proof -
    have "a + 0x10 \<notin> set us" using that assms(4) by blast
    then show ?thesis using that assms(1,3) by (simp add: threads_added_def)
  qed
  then show ?thesis using assms(1,2) by (simp add: threads_added_def)
qed

text \<open>Terminating, waiting for and closing the last of them.\<close>

lemma end_threads:
  assumes "threads_added h (ts @ us) (sy_threads s)" "mem_read b (sy_brokers s) = Inr x"
  shows "\<exists>k. rbind (for_each (\<lambda>t. sys_threads (MFThread_Terminate t)) us s) (for_each (wait_close E w b) us) =
      Inr (s\<lparr>sy_threads := k, sy_store := fold (after_thread E w x) us (sy_store s)\<rparr>) \<and> threads_added h ts k"
proof -
  have j: "\<forall>t \<in> set us. joinable (sy_threads s) t" using assms(1) by (simp add: threads_added_def)
  from terminate_each [OF j] obtain k where
    k: "for_each (\<lambda>t. sys_threads (MFThread_Terminate t)) us s = Inr (s\<lparr>sy_threads := k\<rparr>)"
    "\<forall>t. joinable k t = joinable (sy_threads s) t" "\<forall>a. a + 0x10 \<notin> set us \<longrightarrow> k a = sy_threads s a" by blast
  have "threads_added h (ts @ us) k" by (rule threads_added_terminated [OF assms(1) k(2,3)]) simp
  from threads_added_gone [OF this]
  have "threads_added h ts (\<lambda>a. if a + 0x10 \<in> set us then None else k a)" .
  moreover have "for_each (wait_close E w b) us (s\<lparr>sy_threads := k\<rparr>) =
      Inr (s\<lparr>sy_threads := (\<lambda>a. if a + 0x10 \<in> set us then None else k a),
        sy_store := fold (after_thread E w x) us (sy_store s)\<rparr>)"
    using wait_close_each [of us "s\<lparr>sy_threads := k\<rparr>" b x E w] j k(2) assms by (simp add: threads_added_def cong: if_cong)
  ultimately show ?thesis using k(1) by auto
qed

text \<open>What is assumed of the system: fresh memory, and error codes that are not 0.\<close>

definition winsys_ok :: "winsys \<Rightarrow> bool" where
  "winsys_ok E \<longleftrightarrow> alloc_fresh (en_brokers E) \<and> alloc_fresh (en_threads E) \<and> (\<forall>n e. en_create E n = Inr e \<longrightarrow> e \<noteq> 0)"

text \<open>The broker \<open>b\<close> has the contents \<open>x\<close> and one reference, in a heap that is otherwise \<open>B\<close>.\<close>

definition broker_is :: "MF_BROKER heap \<Rightarrow> u64 \<Rightarrow> MF_BROKER \<Rightarrow> system \<Rightarrow> bool" where
  "broker_is B b x s \<longleftrightarrow> sy_brokers s = B(b - 0x10 \<mapsto> \<lparr>RefCount = 1, Contents = x\<rparr>)"

lemma broker_is_read: "broker_is B b x s \<Longrightarrow> mem_read b (sy_brokers s) = Inr x"
  by (simp add: broker_is_def mem_read_def)

lemma broker_is_write:
  assumes "broker_is B b x s"
  shows "\<exists>s'. broker_write b f s = Inr s' \<and> broker_is B b (f x) s' \<and> sy_store s' = sy_store s \<and>
    sy_threads s' = sy_threads s \<and> sy_lastIndex s' = sy_lastIndex s"
  using assms by (simp add: broker_is_def broker_write_def mem_read_def mem_write_def)

lemma broker_is_other [simp]:
  "broker_is B b x (s\<lparr>sy_threads := h\<rparr>) = broker_is B b x s" "broker_is B b x (s\<lparr>sy_store := st\<rparr>) = broker_is B b x s"
  "broker_is B b x (s\<lparr>sy_lastIndex := l\<rparr>) = broker_is B b x s" "broker_is B b x (sys_close sock s) = broker_is B b x s"
  by (simp_all add: broker_is_def sys_close_def)

text \<open>The system refuses memory or a thread while the threads of one broker are made.\<close>

definition no_thread :: "winsys \<Rightarrow> thread_heap \<Rightarrow> bool" where
  "no_thread E H \<longleftrightarrow> (\<exists>ts h. length ts \<le> workerThreadCount \<and> threads_added H ts h \<and> en_threads E (sizeof_MF_THREAD + 0x10) h = None) \<or>
     (\<exists>n \<le> workerThreadCount. \<exists>e. en_create E n = Inr e)"

text \<open>Creating one thread.\<close>

lemma broker_thread_outcome:
  assumes "winsys_ok E" "broker_is B b x s" "threads_added H ts (sy_threads s)"
    "length ts \<le> workerThreadCount" "n \<le> workerThreadCount"
  shows "(\<exists>ret s'. broker_thread E n R b store s = Inr (ret, s') \<and> ret \<noteq> 0 \<and> broker_is B b x s' \<and>
      sy_threads s' = sy_threads s \<and> sy_store s' = sy_store s \<and>
      no_thread E H) \<or>
    (\<exists>t s'. broker_thread E n R b store s = Inr (0, s') \<and> broker_is B b (store t x) s' \<and>
      threads_added H (ts @ [t]) (sy_threads s') \<and> sy_store s' = sy_store s)"
proof -
  have "alloc_fresh (en_threads E)" "\<forall>e. en_create E n = Inr e \<longrightarrow> e \<noteq> 0" using assms(1) by (auto simp: winsys_ok_def)
  from MFThread_Create_outcome [OF this, of R b "sy_lastIndex s" "sy_threads s"] show ?thesis
  proof (elim disjE exE conjE)
    fix ret l assume "MFThread_Create (en_threads E) (en_create E n) R b (sy_lastIndex s) (sy_threads s) = Inr (ret, None, l, sy_threads s)"
      "ret \<noteq> 0" "en_threads E (sizeof_MF_THREAD + 0x10) (sy_threads s) = None"
    then show ?thesis using assms(2-5) by (intro disjI1) (auto simp: broker_thread_def no_thread_def)
  next
    fix ret l e assume "MFThread_Create (en_threads E) (en_create E n) R b (sy_lastIndex s) (sy_threads s) = Inr (ret, None, l, sy_threads s)"
      "ret \<noteq> 0" "en_create E n = Inr e"
    then show ?thesis using assms(2-5) by (intro disjI1) (auto simp: broker_thread_def no_thread_def)
  next
    fix t ht assume c: "sy_threads s (t - 0x10) = None" "t \<noteq> 0"
      "MFThread_Create (en_threads E) (en_create E n) R b (sy_lastIndex s) (sy_threads s) =
        Inr (0, Some t, sy_lastIndex s + 1, (sy_threads s)(t - 0x10 \<mapsto> new_thread R b (sy_lastIndex s + 1) ht))"
    define s1 where "s1 = s\<lparr>sy_lastIndex := sy_lastIndex s + 1,
      sy_threads := (sy_threads s)(t - 0x10 \<mapsto> new_thread R b (sy_lastIndex s + 1) ht)\<rparr>"
    have "broker_is B b x s1" using assms(2) by (simp add: s1_def)
    from broker_is_write [OF this, of "store t"] obtain s2 where s2: "broker_write b (store t) s1 = Inr s2"
      "broker_is B b (store t x) s2" "sy_store s2 = sy_store s1" "sy_threads s2 = sy_threads s1" by blast
    have "broker_thread E n R b store s = Inr (0, s2)" using c(3) s2(1) by (simp add: broker_thread_def s1_def Let_def)
    moreover have "threads_added H (ts @ [t]) (sy_threads s2)"
      using threads_added_new [OF assms(3) c(1,2)] s2(4) by (simp add: s1_def)
    moreover have "sy_store s2 = sy_store s" using s2(3) by (simp add: s1_def)
    ultimately show ?thesis using s2(2) by blast
  qed
qed

lemma rbind_assoc: "rbind (rbind r f) g = rbind r (\<lambda>x. rbind (f x) g)"
  by (cases r) simp_all

lemma create_workers_outcome:
  assumes "winsys_ok E" "broker_is B b x s" "i + n \<le> length (mb_Threads x)"
    "i + n \<le> workerThreadCount" "length ts \<le> 1"
    "threads_added H (ts @ take i (mb_Threads x)) (sy_threads s)"
  shows "(\<exists>us s'. create_workers E b i n s = Inr (0, s') \<and> length us = n \<and> sy_store s' = sy_store s \<and>
      broker_is B b (x\<lparr>mb_Threads := take i (mb_Threads x) @ us @ drop (i + n) (mb_Threads x)\<rparr>) s' \<and>
      threads_added H (ts @ take i (mb_Threads x) @ us) (sy_threads s')) \<or>
    (\<exists>ret T s'. create_workers E b i n s = Inr (ret, s') \<and> ret \<noteq> 0 \<and> no_thread E H \<and>
      broker_is B b (x\<lparr>mb_Threads := T\<rparr>) s' \<and> threads_added H ts (sy_threads s'))"
  using assms(2-6)
proof (induction n arbitrary: i x s)
  case 0
  have "x\<lparr>mb_Threads := mb_Threads x\<rparr> = x" by simp
  then show ?case using 0 by (intro disjI1) simp
next
  case (Suc n)
  let ?T = "mb_Threads x" and ?store = "\<lambda>t x. x\<lparr>mb_Threads := (mb_Threads x)[i := t]\<rparr>"
  have lim: "length (ts @ take i ?T) \<le> workerThreadCount" "i + 1 \<le> workerThreadCount" using Suc.prems(3,4) by simp_all
  from broker_thread_outcome [OF assms(1) Suc.prems(1,5) lim, of MFBrokerThreadRoutine ?store] show ?case
  proof (elim disjE exE conjE)
    fix ret s1
    assume c: "broker_thread E (i + 1) MFBrokerThreadRoutine b ?store s = Inr (ret, s1)" "ret \<noteq> 0" "broker_is B b x s1"
      "sy_threads s1 = sy_threads s" "no_thread E H"
    have a: "threads_added H (ts @ take i ?T) (sy_threads s1)" using Suc.prems(5) c(4) by simp
    from end_threads [OF a broker_is_read [OF c(3)], of E True] obtain k where
      k: "rbind (for_each (\<lambda>t. sys_threads (MFThread_Terminate t)) (take i ?T) s1) (for_each (wait_close E True b) (take i ?T)) =
        Inr (s1\<lparr>sy_threads := k, sy_store := fold (after_thread E True x) (take i ?T) (sy_store s1)\<rparr>)" "threads_added H ts k" by blast
    have "create_workers E b i (Suc n) s = rbind (rbind (for_each (\<lambda>t. sys_threads (MFThread_Terminate t)) (take i ?T) s1)
        (for_each (wait_close E True b) (take i ?T))) (\<lambda>s. Inr (ret, s))"
      using c(1,2) broker_is_read [OF c(3)] by (simp add: rbind_assoc)
    moreover have "broker_is B b (x\<lparr>mb_Threads := ?T\<rparr>) s1" using c(3) by simp
    ultimately show ?thesis using k c(2,5)
      by (intro disjI2 exI [of _ ret] exI [of _ ?T] exI [of _ "s1\<lparr>sy_threads := k,
        sy_store := fold (after_thread E True x) (take i ?T) (sy_store s1)\<rparr>"]) simp
  next
    fix t s1
    assume c: "broker_thread E (i + 1) MFBrokerThreadRoutine b ?store s = Inr (0, s1)" "broker_is B b (?store t x) s1"
      "threads_added H ((ts @ take i ?T) @ [t]) (sy_threads s1)" "sy_store s1 = sy_store s"
    have tk: "take (i + 1) (?T[i := t]) = take i ?T @ [t]" using Suc.prems(2) by (simp add: take_Suc_conv_app_nth)
    have l: "(i + 1) + n \<le> length (mb_Threads (?store t x))" using Suc.prems(2) by simp
    have a: "threads_added H (ts @ take (i + 1) (mb_Threads (?store t x))) (sy_threads s1)" using c(3) tk by simp
    have e: "create_workers E b i (Suc n) s = create_workers E b (i + 1) n s1" using c(1) by simp
    have i: "(i + 1) + n \<le> workerThreadCount" using Suc.prems(3) by simp
    from Suc.IH [OF c(2) l i Suc.prems(4) a] show ?thesis
    proof (elim disjE exE conjE)
      fix us s2
      assume r: "create_workers E b (i + 1) n s1 = Inr (0, s2)" "length us = n" "sy_store s2 = sy_store s1"
        "broker_is B b ((?store t x)\<lparr>mb_Threads := take (i + 1) (mb_Threads (?store t x)) @ us @
          drop (i + 1 + n) (mb_Threads (?store t x))\<rparr>) s2"
        "threads_added H (ts @ take (i + 1) (mb_Threads (?store t x)) @ us) (sy_threads s2)"
      have "broker_is B b (x\<lparr>mb_Threads := take i ?T @ (t # us) @ drop (i + Suc n) ?T\<rparr>) s2"
        using r(4) tk by simp
      moreover have "threads_added H (ts @ take i ?T @ (t # us)) (sy_threads s2)" using r(5) tk by simp
      ultimately show ?thesis using e r(1,2,3) c(4)
        by (intro disjI1 exI [of _ "t # us"] exI [of _ s2]) simp
    next
      fix ret T s2
      assume r: "create_workers E b (i + 1) n s1 = Inr (ret, s2)" "ret \<noteq> 0" "no_thread E H"
        "broker_is B b ((?store t x)\<lparr>mb_Threads := T\<rparr>) s2" "threads_added H ts (sy_threads s2)"
      then show ?thesis using e by (intro disjI2 exI [of _ ret] exI [of _ T] exI [of _ s2]) simp
    qed
  qed
qed

text \<open>The threads of a broker.\<close>

definition broker_threads :: "MF_BROKER \<Rightarrow> u64 list" where
  "broker_threads x = (if mb_Mode x = bmServer then [mb_ListenThread x] else []) @ take (mb_ThreadCount x) (mb_Threads x)"

definition thread_count :: "EBrokerMode \<Rightarrow> nat" where
  "thread_count Mode = (if Mode = bmClient then 1 else workerThreadCount)"

lemma end_listener_each:
  assumes "mem_read b (sy_brokers s) = Inr x"
  shows "end_listener E b s = rbind (for_each (\<lambda>t. sys_threads (MFThread_Terminate t)) [mb_ListenThread x] s)
    (for_each (wait_close E False b) [mb_ListenThread x])"
proof -
  have one: "rbind r Inr = r" for r :: "system result" by (cases r) simp_all
  have nil: "for_each f [] = Inr" for f :: "u64 \<Rightarrow> system \<Rightarrow> system result" by (rule ext) simp
  have single: "for_each f [t] = f t" for f :: "u64 \<Rightarrow> system \<Rightarrow> system result" and t
    by (rule ext) (simp add: one nil del: for_each.simps(1))
  show ?thesis unfolding end_listener_def assms by (simp add: one single del: for_each.simps)
qed

lemma end_listener_ok:
  assumes "threads_added H [mb_ListenThread x] (sy_threads s)" "broker_is B b x s"
  shows "\<exists>st. end_listener E b s = Inr (s\<lparr>sy_threads := H, sy_store := st\<rparr>)"
proof -
  note rd = broker_is_read [OF assms(2)]
  from end_threads [of H "[]" "[mb_ListenThread x]" s b x E False] assms(1) rd obtain k where
    k: "rbind (for_each (\<lambda>t. sys_threads (MFThread_Terminate t)) [mb_ListenThread x] s)
        (for_each (wait_close E False b) [mb_ListenThread x]) =
      Inr (s\<lparr>sy_threads := k, sy_store := after_thread E False x (mb_ListenThread x) (sy_store s)\<rparr>)" "k = H" by auto
  then show ?thesis unfolding end_listener_each [OF rd] by auto
qed

text \<open>A slot 0 that \<open>MFConnection_Release\<close> can be called on.\<close>

definition first_slot :: "broker_store \<Rightarrow> bool" where
  "first_slot st \<longleftrightarrow> 0 < length (bs_conns st) \<and> MessagesToSend (bs_conns st ! 0) = []"

lemma Release_first_slot: "first_slot st \<Longrightarrow> \<exists>st'. MFConnection_Release 0 st = Inr st'"
  unfolding first_slot_def MFConnection_Release_def
  by (cases "ReferenceCount (bs_conns st ! 0) = 1") (use conn_release_last conn_release_step in blast)+

lemma broker_start_outcome:
  assumes "winsys_ok E" "broker_is B b x s" "length (mb_Threads x) = workerThreadCount" "mb_Mode x = Mode" "first_slot (sy_store s)"
  shows "(\<exists>s' L T. broker_start E Mode b sock s = Inr (0, s') \<and> length T = workerThreadCount \<and> sy_store s' = sy_store s \<and>
      broker_is B b (x\<lparr>mb_ListenThread := L, mb_ThreadCount := thread_count Mode, mb_Threads := T\<rparr>) s' \<and>
      threads_added (sy_threads s)
        (broker_threads (x\<lparr>mb_ListenThread := L, mb_ThreadCount := thread_count Mode, mb_Threads := T\<rparr>)) (sy_threads s')) \<or>
    (\<exists>ret s' x'. broker_start E Mode b sock s = Inr (ret, s') \<and> ret \<noteq> 0 \<and> no_thread E (sy_threads s) \<and>
      broker_is B b x' s' \<and> sy_threads s' = sy_threads s)"
proof (cases Mode)
  case bmClient
  have zero: "length ([] :: u64 list) \<le> workerThreadCount" "0 \<le> workerThreadCount" by simp_all
  let ?store = "\<lambda>t x. x\<lparr>mb_Threads := (mb_Threads x)[0 := t]\<rparr>"
  from broker_is_write [OF assms(2), of "\<lambda>x. x\<lparr>mb_ThreadCount := 1\<rparr>"] obtain s1 where
    s1: "broker_write b (\<lambda>x. x\<lparr>mb_ThreadCount := 1\<rparr>) s = Inr s1" "broker_is B b (x\<lparr>mb_ThreadCount := 1\<rparr>) s1"
    "sy_store s1 = sy_store s" "sy_threads s1 = sy_threads s" by blast
  have nil: "threads_added (sy_threads s) [] (sy_threads s1)" using s1(4) by simp
  from broker_thread_outcome [OF assms(1) s1(2) nil zero, of MFBrokerThreadRoutine ?store] show ?thesis
  proof (elim disjE exE conjE)
    fix ret s2
    assume c: "broker_thread E 0 MFBrokerThreadRoutine b ?store s1 = Inr (ret, s2)" "ret \<noteq> 0" "broker_is B b (x\<lparr>mb_ThreadCount := 1\<rparr>) s2"
      "sy_threads s2 = sy_threads s1" "sy_store s2 = sy_store s1" "no_thread E (sy_threads s)"
    from Release_first_slot [of "sy_store s2"] assms(5) c(5) s1(3) obtain st where st: "MFConnection_Release 0 (sy_store s2) = Inr st"
      by auto
    have "broker_is B b (x\<lparr>mb_ThreadCount := 1\<rparr>) (s2\<lparr>sy_store := st\<rparr>)" using c(3) by simp
    from broker_is_write [OF this, of "\<lambda>x. x\<lparr>mb_ConnectionCount := mb_ConnectionCount x - 1\<rparr>"] obtain s3 where
      s3: "broker_write b (\<lambda>x. x\<lparr>mb_ConnectionCount := mb_ConnectionCount x - 1\<rparr>) (s2\<lparr>sy_store := st\<rparr>) = Inr s3"
      "broker_is B b (x\<lparr>mb_ThreadCount := 1, mb_ConnectionCount := mb_ConnectionCount x - 1\<rparr>) s3" "sy_threads s3 = sy_threads s2" by auto
    have "broker_start E Mode b sock s = Inr (ret, s3)"
      using s1(1) c(1,2) st s3(1) bmClient by (simp add: broker_start_def sys_store_def)
    then show ?thesis using c(2,4,6) s3(2,3) s1(4) by auto
  next
    fix t s2
    assume c: "broker_thread E 0 MFBrokerThreadRoutine b ?store s1 = Inr (0, s2)" "broker_is B b (?store t (x\<lparr>mb_ThreadCount := 1\<rparr>)) s2"
      "threads_added (sy_threads s) ([] @ [t]) (sy_threads s2)" "sy_store s2 = sy_store s1"
    let ?T = "(mb_Threads x)[0 := t]"
    have "broker_start E Mode b sock s = Inr (0, s2)" using s1(1) c(1) bmClient by (simp add: broker_start_def)
    moreover have "?store t (x\<lparr>mb_ThreadCount := 1\<rparr>) =
        x\<lparr>mb_ListenThread := mb_ListenThread x, mb_ThreadCount := thread_count Mode, mb_Threads := ?T\<rparr>"
      using bmClient by (simp add: thread_count_def)
    moreover have "take 1 ?T = [t]" using assms(3) by (cases "mb_Threads x") (simp_all add: workerThreadCount_def)
    ultimately show ?thesis using c s1(3) assms(3,4) bmClient
      by (intro disjI1 exI [of _ s2] exI [of _ "mb_ListenThread x"] exI [of _ ?T]) (simp add: broker_threads_def thread_count_def)
  qed
next
  case bmServer
  have zero: "length ([] :: u64 list) \<le> workerThreadCount" "0 \<le> workerThreadCount" by simp_all
  let ?store = "\<lambda>t x. x\<lparr>mb_ListenThread := t\<rparr>"
  have nil: "threads_added (sy_threads s) [] (sy_threads s)" by simp
  from broker_thread_outcome [OF assms(1,2) nil zero, of MFBrokerServerThread ?store] show ?thesis
  proof (elim disjE exE conjE)
    fix ret s1
    assume c: "broker_thread E 0 MFBrokerServerThread b ?store s = Inr (ret, s1)" "ret \<noteq> 0" "broker_is B b x s1"
      "sy_threads s1 = sy_threads s" "sy_store s1 = sy_store s" "no_thread E (sy_threads s)"
    then have "broker_start E Mode b sock s = Inr (ret, sys_close sock s1)" using bmServer by (simp add: broker_start_def)
    moreover have "sy_threads (sys_close sock s1) = sy_threads s" using c(4) by (simp add: sys_close_def)
    ultimately show ?thesis using c(2,3,6) by (intro disjI2 exI [of _ ret] exI [of _ "sys_close sock s1"] exI [of _ x]) simp
  next
    fix L s1
    assume c: "broker_thread E 0 MFBrokerServerThread b ?store s = Inr (0, s1)" "broker_is B b (?store L x) s1"
      "threads_added (sy_threads s) ([] @ [L]) (sy_threads s1)" "sy_store s1 = sy_store s"
    from broker_is_write [OF c(2), of "\<lambda>x. x\<lparr>mb_ThreadCount := workerThreadCount\<rparr>"] obtain s2 where
      s2: "broker_write b (\<lambda>x. x\<lparr>mb_ThreadCount := workerThreadCount\<rparr>) s1 = Inr s2"
      "broker_is B b (x\<lparr>mb_ListenThread := L, mb_ThreadCount := workerThreadCount\<rparr>) s2"
      "sy_store s2 = sy_store s1" "sy_threads s2 = sy_threads s1" by auto
    let ?x = "x\<lparr>mb_ListenThread := L, mb_ThreadCount := workerThreadCount\<rparr>"
    have "threads_added (sy_threads s) ([L] @ take 0 (mb_Threads ?x)) (sy_threads s2)" using c(3) s2(4) by simp
    moreover have "0 + workerThreadCount \<le> length (mb_Threads ?x)" "0 + workerThreadCount \<le> workerThreadCount" "length [L] \<le> 1"
      using assms(3) by simp_all
    ultimately have "(\<exists>us s'. create_workers E b 0 workerThreadCount s2 = Inr (0, s') \<and> length us = workerThreadCount \<and>
        sy_store s' = sy_store s2 \<and>
        broker_is B b (?x\<lparr>mb_Threads := take 0 (mb_Threads ?x) @ us @ drop (0 + workerThreadCount) (mb_Threads ?x)\<rparr>) s' \<and>
        threads_added (sy_threads s) ([L] @ take 0 (mb_Threads ?x) @ us) (sy_threads s')) \<or>
      (\<exists>ret T s'. create_workers E b 0 workerThreadCount s2 = Inr (ret, s') \<and> ret \<noteq> 0 \<and> no_thread E (sy_threads s) \<and>
        broker_is B b (?x\<lparr>mb_Threads := T\<rparr>) s' \<and> threads_added (sy_threads s) [L] (sy_threads s'))"
      by (rule create_workers_outcome [OF assms(1) s2(2), rotated 3])
    then show ?thesis
    proof (elim disjE exE conjE)
      fix us s3
      assume w: "create_workers E b 0 workerThreadCount s2 = Inr (0, s3)" "length us = workerThreadCount" "sy_store s3 = sy_store s2"
        "broker_is B b (?x\<lparr>mb_Threads := take 0 (mb_Threads ?x) @ us @ drop (0 + workerThreadCount) (mb_Threads ?x)\<rparr>) s3"
        "threads_added (sy_threads s) ([L] @ take 0 (mb_Threads ?x) @ us) (sy_threads s3)"
      have "broker_start E Mode b sock s = Inr (0, s3)" using c(1) s2(1) w(1) bmServer by (simp add: broker_start_def)
      then show ?thesis using w s2(3) c(4) assms(3,4) bmServer
        by (intro disjI1 exI [of _ s3] exI [of _ L] exI [of _ us]) (simp add: broker_threads_def thread_count_def)
    next
      fix ret T s3
      assume w: "create_workers E b 0 workerThreadCount s2 = Inr (ret, s3)" "ret \<noteq> 0" "no_thread E (sy_threads s)"
        "broker_is B b (?x\<lparr>mb_Threads := T\<rparr>) s3" "threads_added (sy_threads s) [L] (sy_threads s3)"
      from end_listener_ok [of _ "?x\<lparr>mb_Threads := T\<rparr>" s3 B b E] w(4,5) obtain st where
        st: "end_listener E b s3 = Inr (s3\<lparr>sy_threads := sy_threads s, sy_store := st\<rparr>)" by auto
      let ?s = "sys_close sock (s3\<lparr>sy_threads := sy_threads s, sy_store := st\<rparr>)"
      have "broker_start E Mode b sock s = Inr (ret, ?s)" using c(1) s2(1) w(1,2) st bmServer by (simp add: broker_start_def)
      moreover have "broker_is B b (?x\<lparr>mb_Threads := T\<rparr>) ?s" "sy_threads ?s = sy_threads s"
        using w(4) by (simp_all add: sys_close_def broker_is_def)
      ultimately show ?thesis using w(2,3) by blast
    qed
  qed
qed

section \<open>The socket\<close>

definition opened :: "EBrokerMode \<Rightarrow> u64 \<Rightarrow> MF_BROKER \<Rightarrow> MF_BROKER" where
  "opened Mode sock x =
     (if sock = INVALID_SOCKET then x
      else case Mode of bmClient \<Rightarrow> x\<lparr>mb_ConnectionCount := mb_ConnectionCount x + 1\<rparr>
           | bmServer \<Rightarrow> x\<lparr>mb_ListenSocket := sock\<rparr>)"

definition opened_slots :: "EBrokerMode \<Rightarrow> u64 \<Rightarrow> MF_CONNECTION list" where
  "opened_slots Mode sock =
     (let free = replicate maxConnections zero_connection
      in if Mode = bmClient \<and> sock \<noteq> INVALID_SOCKET then free[0 := snd (MFConn_Init 0 0 sock 0)] else free)"

lemma opened_slots_first: "bs_conns st = opened_slots Mode sock \<Longrightarrow> first_slot st"
  by (simp add: first_slot_def opened_slots_def maxConnections_def zero_connection_def MFConn_Init_def Let_def)

lemma opened_slots_invalid: "opened_slots Mode INVALID_SOCKET = replicate maxConnections zero_connection"
  by (simp add: opened_slots_def)

lemma MFConn_Init_status:
  "MFConn_Init l e sock Ctx = (ret, c) \<Longrightarrow>
   if l = 0 then ret = 0 \<and> c = snd (MFConn_Init 0 0 sock Ctx) else ret = e \<and> c = zero_connection"
  by (auto simp: MFConn_Init_def split: if_splits)

text \<open>That \<open>GetLastError\<close> is not 0 after a failure of \<open>MFLock_Init\<close>.\<close>

definition lock_ok :: "address \<Rightarrow> bool" where
  "lock_ok a \<longleftrightarrow> fst (ad_lock a) \<noteq> 0 \<longrightarrow> snd (ad_lock a) \<noteq> 0"

text \<open>An address that gives a connection, or a listening socket.\<close>

definition usable :: "EBrokerMode \<Rightarrow> address \<Rightarrow> bool" where
  "usable Mode a \<longleftrightarrow> ad_socket a \<noteq> INVALID_SOCKET \<and>
     (case Mode of bmClient \<Rightarrow> ws_status (ad_connect a) = 0 \<and> fst (ad_lock a) = 0
      | bmServer \<Rightarrow> ws_status (ad_bind a) = 0 \<and> ws_status (ad_listen a) = 0)"

lemma broker_open_outcome:
  assumes "broker_is B b x s" "bs_conns (sy_store s) = opened_slots Mode INVALID_SOCKET" "ad_socket a \<noteq> INVALID_SOCKET" "lock_ok a"
  shows "\<exists>ret s'. broker_open Mode b a s = Inr (ret, s') \<and> sy_threads s' = sy_threads s \<and> bs_heap (sy_store s') = bs_heap (sy_store s) \<and> (ret = 0 \<longleftrightarrow> usable Mode a) \<and>
    (if ret = 0 then broker_is B b (opened Mode (ad_socket a) x) s' \<and> bs_conns (sy_store s') = opened_slots Mode (ad_socket a)
     else broker_is B b x s' \<and> bs_conns (sy_store s') = opened_slots Mode INVALID_SOCKET)"
proof (cases Mode)
  case bmServer
  let ?ret = "if ws_status (ad_bind a) = 0 then ws_status (ad_listen a) else ws_status (ad_bind a)"
  from broker_is_write [OF assms(1), of "\<lambda>x. x\<lparr>mb_ListenSocket := ad_socket a\<rparr>"] obtain s1 where
    s1: "broker_write b (\<lambda>x. x\<lparr>mb_ListenSocket := ad_socket a\<rparr>) s = Inr s1" "broker_is B b (x\<lparr>mb_ListenSocket := ad_socket a\<rparr>) s1"
    "sy_store s1 = sy_store s" "sy_threads s1 = sy_threads s" by blast
  show ?thesis
  proof (cases "?ret = 0")
    case True
    then have "broker_open Mode b a s = Inr (0, s1)" using s1(1) bmServer by (simp add: broker_open_def Let_def)
    then show ?thesis using True s1 assms(2,3) bmServer by (auto simp: opened_def opened_slots_def usable_def split: if_splits)
  next
    case False
    then have "broker_open Mode b a s = Inr (?ret, sys_close (ad_socket a) s)" using bmServer by (simp add: broker_open_def Let_def)
    then show ?thesis using False assms(1,2)
      by (intro exI [of _ ?ret] exI [of _ "sys_close (ad_socket a) s"])
        (auto simp: sys_close_def broker_is_def usable_def bmServer)
  qed
next
  case bmClient
  show ?thesis
  proof (cases "ws_status (ad_connect a) = 0")
    case False
    then have "broker_open Mode b a s = Inr (ws_status (ad_connect a), sys_close (ad_socket a) s)"
      using bmClient by (simp add: broker_open_def Let_def)
    then show ?thesis using False assms(1,2)
      by (intro exI [of _ "ws_status (ad_connect a)"] exI [of _ "sys_close (ad_socket a) s"])
        (auto simp: sys_close_def broker_is_def usable_def bmClient)
  next
    case True
    obtain ret c where i: "MFConn_Init (fst (ad_lock a)) (snd (ad_lock a)) (ad_socket a) 0 = (ret, c)"
      by (cases "MFConn_Init (fst (ad_lock a)) (snd (ad_lock a)) (ad_socket a) 0")
    let ?st = "(sy_store s)\<lparr>bs_conns := (bs_conns (sy_store s))[0 := c]\<rparr>"
    have w: "sys_store (conn_write 0 (\<lambda>_. c)) s = Inr (s\<lparr>sy_store := ?st\<rparr>)"
      using assms(2) by (simp add: sys_store_def conn_write_def opened_slots_def maxConnections_def)
    show ?thesis
    proof (cases "fst (ad_lock a) = 0")
      case lock: True
      then have r: "ret = 0" "c = snd (MFConn_Init 0 0 (ad_socket a) 0)" using MFConn_Init_status [OF i] by simp_all
      have "broker_is B b x (s\<lparr>sy_store := ?st\<rparr>)" using assms(1) by simp
      from broker_is_write [OF this, of "\<lambda>x. x\<lparr>mb_ConnectionCount := mb_ConnectionCount x + 1\<rparr>"] obtain s1 where
        s1: "broker_write b (\<lambda>x. x\<lparr>mb_ConnectionCount := mb_ConnectionCount x + 1\<rparr>) (s\<lparr>sy_store := ?st\<rparr>) = Inr s1"
        "broker_is B b (x\<lparr>mb_ConnectionCount := mb_ConnectionCount x + 1\<rparr>) s1" "sy_store s1 = ?st" "sy_threads s1 = sy_threads s" by auto
      have "broker_open Mode b a s = Inr (0, s1)" using True i r(1) w s1(1) bmClient by (simp add: broker_open_def Let_def)
      moreover have "bs_conns ?st = opened_slots Mode (ad_socket a)"
        using assms(2,3) r(2) bmClient by (simp add: opened_slots_def)
      ultimately show ?thesis using s1 assms(3) bmClient by (intro exI [of _ 0] exI [of _ s1]) (simp add: opened_def usable_def True lock)
    next
      case lock: False
      then have r: "ret = snd (ad_lock a)" "c = zero_connection" using MFConn_Init_status [OF i] by simp_all
      then have nz: "ret \<noteq> 0" using lock assms(4) by (simp add: lock_ok_def)
      let ?s = "sys_close (ad_socket a) (s\<lparr>sy_store := ?st\<rparr>)"
      have "broker_open Mode b a s = Inr (ret, ?s)" using True i nz w bmClient by (simp add: broker_open_def Let_def)
      moreover have "bs_conns ?st = opened_slots Mode INVALID_SOCKET"
        using assms(2) r(2) by (simp add: opened_slots_def maxConnections_def list_update_same_conv)
      ultimately show ?thesis using nz assms(1)
        by (intro exI [of _ ret] exI [of _ ?s]) (simp add: sys_close_def broker_is_def usable_def bmClient lock)
    qed
  qed
qed

lemma open_loop_outcome:
  assumes "broker_is B b x s" "bs_conns (sy_store s) = opened_slots Mode INVALID_SOCKET" "ret = 0 \<longrightarrow> sock = INVALID_SOCKET"
    "\<forall>a \<in> set addrs. lock_ok a"
  shows "\<exists>ret' sock' s'. open_loop Mode b addrs ret sock s = Inr (ret', sock', s') \<and> sy_threads s' = sy_threads s \<and>
    bs_heap (sy_store s') = bs_heap (sy_store s) \<and>
    (if ret' = 0 then (if sock' = INVALID_SOCKET then ret = 0 \<and> (addrs = [] \<or> ad_socket (hd addrs) = INVALID_SOCKET)
         else (ret = 0 \<longrightarrow> ad_socket (hd addrs) \<noteq> INVALID_SOCKET) \<and> (\<exists>a \<in> set addrs. usable Mode a \<and> sock' = ad_socket a)) \<and> broker_is B b (opened Mode sock' x) s' \<and>
        bs_conns (sy_store s') = opened_slots Mode sock'
     else (ret \<noteq> 0 \<or> addrs \<noteq> [] \<and> ad_socket (hd addrs) \<noteq> INVALID_SOCKET) \<and>
       (\<forall>a \<in> set addrs. \<not> usable Mode a) \<and> broker_is B b x s' \<and> bs_conns (sy_store s') = opened_slots Mode INVALID_SOCKET)"
  using assms
proof (induction addrs arbitrary: ret sock s)
  case Nil
  then show ?case by (simp add: opened_def)
next
  case (Cons a addrs)
  show ?case
  proof (cases "ad_socket a = INVALID_SOCKET")
    case True
    show ?thesis
    proof (cases "ret = 0")
      case z: True
      then show ?thesis using True Cons.prems by (simp add: opened_def)
    next
      case False
      then have e: "open_loop Mode b (a # addrs) ret sock s = open_loop Mode b addrs ret (ad_socket a) s" using True by simp
      from Cons.IH [of s ret "ad_socket a"] Cons.prems False True obtain ret' sock' s' where
        i: "open_loop Mode b addrs ret (ad_socket a) s = Inr (ret', sock', s')" "sy_threads s' = sy_threads s"
        "bs_heap (sy_store s') = bs_heap (sy_store s)"
        "ret' = 0 \<Longrightarrow> (\<exists>a \<in> set addrs. usable Mode a \<and> sock' = ad_socket a) \<and> sock' \<noteq> INVALID_SOCKET \<and>
          broker_is B b (opened Mode sock' x) s' \<and> bs_conns (sy_store s') = opened_slots Mode sock'"
        "ret' \<noteq> 0 \<Longrightarrow> (\<forall>a \<in> set addrs. \<not> usable Mode a) \<and> broker_is B b x s' \<and>
          bs_conns (sy_store s') = opened_slots Mode INVALID_SOCKET"
        by (auto split: if_splits)
      show ?thesis unfolding e using i(1-3) False True
        by (intro exI [of _ ret'] exI [of _ sock'] exI [of _ s']) (cases "ret' = 0"; use i(4,5) in \<open>auto simp: usable_def\<close>)
    qed
  next
    case False
    from broker_open_outcome [OF Cons.prems(1,2) False] Cons.prems(4) obtain r s1 where
      o: "broker_open Mode b a s = Inr (r, s1)" "sy_threads s1 = sy_threads s" "r = 0 \<longleftrightarrow> usable Mode a" "bs_heap (sy_store s1) = bs_heap (sy_store s)"
      "if r = 0 then broker_is B b (opened Mode (ad_socket a) x) s1 \<and> bs_conns (sy_store s1) = opened_slots Mode (ad_socket a)
       else broker_is B b x s1 \<and> bs_conns (sy_store s1) = opened_slots Mode INVALID_SOCKET" by auto
    show ?thesis
    proof (cases "r = 0")
      case True
      then show ?thesis using o False by auto
    next
      case z: False
      then have e: "open_loop Mode b (a # addrs) ret sock s = open_loop Mode b addrs r (ad_socket a) s1" using o(1) False by simp
      from Cons.IH [of s1 r "ad_socket a"] Cons.prems(4) o z obtain ret' sock' s' where
        i: "open_loop Mode b addrs r (ad_socket a) s1 = Inr (ret', sock', s')" "sy_threads s' = sy_threads s1"
        "bs_heap (sy_store s') = bs_heap (sy_store s1)"
        "ret' = 0 \<Longrightarrow> (\<exists>a \<in> set addrs. usable Mode a \<and> sock' = ad_socket a) \<and> sock' \<noteq> INVALID_SOCKET \<and>
          broker_is B b (opened Mode sock' x) s' \<and> bs_conns (sy_store s') = opened_slots Mode sock'"
        "ret' \<noteq> 0 \<Longrightarrow> (\<forall>a \<in> set addrs. \<not> usable Mode a) \<and> broker_is B b x s' \<and>
          bs_conns (sy_store s') = opened_slots Mode INVALID_SOCKET"
        by (auto split: if_splits)
      show ?thesis unfolding e using i(1-3) False o(2-4) z
        by (intro exI [of _ ret'] exI [of _ sock'] exI [of _ s']) (cases "ret' = 0"; use i(4,5) in \<open>auto simp: usable_def\<close>)
    qed
  qed
qed

lemma broker_release_unref:
  assumes "broker_is B b x s" "b \<noteq> 0" "B (b - 0x10) = None"
  shows "broker_release b s = Inr (s\<lparr>sy_brokers := B, sy_store := (sy_store s)\<lparr>bs_conns := []\<rparr>\<rparr>)"
  using assms by (simp add: broker_release_def broker_is_def MFGen_RefMemRelease_def fun_upd_idem)

lemma broker_addref_release:
  assumes "broker_is B b x s" "b \<noteq> 0"
  shows "rbind (MFGen_RefMemAddRef b (sy_brokers s)) (\<lambda>h. Inr (s\<lparr>sy_brokers := h\<rparr>)) =
      Inr (s\<lparr>sy_brokers := B(b - 0x10 \<mapsto> \<lparr>RefCount = 2, Contents = x\<rparr>)\<rparr>)"
    "broker_release b (s\<lparr>sy_brokers := B(b - 0x10 \<mapsto> \<lparr>RefCount = 2, Contents = x\<rparr>)\<rparr>) = Inr s"
  using assms by (simp_all add: broker_is_def broker_release_def MFGen_RefMemAddRef_def MFGen_RefMemRelease_def)

text \<open>The broker as \<open>MFBroker_Alloc\<close> fills it in: the context of the message callback is that of the error callback.\<close>

definition initial_broker :: "EBrokerMode \<Rightarrow> u64 \<Rightarrow> u64 \<Rightarrow> u64 \<Rightarrow> MF_BROKER" where
  "initial_broker Mode MC EC ECC = zero_broker\<lparr>mb_Mode := Mode, mb_MessageCallback := MC, mb_MessageCallbackContext := ECC,
     mb_ErrorCallback := EC, mb_ErrorCallbackContext := ECC, mb_ListenSocket := INVALID_SOCKET\<rparr>"

text \<open>A broker that has been started: its socket, its threads, its slots.\<close>

definition started :: "winsys \<Rightarrow> EBrokerMode \<Rightarrow> MF_BROKER \<Rightarrow> u64 \<Rightarrow> u64 \<Rightarrow> MF_BROKER \<Rightarrow> system \<Rightarrow> system \<Rightarrow> bool" where
  "started E Mode x0 b sock x s s' \<longleftrightarrow>
     (\<exists>L T. length T = workerThreadCount \<and> x = (opened Mode sock x0)\<lparr>mb_ListenThread := L, mb_ThreadCount := thread_count Mode, mb_Threads := T\<rparr>) \<and>
     broker_is (sy_brokers s) b x s' \<and> threads_added (sy_threads s) (broker_threads x) (sy_threads s') \<and>
     bs_conns (sy_store s') = opened_slots Mode sock \<and> bs_heap (sy_store s') = bs_heap (sy_store s)"

lemma opened_fields [simp]:
  "mb_Threads (opened Mode sock x) = mb_Threads x" "mb_Mode (opened Mode sock x) = mb_Mode x"
  by (simp_all add: opened_def split: EBrokerMode.split)

lemma started_fields:
  assumes "started E Mode (initial_broker Mode MC EC ECC) b sock x s s'"
  shows "length (broker_threads x) = (if Mode = bmClient then 1 else 9)" "mb_MessageCallbackContext x = ECC" "mb_Mode x = Mode"
    "mb_ConnectionCount x = (if Mode = bmClient \<and> sock \<noteq> INVALID_SOCKET then 1 else 0)"
    "mb_ListenSocket x = (if Mode = bmServer then sock else INVALID_SOCKET)" "length (take (mb_ThreadCount x) (mb_Threads x)) = thread_count Mode"
proof -
  obtain L T where x: "length T = workerThreadCount"
    "x = (opened Mode sock (initial_broker Mode MC EC ECC))\<lparr>mb_ListenThread := L, mb_ThreadCount := thread_count Mode, mb_Threads := T\<rparr>"
    using assms by (auto simp: started_def)
  have m: "mb_Mode (initial_broker M MC EC ECC) = M" for M by (simp add: initial_broker_def)
  show "length (broker_threads x) = (if Mode = bmClient then 1 else 9)"
    by (cases Mode) (simp_all add: x m broker_threads_def thread_count_def workerThreadCount_def)
  show "mb_Mode x = Mode" by (simp add: x(2) m)
  show "mb_MessageCallbackContext x = ECC" "mb_ConnectionCount x = (if Mode = bmClient \<and> sock \<noteq> INVALID_SOCKET then 1 else 0)"
    "mb_ListenSocket x = (if Mode = bmServer then sock else INVALID_SOCKET)"
    by (cases Mode; simp add: x(2) opened_def initial_broker_def zero_broker_def)+
  show "length (take (mb_ThreadCount x) (mb_Threads x)) = thread_count Mode"
    by (simp add: x thread_count_def workerThreadCount_def)
qed

lemma MFBroker_Alloc_cases:
  assumes "winsys_ok E" "\<forall>a \<in> set (snd (en_addrs E)). lock_ok a"
  shows "(\<exists>ret s'. MFBroker_Alloc E Mode pk sk MC MCC EC ECC s = Inr (ret, None, s') \<and> ret \<noteq> 0 \<and>
      sy_brokers s' = sy_brokers s \<and> sy_threads s' = sy_threads s \<and>
      (en_brokers E (sizeof_broker_block + 0x10) (sy_brokers s) = None \<or> fst (en_addrs E) \<noteq> 0 \<or> no_thread E (sy_threads s) \<or>
       (\<forall>a \<in> set (snd (en_addrs E)). \<not> usable Mode a) \<and>
       (snd (en_addrs E) \<noteq> [] \<and> ad_socket (hd (snd (en_addrs E))) \<noteq> INVALID_SOCKET))) \<or>
    (\<exists>b s' x sock. MFBroker_Alloc E Mode pk sk MC MCC EC ECC s = Inr (0, Some b, s') \<and> b \<noteq> 0 \<and>
      sy_brokers s (b - 0x10) = None \<and> started E Mode (initial_broker Mode MC EC ECC) b sock x s s' \<and>
      (if sock = INVALID_SOCKET then snd (en_addrs E) = [] \<or> ad_socket (hd (snd (en_addrs E))) = INVALID_SOCKET
       else ad_socket (hd (snd (en_addrs E))) \<noteq> INVALID_SOCKET \<and>
         (\<exists>a \<in> set (snd (en_addrs E)). usable Mode a \<and> sock = ad_socket a)))"
proof (cases "en_brokers E (sizeof_broker_block + 0x10) (sy_brokers s)")
  case None
  then show ?thesis by (intro disjI1) (simp add: MFBroker_Alloc_def MFGen_RefMemAlloc_def E_OUTOFMEMORY_def Let_def)
next
  case (Some a)
  define B where "B = sy_brokers s"
  define b where "b = a + 0x10"
  have f: "B (b - 0x10) = None" "b \<noteq> 0" using Some assms(1) by (auto simp: winsys_ok_def alloc_fresh_def b_def B_def)
  obtain gret addrs where g: "en_addrs E = (gret, addrs)" by (cases "en_addrs E")
  let ?init = "initial_broker Mode MC EC ECC"
  define s0 where "s0 = s\<lparr>sy_brokers := B(b - 0x10 \<mapsto> \<lparr>RefCount = 1, Contents = zero_broker\<rparr>),
    sy_store := (sy_store s)\<lparr>bs_conns := replicate maxConnections zero_connection\<rparr>\<rparr>"
  have "broker_is B b zero_broker s0" by (simp add: s0_def broker_is_def)
  from broker_is_write [OF this, of "\<lambda>_. ?init"] obtain s1 where s1: "broker_write b (\<lambda>x. ?init) s0 = Inr s1" "broker_is B b ?init s1"
    "sy_store s1 = sy_store s0" "sy_threads s1 = sy_threads s0" by blast
  let ?rest = "\<lambda>(ret, sock, s). rbind (if ret = 0 then broker_start E Mode b sock s else Inr (ret, s)) (\<lambda>(ret, s).
      rbind (if ret = 0 then rbind (MFGen_RefMemAddRef b (sy_brokers s)) (\<lambda>h. Inr (s\<lparr>sy_brokers := h\<rparr>)) else Inr s)
        (\<lambda>s. rbind (broker_release b s) (\<lambda>s. Inr (ret, if ret = 0 then Some b else None, s))))"
  have al: "MFBroker_Alloc E Mode pk sk MC MCC EC ECC s =
      rbind (if gret = 0 then open_loop Mode b addrs gret INVALID_SOCKET s1 else Inr (gret, INVALID_SOCKET, s1)) ?rest"
    using Some s1(1) g unfolding MFBroker_Alloc_def MFGen_RefMemAlloc_def s0_def b_def B_def initial_broker_def
    by (simp add: Let_def sizeof_broker_block_def maxConnections_def workerThreadCount_def)
  have fail: "?rest (ret, sock, s2) = Inr (ret, None, s2\<lparr>sy_brokers := B, sy_store := (sy_store s2)\<lparr>bs_conns := []\<rparr>\<rparr>)"
    if "ret \<noteq> 0" "broker_is B b x s2" for ret sock s2 x
    using that broker_release_unref [OF that(2) f(2,1)] by simp
  have th1: "sy_threads s1 = sy_threads s" using s1(4) by (simp add: s0_def)
  have hp1: "bs_heap (sy_store s1) = bs_heap (sy_store s)" using s1(3) by (simp add: s0_def)
  have sl1: "bs_conns (sy_store s1) = opened_slots Mode INVALID_SOCKET" using s1(3) by (simp add: s0_def opened_slots_invalid)
  show ?thesis
  proof (cases "gret = 0")
    case False
    then show ?thesis using al fail [OF False s1(2)] g th1 by (intro disjI1) (simp add: B_def)
  next
    case True
    have lk: "\<forall>a \<in> set addrs. lock_ok a" using assms(2) g by simp
    from open_loop_outcome [OF s1(2) sl1 _ lk, of gret INVALID_SOCKET] obtain ret sock s2 where
      l: "open_loop Mode b addrs gret INVALID_SOCKET s1 = Inr (ret, sock, s2)" "sy_threads s2 = sy_threads s1"
      "bs_heap (sy_store s2) = bs_heap (sy_store s1)"
      "if ret = 0 then (if sock = INVALID_SOCKET then gret = 0 \<and> (addrs = [] \<or> ad_socket (hd addrs) = INVALID_SOCKET)
          else (gret = 0 \<longrightarrow> ad_socket (hd addrs) \<noteq> INVALID_SOCKET) \<and> (\<exists>a \<in> set addrs. usable Mode a \<and> sock = ad_socket a)) \<and>
          broker_is B b (opened Mode sock ?init) s2 \<and> bs_conns (sy_store s2) = opened_slots Mode sock
       else (gret \<noteq> 0 \<or> addrs \<noteq> [] \<and> ad_socket (hd addrs) \<noteq> INVALID_SOCKET) \<and> (\<forall>a \<in> set addrs. \<not> usable Mode a) \<and>
          broker_is B b ?init s2 \<and> bs_conns (sy_store s2) = opened_slots Mode INVALID_SOCKET" by blast
    have o: "open_loop Mode b addrs 0 INVALID_SOCKET s1 = Inr (ret, sock, s2)" "sy_threads s2 = sy_threads s1"
      "bs_heap (sy_store s2) = bs_heap (sy_store s1)"
      "if ret = 0 then (if sock = INVALID_SOCKET then addrs = [] \<or> ad_socket (hd addrs) = INVALID_SOCKET
          else ad_socket (hd addrs) \<noteq> INVALID_SOCKET \<and> (\<exists>a \<in> set addrs. usable Mode a \<and> sock = ad_socket a)) \<and>
          broker_is B b (opened Mode sock ?init) s2 \<and> bs_conns (sy_store s2) = opened_slots Mode sock
       else (addrs \<noteq> [] \<and> ad_socket (hd addrs) \<noteq> INVALID_SOCKET) \<and> (\<forall>a \<in> set addrs. \<not> usable Mode a) \<and>
          broker_is B b ?init s2 \<and> bs_conns (sy_store s2) = opened_slots Mode INVALID_SOCKET"
      using l True by (simp_all split: if_splits)
    show ?thesis
    proof (cases "ret = 0")
      case False
      then show ?thesis using al True o fail [OF False] g th1
        by (intro disjI1) (auto simp: B_def)
    next
      case z: True
      have len: "length (mb_Threads (opened Mode sock ?init)) = workerThreadCount" "mb_Mode (opened Mode sock ?init) = Mode"
        by (simp_all add: initial_broker_def zero_broker_def)
      have br: "broker_is B b (opened Mode sock ?init) s2" "bs_conns (sy_store s2) = opened_slots Mode sock" using o(4) z by simp_all
      from broker_start_outcome [OF assms(1) br(1) len opened_slots_first [OF br(2)], of sock] show ?thesis
      proof (elim disjE exE conjE)
        fix s3 L T
        let ?x = "(opened Mode sock ?init)\<lparr>mb_ListenThread := L, mb_ThreadCount := thread_count Mode, mb_Threads := T\<rparr>"
        assume st: "broker_start E Mode b sock s2 = Inr (0, s3)" "length T = workerThreadCount" "sy_store s3 = sy_store s2" "broker_is B b ?x s3"
          "threads_added (sy_threads s2) (broker_threads ?x) (sy_threads s3)"
        have "started E Mode ?init b sock ?x s s3"
          unfolding started_def using st br(2) o(2,3) th1 hp1 by (auto simp: B_def)
        moreover have "?rest (0, sock, s2) = Inr (0, Some b, s3)" using st(1) broker_addref_release [OF st(4) f(2)] by simp
        ultimately show ?thesis using al True o(1,4) z f g unfolding B_def
          by (intro disjI2 exI [of _ b] exI [of _ s3] exI [of _ ?x] exI [of _ sock]) auto
      next
        fix r s3 x'
        assume st: "broker_start E Mode b sock s2 = Inr (r, s3)" "r \<noteq> 0" "no_thread E (sy_threads s2)" "broker_is B b x' s3"
          "sy_threads s3 = sy_threads s2"
        have "?rest (0, sock, s2) = Inr (r, None, s3\<lparr>sy_brokers := B, sy_store := (sy_store s3)\<lparr>bs_conns := []\<rparr>\<rparr>)"
          using st(1,2) broker_release_unref [OF st(4) f(2,1)] by simp
        then show ?thesis using al True o(1,2) z st(2,3,5) th1 by (intro disjI1) (simp add: B_def)
      qed
    qed
  qed
qed

section \<open>Ending the connections\<close>

text \<open>A connection only the broker holds.\<close>

lemma Clear_Release_ok:
  assumes "store_ok st" "ext_refs st c = 1"
  shows "\<exists>st'. rbind (MFConnection_Clear c st) (MFConnection_Release c) = Inr st' \<and> store_ok st' \<and>
    bs_conns st' = (bs_conns st)[c := freed (bs_conns st ! c)] \<and>
    bs_closed st' = bs_closed st @ close_of (bs_conns st ! c) \<and>
    (\<forall>a. bs_heap st' a = (if a + 0x10 \<in> set (MessagesToSend (bs_conns st ! c)) then None else bs_heap st a))"
proof -
  have pos: "0 < ext_refs st c" using assms(2) by simp
  note e = ext_refs_pos [OF pos]
  from Clear_ok [OF assms(1) pos] obtain s1 where s1: "MFConnection_Clear c st = Inr s1" "store_ok s1" "ext_refs s1 = ext_refs st"
    "bs_closed s1 = bs_closed st"
    "bs_conns s1 = (bs_conns st)[c := (bs_conns st ! c)\<lparr>ReferenceCount := of_nat (ext_refs st c), MessagesToSend := []\<rparr>]"
    "\<forall>a. bs_heap s1 a = (if a + 0x10 \<in> set (MessagesToSend (bs_conns st ! c)) then None else bs_heap st a)" by blast
  have c: "c < length (bs_conns s1)" "ReferenceCount (bs_conns s1 ! c) = 1" "MessagesToSend (bs_conns s1 ! c) = []"
    using e(1) s1(5) assms(2) by simp_all
  let ?s2 = "s1\<lparr>bs_conns := (bs_conns s1)[c := freed (bs_conns s1 ! c)], bs_closed := bs_closed s1 @ close_of (bs_conns s1 ! c)\<rparr>"
  have r: "MFConnection_Release c s1 = Inr ?s2"
    unfolding MFConnection_Release_def by (rule conn_release_last [OF c])
  have "0 < ext_refs s1 c" using s1(3) pos by simp
  from Release_ok [OF s1(2) this] r have "store_ok ?s2" by simp
  moreover have "freed (bs_conns s1 ! c) = freed (bs_conns st ! c)" "close_of (bs_conns s1 ! c) = close_of (bs_conns st ! c)"
    using e(1) s1(5) by (simp_all add: freed_def close_of_def)
  ultimately show ?thesis using s1 r e(1) by (intro exI [of _ ?s2]) simp
qed

text \<open>What is left of a slot, and the sockets that are closed.\<close>

definition ended :: "MF_CONNECTION \<Rightarrow> MF_CONNECTION" where
  "ended x = (if cn_State x = mcsFree then x else freed x)"

definition sockets_of :: "MF_CONNECTION list \<Rightarrow> u64 list" where
  "sockets_of cs = concat (map (\<lambda>x. if cn_State x = mcsFree then [] else close_of x) cs)"

lemma ended_free: "cn_State (ended x) = mcsFree"
  by (simp add: ended_def freed_def)

lemma free_connections_ok:
  assumes "store_ok st" "n = length (bs_conns st)" "i \<le> n"
    "\<forall>c. i \<le> c \<and> c < n \<and> cn_State (bs_conns st ! c) \<noteq> mcsFree \<longrightarrow> ext_refs st c = 1"
  shows "\<exists>st'. free_connections n i st = Inr st' \<and> store_ok st' \<and>
    bs_conns st' = take i (bs_conns st) @ map ended (drop i (bs_conns st)) \<and>
    bs_closed st' = bs_closed st @ sockets_of (drop i (bs_conns st)) \<and>
    (\<forall>a. bs_heap st' a = (if \<exists>x \<in> set (drop i (bs_conns st)). a + 0x10 \<in> set (MessagesToSend x) then None else bs_heap st a))"
  using assms
proof (induction n i st rule: free_connections.induct)
  case (1 n i st)
  have free_queue: "MessagesToSend x = []" if "x \<in> set (bs_conns st)" "cn_State x = mcsFree" for x
    using that "1.prems"(1) by (auto simp: in_set_conv_nth store_ok_def conn_ok_def)
  obtain r where
    r: "MFConn_Next (bs_conns st) 0 i n 1 = Some (Inr r)"
    "case r of None \<Rightarrow> \<forall>j. i \<le> j \<and> j < n \<longrightarrow> cn_State (bs_conns st ! j) = mcsFree
     | Some j \<Rightarrow> i \<le> j \<and> j < n \<and> cn_State (bs_conns st ! j) \<noteq> mcsFree \<and>
         (\<forall>l. i \<le> l \<and> l < j \<longrightarrow> cn_State (bs_conns st ! l) = mcsFree)"
    using MFConn_Next_spec [of 1 0 n "bs_conns st" i] "1.prems"(2) by (simp only: one_dvd simp_thms add_0) auto
  show ?case
  proof (cases r)
    case None
    then have all: "\<forall>x \<in> set (drop i (bs_conns st)). cn_State x = mcsFree"
      using r(2) "1.prems"(2) by (auto simp: in_set_conv_nth)
    then have "map ended (drop i (bs_conns st)) = drop i (bs_conns st)" by (intro map_idI) (simp add: ended_def)
    moreover have "sockets_of (drop i (bs_conns st)) = []" using all by (simp add: sockets_of_def)
    moreover have "\<forall>x \<in> set (drop i (bs_conns st)). MessagesToSend x = []" using all free_queue by (meson in_set_dropD)
    moreover have "free_connections n i st = Inr st" using r(1) None by (simp add: free_connections.simps [of n i])
    ultimately show ?thesis using "1.prems"(1) by simp
  next
    case (Some c)
    let ?cs = "bs_conns st"
    have c: "i \<le> c" "c < n" "cn_State (?cs ! c) \<noteq> mcsFree" "\<forall>l. i \<le> l \<and> l < c \<longrightarrow> cn_State (?cs ! l) = mcsFree"
      using r(2) Some by simp_all
    have "ext_refs st c = 1" using "1.prems"(4) c by blast
    from Clear_Release_ok [OF "1.prems"(1) this] obtain s1 where
      s1: "rbind (MFConnection_Clear c st) (MFConnection_Release c) = Inr s1" "store_ok s1" "bs_conns s1 = ?cs[c := freed (?cs ! c)]"
      "bs_closed s1 = bs_closed st @ close_of (?cs ! c)"
      "\<forall>a. bs_heap s1 a = (if a + 0x10 \<in> set (MessagesToSend (?cs ! c)) then None else bs_heap st a)" by blast
    obtain s0 where s0: "MFConnection_Clear c st = Inr s0" "MFConnection_Release c s0 = Inr s1"
      using s1(1) by (auto simp: rbind_Inr)
    have e: "free_connections n i st = free_connections n (c + 1) s1"
      using r(1) Some s0 by (simp add: free_connections.simps [of n i])
    have ext: "ext_refs s1 d = 1" if "c + 1 \<le> d" "d < n" "cn_State (bs_conns s1 ! d) \<noteq> mcsFree" for d
    proof -
      have "bs_conns s1 ! d = ?cs ! d" using that s1(3) by simp
      moreover have "ext_refs st d = 1" using "1.prems"(4) that c(1) calculation by simp
      ultimately show ?thesis using s1(3) by (simp add: ext_refs_def split: if_splits)
    qed
    have len: "n = length (bs_conns s1)" "c + 1 \<le> n" using s1(3) "1.prems"(2) c(2) by simp_all
    have "\<exists>st'. free_connections n (c + 1) s1 = Inr st' \<and> store_ok st' \<and>
      bs_conns st' = take (c + 1) (bs_conns s1) @ map ended (drop (c + 1) (bs_conns s1)) \<and>
      bs_closed st' = bs_closed s1 @ sockets_of (drop (c + 1) (bs_conns s1)) \<and>
      (\<forall>a. bs_heap st' a = (if \<exists>x \<in> set (drop (c + 1) (bs_conns s1)). a + 0x10 \<in> set (MessagesToSend x) then None else bs_heap s1 a))"
      by (rule "1.IH" [OF r(1) refl, unfolded Some, OF refl]) (use s1(2) len ext in auto)
    then obtain st' where st': "free_connections n (c + 1) s1 = Inr st'" "store_ok st'"
      "bs_conns st' = take (c + 1) (bs_conns s1) @ map ended (drop (c + 1) (bs_conns s1))"
      "bs_closed st' = bs_closed s1 @ sockets_of (drop (c + 1) (bs_conns s1))"
      "\<forall>a. bs_heap st' a = (if \<exists>x \<in> set (drop (c + 1) (bs_conns s1)). a + 0x10 \<in> set (MessagesToSend x) then None else bs_heap s1 a)"
      by blast
    let ?free = "take (c - i) (drop i ?cs)"
    have split: "drop i ?cs = ?free @ ?cs ! c # drop (c + 1) ?cs"
      using c(1,2) "1.prems"(2) by (metis Cons_nth_drop_Suc Suc_eq_plus1 append_take_drop_id drop_drop le_add_diff_inverse2)
    have free: "cn_State x = mcsFree" "MessagesToSend x = []" if mem: "x \<in> set ?free" for x
    proof -
      obtain l where l: "l < length ?free" "?free ! l = x" using mem by (meson in_set_conv_nth)
      then have "l < c - i" "x = ?cs ! (i + l)" using c(2) "1.prems"(2) by simp_all
      then show "cn_State x = mcsFree" using c(4) by simp
      then show "MessagesToSend x = []" using free_queue mem by (meson in_set_dropD in_set_takeD)
    qed
    have d1: "drop (c + 1) (bs_conns s1) = drop (c + 1) ?cs" using s1(3) by simp
    have "map ended ?free = ?free" using free(1) by (intro map_idI) (simp add: ended_def)
    moreover have "take (c + 1) (bs_conns s1) = take i ?cs @ ?free @ [ended (?cs ! c)]"
    proof -
      have "take (c + 1) (bs_conns s1) = take c ?cs @ [freed (?cs ! c)]"
        using s1(3) c(2) "1.prems"(2) by (simp add: take_Suc_conv_app_nth)
      moreover have "take c ?cs = take i ?cs @ ?free" using c(1) by (metis le_add_diff_inverse take_add)
      ultimately show ?thesis using c(3) by (simp add: ended_def)
    qed
    ultimately have conns: "bs_conns st' = take i ?cs @ map ended (drop i ?cs)"
      unfolding st'(3) d1 by (subst split) simp
    have "sockets_of ?free = []" using free(1) by (simp add: sockets_of_def)
    then have closed: "bs_closed st' = bs_closed st @ sockets_of (drop i ?cs)"
      unfolding st'(4) d1 s1(4) by (subst split) (simp add: sockets_of_def c(3))
    have "set (drop i ?cs) = set ?free \<union> insert (?cs ! c) (set (drop (c + 1) ?cs))"
      using arg_cong [OF split, of set] by (simp only: set_append set_simps)
    then have heap: "bs_heap st' a = (if \<exists>x \<in> set (drop i ?cs). a + 0x10 \<in> set (MessagesToSend x) then None else bs_heap st a)" for a
      unfolding st'(5) [rule_format] d1 s1(5) [rule_format] by (auto simp: free(2))
    show ?thesis unfolding e using st'(1,2) conns closed heap by blast
  qed
qed

section \<open>A connection that is held by its own queue only\<close>




section \<open>MFBroker_Free\<close>

text \<open>What the threads of a broker, joined one after the other, leave of the connections.\<close>

definition joined :: "winsys \<Rightarrow> MF_BROKER \<Rightarrow> broker_store \<Rightarrow> broker_store" where
  "joined E x st =
     (let st = fold (after_thread E True x) (take (mb_ThreadCount x) (mb_Threads x)) st
      in if mb_Mode x = bmServer
         then (after_thread E False x (mb_ListenThread x) st)
           \<lparr>bs_closed := bs_closed (after_thread E False x (mb_ListenThread x) st) @ [mb_ListenSocket x]\<rparr>
         else st)"

lemma MFBroker_Free_joins:
  assumes "broker_is B b x s" "threads_added H (broker_threads x) (sy_threads s)"
  shows "MFBroker_Free E b s = rbind (sys_store (free_connections maxConnections 0)
    (s\<lparr>sy_threads := H, sy_store := joined E x (sy_store s)\<rparr>)) (broker_release b)"
proof -
  let ?ts = "take (mb_ThreadCount x) (mb_Threads x)" and ?ls = "if mb_Mode x = bmServer then [mb_ListenThread x] else []"
  have a: "threads_added H (?ls @ ?ts) (sy_threads s)" using assms(2) by (simp add: broker_threads_def)
  from end_threads [OF a broker_is_read [OF assms(1)], of E True] obtain k where
    k: "rbind (for_each (\<lambda>t. sys_threads (MFThread_Terminate t)) ?ts s) (for_each (wait_close E True b) ?ts) =
      Inr (s\<lparr>sy_threads := k, sy_store := fold (after_thread E True x) ?ts (sy_store s)\<rparr>)" "threads_added H ?ls k" by blast
  let ?s1 = "s\<lparr>sy_threads := k, sy_store := fold (after_thread E True x) ?ts (sy_store s)\<rparr>"
  have e: "MFBroker_Free E b s = rbind (rbind (for_each (\<lambda>t. sys_threads (MFThread_Terminate t)) ?ts s) (for_each (wait_close E True b) ?ts))
      (\<lambda>s. rbind (if mb_Mode x = bmServer
               then rbind (end_listener E b s) (\<lambda>s. Inr (sys_close (mb_ListenSocket x) s)) else Inr s) (\<lambda>s.
        rbind (sys_store (free_connections maxConnections 0) s) (\<lambda>s.
          broker_release b s)))"
    unfolding MFBroker_Free_def broker_is_read [OF assms(1)] by (simp add: rbind_assoc Let_def)
  show ?thesis
  proof (cases "mb_Mode x = bmServer")
    case True
    have rd: "mem_read b (sy_brokers ?s1) = Inr x" using broker_is_read [OF assms(1)] by simp
    have l: "threads_added H ([] @ [mb_ListenThread x]) (sy_threads ?s1)" using k(2) True by simp
    from end_threads [OF l rd, of E False] obtain k2 where
      k2: "rbind (for_each (\<lambda>t. sys_threads (MFThread_Terminate t)) [mb_ListenThread x] ?s1)
          (for_each (wait_close E False b) [mb_ListenThread x]) =
        Inr (?s1\<lparr>sy_threads := k2, sy_store := fold (after_thread E False x) [mb_ListenThread x] (sy_store ?s1)\<rparr>)" "k2 = H" by auto
    have "end_listener E b ?s1 = Inr (?s1\<lparr>sy_threads := H, sy_store := after_thread E False x (mb_ListenThread x) (sy_store ?s1)\<rparr>)"
      using k2 unfolding end_listener_each [OF rd] by simp
    then show ?thesis unfolding e k(1) using True by (simp add: joined_def sys_close_def Let_def)
  next
    case False
    then show ?thesis unfolding e k(1) using k(2) by (simp add: joined_def)
  qed
qed

text \<open>How often the listening socket is closed while the threads are joined.\<close>

lemma after_thread_closes:
  assumes "\<forall>t st. \<exists>cl. bs_closed (snd (en_loop E t st)) = bs_closed st @ cl" "mb_Mode x = bmServer"
  shows "count_list (bs_closed st) (mb_ListenSocket x) + (if w then 1 else 0) \<le>
    count_list (bs_closed (after_thread E w x t st)) (mb_ListenSocket x)"
proof -
  obtain cl where "bs_closed (snd (en_loop E t st)) = bs_closed st @ cl" using assms(1) by blast
  then show ?thesis using assms(2) by (simp add: after_thread_def Let_def)
qed

lemma joined_closes:
  assumes "\<forall>t st. \<exists>cl. bs_closed (snd (en_loop E t st)) = bs_closed st @ cl" "mb_Mode x = bmServer"
  shows "count_list (bs_closed st) (mb_ListenSocket x) + length (take (mb_ThreadCount x) (mb_Threads x)) + 1 \<le>
    count_list (bs_closed (joined E x st)) (mb_ListenSocket x)"
proof -
  let ?n = "\<lambda>st. count_list (bs_closed st) (mb_ListenSocket x)"
  have "?n st + length ts \<le> ?n (fold (after_thread E True x) ts st)" for ts
  proof (induction ts arbitrary: st)
    case (Cons t ts)
    show ?case using after_thread_closes [OF assms, of st True t] Cons [of "after_thread E True x t st"] by simp
  qed simp
  note w = this [of "take (mb_ThreadCount x) (mb_Threads x)"]
  show ?thesis
    using w after_thread_closes [OF assms, of "fold (after_thread E True x) (take (mb_ThreadCount x) (mb_Threads x)) st" False "mb_ListenThread x"]
    by (simp add: joined_def assms(2) Let_def)
qed

section \<open>Properties\<close>

text \<open>What can make \<open>MFBroker_Alloc\<close> fail.\<close>

definition may_fail :: "winsys \<Rightarrow> EBrokerMode \<Rightarrow> system \<Rightarrow> bool" where
  "may_fail E Mode s \<longleftrightarrow> en_brokers E (sizeof_broker_block + 0x10) (sy_brokers s) = None \<or> fst (en_addrs E) \<noteq> 0 \<or>
     no_thread E (sy_threads s) \<or> (\<forall>a \<in> set (snd (en_addrs E)). \<not> usable Mode a)"


text \<open>
  A broker whose first address gives no socket: \<open>MFBroker_Alloc\<close> takes the 0 of \<open>getaddrinfo\<close> for
  success, does not try the other addresses, and returns a running broker without a connection and
  without a socket to listen on.
\<close>

theorem MFBroker_Alloc_without_socket:
  assumes "winsys_ok E" "\<forall>a \<in> set addrs. lock_ok a" "en_addrs E = (0, addrs)" "addrs \<noteq> []" "ad_socket (hd addrs) = INVALID_SOCKET"
    "\<not> no_thread E (sy_threads s)" "en_brokers E (sizeof_broker_block + 0x10) (sy_brokers s) \<noteq> None"
  shows "\<exists>b x s'. MFBroker_Alloc E Mode pk sk MC MCC EC ECC s = Inr (0, Some b, s') \<and> mem_read b (sy_brokers s') = Inr x \<and>
    mb_ConnectionCount x = 0 \<and> mb_ListenSocket x = INVALID_SOCKET \<and> 0 < length (broker_threads x) \<and>
    (\<forall>c \<in> set (bs_conns (sy_store s')). cn_State c = mcsFree)"
proof -
  have "\<not> (addrs \<noteq> [] \<and> ad_socket (hd addrs) \<noteq> INVALID_SOCKET)" "\<forall>a \<in> set (snd (en_addrs E)). lock_ok a" using assms(2,3,5) by simp_all
  with MFBroker_Alloc_cases [OF assms(1), of Mode pk sk MC MCC EC ECC s] assms(3,5-7) obtain b s' x sock where
    r: "MFBroker_Alloc E Mode pk sk MC MCC EC ECC s = Inr (0, Some b, s')"
    "started E Mode (initial_broker Mode MC EC ECC) b sock x s s'" "sock = INVALID_SOCKET"
    by (auto split: if_splits)
  have "mem_read b (sy_brokers s') = Inr x" using r(2) broker_is_read by (auto simp: started_def)
  moreover have "bs_conns (sy_store s') = replicate maxConnections zero_connection"
    using r(2,3) by (simp add: started_def opened_slots_invalid)
  ultimately show ?thesis using r(1,3) started_fields [OF r(2)]
    by (intro exI [of _ b] exI [of _ x] exI [of _ s']) (cases Mode; simp add: zero_connection_def)
qed

text \<open>
  C12: The life of a broker.  After \<open>MFBroker_Alloc\<close>, and whatever its threads then do, as long as they leave
  every connection in use with the broker's reference only, \<open>MFBroker_Free\<close> ends and joins every
  thread, frees the messages that still wait, closes the socket of every connection and frees the
  broker: the heaps of brokers and of threads are those before the call of \<open>MFBroker_Alloc\<close>.  A
  server's listening socket is closed by each worker and once more.
\<close>

theorem MFBroker_life:
  assumes "winsys_ok E" "\<forall>a \<in> set (snd (en_addrs E)). lock_ok a"
    "MFBroker_Alloc E Mode pk sk MC MCC EC ECC s = Inr (0, Some b, s1)" "mem_read b (sy_brokers s1) = Inr x"
    "joined E x (sy_store s1) = st" "store_ok st" "length (bs_conns st) = maxConnections"
    "\<forall>c < maxConnections. cn_State (bs_conns st ! c) \<noteq> mcsFree \<longrightarrow> ext_refs st c = 1"
    "\<forall>t st. \<exists>cl. bs_closed (snd (en_loop E t st)) = bs_closed st @ cl"
  shows "\<exists>s'. MFBroker_Free E b s1 = Inr s' \<and> sy_brokers s' = sy_brokers s \<and> sy_threads s' = sy_threads s \<and>
    (\<forall>a. bs_heap (sy_store s') a = (if \<exists>c \<in> set (bs_conns st). a + 0x10 \<in> set (MessagesToSend c) then None else bs_heap st a)) \<and>
    bs_closed (sy_store s') = bs_closed st @ sockets_of (bs_conns st) \<and>
    (Mode = bmServer \<longrightarrow>
      count_list (bs_closed (sy_store s1)) (mb_ListenSocket x) + 9 \<le> count_list (bs_closed (sy_store s')) (mb_ListenSocket x))"
proof -
  from MFBroker_Alloc_cases [OF assms(1,2), of Mode pk sk MC MCC EC ECC s] assms(3) obtain x' sock where
    b: "b \<noteq> 0" "sy_brokers s (b - 0x10) = None" and st': "started E Mode (initial_broker Mode MC EC ECC) b sock x' s s1"
    by auto
  have fs: "broker_is (sy_brokers s) b x' s1" "threads_added (sy_threads s) (broker_threads x') (sy_threads s1)"
    using st' by (simp_all add: started_def)
  then have x: "x' = x" using broker_is_read assms(4) by fastforce
  note fs = fs [unfolded x] and f = started_fields [OF st' [unfolded x]]
  let ?s = "s1\<lparr>sy_threads := sy_threads s, sy_store := joined E x (sy_store s1)\<rparr>"
  from free_connections_ok [OF assms(6) assms(7) [symmetric], of 0] assms(8) obtain st2 where
    st2: "free_connections maxConnections 0 st = Inr st2" "bs_closed st2 = bs_closed st @ sockets_of (bs_conns st)"
    "\<forall>a. bs_heap st2 a = (if \<exists>c \<in> set (bs_conns st). a + 0x10 \<in> set (MessagesToSend c) then None else bs_heap st a)"
    by auto
  have "broker_is (sy_brokers s) b x (s1\<lparr>sy_threads := sy_threads s, sy_store := st2\<rparr>)" using fs(1) by simp
  from broker_release_unref [OF this b]
  have r: "MFBroker_Free E b s1 = Inr (s1\<lparr>sy_threads := sy_threads s, sy_store := st2\<lparr>bs_conns := []\<rparr>, sy_brokers := sy_brokers s\<rparr>)"
    unfolding MFBroker_Free_joins [OF fs] using st2(1) assms(5) by (simp add: sys_store_def)
  have "count_list (bs_closed (sy_store s1)) (mb_ListenSocket x) + 9 \<le> count_list (bs_closed st) (mb_ListenSocket x)" if "Mode = bmServer"
    using joined_closes [of E x "sy_store s1"] f(3,6) that assms(5,9) by (simp add: thread_count_def workerThreadCount_def)
  then show ?thesis unfolding r using st2(2,3) by auto
qed


section \<open>Instances\<close>

text \<open>A system with nine blocks for threads, one for a broker, and threads that return at once.\<close>

definition demo_addresses :: "u64 list" where
  "demo_addresses = [0x1000, 0x2000, 0x3000, 0x4000, 0x5000, 0x6000, 0x7000, 0x8000, 0x9000]"

definition demo_winsys :: "address list \<Rightarrow> winsys" where
  "demo_winsys addrs = \<lparr>en_addrs = (0, addrs), en_create = (\<lambda>n. Inl (0x100, 1)),
     en_brokers = (\<lambda>n h. if h 0x9000 = None then Some 0x9000 else None),
     en_threads = (\<lambda>n h. find (\<lambda>a. h a = None) demo_addresses), en_loop = (\<lambda>t st. (0, st))\<rparr>"

definition demo_address :: "u64 \<Rightarrow> address" where
  "demo_address sock = \<lparr>ad_socket = sock, ad_connect = (0, 0), ad_bind = (0, 0), ad_listen = (0, 0), ad_lock = (0, 0)\<rparr>"

definition demo_system :: system where
  "demo_system = \<lparr>sy_brokers = Map.empty, sy_store = \<lparr>bs_conns = [], bs_heap = Map.empty, bs_closed = []\<rparr>,
     sy_threads = Map.empty, sy_lastIndex = 0\<rparr>"

lemma demo_winsys_ok: "winsys_ok (demo_winsys addrs)"
proof -
  have "a + 0x10 \<noteq> 0" if "a \<in> set demo_addresses" for a using that by (auto simp: demo_addresses_def)
  then have "alloc_fresh (en_threads (demo_winsys addrs))"
    by (auto simp: alloc_fresh_def demo_winsys_def find_Some_iff)
  then show ?thesis by (auto simp: winsys_ok_def demo_winsys_def alloc_fresh_def)
qed

lemma demo_lock_ok: "lock_ok (demo_address sock)"
  by (simp add: lock_ok_def demo_address_def)

lemma demo_threads: "\<not> no_thread (demo_winsys addrs) Map.empty"
proof -
  have False if l: "length ts \<le> workerThreadCount" and a: "threads_added Map.empty ts h" and
    f: "find (\<lambda>a. h a = None) demo_addresses = None" for ts h
  proof -
    have "a + 0x10 \<in> set ts" if "a \<in> set demo_addresses" for a
    proof (rule ccontr)
      assume "a + 0x10 \<notin> set ts"
      then have "h a = None" using a unfolding threads_added_def by simp
      then show False using f that by (auto simp: find_None_iff)
    qed
    then have s: "(\<lambda>a. a + 0x10) ` set demo_addresses \<subseteq> set ts" by blast
    have "distinct demo_addresses" by (simp add: demo_addresses_def)
    then have "card (set demo_addresses) = 9" by (simp add: distinct_card) (simp add: demo_addresses_def)
    moreover have "inj_on (\<lambda>a. a + 0x10 :: u64) (set demo_addresses)" by (simp add: inj_on_def)
    ultimately have "card ((\<lambda>a. a + 0x10) ` set demo_addresses) = 9" by (simp add: card_image)
    then have "9 \<le> card (set ts)" using card_mono [OF _ s] by simp
    then show False using l card_length [of ts] by (simp add: workerThreadCount_def)
  qed
  then show ?thesis by (auto simp: no_thread_def demo_winsys_def)
qed

lemma demo_memory: "en_brokers (demo_winsys addrs) n Map.empty \<noteq> None"
  by (simp add: demo_winsys_def)

lemma demo_usable: "sock \<noteq> INVALID_SOCKET \<Longrightarrow> usable Mode (demo_address sock)"
  by (simp add: usable_def demo_address_def ws_status_def split: EBrokerMode.split)

text \<open>A server on socket 5; a server whose first address fails; the life of the former.\<close>

lemma demo_simps [simp]:
  "en_addrs (demo_winsys addrs) = (0, addrs)" "ad_socket (demo_address sock) = sock" "en_loop (demo_winsys addrs) t st = (0, st)"
  "sy_brokers demo_system = Map.empty" "sy_threads demo_system = Map.empty"
  by (simp_all add: demo_winsys_def demo_address_def demo_system_def)

lemma demo_may_fail: "\<not> may_fail (demo_winsys [demo_address 5]) Mode demo_system"
proof -
  have "usable Mode (demo_address 5)" by (rule demo_usable) (simp add: INVALID_SOCKET_def)
  then show ?thesis using demo_memory demo_threads by (simp add: may_fail_def del: not_None_eq)
qed

abbreviation demo_alloc :: "address list \<Rightarrow> EBrokerMode \<Rightarrow> (i32 \<times> u64 option \<times> system) result" where
  "demo_alloc addrs Mode \<equiv>
     MFBroker_Alloc (demo_winsys addrs) Mode (mb_PublicKey zero_broker) (mb_SecretKey zero_broker) 1 2 3 4 demo_system"

lemma demo_locks: "\<forall>a \<in> set (snd (en_addrs (demo_winsys [demo_address 5]))). lock_ok a"
  using demo_lock_ok by simp


lemma MFBroker_Alloc_without_socket_witness:
  "\<exists>b x s'. demo_alloc [demo_address INVALID_SOCKET, demo_address 5] bmServer = Inr (0, Some b, s') \<and>
    mem_read b (sy_brokers s') = Inr x \<and> mb_ListenSocket x = INVALID_SOCKET"
proof -
  let ?as = "[demo_address INVALID_SOCKET, demo_address 5]"
  have "\<forall>a \<in> set ?as. lock_ok a" "en_addrs (demo_winsys ?as) = (0, ?as)" "?as \<noteq> []" "ad_socket (hd ?as) = INVALID_SOCKET"
    "\<not> no_thread (demo_winsys ?as) (sy_threads demo_system)"
    "en_brokers (demo_winsys ?as) (sizeof_broker_block + 0x10) (sy_brokers demo_system) \<noteq> None"
    using demo_lock_ok demo_threads demo_memory by (simp_all del: not_None_eq)
  from MFBroker_Alloc_without_socket [OF demo_winsys_ok this] show ?thesis by blast
qed

text \<open>A server that is freed before it has accepted anything: socket 5 is closed nine times.\<close>

lemma demo_joined:
  "bs_conns (joined (demo_winsys addrs) x st) = bs_conns st" "bs_heap (joined (demo_winsys addrs) x st) = bs_heap st"
proof -
  have "bs_conns (fold (after_thread (demo_winsys addrs) w x) ts st) = bs_conns st \<and>
      bs_heap (fold (after_thread (demo_winsys addrs) w x) ts st) = bs_heap st" for w ts
    by (induction ts arbitrary: st) (simp_all add: after_thread_def)
  then show "bs_conns (joined (demo_winsys addrs) x st) = bs_conns st" "bs_heap (joined (demo_winsys addrs) x st) = bs_heap st"
    by (simp_all add: joined_def after_thread_def Let_def)
qed

lemma MFBroker_life_witness:
  "\<exists>b s1 s2. demo_alloc [demo_address 5] bmServer = Inr (0, Some b, s1) \<and>
    MFBroker_Free (demo_winsys [demo_address 5]) b s1 = Inr s2 \<and> sy_threads s2 = Map.empty \<and> sy_brokers s2 = Map.empty"
proof -
  from MFBroker_Alloc_cases [OF demo_winsys_ok demo_locks, of bmServer "mb_PublicKey zero_broker" "mb_SecretKey zero_broker" 1 2 3 4
      demo_system] demo_may_fail
  obtain b s1 x sock where r: "demo_alloc [demo_address 5] bmServer = Inr (0, Some b, s1)"
    "started (demo_winsys [demo_address 5]) bmServer (initial_broker bmServer 1 3 4) b sock x demo_system s1"
    unfolding may_fail_def by blast
  have rd: "mem_read b (sy_brokers s1) = Inr x" using r(2) broker_is_read by (auto simp: started_def)
  let ?st = "joined (demo_winsys [demo_address 5]) x (sy_store s1)"
  have c: "bs_conns ?st = replicate maxConnections zero_connection"
    using r(2) by (simp add: demo_joined started_def opened_slots_def)
  have h: "bs_heap ?st = Map.empty" using r(2) by (simp add: demo_joined started_def demo_system_def)
  have "store_ok ?st" using c h by (simp add: store_ok_def heap_ok_def conn_ok_def zero_connection_def)
  moreover have "\<forall>c < maxConnections. cn_State (bs_conns ?st ! c) \<noteq> mcsFree \<longrightarrow> ext_refs ?st c = 1"
    using c by (simp add: zero_connection_def)
  ultimately show ?thesis
    using MFBroker_life [OF demo_winsys_ok demo_locks r(1) rd refl] c r(1) by auto
qed





end
