(* ===== verification/Spec2Isabelle.thy ===== *)
theory Spec2Isabelle
  imports Prelude QueueSpec MFList SodiumUtils StreamCipher Salsa Streaming Poly1305 Poly1305_Arith Poly1305_Correct Secretbox Blake2b Blake2b_Correct Sha2 Sha256 Sha512 Box ChaCha MFCrypto RefCounting Memory Messages Protocol Thread Network Connections Worker Fe25519 Fe25519_Arith Fe25519_Bytes X25519 Sc25519 Sc25519_Arith Sc25519_Correct Ge25519 Ge25519_Law Ge25519_Mult Ge25519_Decode Ge25519_Base Ge25519_Base2 Ed25519 Ed25519_Correct Broker Broker_Life
begin

text \<open>
  A verification development for avtalk: the messenger library (\<open>mf*\<close>, written in C) and the parts of
  libsodium it runs on.  The build modelled is that of the solution file: Windows, \<open>size_t\<close> of 64 bits,
  \<open>long\<close> of 32 bits, the portable branches of libsodium.

  The program.  \<open>mfmemory\<close> gives reference-counted blocks, \<open>mflist\<close> doubly linked lists, \<open>mfthread\<close>
  threads with a reference-counted control object, \<open>mfcrypto\<close> a thin interface to libsodium.
  \<open>mfmessages\<close> builds messages (a 224-byte header and data) and encrypts and signs them in place;
  \<open>mfprotocol\<close> fills in the messages of the protocol.  \<open>mfbroker\<close> runs the connections: a server
  thread accepts them, worker threads poll them, receive messages, hand them to callbacks and send the
  queues that \<open>MFConnection_SendAsync\<close> fills.

  The theories, from the bottom up.
  \<^item> \<open>Prelude\<close>: byte strings, results with an error (\<open>Abort\<close> for a failed assertion, \<open>Undef\<close> for
    behaviour the C standard leaves undefined, \<open>Ret\<close> for a status), their bind, lemmas on words and
    lists.  \<open>QueueSpec\<close>, \<open>Streaming\<close>, \<open>StreamCipher\<close> and \<open>RefCounting\<close> hold the interfaces as locales: a
    queue of linked entries, a hash fed in pieces, a keystream, an object with counted references.
    Each is interpreted on the code's definitions in the theory that provides them.
  \<^item> \<open>MFList\<close> (\<open>mflist.c\<close>): entries are addresses in a store of links; a null pointer or a wild one is
    \<open>None\<close>.  The lemmas give insertion, removal and emptiness as operations on lists.
  \<^item> \<open>SodiumUtils\<close> (\<open>sodium/utils.c\<close>, \<open>common.h\<close>, \<open>verify.c\<close>), \<open>Salsa\<close>, \<open>ChaCha\<close>, \<open>Poly1305\<close>, \<open>Blake2b\<close>, \<open>Sha2\<close>,
    \<open>Sha256\<close>, \<open>Sha512\<close>, \<open>Secretbox\<close>, \<open>Box\<close>: the portable code of libsodium, words at their width, states as
    records.  \<open>Poly1305_Arith\<close> and \<open>Poly1305_Correct\<close> show that the 26-bit limbs compute the polynomial
    modulo \<open>2^130 - 5\<close>; \<open>Blake2b_Correct\<close>, \<open>Sha256\<close>, \<open>Sha512\<close> that hashing in pieces is hashing the whole.
  \<^item> \<open>Fe25519\<close> (\<open>ed25519_ref10_fe_25_5.h\<close>, \<open>fe.h\<close>, \<open>x25519_ref10.c\<close>): the field modulo \<open>2^255 - 19\<close> in ten signed
    32-bit limbs, and the Montgomery ladder.  \<open>Fe25519_Arith\<close> bounds every limb through every operation
    and gives its value, \<open>Fe25519_Bytes\<close> the canonical bytes, \<open>X25519\<close> the function of RFC 7748.
  \<^item> \<open>Sc25519\<close> (\<open>ed25519_ref10.c\<close>, the \<open>sc25519\<close> functions): scalars in limbs of 21 bits.  \<open>Sc25519_Arith\<close>
    bounds every limb through the carries and folds, \<open>Sc25519_Correct\<close> shows that reduction, product and
    product-sum are taken modulo the order \<open>L\<close> and come out below it.
  \<^item> \<open>Ge25519\<close> (\<open>ed25519_ref10.c\<close>, the \<open>ge25519\<close> functions): points of the Edwards curve in their four
    coordinate systems, decoding and encoding, additions, doublings and the multiplications by a scalar.
    \<open>Ge25519_Law\<close> shows that each addition gives the Edwards sum, \<open>Ge25519_Mult\<close> that the fixed and the
    sliding windows give the multiple, \<open>Ge25519_Decode\<close> that a decoded point is on the curve.
    \<open>Ge25519_Base\<close> and \<open>Ge25519_Base2\<close> hold the tables of \<open>base.h\<close> and \<open>base2.h\<close>, the selection of an entry
    and the check of the second table against the base point.
  \<^item> \<open>Ed25519\<close> (\<open>keypair.c\<close>, \<open>sign.c\<close>, \<open>open.c\<close>, \<open>sign_ed25519.c\<close>): keys, signatures, their verification and
    the prehashed forms; \<open>curve25519_implementation\<close> and \<open>ed25519_signer\<close> are the curve and the signer
    that \<open>Box\<close> and \<open>MFCrypto\<close> take as arguments.  \<open>Ed25519_Correct\<close> has the equation a signature satisfies
    and which inputs the verification refuses.
  \<^item> \<open>MFCrypto\<close> (\<open>mfcrypto.c\<close>), \<open>Memory\<close> (\<open>mfmemory.c\<close>), \<open>Messages\<close> (\<open>mfmessages.c\<close>), \<open>Protocol\<close>
    (\<open>mfprotocol.c\<close>), \<open>Thread\<close> (\<open>mfthread.c\<close>).  A heap maps addresses to counted blocks with their
    contents; the system's allocator is a parameter that may fail.  \<open>Thread\<close> also gives the
    interleavings of a thread's creator, the thread itself and the owner of its handle as a machine
    of atomic steps.
  \<^item> \<open>Network\<close>, \<open>Connections\<close>, \<open>Worker\<close> (\<open>mfbroker.c\<close>): sockets are a parameter (\<open>winsock\<close>) over a state
    of the network; \<open>recvData\<close> is a partial function, since its loop may not end.  The connections
    are slots of a store, with a queue of messages in the heap.  \<open>Worker\<close> has the steps of the two
    thread loops; callbacks are parameters that may change the whole world.
  \<^item> \<open>Broker\<close>, \<open>Broker_Life\<close> (\<open>mfbroker.c\<close>): creating a broker with its socket, its threads and its slots,
    undoing all of it when one step fails, and freeing it; the lemmas show that freeing restores the
    heaps.

  Bounds.  \<open>conn_release\<close> has a depth bound, two more than there are slots; a connection is never
  released again below its own release, so the bound is not reached (\<open>Connections\<close>).  All other loops
  are structural, have a termination proof or are partial functions.

  Not modelled.  The waiting of the thread loops, critical sections (\<open>mflock.c\<close> only calls Windows),
  the system's random generator, the Elligator and Ristretto maps, the processor-specific variants of libsodium and the parts of it
  the messenger does not call.  The media libraries (\<open>mfcap\<close>, \<open>mfplay\<close>, \<open>mfsession\<close>, \<open>mfstream\<close>, \<open>mfgen\<close>)
  are C++ over COM interfaces of the platform.

  Not shown.  That \<open>2^255 - 19\<close> is prime and that the points of the curve are a group: the theorems on the
  multiplications name a table of multiples that the Edwards sum steps through as a hypothesis, with a
  point of order four as the instance.  Of the signing table only the bounds of the limbs are checked.
\<close>

end
